(* ===== verification/Prelude.thy ===== *)
theory Prelude
  imports Complex_Main "HOL-Library.Word" "HOL-Library.Monad_Syntax"
begin

text \<open>
  Shared vocabulary of the development: the C integer types as words, the conversions
  between them, collections of rewrite rules used by the component theories, and the
  generic lemmas on words, maps and lists that several components need.
\<close>

unbundle bit_operations_syntax

named_theorems iperf_time_simps
  \<open>the arithmetic of timestamps read as microseconds\<close>
named_theorems heap_simps
  \<open>reading and writing the fields of heap objects\<close>

section \<open>C integer types\<close>

type_synonym u8 = "8 word"
type_synonym u32 = "32 word"
type_synonym u64 = "64 word"

text \<open>
  Values of type \<open>int\<close>, \<open>long\<close> and \<open>int64_t\<close> are kept as words where the program
  depends on their width; \<open>sint\<close> reads them. Conversion of a mathematical integer to
  \<open>int\<close> keeps its low 32 bits in two's complement.
\<close>

definition to_int32 :: "int \<Rightarrow> int" where
  "to_int32 x = sint (word_of_int x :: u32)"

lemma to_int32_id [simp]:
  assumes "-(2 ^ 31) \<le> x" "x < 2 ^ 31"
  shows "to_int32 x = x"
  using assms by (simp add: to_int32_def int_word_sint)

lemma to_int32_range: "-(2 ^ 31) \<le> to_int32 x \<and> to_int32 x < 2 ^ 31"
  using sint_range_size [of "word_of_int x :: u32"] by (simp add: to_int32_def word_size)

text \<open>Conversion of an \<open>int\<close> to \<open>size_t\<close>: a negative number becomes a huge one.\<close>

definition c_size_t :: "int \<Rightarrow> nat" where
  "c_size_t i = unat (word_of_int i :: u64)"

lemma c_size_t_nonneg [simp]: "0 \<le> i \<Longrightarrow> i < 2 ^ 64 \<Longrightarrow> c_size_t i = nat i"
  unfolding c_size_t_def unat_eq_nat_uint uint_word_of_int by simp

text \<open>C division and remainder truncate towards zero.\<close>

definition c_div :: "int \<Rightarrow> int \<Rightarrow> int" where
  "c_div a b = sgn a * sgn b * (\<bar>a\<bar> div \<bar>b\<bar>)"

definition c_mod :: "int \<Rightarrow> int \<Rightarrow> int" where
  "c_mod a b = a - b * c_div a b"

lemma c_div_nonneg [simp]: "0 \<le> a \<Longrightarrow> 0 < b \<Longrightarrow> c_div a b = a div b"
  by (cases "a = 0") (simp_all add: c_div_def)

lemma c_mod_nonneg [simp]: "0 \<le> a \<Longrightarrow> 0 < b \<Longrightarrow> c_mod a b = a mod b"
  by (simp add: c_mod_def minus_mult_div_eq_mod)

section \<open>Words and naturals\<close>

lemma unat_ucast_mod: "unat (ucast (w :: 'a::len word) :: 'b::len word) = unat w mod 2 ^ LENGTH('b)"
  by (simp add: unsigned_ucast_eq take_bit_eq_mod)

lemma unat_ucast_up32 [simp]: "unat (ucast (w :: u32) :: u64) = unat w"
proof -
  have "unat w < 2 ^ 32" using unsigned_less [of w] by simp
  then show ?thesis by (simp add: unat_ucast_mod)
qed

lemma unat_add_mod: "unat ((a :: 'a::len word) + b) = (unat a + unat b) mod 2 ^ LENGTH('a)"
  by (simp add: unat_word_ariths)

lemma unat_less_2p: "unat (a :: 'a::len word) < 2 ^ LENGTH('a)"
  by (rule unsigned_less)

section \<open>Lists\<close>

lemma takeWhile_Cons_split:
  "takeWhile P (x # xs) @ y # dropWhile P (x # xs) =
     (if P x then x # takeWhile P xs @ y # dropWhile P xs else y # x # xs)"
  by simp

lemma last_Cons_eq: "last (x # xs) = (if xs = [] then x else last xs)"
  by simp

lemma distinct_insert_mid:
  "distinct (xs @ y # zs) \<longleftrightarrow> distinct (xs @ zs) \<and> y \<notin> set xs \<and> y \<notin> set zs"
  by auto

text \<open>Insertion behind every element whose key is not larger.\<close>

definition ins_by :: "('a \<Rightarrow> nat) \<Rightarrow> 'a \<Rightarrow> 'a list \<Rightarrow> 'a list" where
  "ins_by k t xs = takeWhile (\<lambda>a. k a \<le> k t) xs @ t # dropWhile (\<lambda>a. k a \<le> k t) xs"

lemma ins_by_simps:
  "ins_by k t [] = [t]"
  "ins_by k t (x # xs) = (if k x \<le> k t then x # ins_by k t xs else t # x # xs)"
  by (simp_all add: ins_by_def)

lemma set_ins_by [simp]: "set (ins_by k t xs) = insert t (set xs)"
  by (induction xs) (auto simp: ins_by_simps)

lemma length_ins_by [simp]: "length (ins_by k t xs) = Suc (length xs)"
  by (induction xs) (auto simp: ins_by_simps)

lemma distinct_ins_by [simp]: "distinct (ins_by k t xs) \<longleftrightarrow> distinct xs \<and> t \<notin> set xs"
  by (induction xs) (auto simp: ins_by_simps)

lemma sorted_ins_by: "sorted (map k xs) \<Longrightarrow> sorted (map k (ins_by k t xs))"
  by (induction xs) (auto simp: ins_by_simps)

lemma ins_by_cong:
  "(\<And>a. a \<in> insert t (set xs) \<Longrightarrow> k a = k' a) \<Longrightarrow> ins_by k t xs = ins_by k' t xs"
  by (induction xs) (auto simp: ins_by_simps)

lemma ins_by_Nil_neq [simp]: "ins_by k t xs \<noteq> []"
  by (simp add: ins_by_def)

end
