(* ===== verification/C_Double.thy ===== *)
theory C_Double
  imports Prelude "HOL-Library.Log_Nat"
begin

text \<open>
  The C type \<open>double\<close>. A finite double is the rational number it stands for, and every
  arithmetic operation rounds its exact result to the nearest number with a 53-bit
  significand, ties to even (\<open>rnd\<close>), which is the IEEE 754 default rounding. Infinities,
  NaN and the limited exponent range are not represented: the program's quantities are
  counters below \<open>2^64\<close>, seconds below \<open>2^32\<close> and quotients of these. \<open>rnd\<close> is executable;
  the lemmas say that it is monotone, sign preserving, exact on 53-bit integers and has the
  usual relative error.
\<close>

section \<open>Rounding\<close>

text \<open>Nearest integer, ties to even.\<close>

definition rhe :: "rat \<Rightarrow> int" where
  "rhe y = (let f = \<lfloor>y\<rfloor>; r = y - of_int f in
     if r < 1 / 2 then f else if 1 / 2 < r then f + 1 else if even f then f else f + 1)"

text \<open>The exponent that scales a positive number to a 53-bit significand.\<close>

definition dexp :: "rat \<Rightarrow> int" where
  "dexp x = (let (p, q) = quotient_of x; e = bitlen p - bitlen q - 53 in
     if 2 ^ 53 \<le> x / 2 powi e then e + 1 else e)"

definition rnd_pos :: "rat \<Rightarrow> rat" where
  "rnd_pos x = of_int (rhe (x / 2 powi dexp x)) * 2 powi dexp x"

definition rnd :: "rat \<Rightarrow> rat" where
  "rnd x = (if x = 0 then 0 else if 0 < x then rnd_pos x else - rnd_pos (- x))"

section \<open>Arithmetic\<close>

definition dadd :: "rat \<Rightarrow> rat \<Rightarrow> rat" where "dadd x y = rnd (x + y)"
definition dsub :: "rat \<Rightarrow> rat \<Rightarrow> rat" where "dsub x y = rnd (x - y)"
definition dmul :: "rat \<Rightarrow> rat \<Rightarrow> rat" where "dmul x y = rnd (x * y)"
definition ddiv :: "rat \<Rightarrow> rat \<Rightarrow> rat" where "ddiv x y = rnd (x / y)"

lemmas double_defs = dadd_def dsub_def dmul_def ddiv_def

text \<open>Conversions from and to integers; the conversion to an integer truncates.\<close>

definition d_of_int :: "int \<Rightarrow> rat" where "d_of_int i = rnd (of_int i)"

definition d_to_int :: "rat \<Rightarrow> int" where "d_to_int x = (if 0 \<le> x then \<lfloor>x\<rfloor> else \<lceil>x\<rceil>)"

section \<open>Rounding to integers\<close>

lemma rhe_bounds: "of_int (rhe y) \<le> y + 1 / 2" "y - 1 / 2 \<le> of_int (rhe y)"
proof -
  define f where "f = \<lfloor>y\<rfloor>"
  have "of_int f \<le> y" "y < of_int f + 1" using floor_correct [of y] by (auto simp: f_def)
  then show "of_int (rhe y) \<le> y + 1 / 2" "y - 1 / 2 \<le> of_int (rhe y)"
    unfolding rhe_def Let_def f_def [symmetric] by (auto simp: field_simps)
qed

lemma rhe_int [simp]: "rhe (of_int n) = n"
  by (simp add: rhe_def)

lemma rhe_cases: "rhe y = \<lfloor>y\<rfloor> \<or> rhe y = \<lfloor>y\<rfloor> + 1"
  by (simp add: rhe_def Let_def)

lemma rhe_mono:
  assumes "x \<le> y"
  shows "rhe x \<le> rhe y"
proof (cases "\<lfloor>x\<rfloor> = \<lfloor>y\<rfloor>")
  case True
  then show ?thesis using assms by (auto simp: rhe_def Let_def)
next
  case False
  then have "\<lfloor>x\<rfloor> + 1 \<le> \<lfloor>y\<rfloor>" using floor_mono [OF assms] by simp
  then show ?thesis using rhe_cases [of x] rhe_cases [of y] by linarith
qed

lemma rhe_within: "of_int a \<le> y \<Longrightarrow> y \<le> of_int b \<Longrightarrow> a \<le> rhe y \<and> rhe y \<le> b"
  by (metis rhe_int rhe_mono)

section \<open>The exponent\<close>

lemma dexp_scaled:
  assumes "0 < x"
  shows "2 ^ 52 \<le> x / 2 powi dexp x" "x / 2 powi dexp x < 2 ^ 53"
proof -
  obtain p q where pq: "quotient_of x = (p, q)" by force
  have q: "0 < q" using quotient_of_denom_pos [OF pq] .
  have x: "x = of_int p / of_int q" using quotient_of_div [OF pq] .
  have p: "0 < p" using assms q unfolding x by (simp add: zero_less_divide_iff)
  let ?e = "bitlen p - bitlen q - 53"
  have bp: "2 ^ nat (bitlen p - 1) \<le> p" "p < 2 ^ nat (bitlen p)"
    and bq: "2 ^ nat (bitlen q - 1) \<le> q" "q < 2 ^ nat (bitlen q)"
    using bitlen_bounds [OF p] bitlen_bounds [OF q] by auto
  have pos: "0 < bitlen p" "0 < bitlen q"
    using p q bitlen_nonneg bitlen_eq_zero_iff by (metis less_le_not_le order_le_less)+
  have P: "(2 :: rat) powi (bitlen p - 1) \<le> of_int p" "of_int p < (2 :: rat) powi bitlen p"
    using bp pos by (simp_all add: power_int_def)
  have Q: "(2 :: rat) powi (bitlen q - 1) \<le> of_int q" "of_int q < (2 :: rat) powi bitlen q"
    using bq pos by (simp_all add: power_int_def)
  have lo: "2 ^ 52 \<le> x / 2 powi ?e"
  proof -
    have "(2 :: rat) powi (bitlen p - 1) / 2 powi bitlen q \<le> x"
      unfolding x using P Q p q by (intro frac_le) (auto simp: less_imp_le)
    then show ?thesis
      by (simp add: power_int_diff divide_simps mult_ac)
  qed
  have hi: "x / 2 powi ?e < 2 ^ 54"
  proof -
    have "x < (2 :: rat) powi bitlen p / 2 powi (bitlen q - 1)"
      unfolding x using P Q p by (intro frac_less) auto
    then show ?thesis
      by (simp add: power_int_diff divide_simps mult_ac)
  qed
  have d: "dexp x = (if 2 ^ 53 \<le> x / 2 powi ?e then ?e + 1 else ?e)"
    by (simp add: dexp_def pq Let_def)
  have half: "x / 2 powi (?e + 1) = x / 2 powi ?e / 2"
    by (subst power_int_add_1) simp_all
  show "2 ^ 52 \<le> x / 2 powi dexp x"
    using lo unfolding d by (cases "2 ^ 53 \<le> x / 2 powi ?e") (simp_all only: half if_True if_False, simp_all)
  show "x / 2 powi dexp x < 2 ^ 53"
    using hi unfolding d by (cases "2 ^ 53 \<le> x / 2 powi ?e") (simp_all only: half if_True if_False, simp_all)
qed

lemma dexp_scaled':
  assumes "0 < x"
  shows "2 powi (52 + dexp x) \<le> x" "x < 2 powi (53 + dexp x)"
  using dexp_scaled [OF assms] by (simp_all add: power_int_add field_simps)

lemma dexp_mono: "0 < x \<Longrightarrow> x \<le> y \<Longrightarrow> dexp x \<le> dexp y"
proof (rule ccontr)
  assume x: "0 < x" "x \<le> y" and "\<not> dexp x \<le> dexp y"
  then have "(2::rat) powi (53 + dexp y) \<le> 2 powi (52 + dexp x)"
    by (intro power_int_increasing) auto
  then show False using dexp_scaled' [of x] dexp_scaled' [of y] x by linarith
qed

lemma dexp_unique:
  assumes "2 powi (52 + e) \<le> x" "x < 2 powi (53 + e)"
  shows "dexp x = e"
proof (rule ccontr)
  have x: "0 < x" using assms(1) by (rule order_less_le_trans [rotated]) simp
  assume "dexp x \<noteq> e"
  then have "(2::rat) powi (53 + e) \<le> 2 powi (52 + dexp x) \<or> (2::rat) powi (53 + dexp x) \<le> 2 powi (52 + e)"
    by (cases "e < dexp x") (auto intro: power_int_increasing)
  then show False using dexp_scaled' [OF x] assms by linarith
qed

section \<open>Rounding of positive numbers\<close>

lemma rnd_pos_bounds:
  assumes "0 < x"
  shows "2 powi (52 + dexp x) \<le> rnd_pos x" "rnd_pos x \<le> 2 powi (53 + dexp x)"
proof -
  have "2 ^ 52 \<le> rhe (x / 2 powi dexp x) \<and> rhe (x / 2 powi dexp x) \<le> 2 ^ 53"
    using dexp_scaled [OF assms] by (intro rhe_within) auto
  then have "of_int (2 ^ 52) \<le> (of_int (rhe (x / 2 powi dexp x)) :: rat)"
      "of_int (rhe (x / 2 powi dexp x)) \<le> (of_int (2 ^ 53) :: rat)"
    by (simp_all only: of_int_le_iff)
  then show "2 powi (52 + dexp x) \<le> rnd_pos x" "rnd_pos x \<le> 2 powi (53 + dexp x)"
    by (simp_all add: rnd_pos_def power_int_add)
qed

lemma rnd_pos_pos: "0 < x \<Longrightarrow> 0 < rnd_pos x"
  using rnd_pos_bounds(1) [of x] by (rule order_less_le_trans [rotated]) simp_all

lemma rnd_pos_mono:
  assumes "0 < x" "x \<le> y"
  shows "rnd_pos x \<le> rnd_pos y"
proof (cases "dexp x = dexp y")
  case True
  have "rhe (x / 2 powi dexp y) \<le> rhe (y / 2 powi dexp y)"
    using assms by (intro rhe_mono divide_right_mono) auto
  then show ?thesis by (simp add: rnd_pos_def True)
next
  case False
  then have "dexp x < dexp y" using dexp_mono [OF assms] by simp
  then have "(2::rat) powi (53 + dexp x) \<le> 2 powi (52 + dexp y)"
    by (intro power_int_increasing) auto
  then show ?thesis using rnd_pos_bounds [of x] rnd_pos_bounds [of y] assms by linarith
qed

lemma rnd_pos_error:
  assumes "0 < x"
  shows "\<bar>rnd_pos x - x\<bar> \<le> x / 2 ^ 53"
proof -
  let ?u = "2 powi dexp x :: rat" and ?y = "x / 2 powi dexp x"
  have x: "x = ?y * ?u" by simp
  have "\<bar>of_int (rhe ?y) - ?y\<bar> \<le> 1 / 2"
    using rhe_bounds [of ?y] unfolding abs_le_iff by linarith
  then have "\<bar>of_int (rhe ?y) - ?y\<bar> * ?u \<le> 1 / 2 * ?u"
    by (intro mult_right_mono) auto
  moreover have "rnd_pos x - x = (of_int (rhe ?y) - ?y) * ?u"
    by (simp add: rnd_pos_def left_diff_distrib)
  ultimately have "\<bar>rnd_pos x - x\<bar> \<le> ?u / 2"
    by (simp only: abs_mult) simp
  also have "\<dots> \<le> x / 2 ^ 53"
    using dexp_scaled'(1) [OF assms] by (simp add: power_int_add field_simps)
  finally show ?thesis .
qed

text \<open>Numbers with a 53-bit significand are their own rounding.\<close>

lemma rnd_pos_exact:
  assumes "0 < m" "m \<le> 2 ^ 53"
  shows "rnd_pos (of_int m * 2 powi e) = of_int m * 2 powi e"
proof -
  let ?x = "of_int m * 2 powi e :: rat" and ?d = "dexp (of_int m * 2 powi e :: rat)"
  have pos: "0 < ?x" using assms by simp
  have "of_int m \<le> (of_int (2 ^ 53) :: rat)"
    using assms(2) by (simp only: of_int_le_iff)
  then have le: "?x \<le> 2 powi (53 + e)"
    by (simp add: power_int_add)
  show ?thesis
  proof (cases "?d \<le> e")
    case True
    then have "?x / 2 powi ?d = of_int (m * 2 ^ nat (e - ?d))"
      by (simp add: power_int_diff [symmetric] power_int_nonneg_exp [symmetric] flip: times_divide_eq_right)
    then show ?thesis unfolding rnd_pos_def by (metis nonzero_eq_divide_eq power_int_eq_0_iff rhe_int zero_neq_numeral)
  next
    case False
    then have "(2::rat) powi (53 + e) \<le> 2 powi (52 + ?d)"
      by (intro power_int_increasing) auto
    then have "?x = 2 powi (52 + ?d)" using le dexp_scaled'(1) [OF pos] by linarith
    then have "?x / 2 powi ?d = 2 powi (52 + ?d) / 2 powi ?d" by (rule arg_cong)
    then have "?x / 2 powi ?d = of_int (2 ^ 52)" by (simp add: power_int_add)
    then show ?thesis unfolding rnd_pos_def by (metis nonzero_eq_divide_eq power_int_eq_0_iff rhe_int zero_neq_numeral)
  qed
qed

lemma rnd_pos_idem:
  assumes "0 < x"
  shows "rnd_pos (rnd_pos x) = rnd_pos x"
proof -
  have "2 ^ 52 \<le> rhe (x / 2 powi dexp x) \<and> rhe (x / 2 powi dexp x) \<le> 2 ^ 53"
    using dexp_scaled [OF assms] by (intro rhe_within) auto
  then show ?thesis
    using rnd_pos_exact [of "rhe (x / 2 powi dexp x)" "dexp x"] by (simp add: rnd_pos_def [of x])
qed

section \<open>Rounding\<close>

lemma rnd_0 [simp]: "rnd 0 = 0"
  by (simp add: rnd_def)

lemma rnd_minus: "rnd (- x) = - rnd x"
  by (auto simp: rnd_def)

lemma rnd_mono: "x \<le> y \<Longrightarrow> rnd x \<le> rnd y"
  using rnd_pos_mono [of x y] rnd_pos_mono [of "- y" "- x"] rnd_pos_pos [of y] rnd_pos_pos [of "- x"]
  by (auto simp: rnd_def)

lemma rnd_nonneg [simp]: "0 \<le> x \<Longrightarrow> 0 \<le> rnd x"
  using rnd_mono [of 0 x] by simp

lemma rnd_pos_iff [simp]: "0 < rnd x \<longleftrightarrow> 0 < x"
  using rnd_pos_pos [of x] rnd_pos_pos [of "- x"] by (auto simp: rnd_def)

lemma rnd_eq_0 [simp]: "rnd x = 0 \<longleftrightarrow> x = 0"
  using rnd_pos_pos [of x] rnd_pos_pos [of "- x"] by (auto simp: rnd_def)

lemma rnd_error: "\<bar>rnd x - x\<bar> \<le> \<bar>x\<bar> / 2 ^ 53"
proof (cases "0 \<le> x")
  case True
  then show ?thesis using rnd_pos_error [of x] by (auto simp: rnd_def)
next
  case False
  then have "\<bar>rnd x - x\<bar> = \<bar>rnd_pos (- x) - - x\<bar>" by (simp add: rnd_def)
  then show ?thesis using rnd_pos_error [of "- x"] False by simp
qed

lemma rnd_idem [simp]: "rnd (rnd x) = rnd x"
  using rnd_pos_idem [of x] rnd_pos_idem [of "- x"] rnd_pos_pos [of x] rnd_pos_pos [of "- x"]
  by (auto simp: rnd_def)

lemma rnd_scaled:
  assumes "\<bar>m\<bar> \<le> 2 ^ 53"
  shows "rnd (of_int m * 2 powi e) = of_int m * 2 powi e"
proof -
  have "0 < m \<Longrightarrow> rnd_pos (of_int m * 2 powi e) = of_int m * 2 powi e"
    using assms by (intro rnd_pos_exact) auto
  moreover have "m < 0 \<Longrightarrow> rnd_pos (- (of_int m * 2 powi e)) = - (of_int m * 2 powi e)"
    using assms rnd_pos_exact [of "- m" e] by auto
  moreover have "\<not> (2 :: rat) powi e < 0" by (simp add: not_less)
  ultimately show ?thesis
    by (cases "m = 0") (auto simp: rnd_def zero_less_mult_iff)
qed

lemma rnd_int [simp]: "\<bar>m\<bar> \<le> 2 ^ 53 \<Longrightarrow> rnd (of_int m) = of_int m"
  using rnd_scaled [of m 0] by simp

lemma rnd_numeral [simp]: "numeral k \<le> (2 ^ 53 :: int) \<Longrightarrow> rnd (numeral k) = numeral k"
  using rnd_int [of "numeral k"] by simp

lemma rnd_one [simp]: "rnd 1 = 1"
  using rnd_int [of 1] by simp

lemma d_of_int_id: "\<bar>i\<bar> \<le> 2 ^ 53 \<Longrightarrow> d_of_int i = of_int i"
  by (simp add: d_of_int_def)

lemma d_of_int_mono: "i \<le> j \<Longrightarrow> d_of_int i \<le> d_of_int j"
  by (simp add: d_of_int_def rnd_mono)

lemma d_of_int_nonneg [simp]: "0 \<le> i \<Longrightarrow> 0 \<le> d_of_int i"
  by (simp add: d_of_int_def)

text \<open>Bounds by representable numbers survive rounding.\<close>

lemma rnd_le: "x \<le> y \<Longrightarrow> rnd y = y \<Longrightarrow> rnd x \<le> y"
  using rnd_mono [of x y] by simp

lemma rnd_ge: "y \<le> x \<Longrightarrow> rnd y = y \<Longrightarrow> y \<le> rnd x"
  using rnd_mono [of y x] by simp

end
