(* ===== verification/Iperf_Time.thy ===== *)
theory Iperf_Time
  imports C_Double
begin

text \<open>
  Timestamps (\<open>iperf_time.c\<close>). \<open>struct iperf_time\<close> is a record of two 32-bit unsigned
  fields; every operation keeps the C widths, so wrap-around of the seconds is visible.
  A timestamp is read as a number of microseconds by \<open>time_us\<close>; \<open>time_ok\<close> is the
  well-formedness invariant that the microseconds are below one million.
\<close>

section \<open>The code\<close>

record iperf_time =
  secs :: u32
  usecs :: u32

text \<open>
  \<open>clock_gettime\<close> is the operating system: its return value and the two fields of the
  \<open>timespec\<close> it fills are the first argument. The cast \<open>(uint32_t) ts.tv_nsec / 1000\<close>
  converts before it divides.
\<close>

definition iperf_time_now :: "int \<times> int \<times> int \<Rightarrow> iperf_time \<Rightarrow> int \<times> iperf_time" where
  "iperf_time_now clk time1 =
     (case clk of (result, tv_sec, tv_nsec) \<Rightarrow>
        if result = 0
        then (result, time1\<lparr>secs := word_of_int tv_sec, usecs := word_of_int tv_nsec div 1000\<rparr>)
        else (result, time1))"

definition iperf_time_add_usecs :: "iperf_time \<Rightarrow> u64 \<Rightarrow> iperf_time" where
  "iperf_time_add_usecs time1 us =
     (let s = secs time1 + ucast (us div 1000000);
          u = usecs time1 + ucast (us mod 1000000)
      in if 1000000 \<le> u
         then time1\<lparr>secs := s + u div 1000000, usecs := u mod 1000000\<rparr>
         else time1\<lparr>secs := s, usecs := u\<rparr>)"

definition iperf_time_in_usecs :: "iperf_time \<Rightarrow> u64" where
  "iperf_time_in_usecs t = ucast (secs t) * 1000000 + ucast (usecs t)"

text \<open>Both fields are converted exactly; the division and the sum are rounded.\<close>

definition iperf_time_in_secs :: "iperf_time \<Rightarrow> rat" where
  "iperf_time_in_secs t = dadd (d_of_int (uint (secs t))) (ddiv (d_of_int (uint (usecs t))) 1000000)"

definition iperf_time_compare :: "iperf_time \<Rightarrow> iperf_time \<Rightarrow> int" where
  "iperf_time_compare time1 time2 =
     (if secs time1 < secs time2 then -1
      else if secs time1 > secs time2 then 1
      else if usecs time1 < usecs time2 then -1
      else if usecs time1 > usecs time2 then 1
      else 0)"

text \<open>The pair returned is the value of the function and what it stores through \<open>diff\<close>.\<close>

definition iperf_time_diff :: "iperf_time \<Rightarrow> iperf_time \<Rightarrow> int \<times> iperf_time" where
  "iperf_time_diff time1 time2 =
     (let cmp = iperf_time_compare time1 time2 in
      if cmp = 0 then (1, \<lparr>secs = 0, usecs = 0\<rparr>)
      else if cmp = 1 then
        (let s = secs time1 - secs time2; u = usecs time1 in
         if u < usecs time2
         then (0, \<lparr>secs = s - 1, usecs = u + 1000000 - usecs time2\<rparr>)
         else (0, \<lparr>secs = s, usecs = u - usecs time2\<rparr>))
      else
        (let s = secs time2 - secs time1; u = usecs time2 in
         if u < usecs time1
         then (1, \<lparr>secs = s - 1, usecs = u + 1000000 - usecs time1\<rparr>)
         else (1, \<lparr>secs = s, usecs = u - usecs time1\<rparr>)))"

section \<open>Timestamps as microseconds\<close>

definition time_us :: "iperf_time \<Rightarrow> nat" where
  "time_us t = unat (secs t) * 1000000 + unat (usecs t)"

definition time_ok :: "iperf_time \<Rightarrow> bool" where
  "time_ok t \<longleftrightarrow> usecs t < 1000000"

abbreviation (input) time_range :: nat where
  "time_range \<equiv> 2 ^ 32 * 1000000"

lemma time_ok_unat: "time_ok t \<longleftrightarrow> unat (usecs t) < 1000000"
  by (simp add: time_ok_def word_less_nat_alt)

lemma time_us_div [iperf_time_simps]: "time_ok t \<Longrightarrow> time_us t div 1000000 = unat (secs t)"
  by (simp add: time_us_def time_ok_unat)

lemma time_us_mod [iperf_time_simps]: "time_ok t \<Longrightarrow> time_us t mod 1000000 = unat (usecs t)"
  by (simp add: time_us_def time_ok_unat)

lemma time_us_inject: "time_ok s \<Longrightarrow> time_ok t \<Longrightarrow> time_us s = time_us t \<Longrightarrow> s = t"
  by (metis time_us_div time_us_mod word_unat_eq_iff iperf_time.equality old.unit.exhaust)

lemma time_us_less: "time_ok t \<Longrightarrow> time_us t < time_range"
  using unat_less_2p [of "secs t"] by (simp add: time_us_def time_ok_unat)

lemma time_us_less_iff:
  assumes "time_ok s" "time_ok t"
  shows "time_us s < time_us t \<longleftrightarrow> secs s < secs t \<or> secs s = secs t \<and> usecs s < usecs t"
  using assms by (auto simp: time_us_def time_ok_unat word_less_nat_alt word_unat_eq_iff)

section \<open>Correctness\<close>

lemma in_usecs_unat: "unat (iperf_time_in_usecs t) = time_us t"
proof -
  have "unat (secs t) < 2 ^ 32" "unat (usecs t) < 2 ^ 32"
    using unat_less_2p [of "secs t"] unat_less_2p [of "usecs t"] by simp_all
  then show ?thesis
    by (simp add: iperf_time_in_usecs_def time_us_def unat_word_ariths)
qed

lemma compare_cases:
  assumes "time_ok s" "time_ok t"
  shows "iperf_time_compare s t = -1 \<longleftrightarrow> time_us s < time_us t"
    and "iperf_time_compare s t = 1 \<longleftrightarrow> time_us t < time_us s"
    and "iperf_time_compare s t = 0 \<longleftrightarrow> s = t"
  using assms
  by (auto simp: iperf_time_compare_def time_us_less_iff)

lemma compare_neg [iperf_time_simps]:
  assumes "time_ok s" "time_ok t"
  shows "iperf_time_compare s t < 0 \<longleftrightarrow> time_us s < time_us t"
  using assms by (auto simp: iperf_time_compare_def time_us_less_iff)

lemma compare_pos [iperf_time_simps]:
  assumes "time_ok s" "time_ok t"
  shows "0 < iperf_time_compare s t \<longleftrightarrow> time_us t < time_us s"
  using assms by (auto simp: iperf_time_compare_def time_us_less_iff)

text \<open>Adding microseconds: one carry suffices, because both summands are below a million.\<close>

lemma add_usecs_carry:
  assumes "time_ok t"
  shows "unat (usecs t + ucast ((us :: u64) mod 1000000)) = unat (usecs t) + unat us mod 1000000"
proof -
  have "unat us mod 1000000 < 1000000" by simp
  with assms show ?thesis
    by (simp add: time_ok_unat unat_word_ariths unat_ucast_mod unat_mod)
qed

lemma add_usecs_secs:
  "unat (secs t + ucast ((us :: u64) div 1000000)) = (unat (secs t) + unat us div 1000000) mod 2 ^ 32"
proof -
  have "unat us div 1000000 < 2 ^ 64"
    using unat_less_2p [of us] div_le_dividend [of "unat us" 1000000] by simp
  then show ?thesis
    by (simp add: unat_word_ariths unat_ucast_mod unat_div mod_simps)
qed

lemma time_ok_add_usecs [simp]: "time_ok t \<Longrightarrow> time_ok (iperf_time_add_usecs t us)"
  using add_usecs_carry [of t us]
  by (auto simp: iperf_time_add_usecs_def time_ok_unat Let_def word_le_nat_alt unat_mod)

lemma mod_time_range:
  "(a mod 2 ^ 32) * 1000000 + (b :: nat) = (a * 1000000 + b) mod time_range" if "b < 1000000"
proof -
  have "a * 1000000 mod time_range = (a mod 2 ^ 32) * 1000000"
    by (rule mod_mult_mult2)
  then have "(a * 1000000 + b) mod time_range = ((a mod 2 ^ 32) * 1000000 + b) mod time_range"
    by (metis mod_add_left_eq)
  moreover have "(a mod 2 ^ 32) * 1000000 + b < time_range"
  proof -
    have "a mod 2 ^ 32 < 2 ^ 32" by simp
    with that show ?thesis by simp
  qed
  ultimately show ?thesis by simp
qed

lemma time_us_add_usecs_mod:
  assumes ok: "time_ok t"
  shows "time_us (iperf_time_add_usecs t us) = (time_us t + unat us) mod time_range"
proof -
  let ?u = "unat (usecs t) + unat us mod 1000000"
  let ?s = "unat (secs t) + unat us div 1000000"
  have split: "time_us t + unat us = ?s * 1000000 + ?u"
    by (simp add: time_us_def algebra_simps)
  have u: "?u < 2000000"
  proof -
    have "unat us mod 1000000 < 1000000" by simp
    with ok show ?thesis by (simp add: time_ok_unat)
  qed
  show ?thesis
  proof (cases "1000000 \<le> ?u")
    case True
    with u have q: "?u div 1000000 = 1" and r: "?u mod 1000000 = ?u - 1000000"
      by (simp_all add: le_mod_geq)
    have "time_us (iperf_time_add_usecs t us) = ((?s + 1) mod 2 ^ 32) * 1000000 + (?u - 1000000)"
      using True q r
      by (simp add: iperf_time_add_usecs_def Let_def time_us_def word_le_nat_alt add_usecs_carry [OF ok]
          unat_add_mod unat_div unat_mod add_usecs_secs [unfolded unat_add_mod] mod_simps unat_ucast_mod)
    also have "\<dots> = ((?s + 1) * 1000000 + (?u - 1000000)) mod time_range"
      using u by (intro mod_time_range) simp
    also have "(?s + 1) * 1000000 + (?u - 1000000) = time_us t + unat us"
      using True unfolding split by simp
    finally show ?thesis .
  next
    case False
    then have "time_us (iperf_time_add_usecs t us) = (?s mod 2 ^ 32) * 1000000 + ?u"
      using add_usecs_secs [of t us]
      by (simp add: iperf_time_add_usecs_def Let_def time_us_def word_le_nat_alt add_usecs_carry [OF ok])
    also have "\<dots> = (?s * 1000000 + ?u) mod time_range"
      using False by (intro mod_time_range) simp
    finally show ?thesis unfolding split .
  qed
qed

lemma time_us_add_usecs [iperf_time_simps]:
  assumes "time_ok t" "time_us t + unat us < time_range"
  shows "time_us (iperf_time_add_usecs t us) = time_us t + unat us"
  using assms by (simp add: time_us_add_usecs_mod)

text \<open>The difference of two timestamps, when the first is later by at least one tick.\<close>

lemma sub_borrow:
  fixes t :: iperf_time
  assumes ok: "time_ok s" "time_ok t" and lt: "time_us t < time_us s"
    and bor: "usecs s < usecs t"
  defines "d \<equiv> \<lparr>secs = secs s - secs t - 1, usecs = usecs s + 1000000 - usecs t\<rparr>"
  shows "time_ok d \<and> time_us d = time_us s - time_us t"
proof -
  have s: "unat (secs t) < unat (secs s)"
    using lt bor ok by (auto simp: time_us_less_iff word_less_nat_alt word_unat_eq_iff)
  then have "1 \<le> secs s - secs t" and le: "secs t \<le> secs s"
    by (simp_all add: word_le_nat_alt unat_sub_if')
  then have sd: "unat (secs s - secs t - 1) = unat (secs s) - unat (secs t) - 1"
    using s by (simp add: unat_sub word_le_nat_alt unat_sub_if')
  have ub: "unat (usecs s) < unat (usecs t)" "unat (usecs t) < 1000000"
    using bor ok by (simp_all add: word_less_nat_alt time_ok_unat)
  then have up: "unat (usecs s + 1000000) = unat (usecs s) + 1000000"
    by (simp add: unat_word_ariths)
  have ud: "unat (usecs s + 1000000 - usecs t) = unat (usecs s) + 1000000 - unat (usecs t)"
    using ub by (simp add: unat_sub_if' up)
  show ?thesis
    unfolding d_def time_ok_unat time_us_def using s ub
    by (simp add: sd ud) (simp add: diff_mult_distrib)
qed

lemma sub_no_borrow:
  fixes t :: iperf_time
  assumes ok: "time_ok s" "time_ok t" and lt: "time_us t < time_us s"
    and nob: "\<not> usecs s < usecs t"
  defines "d \<equiv> \<lparr>secs = secs s - secs t, usecs = usecs s - usecs t\<rparr>"
  shows "time_ok d \<and> time_us d = time_us s - time_us t"
proof -
  have s: "unat (secs t) \<le> unat (secs s)" and u: "unat (usecs t) \<le> unat (usecs s)"
    using lt nob ok by (auto simp: time_us_less_iff word_less_nat_alt)
  then show ?thesis
    unfolding d_def time_ok_unat time_us_def using ok(1)[unfolded time_ok_unat]
    by (simp add: unat_sub word_le_nat_alt diff_mult_distrib)
qed

lemma diff_later:
  assumes "time_ok s" "time_ok t" "time_us t < time_us s"
  shows "\<exists>d. iperf_time_diff s t = (0, d) \<and> time_ok d \<and> time_us d = time_us s - time_us t"
  using sub_borrow [OF assms] sub_no_borrow [OF assms] compare_cases(2) [OF assms(1,2)] assms(3)
  by (auto simp: iperf_time_diff_def Let_def)

lemma diff_earlier:
  assumes "time_ok s" "time_ok t" "time_us s < time_us t"
  shows "\<exists>d. iperf_time_diff s t = (1, d) \<and> time_ok d \<and> time_us d = time_us t - time_us s"
  using sub_borrow [OF assms(2,1,3)] sub_no_borrow [OF assms(2,1,3)]
    compare_cases(1) [OF assms(1,2)] assms(3)
  by (auto simp: iperf_time_diff_def Let_def)

lemma diff_same: "iperf_time_diff t t = (1, \<lparr>secs = 0, usecs = 0\<rparr>)"
  by (simp add: iperf_time_diff_def iperf_time_compare_def)

lemma time_us_zero [simp]: "time_us \<lparr>secs = 0, usecs = 0\<rparr> = 0" "time_ok \<lparr>secs = 0, usecs = 0\<rparr>"
  by (simp_all add: time_us_def time_ok_def)

lemma diff_spec:
  assumes "time_ok s" "time_ok t"
  obtains d where "iperf_time_diff s t = (if time_us s \<le> time_us t then 1 else 0, d)"
    and "time_ok d" and "int (time_us d) = \<bar>int (time_us s) - int (time_us t)\<bar>"
proof -
  consider "time_us t < time_us s" | "time_us s < time_us t" | "s = t"
    using assms time_us_inject by fastforce
  then show ?thesis
  proof cases
    case 1
    with diff_later [OF assms] that show ?thesis by fastforce
  next
    case 2
    with diff_earlier [OF assms] that show ?thesis by fastforce
  next
    case 3
    with that show ?thesis by (simp add: diff_same)
  qed
qed

section \<open>Seconds as a double\<close>

declare of_int_uint [simp del]

lemma d_of_int_u32: "d_of_int (uint (w :: u32)) = of_int (uint w)"
proof -
  have "uint w < 2 ^ 32" using uint_lt2p [of w] by simp
  then show ?thesis by (intro d_of_int_id) simp
qed

lemma in_secs_frac:
  assumes "time_ok t"
  shows "0 \<le> ddiv (d_of_int (uint (usecs t))) 1000000" "ddiv (d_of_int (uint (usecs t))) 1000000 \<le> 1"
proof -
  have "uint (usecs t) < 1000000" using assms by (simp add: time_ok_def word_less_def)
  then have "(of_int (uint (usecs t)) :: rat) \<le> of_int 1000000" by (simp only: of_int_le_iff)
  then show "0 \<le> ddiv (d_of_int (uint (usecs t))) 1000000" "ddiv (d_of_int (uint (usecs t))) 1000000 \<le> 1"
    unfolding ddiv_def d_of_int_u32 by (auto intro: rnd_le)
qed

lemma in_secs_nonneg [simp]: "time_ok t \<Longrightarrow> 0 \<le> iperf_time_in_secs t"
  using in_secs_frac(1) [of t] by (simp add: iperf_time_in_secs_def dadd_def)

lemma in_secs_mono:
  assumes "time_ok s" "time_ok t" "time_us s \<le> time_us t"
  shows "iperf_time_in_secs s \<le> iperf_time_in_secs t"
proof (cases "secs s = secs t")
  case True
  then have "uint (usecs s) \<le> uint (usecs t)"
    using assms(3) by (simp add: time_us_def word_le_nat_alt flip: word_le_def)
  then show ?thesis
    unfolding iperf_time_in_secs_def dadd_def ddiv_def True
    by (intro rnd_mono add_left_mono divide_right_mono d_of_int_mono) auto
next
  case False
  have "unat (secs s) < unat (secs t)"
    using assms False by (metis time_us_div div_le_mono order_le_less word_unat_eq_iff)
  then have "uint (secs s) + 1 \<le> uint (secs t)" unfolding uint_nat by linarith
  then have "(of_int (uint (secs s) + 1) :: rat) \<le> of_int (uint (secs t))" by (simp only: of_int_le_iff)
  then have "d_of_int (uint (secs s)) + 1 \<le> d_of_int (uint (secs t))" by (simp add: d_of_int_u32)
  then show ?thesis
    unfolding iperf_time_in_secs_def dadd_def
    using in_secs_frac [OF assms(1)] in_secs_frac [OF assms(2)] by (intro rnd_mono) linarith
qed

lemma in_secs_zero_iff:
  assumes "time_ok t"
  shows "iperf_time_in_secs t = 0 \<longleftrightarrow> time_us t = 0"
proof -
  obtain i j where ij: "i = uint (secs t)" "j = uint (usecs t)" "0 \<le> i" "0 \<le> j" by simp
  have fr: "0 \<le> ddiv (of_int j) 1000000" using ij by (simp add: ddiv_def)
  have "iperf_time_in_secs t = 0 \<longleftrightarrow> of_int i + ddiv (of_int j) 1000000 = 0"
    unfolding iperf_time_in_secs_def dadd_def d_of_int_u32 ij(1,2) by simp
  also have "\<dots> \<longleftrightarrow> i = 0 \<and> j = 0"
    using ij fr by (subst add_nonneg_eq_0_iff) (auto simp: ddiv_def)
  also have "\<dots> \<longleftrightarrow> time_us t = 0"
    by (simp add: ij time_us_def unat_eq_0 uint_0_iff)
  finally show ?thesis .
qed

declare of_int_uint [simp]

section \<open>Properties\<close>

text \<open>
  \<open>iperf_time_add_usecs\<close> is addition of microseconds: it keeps the microsecond field
  normalised, and its value is the sum modulo the \<open>2^32\<close> seconds the type can hold, for
  every 64-bit argument (negative \<open>int64_t\<close> values passed by the timers included).
\<close>

theorem iperf_time_add_usecs_spec:
  assumes "time_ok t"
  shows "time_ok (iperf_time_add_usecs t us) \<and>
     time_us (iperf_time_add_usecs t us) = (time_us t + unat us) mod time_range"
  using assms time_us_add_usecs_mod by simp

theorem iperf_time_add_usecs_spec_witness:
  "time_us (iperf_time_add_usecs \<lparr>secs = 7, usecs = 900000\<rparr> 250000) = 8150000"
  using iperf_time_add_usecs_spec [of "\<lparr>secs = 7, usecs = 900000\<rparr>" 250000]
  by (simp add: time_ok_def time_us_def)

text \<open>
  \<open>iperf_time_diff\<close> stores the distance of two timestamps, normalised, whichever of them
  is the later one, and returns 1 exactly when the first is not after the second.
\<close>

theorem iperf_time_diff_distance:
  assumes "time_ok s" "time_ok t"
  shows "\<exists>d. iperf_time_diff s t = (if time_us s \<le> time_us t then 1 else 0, d) \<and> time_ok d \<and>
     int (time_us d) = \<bar>int (time_us s) - int (time_us t)\<bar>"
  by (rule diff_spec [OF assms]) blast

theorem iperf_time_diff_distance_witness:
  "\<exists>d. iperf_time_diff \<lparr>secs = 2, usecs = 100\<rparr> \<lparr>secs = 3, usecs = 50\<rparr> = (1, d) \<and> time_us d = 999950"
proof -
  have "time_us \<lparr>secs = 2, usecs = 100\<rparr> = 2000100" "time_us \<lparr>secs = 3, usecs = 50\<rparr> = 3000050"
    by (simp_all add: time_us_def)
  then show ?thesis
    using iperf_time_diff_distance [of "\<lparr>secs = 2, usecs = 100\<rparr>" "\<lparr>secs = 3, usecs = 50\<rparr>"]
    by (auto simp: time_ok_def)
qed

end
