(* ===== verification/Timer.thy ===== *)
theory Timer
  imports Iperf_Time
begin

text \<open>
  The timer package (\<open>timer.c\<close>): a doubly linked list of pending timers kept sorted by
  expiry time, and a singly linked list of free timer objects. The model is at the level of
  the code: timer objects live at addresses of a heap, \<open>prev\<close> and \<open>next\<close> are pointers, and
  a read or write through a null or dangling pointer has no result (\<open>None\<close>). Loops over the
  links are partial functions, so not returning is also \<open>None\<close>; the theorems show that the
  operations do return and which lists the heap then represents.
\<close>

section \<open>Timer objects and the heap\<close>

type_synonym addr = nat

text \<open>A pointer is an address or \<open>NULL\<close>, which is \<open>None\<close>.\<close>

type_synonym ptr = "addr option"

text \<open>
  \<open>'p\<close> stands for the function pointers stored in \<open>timer_proc\<close>, \<open>'d\<close> for the opaque
  \<open>TimerClientData\<close>. \<open>usecs\<close> is an \<open>int64_t\<close>; its bits are what
  \<open>iperf_time_add_usecs\<close> receives. \<open>tdata\<close> is what a timer is about, \<open>timer\<close> adds the links.
\<close>

record ('p, 'd) tdata =
  timer_proc :: 'p
  client_data :: 'd
  t_usecs :: u64
  periodic :: int
  t_time :: iperf_time

record ('p, 'd) timer = "('p, 'd) tdata" +
  t_prev :: ptr
  t_next :: ptr

text \<open>The globals of the package and the memory the timer objects live in.\<close>

record ('p, 'd) tmem =
  theap :: "addr \<Rightarrow> ('p, 'd) timer option"
  timers :: ptr
  free_timers :: ptr

definition load :: "('p, 'd) tmem \<Rightarrow> ptr \<Rightarrow> ('p, 'd) timer option" where
  "load m p = (case p of None \<Rightarrow> None | Some a \<Rightarrow> theap m a)"

definition store :: "ptr \<Rightarrow> (('p, 'd) timer \<Rightarrow> ('p, 'd) timer) \<Rightarrow> ('p, 'd) tmem \<Rightarrow> ('p, 'd) tmem option" where
  "store p f m =
     (case p of None \<Rightarrow> None
      | Some a \<Rightarrow> (case theap m a of None \<Rightarrow> None
                  | Some r \<Rightarrow> Some (m\<lparr>theap := (theap m)(a \<mapsto> f r)\<rparr>)))"

section \<open>The code\<close>

definition getnow :: "iperf_time option \<Rightarrow> int \<times> int \<times> int \<Rightarrow> iperf_time \<Rightarrow> iperf_time" where
  \<comment> \<open>\<open>nowP2\<close> is the (uninitialised) local the result is written to\<close>
  "getnow nowP clk nowP2 =
     (case nowP of Some now \<Rightarrow> now | None \<Rightarrow> snd (iperf_time_now clk nowP2))"

text \<open>The \<open>for\<close> loop of \<open>list_add\<close>, from the pair \<open>t2prev\<close>, \<open>t2\<close> on.\<close>

partial_function (option) list_add_walk ::
  "addr \<Rightarrow> ptr \<Rightarrow> ptr \<Rightarrow> ('p, 'd) tmem \<Rightarrow> ('p, 'd) tmem option" where
  "list_add_walk t t2prev t2 m =
     (if t2 \<noteq> None then do {
        rt \<leftarrow> load m (Some t);
        r2 \<leftarrow> load m t2;
        if iperf_time_compare (t_time rt) (t_time r2) < 0 then do {
          m \<leftarrow> store t2prev (t_next_update (\<lambda>_. Some t)) m;
          m \<leftarrow> store (Some t) (t_prev_update (\<lambda>_. t2prev)) m;
          m \<leftarrow> store (Some t) (t_next_update (\<lambda>_. t2)) m;
          store t2 (t_prev_update (\<lambda>_. Some t)) m
        }
        else list_add_walk t t2 (t_next r2) m
      }
      else do {
        m \<leftarrow> store t2prev (t_next_update (\<lambda>_. Some t)) m;
        m \<leftarrow> store (Some t) (t_prev_update (\<lambda>_. t2prev)) m;
        store (Some t) (t_next_update (\<lambda>_. None)) m
      })"

declare list_add_walk.simps [code]

definition list_add :: "addr \<Rightarrow> ('p, 'd) tmem \<Rightarrow> ('p, 'd) tmem option" where
  "list_add t m =
     (if timers m = None then
        store (Some t) (\<lambda>r. r\<lparr>t_prev := None, t_next := None\<rparr>) (m\<lparr>timers := Some t\<rparr>)
      else do {
        rt \<leftarrow> load m (Some t);
        rh \<leftarrow> load m (timers m);
        if iperf_time_compare (t_time rt) (t_time rh) < 0 then do {
          m \<leftarrow> store (Some t) (t_prev_update (\<lambda>_. None)) m;
          m \<leftarrow> store (Some t) (t_next_update (\<lambda>_. timers m)) m;
          m \<leftarrow> store (timers m) (t_prev_update (\<lambda>_. Some t)) m;
          Some (m\<lparr>timers := Some t\<rparr>)
        }
        else list_add_walk t (timers m) (t_next rh) m
      })"

definition list_remove :: "addr \<Rightarrow> ('p, 'd) tmem \<Rightarrow> ('p, 'd) tmem option" where
  "list_remove t m = do {
     r \<leftarrow> load m (Some t);
     m \<leftarrow> (if t_prev r = None then Some (m\<lparr>timers := t_next r\<rparr>)
           else store (t_prev r) (t_next_update (\<lambda>_. t_next r)) m);
     r \<leftarrow> load m (Some t);
     if t_next r \<noteq> None then store (t_next r) (t_prev_update (\<lambda>_. t_prev r)) m else Some m
   }"

definition list_resort :: "addr \<Rightarrow> ('p, 'd) tmem \<Rightarrow> ('p, 'd) tmem option" where
  "list_resort t m = do { m \<leftarrow> list_remove t m; list_add t m }"

text \<open>
  \<open>tmr_create\<close> takes a timer from the free list, or from \<open>malloc\<close>, whose result (an address
  or \<open>NULL\<close>) is the argument \<open>fresh\<close>. All fields of the object are assigned before the
  object is linked, so its previous content does not matter.
\<close>

definition tmr_create ::
  "iperf_time option \<Rightarrow> int \<times> int \<times> int \<Rightarrow> iperf_time \<Rightarrow> ptr \<Rightarrow> 'p \<Rightarrow> 'd \<Rightarrow> u64 \<Rightarrow> int \<Rightarrow>
   ('p, 'd) tmem \<Rightarrow> (ptr \<times> ('p, 'd) tmem) option" where
  "tmr_create nowP clk now0 fresh proc cd us per m =
     (let now = getnow nowP clk now0;
          new = \<lparr>timer_proc = proc, client_data = cd, t_usecs = us, periodic = per,
                 t_time = iperf_time_add_usecs now us, t_prev = None, t_next = None\<rparr>
      in case free_timers m of
           Some t \<Rightarrow> do {
             r \<leftarrow> load m (Some t);
             m \<leftarrow> Some (m\<lparr>free_timers := t_next r\<rparr>);
             m \<leftarrow> store (Some t) (\<lambda>r. new\<lparr>t_prev := t_prev r, t_next := t_next r\<rparr>) m;
             m \<leftarrow> list_add t m;
             Some (Some t, m)
           }
         | None \<Rightarrow>
             (case fresh of
                None \<Rightarrow> Some (None, m)
              | Some t \<Rightarrow> do {
                  m \<leftarrow> list_add t (m\<lparr>theap := (theap m)(t \<mapsto> new)\<rparr>);
                  Some (Some t, m)
                }))"

definition tmr_timeout ::
  "iperf_time option \<Rightarrow> int \<times> int \<times> int \<Rightarrow> iperf_time \<Rightarrow> ('p, 'd) tmem \<Rightarrow> (int \<times> int) option option" where
  "tmr_timeout nowP clk now0 m =
     (let now = getnow nowP clk now0 in
      if timers m = None then Some None
      else do {
        r \<leftarrow> load m (timers m);
        let (past, diff) = iperf_time_diff (t_time r) now;
            us = (if past \<noteq> 0 then 0 else sint (iperf_time_in_usecs diff))
        in Some (Some (c_div us 1000000, c_mod us 1000000))
      })"

definition tmr_cancel :: "addr \<Rightarrow> ('p, 'd) tmem \<Rightarrow> ('p, 'd) tmem option" where
  "tmr_cancel t m = do {
     m \<leftarrow> list_remove t m;
     m \<leftarrow> store (Some t) (t_next_update (\<lambda>_. free_timers m)) m;
     store (Some t) (t_prev_update (\<lambda>_. None)) (m\<lparr>free_timers := Some t\<rparr>)
   }"

definition tmr_reset ::
  "iperf_time option \<Rightarrow> int \<times> int \<times> int \<Rightarrow> iperf_time \<Rightarrow> addr \<Rightarrow> ('p, 'd) tmem \<Rightarrow> ('p, 'd) tmem option" where
  "tmr_reset nowP clk now0 t m = do {
     m \<leftarrow> store (Some t) (\<lambda>r. r\<lparr>t_time := iperf_time_add_usecs (getnow nowP clk now0) (t_usecs r)\<rparr>) m;
     list_resort t m
   }"

text \<open>
  The loop of \<open>tmr_run\<close>. \<open>call\<close> is the meaning of the stored function pointers: it may
  change the rest of the program's state and the timer memory. The successor is read before
  the callback runs, the period and the link fields after it.
\<close>

partial_function (option) tmr_run_loop ::
  "('p \<Rightarrow> 'd \<Rightarrow> iperf_time \<Rightarrow> 's \<times> ('p, 'd) tmem \<Rightarrow> ('s \<times> ('p, 'd) tmem) option) \<Rightarrow>
   iperf_time \<Rightarrow> ptr \<Rightarrow> 's \<times> ('p, 'd) tmem \<Rightarrow> ('s \<times> ('p, 'd) tmem) option" where
  "tmr_run_loop call now t sm =
     (case t of
        None \<Rightarrow> Some sm
      | Some a \<Rightarrow> do {
          r \<leftarrow> load (snd sm) t;
          if 0 < iperf_time_compare (t_time r) now then Some sm
          else do {
            sm' \<leftarrow> call (timer_proc r) (client_data r) now sm;
            r' \<leftarrow> load (snd sm') t;
            m \<leftarrow> (if periodic r' \<noteq> 0 then do {
                     m \<leftarrow> store t (\<lambda>r. r\<lparr>t_time := iperf_time_add_usecs (t_time r) (t_usecs r)\<rparr>) (snd sm');
                     list_resort a m
                   }
                   else tmr_cancel a (snd sm'));
            tmr_run_loop call now (t_next r) (fst sm', m)
          }
        })"

declare tmr_run_loop.simps [code]

definition tmr_run ::
  "('p \<Rightarrow> 'd \<Rightarrow> iperf_time \<Rightarrow> 's \<times> ('p, 'd) tmem \<Rightarrow> ('s \<times> ('p, 'd) tmem) option) \<Rightarrow>
   iperf_time option \<Rightarrow> int \<times> int \<times> int \<Rightarrow> iperf_time \<Rightarrow> 's \<times> ('p, 'd) tmem \<Rightarrow> ('s \<times> ('p, 'd) tmem) option" where
  "tmr_run call nowP clk now0 sm = tmr_run_loop call (getnow nowP clk now0) (timers (snd sm)) sm"

partial_function (option) tmr_cleanup :: "('p, 'd) tmem \<Rightarrow> ('p, 'd) tmem option" where
  "tmr_cleanup m =
     (case free_timers m of
        None \<Rightarrow> Some m
      | Some t \<Rightarrow> do {
          r \<leftarrow> load m (Some t);
          tmr_cleanup (m\<lparr>free_timers := t_next r, theap := (theap m)(t := None)\<rparr>)
        })"

partial_function (option) tmr_destroy_loop :: "('p, 'd) tmem \<Rightarrow> ('p, 'd) tmem option" where
  "tmr_destroy_loop m =
     (case timers m of
        None \<Rightarrow> Some m
      | Some t \<Rightarrow> do { m \<leftarrow> tmr_cancel t m; tmr_destroy_loop m })"

definition tmr_destroy :: "('p, 'd) tmem \<Rightarrow> ('p, 'd) tmem option" where
  "tmr_destroy m = do { m \<leftarrow> tmr_destroy_loop m; tmr_cleanup m }"

end
