(* ===== verification/Timer_List.thy ===== *)
theory Timer_List
  imports Timer
begin

text \<open>
  What the links of the timer package represent. \<open>dseg\<close> says that a list of addresses is a
  doubly linked segment of the heap, \<open>sseg\<close> the same for the free list. The code's pointer
  surgery is shown to be insertion into and deletion from those lists, for every heap that
  represents a list: the operations dereference no null pointer, return, and leave the data
  of every timer object unchanged.
\<close>

section \<open>Linked segments\<close>

fun fst_ptr :: "addr list \<Rightarrow> ptr \<Rightarrow> ptr" where
  "fst_ptr [] nx = nx"
| "fst_ptr (a # as) nx = Some a"

fun last_ptr :: "ptr \<Rightarrow> addr list \<Rightarrow> ptr" where
  "last_ptr pr [] = pr"
| "last_ptr pr (a # as) = last_ptr (Some a) as"

fun dseg :: "(addr \<Rightarrow> ('p, 'd) timer option) \<Rightarrow> ptr \<Rightarrow> addr list \<Rightarrow> ptr \<Rightarrow> bool" where
  "dseg h pr [] nx = True"
| "dseg h pr (a # as) nx =
     (case h a of None \<Rightarrow> False
      | Some r \<Rightarrow> t_prev r = pr \<and> t_next r = fst_ptr as nx \<and> dseg h (Some a) as nx)"

fun sseg :: "(addr \<Rightarrow> ('p, 'd) timer option) \<Rightarrow> addr list \<Rightarrow> bool" where
  "sseg h [] = True"
| "sseg h (a # as) =
     (case h a of None \<Rightarrow> False | Some r \<Rightarrow> t_next r = fst_ptr as None \<and> sseg h as)"

lemma fst_ptr_append [simp]: "fst_ptr (xs @ ys) nx = fst_ptr xs (fst_ptr ys nx)"
  by (cases xs) simp_all

lemma fst_ptr_None_iff [simp]: "fst_ptr xs None = None \<longleftrightarrow> xs = []"
  by (cases xs) simp_all

lemma last_ptr_append [simp]: "last_ptr pr (xs @ ys) = last_ptr (last_ptr pr xs) ys"
  by (induction xs arbitrary: pr) simp_all

lemma last_ptr_None_iff [simp]: "last_ptr None xs = None \<longleftrightarrow> xs = []"
  by (cases xs rule: rev_cases) simp_all

lemma last_ptr_Some: "last_ptr None xs = Some a \<Longrightarrow> a \<in> set xs"
  by (cases xs rule: rev_cases) auto

lemma last_ptr_Some_start [simp]: "last_ptr (Some a) xs \<noteq> None"
  by (cases xs rule: rev_cases) simp_all

lemma dseg_append:
  "dseg h pr (xs @ ys) nx \<longleftrightarrow> dseg h pr xs (fst_ptr ys nx) \<and> dseg h (last_ptr pr xs) ys nx"
  by (induction xs arbitrary: pr) (auto split: option.splits)

lemma dseg_upd_other [simp]: "a \<notin> set xs \<Longrightarrow> dseg (h(a := v)) pr xs nx = dseg h pr xs nx"
  by (induction xs arbitrary: pr) (auto split: option.splits)

lemma sseg_upd_other [simp]: "a \<notin> set xs \<Longrightarrow> sseg (h(a := v)) xs = sseg h xs"
  by (induction xs) (auto split: option.splits)

lemma dseg_dom: "dseg h pr xs nx \<Longrightarrow> a \<in> set xs \<Longrightarrow> \<exists>r. h a = Some r"
  by (induction xs arbitrary: pr) (auto split: option.splits)

lemma sseg_dom: "sseg h xs \<Longrightarrow> a \<in> set xs \<Longrightarrow> \<exists>r. h a = Some r"
  by (induction xs) (auto split: option.splits)

lemma dseg_set_next:
  assumes "dseg h pr (xs @ [a]) nx" "a \<notin> set xs"
  shows "dseg (h(a := map_option (t_next_update (\<lambda>_. nx')) (h a))) pr (xs @ [a]) nx'"
  using assms by (auto simp: dseg_append split: option.splits)

lemma dseg_set_prev:
  assumes "dseg h pr (b # bs) nx" "b \<notin> set bs"
  shows "dseg (h(b := map_option (t_prev_update (\<lambda>_. pr')) (h b))) pr' (b # bs) nx"
  using assms by (auto split: option.splits)

section \<open>Reading and writing through pointers\<close>

lemma load_Some [heap_simps]: "load m (Some a) = theap m a"
  by (simp add: load_def)

lemma store_Some [heap_simps]:
  "store (Some a) f m =
     (case theap m a of None \<Rightarrow> None | Some r \<Rightarrow> Some (m\<lparr>theap := (theap m)(a \<mapsto> f r)\<rparr>))"
  by (simp add: store_def)

section \<open>Linking and unlinking\<close>

text \<open>The heap after the new neighbours of \<open>t\<close> and \<open>t\<close> itself have been relinked.\<close>

definition set_next :: "ptr \<Rightarrow> ptr \<Rightarrow> (addr \<Rightarrow> ('p, 'd) timer option) \<Rightarrow> (addr \<Rightarrow> ('p, 'd) timer option)" where
  "set_next p nx h =
     (case p of None \<Rightarrow> h | Some a \<Rightarrow> h(a := map_option (t_next_update (\<lambda>_. nx)) (h a)))"

definition set_prev :: "ptr \<Rightarrow> ptr \<Rightarrow> (addr \<Rightarrow> ('p, 'd) timer option) \<Rightarrow> (addr \<Rightarrow> ('p, 'd) timer option)" where
  "set_prev p pr h =
     (case p of None \<Rightarrow> h | Some a \<Rightarrow> h(a := map_option (t_prev_update (\<lambda>_. pr)) (h a)))"

definition link :: "addr list \<Rightarrow> addr \<Rightarrow> addr list \<Rightarrow> (addr \<Rightarrow> ('p, 'd) timer option) \<Rightarrow> (addr \<Rightarrow> ('p, 'd) timer option)" where
  "link as t bs h =
     set_prev (fst_ptr bs None) (Some t)
       (set_next (Some t) (fst_ptr bs None)
         (set_prev (Some t) (last_ptr None as)
           (set_next (last_ptr None as) (Some t) h)))"

definition unlink :: "addr list \<Rightarrow> addr list \<Rightarrow> (addr \<Rightarrow> ('p, 'd) timer option) \<Rightarrow> (addr \<Rightarrow> ('p, 'd) timer option)" where
  "unlink as bs h =
     set_prev (fst_ptr bs None) (last_ptr None as) (set_next (last_ptr None as) (fst_ptr bs None) h)"

text \<open>Relinking keeps every timer's data and its allocation.\<close>

definition same_data :: "(addr \<Rightarrow> ('p, 'd) timer option) \<Rightarrow> (addr \<Rightarrow> ('p, 'd) timer option) \<Rightarrow> bool" where
  "same_data h h' \<longleftrightarrow> (\<forall>a. map_option tdata.truncate (h a) = map_option tdata.truncate (h' a))"

lemma same_data_refl [simp]: "same_data h h"
  by (simp add: same_data_def)

lemma same_data_trans: "same_data h h' \<Longrightarrow> same_data h' h'' \<Longrightarrow> same_data h h''"
  by (simp add: same_data_def)

lemma same_data_sym: "same_data h h' \<Longrightarrow> same_data h' h"
  by (simp add: same_data_def)

lemma truncate_links [simp]:
  "tdata.truncate (t_next_update f r) = tdata.truncate r"
  "tdata.truncate (t_prev_update f r) = tdata.truncate r"
  by (simp_all add: tdata.truncate_def)

lemma set_next_data: "map_option tdata.truncate (set_next p nx h a) = map_option tdata.truncate (h a)"
  by (cases p; cases "h a") (auto simp: set_next_def)

lemma set_prev_data: "map_option tdata.truncate (set_prev p pr h a) = map_option tdata.truncate (h a)"
  by (cases p; cases "h a") (auto simp: set_prev_def)

lemma same_data_set_next [simp]: "same_data h (set_next p nx h') \<longleftrightarrow> same_data h h'"
  by (simp add: same_data_def set_next_data)

lemma same_data_set_prev [simp]: "same_data h (set_prev p pr h') \<longleftrightarrow> same_data h h'"
  by (simp add: same_data_def set_prev_data)

lemma same_data_link [simp]: "same_data h (link as t bs h)"
  by (simp add: link_def)

lemma same_data_unlink [simp]: "same_data h (unlink as bs h)"
  by (simp add: unlink_def)

text \<open>The time of the timer at an address.\<close>

definition time_at :: "(addr \<Rightarrow> ('p, 'd) timer option) \<Rightarrow> addr \<Rightarrow> iperf_time" where
  "time_at h a = t_time (the (h a))"

lemma same_data_time:
  assumes "same_data h h'" "h a = Some r"
  shows "\<exists>r'. h' a = Some r' \<and> timer_proc r' = timer_proc r \<and> client_data r' = client_data r \<and>
    t_usecs r' = t_usecs r \<and> periodic r' = periodic r \<and> t_time r' = t_time r"
proof -
  have "map_option tdata.truncate (h' a) = Some (tdata.truncate r)"
    using assms(1) [unfolded same_data_def, rule_format, of a] assms(2) by simp
  then show ?thesis by (auto simp: tdata.truncate_def)
qed

lemma same_data_None: "same_data h h' \<Longrightarrow> h' a = None \<longleftrightarrow> h a = None"
  unfolding same_data_def by (metis option.map_disc_iff)

lemma same_data_time_at: "same_data h h' \<Longrightarrow> h a \<noteq> None \<Longrightarrow> time_at h' a = time_at h a"
  using same_data_time [of h h' a] by (auto simp: time_at_def)

lemma link_dseg:
  assumes "dseg h None (as @ bs) None" "distinct (as @ bs)" "t \<notin> set (as @ bs)" "h t \<noteq> None"
  shows "dseg (link as t bs h) None (as @ t # bs) None"
proof (cases as rule: rev_cases)
  case Nil
  with assms show ?thesis
    by (cases bs) (auto simp: link_def set_next_def set_prev_def split: option.splits)
next
  case (snoc ys a)
  with assms show ?thesis
    by (cases bs) (auto simp: link_def set_next_def set_prev_def dseg_append split: option.splits)
qed

lemma unlink_dseg:
  assumes "dseg h None (as @ t # bs) None" "distinct (as @ t # bs)"
  shows "dseg (unlink as bs h) None (as @ bs) None"
proof (cases as rule: rev_cases)
  case Nil
  with assms show ?thesis
    by (cases bs) (auto simp: unlink_def set_next_def set_prev_def split: option.splits)
next
  case (snoc ys a)
  with assms show ?thesis
    by (cases bs) (auto simp: unlink_def set_next_def set_prev_def dseg_append split: option.splits)
qed

lemma link_other:
  assumes "a \<noteq> t" "a \<notin> set as" "a \<notin> set bs"
  shows "link as t bs h a = h a"
  using assms
  by (cases as rule: rev_cases; cases bs) (auto simp: link_def set_next_def set_prev_def)

lemma unlink_other:
  assumes "a \<notin> set as" "a \<notin> set bs"
  shows "unlink as bs h a = h a"
  using assms
  by (cases as rule: rev_cases; cases bs) (auto simp: unlink_def set_next_def set_prev_def)

lemma sseg_cong: "(\<And>a. a \<in> set xs \<Longrightarrow> h a = h' a) \<Longrightarrow> sseg h xs = sseg h' xs"
  by (induction xs) (simp_all cong: option.case_cong)

section \<open>The code does list surgery\<close>

text \<open>The walk stops before the first timer that is strictly later than \<open>t\<close>.\<close>

definition not_before :: "(addr \<Rightarrow> ('p, 'd) timer option) \<Rightarrow> addr \<Rightarrow> addr \<Rightarrow> bool" where
  "not_before h t a \<longleftrightarrow> \<not> iperf_time_compare (time_at h t) (time_at h a) < 0"

lemma list_add_walk_link:
  assumes "dseg (theap m) None (as @ bs) None" "distinct (as @ bs)" "as \<noteq> []"
    and "t \<notin> set (as @ bs)" "theap m t = Some rt"
  shows "list_add_walk t (last_ptr None as) (fst_ptr bs None) m =
    Some (m\<lparr>theap := link (as @ takeWhile (not_before (theap m) t) bs) t
                          (dropWhile (not_before (theap m) t) bs) (theap m)\<rparr>)"
  using assms
proof (induction bs arbitrary: as)
  case Nil
  then obtain ys a where as: "as = ys @ [a]" by (metis rev_exhaust)
  with Nil.prems obtain ra where "theap m a = Some ra" using dseg_dom by fastforce
  with as Nil.prems show ?case
    by (subst list_add_walk.simps)
      (auto simp: heap_simps link_def set_next_def set_prev_def fun_upd_twist)
next
  case (Cons b bs)
  obtain ys a where as: "as = ys @ [a]" using \<open>as \<noteq> []\<close> by (metis rev_exhaust)
  with Cons.prems obtain ra where ra: "theap m a = Some ra" using dseg_dom by fastforce
  from Cons.prems obtain rb where rb: "theap m b = Some rb" using dseg_dom by fastforce
  show ?case
  proof (cases "not_before (theap m) t b")
    case True
    have nxt: "t_next rb = fst_ptr bs None"
      using Cons.prems(1) rb by (simp add: dseg_append)
    have "list_add_walk t (last_ptr None (as @ [b])) (fst_ptr bs None) m =
      Some (m\<lparr>theap := link ((as @ [b]) @ takeWhile (not_before (theap m) t) bs) t
                          (dropWhile (not_before (theap m) t) bs) (theap m)\<rparr>)"
      using Cons.prems by (intro Cons.IH) auto
    with True rb nxt Cons.prems show ?thesis
      by (subst list_add_walk.simps) (simp add: heap_simps not_before_def time_at_def)
  next
    case False
    with as ra rb Cons.prems show ?thesis
      by (subst list_add_walk.simps)
        (auto simp: heap_simps link_def set_next_def set_prev_def not_before_def time_at_def)
  qed
qed

lemma list_add_link:
  assumes seg: "dseg (theap m) None xs None" and dist: "distinct xs" and hd: "timers m = fst_ptr xs None"
    and t: "t \<notin> set xs" "theap m t = Some rt"
  defines "as \<equiv> takeWhile (not_before (theap m) t) xs"
    and "bs \<equiv> dropWhile (not_before (theap m) t) xs"
  shows "list_add t m = Some (m\<lparr>timers := fst_ptr (as @ t # bs) None, theap := link as t bs (theap m)\<rparr>)"
proof (cases xs)
  case Nil
  with hd t show ?thesis
    by (simp add: list_add_def heap_simps as_def bs_def link_def set_next_def set_prev_def)
next
  case (Cons x ys)
  with seg obtain rx where rx: "theap m x = Some rx" "t_next rx = fst_ptr ys None"
    by (auto split: option.splits)
  show ?thesis
  proof (cases "not_before (theap m) t x")
    case True
    have "list_add_walk t (last_ptr None [x]) (fst_ptr ys None) m =
      Some (m\<lparr>theap := link ([x] @ takeWhile (not_before (theap m) t) ys) t
                          (dropWhile (not_before (theap m) t) ys) (theap m)\<rparr>)"
      using seg dist t Cons by (intro list_add_walk_link) auto
    with True rx hd t Cons show ?thesis
      by (auto simp: list_add_def heap_simps as_def bs_def not_before_def time_at_def)
  next
    case False
    with rx hd t Cons show ?thesis
      by (auto simp: list_add_def heap_simps as_def bs_def not_before_def time_at_def
          link_def set_next_def set_prev_def)
  qed
qed

lemma list_remove_unlink:
  assumes seg: "dseg (theap m) None (as @ t # bs) None" and dist: "distinct (as @ t # bs)"
    and hd: "timers m = fst_ptr (as @ t # bs) None"
  shows "list_remove t m = Some (m\<lparr>timers := fst_ptr (as @ bs) None, theap := unlink as bs (theap m)\<rparr>)"
proof -
  obtain rt where rt: "theap m t = Some rt" "t_prev rt = last_ptr None as" "t_next rt = fst_ptr bs None"
    using seg by (auto simp: dseg_append split: option.splits)
  have hdb: "\<exists>r. theap m b = Some r" if "bs = b # bs'" for b bs'
    using seg that by (intro dseg_dom [of "theap m" None "as @ t # bs" None]) auto
  show ?thesis
  proof (cases as rule: rev_cases)
    case Nil
    with rt hd hdb dist show ?thesis
      by (cases bs)
        (fastforce simp: list_remove_def heap_simps unlink_def set_next_def set_prev_def)+
  next
    case (snoc ys a)
    moreover obtain ra where "theap m a = Some ra"
      using seg snoc dseg_dom [of "theap m" None "as @ t # bs" None a] by auto
    ultimately show ?thesis using rt hd hdb dist
      by (cases bs; cases ys)
        (fastforce simp: list_remove_def heap_simps unlink_def set_next_def set_prev_def)+
  qed
qed

end
