(* ===== verification/Timer_Spec.thy ===== *)
theory Timer_Spec
  imports Timer_List
begin

text \<open>
  The contract of the timer package. The interface that \<open>list_add\<close> and \<open>list_remove\<close> offer to
  the rest of the package is the locale \<open>timer_links\<close>; the facts about re-sorting and
  cancelling are proved inside it once. The interpretation discharges its laws for the code.
\<close>

section \<open>The representation invariant\<close>

definition timer_rep :: "('p, 'd) tmem \<Rightarrow> addr list \<Rightarrow> addr list \<Rightarrow> bool" where
  "timer_rep m xs fs \<longleftrightarrow>
     timers m = fst_ptr xs None \<and> dseg (theap m) None xs None \<and>
     free_timers m = fst_ptr fs None \<and> sseg (theap m) fs \<and>
     distinct (xs @ fs) \<and> (\<forall>a \<in> set xs. time_ok (time_at (theap m) a))"

definition detached :: "('p, 'd) tmem \<Rightarrow> addr \<Rightarrow> bool" where
  "detached m t \<longleftrightarrow> theap m t \<noteq> None \<and> time_ok (time_at (theap m) t)"

definition tkey :: "('p, 'd) tmem \<Rightarrow> addr \<Rightarrow> nat" where
  "tkey m a = time_us (time_at (theap m) a)"

definition same_objs :: "('p, 'd) tmem \<Rightarrow> ('p, 'd) tmem \<Rightarrow> bool" where
  "same_objs m m' \<longleftrightarrow> same_data (theap m) (theap m')"

definition timers_sorted :: "('p, 'd) tmem \<Rightarrow> addr list \<Rightarrow> bool" where
  "timers_sorted m xs \<longleftrightarrow> sorted (map (tkey m) xs)"

lemma same_objs_trans: "same_objs m m' \<Longrightarrow> same_objs m' m'' \<Longrightarrow> same_objs m m''"
  unfolding same_objs_def by (rule same_data_trans)

lemma timer_rep_dom: "timer_rep m xs fs \<Longrightarrow> a \<in> set xs \<union> set fs \<Longrightarrow> theap m a \<noteq> None"
  by (auto simp: timer_rep_def dest: dseg_dom sseg_dom)

lemma same_objs_tkey: "same_objs m m' \<Longrightarrow> theap m a \<noteq> None \<Longrightarrow> tkey m' a = tkey m a"
  by (simp add: same_objs_def tkey_def same_data_time_at)

lemma not_before_tkey:
  assumes "time_ok (time_at (theap m) t)" "time_ok (time_at (theap m) a)"
  shows "not_before (theap m) t a \<longleftrightarrow> tkey m a \<le> tkey m t"
  using assms by (auto simp: not_before_def tkey_def iperf_time_simps)

lemma takeWhile_cong_set: "(\<And>a. a \<in> set xs \<Longrightarrow> P a = Q a) \<Longrightarrow>
    takeWhile P xs = takeWhile Q xs \<and> dropWhile P xs = dropWhile Q xs"
  by (induction xs) auto

section \<open>Adding and removing\<close>

lemma list_add_rep:
  assumes rep: "timer_rep m xs fs" and det: "detached m t" and t: "t \<notin> set xs \<union> set fs"
  shows "\<exists>m'. list_add t m = Some m' \<and> timer_rep m' (ins_by (tkey m) t xs) fs \<and> same_objs m m'"
proof -
  let ?as = "takeWhile (\<lambda>a. tkey m a \<le> tkey m t) xs" and ?bs = "dropWhile (\<lambda>a. tkey m a \<le> tkey m t) xs"
  let ?h = "link ?as t ?bs (theap m)"
  let ?m = "m\<lparr>timers := fst_ptr (?as @ t # ?bs) None, theap := ?h\<rparr>"
  have parts: "set ?as \<subseteq> set xs" "set ?bs \<subseteq> set xs" "?as @ ?bs = xs"
    by (auto dest: set_takeWhileD set_dropWhileD)
  have eq: "takeWhile (not_before (theap m) t) xs = ?as" "dropWhile (not_before (theap m) t) xs = ?bs"
    using rep det takeWhile_cong_set [of xs "not_before (theap m) t" "\<lambda>a. tkey m a \<le> tkey m t"]
    by (auto simp: not_before_tkey timer_rep_def detached_def)
  obtain rt where "theap m t = Some rt" using det by (auto simp: detached_def)
  then have "list_add t m = Some ?m"
    using rep t unfolding timer_rep_def eq [symmetric] by (intro list_add_link) auto
  moreover have "timer_rep ?m (ins_by (tkey m) t xs) fs"
  proof -
    have "dseg ?h None (?as @ t # ?bs) None"
      using rep t det parts(3) by (intro link_dseg) (auto simp: timer_rep_def detached_def)
    moreover have "sseg ?h fs = sseg (theap m) fs"
      using rep t parts(1,2) by (intro sseg_cong link_other) (auto simp: timer_rep_def)
    moreover have "time_ok (time_at ?h a)" if "a \<in> insert t (set xs)" for a
      using rep det that timer_rep_dom [OF rep] same_data_time_at [OF same_data_link, of "theap m" a]
      by (auto simp: timer_rep_def detached_def)
    ultimately show ?thesis
      using rep t by (auto simp: timer_rep_def ins_by_def [symmetric])
  qed
  ultimately show ?thesis by (auto simp: same_objs_def)
qed

lemma list_remove_rep:
  assumes rep: "timer_rep m (as @ t # bs) fs"
  shows "\<exists>m'. list_remove t m = Some m' \<and> timer_rep m' (as @ bs) fs \<and> same_objs m m' \<and> detached m' t"
proof -
  let ?h = "unlink as bs (theap m)"
  let ?m = "m\<lparr>timers := fst_ptr (as @ bs) None, theap := ?h\<rparr>"
  have "list_remove t m = Some ?m"
    using rep by (intro list_remove_unlink) (auto simp: timer_rep_def)
  moreover have ok: "theap m a \<noteq> None" "?h a \<noteq> None" "time_ok (time_at ?h a)" if "a \<in> set (as @ t # bs)" for a
  proof -
    from rep that show *: "theap m a \<noteq> None" using timer_rep_dom by fastforce
    then show "?h a \<noteq> None"
      by (simp add: same_data_None [OF same_data_unlink])
    show "time_ok (time_at ?h a)"
      using rep that same_data_time_at [OF same_data_unlink [of "theap m"], of a] * by (auto simp: timer_rep_def)
  qed
  moreover have "dseg ?h None (as @ bs) None"
    using rep by (intro unlink_dseg) (auto simp: timer_rep_def)
  moreover have "sseg ?h fs = sseg (theap m) fs"
    using rep by (intro sseg_cong unlink_other) (auto simp: timer_rep_def)
  ultimately show ?thesis
    using rep by (auto simp: timer_rep_def same_objs_def detached_def)
qed

section \<open>The interface inside the package\<close>

text \<open>
  \<open>rep m xs fs\<close>: the state \<open>m\<close> holds the pending timers \<open>xs\<close>, in list order, and the free
  objects \<open>fs\<close>. \<open>key\<close> is the expiry time, \<open>same\<close> relates states with the same timer data.
\<close>

locale timer_links =
  fixes rep :: "'m \<Rightarrow> addr list \<Rightarrow> addr list \<Rightarrow> bool"
    and key :: "'m \<Rightarrow> addr \<Rightarrow> nat"
    and idle :: "'m \<Rightarrow> addr \<Rightarrow> bool"
    and same :: "'m \<Rightarrow> 'm \<Rightarrow> bool"
    and add :: "addr \<Rightarrow> 'm \<Rightarrow> 'm option"
    and remove :: "addr \<Rightarrow> 'm \<Rightarrow> 'm option"
  assumes rep_distinct: "rep m xs fs \<Longrightarrow> distinct (xs @ fs)"
    and same_key: "same m m' \<Longrightarrow> rep m xs fs \<Longrightarrow> a \<in> set xs \<Longrightarrow> key m' a = key m a"
    and same_trans: "same m m' \<Longrightarrow> same m' m'' \<Longrightarrow> same m m''"
    and add_spec: "rep m xs fs \<Longrightarrow> idle m t \<Longrightarrow> t \<notin> set xs \<union> set fs \<Longrightarrow>
      \<exists>m'. add t m = Some m' \<and> rep m' (ins_by (key m) t xs) fs \<and> same m m'"
    and remove_spec: "rep m (as @ t # bs) fs \<Longrightarrow>
      \<exists>m'. remove t m = Some m' \<and> rep m' (as @ bs) fs \<and> same m m' \<and> idle m' t"
begin

lemma resort_spec:
  assumes rep: "rep m (as @ t # bs) fs"
  shows "\<exists>m'. Option.bind (remove t m) (add t) = Some m' \<and>
           rep m' (ins_by (key m) t (as @ bs)) fs \<and> same m m'"
proof -
  obtain m1 where m1: "remove t m = Some m1" "rep m1 (as @ bs) fs" "same m m1" "idle m1 t"
    using remove_spec [OF rep] by blast
  have "t \<notin> set (as @ bs) \<union> set fs" using rep_distinct [OF rep] by auto
  then obtain m2 where m2: "add t m1 = Some m2" "rep m2 (ins_by (key m1) t (as @ bs)) fs" "same m1 m2"
    using add_spec [OF m1(2,4)] by blast
  have "ins_by (key m1) t (as @ bs) = ins_by (key m) t (as @ bs)"
    using same_key [OF m1(3) rep] by (intro ins_by_cong) auto
  with m1 m2 same_trans show ?thesis by auto
qed

text \<open>Re-sorting one timer of an otherwise sorted list gives a sorted list.\<close>

lemma resort_sorted:
  assumes rep: "rep m (as @ t # bs) fs" and srt: "sorted (map (key m) (as @ bs))"
  shows "\<exists>m' ys. Option.bind (remove t m) (add t) = Some m' \<and> rep m' ys fs \<and> same m m' \<and>
           ys = ins_by (key m) t (as @ bs) \<and> sorted (map (key m') ys)"
proof -
  let ?ys = "ins_by (key m) t (as @ bs)"
  obtain m' where m': "Option.bind (remove t m) (add t) = Some m'" "rep m' ?ys fs" "same m m'"
    using resort_spec [OF rep] by blast
  have "map (key m') ?ys = map (key m) ?ys"
    using same_key [OF m'(3) rep] by auto
  then have "sorted (map (key m') ?ys)" using sorted_ins_by [OF srt] by metis
  with m' show ?thesis by blast
qed

end

interpretation tl: timer_links timer_rep tkey detached same_objs list_add list_remove
proof unfold_locales
  show "timer_rep m xs fs \<Longrightarrow> distinct (xs @ fs)" for m :: "('a, 'b) tmem" and xs fs
    by (simp add: timer_rep_def)
  show "same_objs m m' \<Longrightarrow> timer_rep m xs fs \<Longrightarrow> a \<in> set xs \<Longrightarrow> tkey m' a = tkey m a"
    for m m' :: "('a, 'b) tmem" and xs fs a
    by (simp add: same_objs_tkey timer_rep_dom)
qed (fact same_objs_trans list_add_rep list_remove_rep)+

section \<open>The operations of the package\<close>

lemma list_resort_eq: "list_resort t m = Option.bind (list_remove t m) (list_add t)"
  by (simp add: list_resort_def)

lemmas list_resort_rep = tl.resort_spec [folded list_resort_eq]
lemmas list_resort_sorted = tl.resort_sorted [folded list_resort_eq]

lemma timers_sorted_add:
  assumes "timer_rep m xs fs" "detached m t" "t \<notin> set xs \<union> set fs" "timers_sorted m xs"
    and "same_objs m m'"
  shows "timers_sorted m' (ins_by (tkey m) t xs)"
proof -
  have "map (tkey m') (ins_by (tkey m) t xs) = map (tkey m) (ins_by (tkey m) t xs)"
    using assms timer_rep_dom [OF assms(1)] by (auto simp: same_objs_tkey detached_def)
  then show ?thesis
    using assms(4) sorted_ins_by unfolding timers_sorted_def by metis
qed

text \<open>Writing the data of one timer leaves the links alone.\<close>

lemma dseg_data:
  assumes "h a = Some r" "t_prev r' = t_prev r" "t_next r' = t_next r"
  shows "dseg (h(a \<mapsto> r')) pr xs nx = dseg h pr xs nx"
  using assms by (induction xs arbitrary: pr) (simp_all split: option.split)

lemma sseg_data:
  assumes "h a = Some r" "t_next r' = t_next r"
  shows "sseg (h(a \<mapsto> r')) xs = sseg h xs"
  using assms by (induction xs) (simp_all split: option.split)

lemma timer_rep_set_time:
  assumes rep: "timer_rep m xs fs" and r: "theap m t = Some r" and ok: "time_ok tm"
  shows "timer_rep (m\<lparr>theap := (theap m)(t \<mapsto> r\<lparr>t_time := tm\<rparr>)\<rparr>) xs fs"
  using rep ok dseg_data [of "theap m" t r "r\<lparr>t_time := tm\<rparr>"] sseg_data [of "theap m" t r "r\<lparr>t_time := tm\<rparr>"] r
  by (simp add: timer_rep_def time_at_def)

lemma tkey_set_time:
  "tkey (m\<lparr>theap := (theap m)(t \<mapsto> r\<lparr>t_time := tm\<rparr>)\<rparr>) a = (if a = t then time_us tm else tkey m a)"
  by (simp add: tkey_def time_at_def)

lemma tmr_cancel_rep:
  assumes rep: "timer_rep m (as @ t # bs) fs"
  shows "\<exists>m'. tmr_cancel t m = Some m' \<and> timer_rep m' (as @ bs) (t # fs) \<and> same_objs m m'"
proof -
  obtain m1 where m1: "list_remove t m = Some m1" "timer_rep m1 (as @ bs) fs" "same_objs m m1" "detached m1 t"
    using list_remove_rep [OF rep] by blast
  obtain r where r: "theap m1 t = Some r" using m1(4) by (auto simp: detached_def)
  have t: "t \<notin> set (as @ bs) \<union> set fs" using rep by (auto simp: timer_rep_def)
  let ?r = "r\<lparr>t_next := free_timers m1, t_prev := None\<rparr>"
  let ?m = "m1\<lparr>theap := (theap m1)(t \<mapsto> ?r), free_timers := Some t\<rparr>"
  have "tmr_cancel t m = Some ?m"
    using m1(1) r by (simp add: tmr_cancel_def heap_simps)
  moreover have "timer_rep ?m (as @ bs) (t # fs)"
    using m1(2) t by (auto simp: timer_rep_def time_at_def)
  moreover have "same_objs m1 ?m"
    using r by (auto simp: same_objs_def same_data_def)
  ultimately show ?thesis using m1(3) same_objs_trans by blast
qed

lemma tmr_reset_rep:
  assumes rep: "timer_rep m (as @ t # bs) fs" and ok: "time_ok now" and r: "theap m t = Some r"
    and srt: "timers_sorted m (as @ bs)"
  shows "\<exists>m' ys. tmr_reset (Some now) clk now0 t m = Some m' \<and> timer_rep m' ys fs \<and> timers_sorted m' ys \<and>
     set ys = set (as @ t # bs) \<and> tkey m' t = time_us (iperf_time_add_usecs now (t_usecs r)) \<and>
     (\<forall>a \<in> set (as @ bs). tkey m' a = tkey m a)"
proof -
  let ?tm = "iperf_time_add_usecs now (t_usecs r)"
  let ?m = "m\<lparr>theap := (theap m)(t \<mapsto> r\<lparr>t_time := ?tm\<rparr>)\<rparr>"
  have t: "t \<notin> set (as @ bs)" using rep by (auto simp: timer_rep_def)
  have rep1: "timer_rep ?m (as @ t # bs) fs" using timer_rep_set_time [OF rep r] ok by simp
  have "map (tkey ?m) (as @ bs) = map (tkey m) (as @ bs)" using t by (auto simp: tkey_set_time)
  then have "sorted (map (tkey ?m) (as @ bs))" using srt unfolding timers_sorted_def by metis
  then obtain m' ys where m': "list_resort t ?m = Some m'" "timer_rep m' ys fs" "same_objs ?m m'"
    "ys = ins_by (tkey ?m) t (as @ bs)" "sorted (map (tkey m') ys)"
    using list_resort_sorted [OF rep1] by blast
  have "tkey m' a = (if a = t then time_us ?tm else tkey m a)" if "a \<in> set (as @ t # bs)" for a
    using same_objs_tkey [OF m'(3), of a] timer_rep_dom [OF rep1, of a] that by (auto simp: tkey_set_time)
  moreover have "tmr_reset (Some now) clk now0 t m = Some m'"
    using m'(1) r by (simp add: tmr_reset_def heap_simps getnow_def)
  ultimately show ?thesis using m' t by (auto simp: timers_sorted_def)
qed

text \<open>
  \<open>tmr_create\<close>: the object comes from the free list when there is one, from \<open>malloc\<close>
  otherwise; with neither, \<open>NULL\<close> is returned and nothing changes.
\<close>

lemma tmr_create_link:
  assumes rep: "timer_rep m xs fs" and r: "theap m t = Some r" and t: "t \<notin> set xs \<union> set fs"
    and ok: "time_ok (t_time r)" and srt: "timers_sorted m xs"
  shows "\<exists>m' ys. list_add t m = Some m' \<and> timer_rep m' ys fs \<and> timers_sorted m' ys \<and>
     set ys = insert t (set xs) \<and> tkey m' t = time_us (t_time r) \<and> same_objs m m' \<and>
     (\<forall>a \<in> set xs. tkey m' a = tkey m a)"
proof -
  have det: "detached m t" using r ok by (simp add: detached_def time_at_def)
  obtain m' where m': "list_add t m = Some m'" "timer_rep m' (ins_by (tkey m) t xs) fs" "same_objs m m'"
    using list_add_rep [OF rep det t] by blast
  have "tkey m' t = time_us (t_time r)"
    using same_objs_tkey [OF m'(3), of t] r by (simp add: tkey_def time_at_def)
  moreover have "\<forall>a \<in> set xs. tkey m' a = tkey m a"
    using same_objs_tkey [OF m'(3)] timer_rep_dom [OF rep] by simp
  ultimately show ?thesis
    using m' timers_sorted_add [OF rep det t srt m'(3)]
    by (intro exI [of _ m'] exI [of _ "ins_by (tkey m) t xs"]) simp
qed

lemma timer_rep_take_free:
  assumes rep: "timer_rep m xs (f # fs)" and r: "theap m f = Some r"
  shows "timer_rep (m\<lparr>free_timers := t_next r, theap := (theap m)(f \<mapsto> r')\<rparr>) xs fs"
  using assms by (auto simp: timer_rep_def time_at_def)

lemma timer_rep_fresh:
  assumes rep: "timer_rep m xs fs" and t: "theap m t = None"
  shows "timer_rep (m\<lparr>theap := (theap m)(t \<mapsto> r)\<rparr>) xs fs" and "t \<notin> set xs \<union> set fs"
proof -
  show nin: "t \<notin> set xs \<union> set fs" using timer_rep_dom [OF rep] t by blast
  then show "timer_rep (m\<lparr>theap := (theap m)(t \<mapsto> r)\<rparr>) xs fs"
    using rep by (auto simp: timer_rep_def time_at_def)
qed

lemma tmr_create_rep:
  assumes rep: "timer_rep m xs fs" and srt: "timers_sorted m xs" and ok: "time_ok now"
    and fresh: "\<And>t. fresh = Some t \<Longrightarrow> theap m t = None" and some: "fst_ptr fs fresh = Some t"
  shows "\<exists>m' ys. tmr_create (Some now) clk now0 fresh pr cd us per m = Some (Some t, m') \<and>
     timer_rep m' ys (tl fs) \<and> timers_sorted m' ys \<and> set ys = insert t (set xs) \<and> t \<notin> set xs \<and>
     tkey m' t = time_us (iperf_time_add_usecs now us) \<and> (\<forall>a \<in> set xs. tkey m' a = tkey m a) \<and>
     (\<forall>b. b \<noteq> t \<longrightarrow> theap m b = None \<longrightarrow> theap m' b = None)"
proof -
  define new where "new = \<lparr>timer_proc = pr, client_data = cd, t_usecs = us, periodic = per,
      t_time = iperf_time_add_usecs now us, t_prev = None, t_next = None\<rparr>"
  define m1 where "m1 = (case fs of
      [] \<Rightarrow> m\<lparr>theap := (theap m)(t \<mapsto> new)\<rparr>
    | _ \<Rightarrow> m\<lparr>free_timers := t_next (the (theap m t)),
            theap := (theap m)(t \<mapsto> new\<lparr>t_prev := t_prev (the (theap m t)), t_next := t_next (the (theap m t))\<rparr>)\<rparr>)"
  obtain r where r: "theap m1 t = Some r" "t_time r = iperf_time_add_usecs now us"
    by (cases fs) (auto simp: m1_def new_def)
  have rep1: "timer_rep m1 xs (tl fs)" and t: "t \<notin> set xs \<union> set (tl fs)"
  proof (atomize (full), cases fs)
    case Nil
    then show "timer_rep m1 xs (tl fs) \<and> t \<notin> set xs \<union> set (tl fs)"
      using timer_rep_fresh [OF rep fresh] some by (auto simp: m1_def)
  next
    case (Cons f fs')
    moreover obtain rf where "theap m t = Some rf"
      using timer_rep_dom [OF rep, of t] some Cons by auto
    ultimately show "timer_rep m1 xs (tl fs) \<and> t \<notin> set xs \<union> set (tl fs)"
      using timer_rep_take_free [of m xs t fs' rf] rep some by (auto simp: m1_def timer_rep_def)
  qed
  have keys: "map (tkey m1) xs = map (tkey m) xs"
    using t by (cases fs) (auto simp: m1_def tkey_def time_at_def)
  obtain m' ys where *: "list_add t m1 = Some m'" "timer_rep m' ys (tl fs)" "timers_sorted m' ys"
    "set ys = insert t (set xs)" "tkey m' t = time_us (t_time r)" "\<forall>a \<in> set xs. tkey m' a = tkey m1 a" "same_objs m1 m'"
    using tmr_create_link [OF rep1 r(1) t] srt keys ok r(2) unfolding timers_sorted_def by auto
  have "tmr_create (Some now) clk now0 fresh pr cd us per m = Some (Some t, m')"
  proof (cases fs)
    case Nil
    with *(1) some rep show ?thesis
      by (simp add: tmr_create_def m1_def new_def getnow_def timer_rep_def Let_def)
  next
    case (Cons f fs')
    moreover obtain rf where "theap m t = Some rf"
      using timer_rep_dom [OF rep, of t] some Cons by auto
    ultimately show ?thesis
      using *(1) some rep
      by (simp add: tmr_create_def m1_def new_def getnow_def timer_rep_def Let_def heap_simps)
  qed
  moreover have "theap m' b = None" if "b \<noteq> t" "theap m b = None" for b
    using *(7) that by (cases fs) (auto simp: same_objs_def m1_def dest: same_data_None)
  moreover have "\<forall>a \<in> set xs. tkey m' a = tkey m a" using *(6) keys by simp
  ultimately show ?thesis using *(2-5) r(2) t by (intro exI [of _ m'] exI [of _ ys]) simp
qed

lemma tmr_create_fail:
  assumes "timer_rep m xs []"
  shows "tmr_create nowP clk now0 None pr cd us per m = Some (None, m)"
  using assms by (simp add: tmr_create_def timer_rep_def)

lemma sint_in_usecs: "sint (iperf_time_in_usecs d) = int (time_us d)"
proof -
  have "unat (secs d) < 2 ^ 32" "unat (usecs d) < 2 ^ 32"
    using unat_less_2p [of "secs d"] unat_less_2p [of "usecs d"] by simp_all
  then have "time_us d < 2 ^ 63" by (simp add: time_us_def)
  moreover have "iperf_time_in_usecs d = word_of_int (int (time_us d))"
    by (simp flip: in_usecs_unat)
  ultimately show ?thesis
    using int_word_sint [of "int (time_us d)", where 'a = 64] by simp
qed

lemma tmr_timeout_rep:
  assumes rep: "timer_rep m xs fs" and srt: "timers_sorted m xs" and ok: "time_ok now" and ne: "xs \<noteq> []"
  shows "\<exists>s u. tmr_timeout (Some now) clk now0 m = Some (Some (s, u)) \<and> 0 \<le> s \<and> 0 \<le> u \<and> u < 1000000 \<and>
     s * 1000000 + u = int (Min (tkey m ` set xs) - time_us now)"
proof -
  obtain a ys where xs: "xs = a # ys" using ne by (cases xs) auto
  obtain r where r: "theap m a = Some r" using timer_rep_dom [OF rep, of a] xs by auto
  have oka: "time_ok (t_time r)" and key: "tkey m a = time_us (t_time r)"
    using rep r xs by (auto simp: timer_rep_def time_at_def tkey_def)
  have min: "Min (tkey m ` set xs) = tkey m a"
    using srt xs by (intro Min_eqI) (auto simp: timers_sorted_def)
  obtain d where d: "iperf_time_diff (t_time r) now = (if time_us (t_time r) \<le> time_us now then 1 else 0, d)"
    and dus: "int (time_us d) = \<bar>int (time_us (t_time r)) - int (time_us now)\<bar>"
    using diff_spec [OF oka ok] by metis
  define us where "us = int (time_us (t_time r) - time_us now)"
  have "tmr_timeout (Some now) clk now0 m = Some (Some (us div 1000000, us mod 1000000))"
    using rep r xs dus by (auto simp: tmr_timeout_def getnow_def timer_rep_def heap_simps d sint_in_usecs us_def Let_def)
  then show ?thesis by (auto simp: min key us_def)
qed

section \<open>Running the timers\<close>

definition us_at :: "('p, 'd) tmem \<Rightarrow> addr \<Rightarrow> nat" where
  "us_at m a = unat (t_usecs (the (theap m a)))"

definition per_at :: "('p, 'd) tmem \<Rightarrow> addr \<Rightarrow> bool" where
  "per_at m a \<longleftrightarrow> periodic (the (theap m a)) \<noteq> 0"

text \<open>Every repeating timer has a positive period and its next expiry does not wrap around.\<close>

definition periods_ok :: "iperf_time \<Rightarrow> ('p, 'd) tmem \<Rightarrow> addr set \<Rightarrow> bool" where
  "periods_ok now m A \<longleftrightarrow>
     (\<forall>a \<in> A. per_at m a \<longrightarrow> 0 < us_at m a \<and> time_us now + us_at m a < time_range)"

text \<open>The part of a timer that no operation of the package changes.\<close>

definition same_static :: "('p, 'd) tmem \<Rightarrow> ('p, 'd) tmem \<Rightarrow> addr set \<Rightarrow> bool" where
  "same_static m m' A \<longleftrightarrow> (\<forall>a \<in> A. us_at m' a = us_at m a \<and> per_at m' a = per_at m a)"

lemma same_objs_static:
  assumes "same_objs m m'" "\<And>a. a \<in> A \<Longrightarrow> theap m a \<noteq> None"
  shows "same_static m m' A"
  using assms same_data_time [of "theap m" "theap m'"]
  by (fastforce simp: same_static_def same_objs_def us_at_def per_at_def)

lemma periods_ok_static: "periods_ok now m A \<Longrightarrow> same_static m m' A \<Longrightarrow> periods_ok now m' A"
  by (auto simp: periods_ok_def same_static_def)

lemma periods_ok_mono: "periods_ok now m A \<Longrightarrow> B \<subseteq> A \<Longrightarrow> periods_ok now m B"
  by (auto simp: periods_ok_def)

text \<open>One visit of a due repeating timer: it moves behind every timer that is not later.\<close>

lemma reschedule_rep:
  assumes rep: "timer_rep m (ds @ a # rs) fs" and srt: "timers_sorted m (ds @ a # rs)"
    and r: "theap m a = Some r" and nw: "tkey m a + us_at m a < time_range"
  shows "\<exists>m'. Option.bind (store (Some a) (\<lambda>r. r\<lparr>t_time := iperf_time_add_usecs (t_time r) (t_usecs r)\<rparr>) m)
            (list_resort a) = Some m' \<and>
     timer_rep m' (ds @ ins_by (tkey m') a rs) fs \<and> timers_sorted m' (ds @ ins_by (tkey m') a rs) \<and>
     tkey m' a = tkey m a + us_at m a \<and> (\<forall>b \<in> set (ds @ rs). tkey m' b = tkey m b) \<and>
     same_static m m' (set (ds @ a # rs))"
proof -
  let ?tm = "iperf_time_add_usecs (t_time r) (t_usecs r)"
  let ?m = "m\<lparr>theap := (theap m)(a \<mapsto> r\<lparr>t_time := ?tm\<rparr>)\<rparr>"
  have a: "a \<notin> set (ds @ rs)" using rep by (auto simp: timer_rep_def)
  have oka: "time_ok (t_time r)" and key: "tkey m a = time_us (t_time r)"
    using rep r by (auto simp: timer_rep_def time_at_def tkey_def)
  have tm: "time_us ?tm = tkey m a + us_at m a"
    using nw oka r by (simp add: key us_at_def time_us_add_usecs)
  have rep1: "timer_rep ?m (ds @ a # rs) fs" using timer_rep_set_time [OF rep r] oka by simp
  have "map (tkey ?m) (ds @ rs) = map (tkey m) (ds @ rs)" using a by (auto simp: tkey_set_time)
  moreover have "sorted (map (tkey m) (ds @ rs))" using srt by (auto simp: timers_sorted_def sorted_append)
  ultimately have "sorted (map (tkey ?m) (ds @ rs))" by metis
  then obtain m' where m': "list_resort a ?m = Some m'" "timer_rep m' (ins_by (tkey ?m) a (ds @ rs)) fs"
    "same_objs ?m m'" "sorted (map (tkey m') (ins_by (tkey ?m) a (ds @ rs)))"
    using list_resort_sorted [OF rep1] by blast
  have dom: "theap ?m b \<noteq> None" if "b \<in> set (ds @ a # rs)" for b using timer_rep_dom [OF rep1] that by blast
  have k': "tkey m' b = tkey ?m b" if "b \<in> set (ds @ a # rs)" for b
    using same_objs_tkey [OF m'(3) dom [OF that]] .
  have "tkey ?m d \<le> tkey ?m a" if "d \<in> set ds" for d
    using srt that tm a by (auto simp: timers_sorted_def sorted_append tkey_set_time)
  then have "ins_by (tkey ?m) a (ds @ rs) = ds @ ins_by (tkey ?m) a rs"
    by (induction ds) (auto simp: ins_by_simps)
  also have "ins_by (tkey ?m) a rs = ins_by (tkey m') a rs" using k' by (intro ins_by_cong) auto
  finally have eq: "ins_by (tkey ?m) a (ds @ rs) = ds @ ins_by (tkey m') a rs" .
  have "same_static ?m m' (set (ds @ a # rs))" using same_objs_static [OF m'(3)] dom by blast
  then have st: "same_static m m' (set (ds @ a # rs))"
    using r by (auto simp: same_static_def us_at_def per_at_def split: if_splits)
  show ?thesis
    using m' eq k' tm a st r by (intro exI [of _ m']) (auto simp: heap_simps timers_sorted_def tkey_set_time)
qed

text \<open>
  What a pass of \<open>tmr_run\<close> does with one timer: a timer that is not due is left alone, a due
  one-shot timer is cancelled, a due repeating timer is pushed on by a positive multiple of
  its period.
\<close>

definition visited ::
  "iperf_time \<Rightarrow> ('p, 'd) tmem \<Rightarrow> ('p, 'd) tmem \<Rightarrow> addr list \<Rightarrow> addr list \<Rightarrow> addr \<Rightarrow> bool" where
  "visited now m m' ys gs a \<longleftrightarrow>
     (if time_us now < tkey m a then a \<in> set ys \<and> tkey m' a = tkey m a
      else if per_at m a then a \<in> set ys \<and> (\<exists>k \<ge> 1. tkey m' a = tkey m a + k * us_at m a)
      else a \<notin> set ys \<and> a \<in> set gs)"

definition run_weight :: "iperf_time \<Rightarrow> ('p, 'd) tmem \<Rightarrow> addr list \<Rightarrow> nat" where
  "run_weight now m rs = (\<Sum>a\<leftarrow>rs. if tkey m a \<le> time_us now then Suc (time_us now - tkey m a) else 0)"

lemma run_weight_Cons:
  "run_weight now m (a # rs) =
     (if tkey m a \<le> time_us now then Suc (time_us now - tkey m a) else 0) + run_weight now m rs"
  by (simp add: run_weight_def)

lemma run_weight_ins_by: "run_weight now m (ins_by k a rs) = run_weight now m (a # rs)"
  by (induction rs) (auto simp: ins_by_simps run_weight_def)

lemma run_weight_cong:
  "(\<And>a. a \<in> set rs \<Longrightarrow> tkey m' a = tkey m a) \<Longrightarrow> run_weight now m' rs = run_weight now m rs"
  unfolding run_weight_def by (rule arg_cong [where f = sum_list], rule map_cong) auto

lemma ins_by_split:
  "ins_by k a rs = a # rs \<or> rs \<noteq> [] \<and> fst_ptr (ins_by k a rs) None = fst_ptr rs None"
  by (cases rs) (auto simp: ins_by_simps)

lemma visited_unchanged:
  "visited now m1 m' ys gs a \<Longrightarrow> tkey m1 a = tkey m a \<Longrightarrow> same_static m m1 A \<Longrightarrow> a \<in> A \<Longrightarrow>
     visited now m m' ys gs a"
  by (auto simp: visited_def same_static_def split: if_splits)

lemma visited_pushed:
  assumes "visited now m1 m' ys gs a" "tkey m1 a = tkey m a + us_at m a" "same_static m m1 A" "a \<in> A"
    and "per_at m a" "\<not> time_us now < tkey m a"
  shows "visited now m m' ys gs a"
proof -
  have st: "per_at m1 a" "us_at m1 a = us_at m a" using assms by (auto simp: same_static_def)
  have "\<exists>k \<ge> 1. tkey m' a = tkey m a + k * us_at m a"
  proof (cases "time_us now < tkey m1 a")
    case True
    with assms show ?thesis by (intro exI [of _ 1]) (simp add: visited_def)
  next
    case False
    with assms(1) st obtain k where "tkey m' a = tkey m1 a + k * us_at m a" by (auto simp: visited_def)
    with assms(2) show ?thesis by (intro exI [of _ "Suc k"]) simp
  qed
  with assms st show ?thesis by (auto simp: visited_def split: if_splits)
qed

text \<open>
  The loop from the timer at the head of \<open>rs\<close> on, the timers \<open>ds\<close> being behind it: what holds
  before an iteration, and what the rest of the loop achieves.
\<close>

definition pass_pre :: "iperf_time \<Rightarrow> ('p, 'd) tmem \<Rightarrow> addr list \<Rightarrow> addr list \<Rightarrow> addr list \<Rightarrow> bool" where
  "pass_pre now m ds rs fs \<longleftrightarrow>
     timer_rep m (ds @ rs) fs \<and> timers_sorted m (ds @ rs) \<and> periods_ok now m (set rs)"

definition pass_post ::
  "iperf_time \<Rightarrow> ('p, 'd) tmem \<Rightarrow> addr list \<Rightarrow> addr list \<Rightarrow> addr list \<Rightarrow> ('p, 'd) tmem \<Rightarrow> addr list \<Rightarrow> addr list \<Rightarrow> bool" where
  "pass_post now m ds rs fs m' ys gs \<longleftrightarrow>
     timer_rep m' ys gs \<and> timers_sorted m' ys \<and> set fs \<subseteq> set gs \<and>
     (\<forall>a \<in> set ds. a \<in> set ys \<and> tkey m' a = tkey m a) \<and> (\<forall>a \<in> set rs. visited now m m' ys gs a)"

text \<open>A due one-shot timer is cancelled.\<close>

lemma run_step_oneshot:
  assumes pre: "pass_pre now m ds (a # rs) fs" and due: "\<not> time_us now < tkey m a" and one: "\<not> per_at m a"
  shows "\<exists>m1. tmr_cancel a m = Some m1 \<and> pass_pre now m1 ds rs (a # fs) \<and>
     run_weight now m1 rs < run_weight now m (a # rs) \<and>
     (\<forall>m' ys gs. pass_post now m1 ds rs (a # fs) m' ys gs \<longrightarrow> pass_post now m ds (a # rs) fs m' ys gs)"
proof -
  note rep = pre [unfolded pass_pre_def, THEN conjunct1]
  obtain m1 where m1: "tmr_cancel a m = Some m1" "timer_rep m1 (ds @ rs) (a # fs)" "same_objs m m1"
    using tmr_cancel_rep [OF rep] by blast
  have dom: "theap m b \<noteq> None" if "b \<in> set (ds @ a # rs)" for b using timer_rep_dom [OF rep] that by blast
  have keys: "tkey m1 b = tkey m b" if "b \<in> set (ds @ a # rs)" for b
    using same_objs_tkey [OF m1(3) dom [OF that]] .
  have st: "same_static m m1 (set (a # rs))" using dom by (intro same_objs_static [OF m1(3)]) auto
  have "map (tkey m1) (ds @ rs) = map (tkey m) (ds @ rs)" using keys by auto
  moreover have "sorted (map (tkey m) (ds @ rs))"
    using pre by (auto simp: pass_pre_def timers_sorted_def sorted_append)
  ultimately have "timers_sorted m1 (ds @ rs)" unfolding timers_sorted_def by metis
  moreover have "periods_ok now m1 (set rs)"
    using periods_ok_static [OF _ st] pre by (auto simp: pass_pre_def intro: periods_ok_mono)
  moreover have "run_weight now m1 rs < run_weight now m (a # rs)"
    using keys due run_weight_cong [of rs m1 m now] by (simp add: run_weight_Cons)
  moreover have "pass_post now m ds (a # rs) fs m' ys gs" if "pass_post now m1 ds rs (a # fs) m' ys gs" for m' ys gs
    using that keys st one due
    by (auto simp: pass_post_def timer_rep_def visited_def [of now m m' ys gs a] intro: visited_unchanged)
  ultimately show ?thesis using m1 by (auto simp: pass_pre_def)
qed

text \<open>A due repeating timer is rescheduled; it is met again only if its successor is not later.\<close>

lemma run_step_periodic:
  assumes pre: "pass_pre now m ds (a # rs) fs" and due: "\<not> time_us now < tkey m a" and per: "per_at m a"
    and r: "theap m a = Some r"
  shows "\<exists>m1 ds1 rs1. Option.bind (store (Some a) (\<lambda>r. r\<lparr>t_time := iperf_time_add_usecs (t_time r) (t_usecs r)\<rparr>) m)
            (list_resort a) = Some m1 \<and> fst_ptr rs1 None = fst_ptr rs None \<and>
     pass_pre now m1 ds1 rs1 fs \<and> run_weight now m1 rs1 < run_weight now m (a # rs) \<and>
     (\<forall>m' ys gs. pass_post now m1 ds1 rs1 fs m' ys gs \<longrightarrow> pass_post now m ds (a # rs) fs m' ys gs)"
proof -
  have rep: "timer_rep m (ds @ a # rs) fs" and srt: "timers_sorted m (ds @ a # rs)"
    using pre by (auto simp: pass_pre_def)
  have nw: "tkey m a + us_at m a < time_range" and pos: "0 < us_at m a"
    using pre per due by (auto simp: pass_pre_def periods_ok_def)
  obtain m1 where m1: "Option.bind (store (Some a) (\<lambda>r. r\<lparr>t_time := iperf_time_add_usecs (t_time r) (t_usecs r)\<rparr>) m)
            (list_resort a) = Some m1"
    and rep1: "timer_rep m1 (ds @ ins_by (tkey m1) a rs) fs" and srt1: "timers_sorted m1 (ds @ ins_by (tkey m1) a rs)"
    and key1: "tkey m1 a = tkey m a + us_at m a" and keys: "\<forall>b \<in> set (ds @ rs). tkey m1 b = tkey m b"
    and st: "same_static m m1 (set (ds @ a # rs))"
    using reschedule_rep [OF rep srt r nw] by blast
  have per1: "periods_ok now m1 (set (a # rs))"
    using pre st by (auto simp: pass_pre_def periods_ok_def same_static_def)
  have w: "run_weight now m1 (a # rs) < run_weight now m (a # rs)"
    using keys key1 pos due run_weight_cong [of rs m1 m now] by (auto simp: run_weight_Cons)
  have vis: "visited now m m' ys gs b" if "b \<in> set rs" "visited now m1 m' ys gs b" for b m' ys gs
    using that keys st by (auto intro: visited_unchanged)
  from ins_by_split [of "tkey m1" a rs] show ?thesis
  proof
    assume hd: "ins_by (tkey m1) a rs = a # rs"
    have "visited now m m' ys gs a" if "a \<in> set ys" "tkey m' a = tkey m1 a" for m' ys gs
      using that key1 per due by (auto simp: visited_def intro: exI [of _ 1])
    then have "pass_post now m ds (a # rs) fs m' ys gs" if "pass_post now m1 (ds @ [a]) rs fs m' ys gs" for m' ys gs
      using that vis [of _ m' ys gs] keys unfolding pass_post_def by auto
    moreover have "pass_pre now m1 (ds @ [a]) rs fs"
      using rep1 srt1 hd periods_ok_mono [OF per1, of "set rs"] by (auto simp: pass_pre_def)
    moreover have "run_weight now m1 rs < run_weight now m (a # rs)"
      using w by (simp add: run_weight_Cons [of now m1])
    ultimately show ?thesis using m1 by blast
  next
    assume hd: "rs \<noteq> [] \<and> fst_ptr (ins_by (tkey m1) a rs) None = fst_ptr rs None"
    have "visited now m m' ys gs a" if "visited now m1 m' ys gs a" for m' ys gs
      by (rule visited_pushed [OF that key1 st _ per due]) simp
    then have "pass_post now m ds (a # rs) fs m' ys gs"
      if "pass_post now m1 ds (ins_by (tkey m1) a rs) fs m' ys gs" for m' ys gs
      using that vis [of _ m' ys gs] keys unfolding pass_post_def by auto
    moreover have "pass_pre now m1 ds (ins_by (tkey m1) a rs) fs"
      using rep1 srt1 per1 by (simp add: pass_pre_def)
    moreover have "run_weight now m1 (ins_by (tkey m1) a rs) < run_weight now m (a # rs)"
      using w by (simp add: run_weight_ins_by)
    ultimately show ?thesis using m1 hd by blast
  qed
qed

text \<open>The callbacks may do anything but change the timer memory.\<close>

definition leaves_timers ::
  "('p \<Rightarrow> 'd \<Rightarrow> iperf_time \<Rightarrow> 's \<times> ('p, 'd) tmem \<Rightarrow> ('s \<times> ('p, 'd) tmem) option) \<Rightarrow> iperf_time \<Rightarrow> bool" where
  "leaves_timers call now \<longleftrightarrow> (\<forall>p d s m. \<exists>s'. call p d now (s, m) = Some (s', m))"

lemma tmr_run_loop_rep:
  assumes frame: "leaves_timers call now"
    and ok: "time_ok now" and "pass_pre now m ds rs fs"
  shows "\<exists>s' m' ys gs. tmr_run_loop call now (fst_ptr rs None) (s, m) = Some (s', m') \<and>
     pass_post now m ds rs fs m' ys gs"
  using assms(3)
proof (induction "run_weight now m rs" arbitrary: m ds rs fs s rule: less_induct)
  case less
  show ?case
  proof (cases rs)
    case Nil
    with less.prems show ?thesis
      by (subst tmr_run_loop.simps) (auto simp: pass_pre_def pass_post_def)
  next
    case (Cons a rs')
    note pre = less.prems [unfolded Cons] and rep = less.prems [unfolded pass_pre_def, THEN conjunct1]
    obtain r where r: "theap m a = Some r" using timer_rep_dom [OF rep, of a] Cons by auto
    have oka: "time_ok (t_time r)" and key: "tkey m a = time_us (t_time r)" and nxt: "t_next r = fst_ptr rs' None"
      using rep r Cons by (auto simp: timer_rep_def time_at_def tkey_def dseg_append)
    have cmp: "0 < iperf_time_compare (t_time r) now \<longleftrightarrow> time_us now < tkey m a"
      using oka ok by (simp add: iperf_time_simps key)
    obtain s1 where s1: "call (timer_proc r) (client_data r) now (s, m) = Some (s1, m)"
      using frame unfolding leaves_timers_def by blast
    consider "time_us now < tkey m a" | "\<not> time_us now < tkey m a" "\<not> per_at m a"
      | "\<not> time_us now < tkey m a" "per_at m a" by blast
    then show ?thesis
    proof cases
      case 1
      then have "time_us now < tkey m b" if "b \<in> set rs" for b
        using pre that Cons by (auto simp: pass_pre_def timers_sorted_def sorted_append)
      then have "pass_post now m ds rs fs m (ds @ rs) fs"
        using less.prems by (auto simp: pass_pre_def pass_post_def visited_def)
      moreover have "tmr_run_loop call now (fst_ptr rs None) (s, m) = Some (s, m)"
        using 1 r cmp Cons by (subst tmr_run_loop.simps) (simp add: heap_simps)
      ultimately show ?thesis by blast
    next
      case 2
      obtain m1 where m1: "tmr_cancel a m = Some m1" "pass_pre now m1 ds rs' (a # fs)"
        "run_weight now m1 rs' < run_weight now m rs"
        "\<And>m' ys gs. pass_post now m1 ds rs' (a # fs) m' ys gs \<Longrightarrow> pass_post now m ds rs fs m' ys gs"
        using run_step_oneshot [OF pre 2] Cons by blast
      have "tmr_run_loop call now (fst_ptr rs None) (s, m) = tmr_run_loop call now (fst_ptr rs' None) (s1, m1)"
        using m1(1) r s1 cmp 2 nxt Cons by (subst tmr_run_loop.simps) (simp add: heap_simps per_at_def)
      with less.hyps [OF m1(3,2)] m1(4) show ?thesis by metis
    next
      case 3
      obtain m1 ds1 rs1 where m1: "Option.bind (store (Some a) (\<lambda>r. r\<lparr>t_time := iperf_time_add_usecs (t_time r) (t_usecs r)\<rparr>) m)
            (list_resort a) = Some m1" "fst_ptr rs1 None = fst_ptr rs' None" "pass_pre now m1 ds1 rs1 fs"
        "run_weight now m1 rs1 < run_weight now m rs"
        "\<And>m' ys gs. pass_post now m1 ds1 rs1 fs m' ys gs \<Longrightarrow> pass_post now m ds rs fs m' ys gs"
        using run_step_periodic [OF pre 3 r] Cons by blast
      have "tmr_run_loop call now (fst_ptr rs None) (s, m) = tmr_run_loop call now (fst_ptr rs1 None) (s1, m1)"
        using m1(1,2) r s1 cmp 3 nxt Cons by (subst tmr_run_loop.simps) (simp add: heap_simps per_at_def)
      with less.hyps [OF m1(4,3)] m1(5) show ?thesis by metis
    qed
  qed
qed

end
