(* ===== verification/Timer_Props.thy ===== *)
theory Timer_Props
  imports Timer_Spec
begin

text \<open>
  The theorems about the timer package: what each operation does to the pending and free
  lists, the timeout it computes, a pass over the due timers, tear-down, and the two
  situations in which \<open>tmr_run\<close> goes wrong.
\<close>

section \<open>Tear-down\<close>

lemma tmr_cleanup_rep:
  assumes "timer_rep m xs fs"
  shows "\<exists>m'. tmr_cleanup m = Some m' \<and> timer_rep m' xs [] \<and>
     (\<forall>a. theap m' a = (if a \<in> set fs then None else theap m a))"
  using assms
proof (induction fs arbitrary: m)
  case Nil
  then show ?case by (subst tmr_cleanup.simps) (simp add: timer_rep_def)
next
  case (Cons f fs)
  obtain r where r: "theap m f = Some r" "t_next r = fst_ptr fs None"
    using Cons.prems by (auto simp: timer_rep_def split: option.splits)
  let ?m = "m\<lparr>free_timers := t_next r, theap := (theap m)(f := None)\<rparr>"
  have "timer_rep ?m xs fs"
    using Cons.prems r by (auto simp: timer_rep_def time_at_def)
  from Cons.IH [OF this] obtain m' where m': "tmr_cleanup ?m = Some m'" "timer_rep m' xs []"
    "\<forall>a. theap m' a = (if a \<in> set fs then None else theap ?m a)" by blast
  have "tmr_cleanup m = tmr_cleanup ?m"
    using Cons.prems r by (subst tmr_cleanup.simps) (simp add: timer_rep_def heap_simps)
  with m' show ?case by auto
qed

lemma tmr_destroy_loop_rep:
  assumes "timer_rep m xs fs"
  shows "\<exists>m'. tmr_destroy_loop m = Some m' \<and> timer_rep m' [] (rev xs @ fs) \<and> same_objs m m'"
  using assms
proof (induction xs arbitrary: m fs)
  case Nil
  then show ?case by (subst tmr_destroy_loop.simps) (simp add: timer_rep_def same_objs_def)
next
  case (Cons a xs)
  obtain m1 where m1: "tmr_cancel a m = Some m1" "timer_rep m1 xs (a # fs)" "same_objs m m1"
    using tmr_cancel_rep [of m "[]" a xs fs] Cons.prems by auto
  obtain m' where m': "tmr_destroy_loop m1 = Some m'" "timer_rep m' [] (rev xs @ a # fs)" "same_objs m1 m'"
    using Cons.IH [OF m1(2)] by blast
  have "tmr_destroy_loop m = tmr_destroy_loop m1"
    using Cons.prems m1(1) by (subst tmr_destroy_loop.simps) (simp add: timer_rep_def)
  with m' m1 show ?case using same_objs_trans by auto
qed

lemma tmr_destroy_rep:
  assumes rep: "timer_rep m xs fs"
  shows "\<exists>m'. tmr_destroy m = Some m' \<and> timers m' = None \<and> free_timers m' = None \<and>
     (\<forall>a. theap m' a = None \<longleftrightarrow> a \<in> set xs \<union> set fs \<or> theap m a = None)"
proof -
  obtain m1 where m1: "tmr_destroy_loop m = Some m1" "timer_rep m1 [] (rev xs @ fs)" "same_objs m m1"
    using tmr_destroy_loop_rep [OF rep] by blast
  obtain m2 where m2: "tmr_cleanup m1 = Some m2" "timer_rep m2 [] []"
    "\<forall>a. theap m2 a = (if a \<in> set (rev xs @ fs) then None else theap m1 a)"
    using tmr_cleanup_rep [OF m1(2)] by blast
  have "theap m1 a = None \<longleftrightarrow> theap m a = None" for a
    using m1(3) by (simp add: same_objs_def same_data_None)
  with m1 m2 show ?thesis by (intro exI [of _ m2]) (auto simp: tmr_destroy_def timer_rep_def)
qed

section \<open>Where a pass goes wrong\<close>

text \<open>
  A due one-shot timer whose callback cancels its successor: the loop goes on at the
  cancelled object and runs its callback too.
\<close>

lemma run_loop_stale_next:
  assumes rep: "timer_rep m (ds @ a # b # rs) fs" and ok: "time_ok now"
    and due: "tkey m a \<le> time_us now" "tkey m b \<le> time_us now" and one: "\<not> per_at m a"
    and ra: "theap m a = Some ra" and rb: "theap m b = Some rb"
    and cb: "tmr_cancel b m = Some m1" "call (timer_proc ra) (client_data ra) now (s, m) = Some (s1, m1)"
    and fault: "\<forall>m2. call (timer_proc rb) (client_data rb) now (s1, m2) = None"
  shows "tmr_run_loop call now (Some a) (s, m) = None"
proof -
  obtain m1' where m1: "tmr_cancel b m = Some m1'" "timer_rep m1' (ds @ a # rs) (b # fs)" "same_objs m m1'"
    using tmr_cancel_rep [of m "ds @ [a]" b rs fs] rep by auto
  with cb(1) have m1: "timer_rep m1 (ds @ a # rs) (b # fs)" "same_objs m m1" by auto
  obtain m2 where m2: "tmr_cancel a m1 = Some m2" "timer_rep m2 (ds @ rs) (a # b # fs)" "same_objs m1 m2"
    using tmr_cancel_rep [OF m1(1)] by blast
  obtain ra1 where ra1: "theap m1 a = Some ra1" "periodic ra1 = periodic ra"
    using same_data_time [OF m1(2) [unfolded same_objs_def] ra] by auto
  obtain rb2 where rb2: "theap m2 b = Some rb2" "t_time rb2 = t_time rb" "timer_proc rb2 = timer_proc rb"
    "client_data rb2 = client_data rb"
    using same_data_time [OF same_objs_trans [OF m1(2) m2(3), unfolded same_objs_def] rb] by auto
  have oks: "time_ok (t_time ra)" "time_ok (t_time rb)"
    using rep ra rb by (auto simp: timer_rep_def time_at_def)
  have "t_next ra = Some b" using rep ra by (simp add: timer_rep_def dseg_append)
  moreover have "tmr_run_loop call now (Some b) (s1, m2) = None"
    using rb2 fault due(2) oks(2) ok rb
    by (subst tmr_run_loop.simps) (simp add: heap_simps compare_pos tkey_def time_at_def)
  ultimately show ?thesis
    using ra ra1 cb(2) m2(1) due(1) oks(1) ok one
    by (subst tmr_run_loop.simps) (simp add: heap_simps compare_pos tkey_def time_at_def per_at_def)
qed

text \<open>Two repeating timers with period zero and the same due time chase each other for ever.\<close>

definition chasing :: "iperf_time \<Rightarrow> ('p, 'd) tmem \<Rightarrow> addr \<Rightarrow> addr \<Rightarrow> addr list \<Rightarrow> addr list \<Rightarrow> bool" where
  "chasing now m a b rs fs \<longleftrightarrow>
     timer_rep m (a # b # rs) fs \<and> timers_sorted m (a # b # rs) \<and> tkey m a = tkey m b \<and>
     (\<forall>c \<in> set rs. tkey m b < tkey m c) \<and> tkey m a \<le> time_us now \<and>
     per_at m a \<and> per_at m b \<and> us_at m a = 0 \<and> us_at m b = 0"

lemma chasing_step:
  assumes ch: "chasing now m a b rs fs" and r: "theap m a = Some r"
  shows "\<exists>m1. Option.bind (store (Some a) (\<lambda>r. r\<lparr>t_time := iperf_time_add_usecs (t_time r) (t_usecs r)\<rparr>) m)
            (list_resort a) = Some m1 \<and> chasing now m1 b a rs fs"
proof -
  have rep: "timer_rep m ([] @ a # b # rs) fs" and srt: "timers_sorted m ([] @ a # b # rs)"
    using ch by (auto simp: chasing_def)
  have "time_ok (time_at (theap m) a)" using rep by (auto simp: timer_rep_def)
  then have "tkey m a + us_at m a < time_range"
    using time_us_less [of "time_at (theap m) a"] ch by (simp add: chasing_def tkey_def)
  then obtain m1 where m1: "Option.bind (store (Some a) (\<lambda>r. r\<lparr>t_time := iperf_time_add_usecs (t_time r) (t_usecs r)\<rparr>) m)
            (list_resort a) = Some m1" "timer_rep m1 (ins_by (tkey m1) a (b # rs)) fs"
    "timers_sorted m1 (ins_by (tkey m1) a (b # rs))" "tkey m1 a = tkey m a + us_at m a"
    "\<forall>c \<in> set (b # rs). tkey m1 c = tkey m c" "same_static m m1 (set (a # b # rs))"
    using reschedule_rep [OF rep srt r] by auto
  have "ins_by (tkey m1) a (b # rs) = b # a # rs"
    using m1(4,5) ch by (cases rs) (auto simp: chasing_def ins_by_simps)
  with m1 ch show ?thesis by (intro exI [of _ m1]) (auto simp: chasing_def same_static_def)
qed

lemma chasing_diverges:
  assumes frame: "leaves_timers call now" and ok: "time_ok now"
    and ch: "chasing now m a b rs fs"
  shows "tmr_run_loop call now (Some a) (s, m) = None"
proof (rule ccontr)
  assume "tmr_run_loop call now (Some a) (s, m) \<noteq> None"
  then obtain res where res: "tmr_run_loop call now (Some a) (s, m) = Some res" by blast
  let ?P = "\<lambda>c n t sm r. c = call \<longrightarrow> n = now \<longrightarrow>
     \<not> (\<exists>a b s m. t = Some a \<and> sm = (s, m) \<and> chasing now m a b rs fs)"
  have "?P call now (Some a) (s, m) res"
  proof (rule tmr_run_loop.raw_induct [where P = ?P, OF _ res], intro impI notI, elim exE conjE)
    fix f c n t sm r a b s m
    assume IH: "\<And>c n t sm r. f c n t sm = Some r \<Longrightarrow> ?P c n t sm r"
      and body: "(case t of None \<Rightarrow> Some sm
          | Some a \<Rightarrow> do {
              r \<leftarrow> load (snd sm) t;
              if 0 < iperf_time_compare (t_time r) n then Some sm
              else do {
                sm' \<leftarrow> c (timer_proc r) (client_data r) n sm;
                r' \<leftarrow> load (snd sm') t;
                m \<leftarrow> (if periodic r' \<noteq> 0 then do {
                         m \<leftarrow> store t (\<lambda>r. r\<lparr>t_time := iperf_time_add_usecs (t_time r) (t_usecs r)\<rparr>) (snd sm');
                         list_resort a m
                       }
                       else tmr_cancel a (snd sm'));
                f c n (t_next r) (fst sm', m)
              }
            }) = Some r"
      and eqs: "c = call" "n = now" "t = Some a" "sm = (s, m)" and ch: "chasing now m a b rs fs"
    obtain ra where ra: "theap m a = Some ra" "t_next ra = Some b"
      using ch by (auto simp: chasing_def timer_rep_def split: option.splits)
    have cmp: "\<not> 0 < iperf_time_compare (t_time ra) now"
      using ch ra ok by (simp add: chasing_def compare_pos tkey_def timer_rep_def time_at_def)
    obtain s1 where s1: "call (timer_proc ra) (client_data ra) now (s, m) = Some (s1, m)"
      using frame unfolding leaves_timers_def by blast
    obtain m1 where m1: "Option.bind (store (Some a) (\<lambda>r. r\<lparr>t_time := iperf_time_add_usecs (t_time r) (t_usecs r)\<rparr>) m)
            (list_resort a) = Some m1" "chasing now m1 b a rs fs"
      using chasing_step [OF ch ra(1)] by blast
    have per: "periodic ra \<noteq> 0" using ch ra by (simp add: chasing_def per_at_def)
    have "f call now (Some b) (s1, m1) = Some r"
      using body cmp ra s1 m1(1) per eqs by (simp add: heap_simps)
    with IH m1(2) show False by blast
  qed
  with ch show False by blast
qed

section \<open>A sample state\<close>

text \<open>A repeating timer due at 10.5 s, a one-shot timer due at 11 s, and one free object.\<close>

definition sample_mem :: "(nat, nat) tmem" where
  "sample_mem = \<lparr>theap = [1 \<mapsto> \<lparr>timer_proc = 7, client_data = 70, t_usecs = 400000, periodic = 1,
        t_time = \<lparr>secs = 10, usecs = 500000\<rparr>, t_prev = None, t_next = Some 2\<rparr>,
      2 \<mapsto> \<lparr>timer_proc = 8, client_data = 80, t_usecs = 1000000, periodic = 0,
        t_time = \<lparr>secs = 11, usecs = 0\<rparr>, t_prev = Some 1, t_next = None\<rparr>,
      3 \<mapsto> \<lparr>timer_proc = 0, client_data = 0, t_usecs = 0, periodic = 0,
        t_time = \<lparr>secs = 0, usecs = 0\<rparr>, t_prev = None, t_next = None\<rparr>],
      timers = Some 1, free_timers = Some 3\<rparr>"

lemma sample_rep: "timer_rep sample_mem [1, 2] [3]" "timers_sorted sample_mem [1, 2]"
  by (simp_all add: sample_mem_def timer_rep_def timers_sorted_def tkey_def time_at_def time_ok_def time_us_def)

text \<open>The object at address 3 taken off the free list, to be linked.\<close>

definition sample_loose :: "(nat, nat) tmem" where
  "sample_loose = sample_mem\<lparr>free_timers := None\<rparr>"

lemma sample_loose_rep: "timer_rep sample_loose [1, 2] []" "timers_sorted sample_loose [1, 2]" "detached sample_loose 3"
  using sample_rep
  by (simp_all add: sample_loose_def timer_rep_def timers_sorted_def detached_def tkey_def)
    (simp_all add: sample_mem_def time_at_def)

section \<open>Properties\<close>

text \<open>
  \<open>list_add\<close> inserts a timer into the doubly linked list behind every timer that is not
  later than it: it dereferences no null or dangling pointer, returns, keeps all timer data,
  and the list is again well linked in both directions and sorted.
\<close>

theorem list_add_inserts_sorted:
  assumes "timer_rep m xs fs" "timers_sorted m xs" "detached m t" "t \<notin> set xs \<union> set fs"
  shows "\<exists>m'. list_add t m = Some m' \<and> timer_rep m' (ins_by (tkey m) t xs) fs \<and>
           timers_sorted m' (ins_by (tkey m) t xs) \<and> same_objs m m'"
  using list_add_rep [OF assms(1,3,4)] timers_sorted_add [OF assms(1,3,4,2)] by blast

theorem list_add_inserts_sorted_witness:
  "\<exists>m'. list_add 3 sample_loose = Some m' \<and> timer_rep m' (ins_by (tkey sample_loose) 3 [1, 2]) [] \<and>
     timers_sorted m' (ins_by (tkey sample_loose) 3 [1, 2]) \<and> same_objs sample_loose m'"
  using list_add_inserts_sorted [OF sample_loose_rep] by simp

text \<open>
  (C26) \<open>tmr_create\<close> with a free object or a successful \<open>malloc\<close> returns that object, no
  longer free, as a pending timer due \<open>usecs\<close> after \<open>now\<close>; the other pending timers keep
  their times and the list stays sorted.
\<close>

theorem tmr_create_schedules:
  assumes "timer_rep m xs fs" "timers_sorted m xs" "time_ok now"
    and "\<And>t. fresh = Some t \<Longrightarrow> theap m t = None" and "fst_ptr fs fresh = Some t"
  shows "\<exists>m' ys. tmr_create (Some now) clk now0 fresh pr cd us per m = Some (Some t, m') \<and>
     timer_rep m' ys (tl fs) \<and> timers_sorted m' ys \<and> set ys = insert t (set xs) \<and> t \<notin> set xs \<and>
     tkey m' t = (time_us now + unat us) mod time_range \<and> (\<forall>a \<in> set xs. tkey m' a = tkey m a)"
  using tmr_create_rep [OF assms, of clk now0 pr cd us per] unfolding time_us_add_usecs_mod [OF assms(3)] by blast

theorem tmr_create_schedules_witness:
  "\<exists>m' ys. tmr_create (Some \<lparr>secs = 10, usecs = 0\<rparr>) (0, 0, 0) \<lparr>secs = 0, usecs = 0\<rparr> None 9 90 600000 0 sample_mem
       = Some (Some 3, m') \<and>
     timer_rep m' ys [] \<and> timers_sorted m' ys \<and> set ys = {3, 1, 2} \<and> tkey m' 3 = 10600000"
proof -
  have ok: "time_ok \<lparr>secs = 10, usecs = 0\<rparr>" by (simp add: time_ok_def)
  show ?thesis
    using tmr_create_schedules [OF sample_rep ok, of None 3 "(0, 0, 0)" "\<lparr>secs = 0, usecs = 0\<rparr>" 9 90 600000 0]
    by (auto simp: time_us_def)
qed

text \<open>
  \<open>tmr_cancel\<close> takes a pending timer out of the list, keeping the order of the others,
  and puts its object on the free list.
\<close>

theorem tmr_cancel_unschedules:
  assumes "timer_rep m (as @ t # bs) fs"
  shows "\<exists>m'. tmr_cancel t m = Some m' \<and> timer_rep m' (as @ bs) (t # fs) \<and> same_objs m m'"
  by (rule tmr_cancel_rep [OF assms])

theorem tmr_cancel_unschedules_witness:
  "\<exists>m'. tmr_cancel 1 sample_mem = Some m' \<and> timer_rep m' [2] [1, 3] \<and> same_objs sample_mem m'"
  using tmr_cancel_unschedules [of sample_mem "[]" 1 "[2]" "[3]"] sample_rep(1) by simp

text \<open>
  \<open>tmr_reset\<close> restarts a pending timer at \<open>now\<close> plus its own period and moves it to its
  place; the other timers and the free list are as before.
\<close>

theorem tmr_reset_restarts:
  assumes "timer_rep m (as @ t # bs) fs" "timers_sorted m (as @ bs)" "time_ok now" "theap m t = Some r"
  shows "\<exists>m' ys. tmr_reset (Some now) clk now0 t m = Some m' \<and> timer_rep m' ys fs \<and> timers_sorted m' ys \<and>
     set ys = set (as @ t # bs) \<and> tkey m' t = (time_us now + unat (t_usecs r)) mod time_range \<and>
     (\<forall>a \<in> set (as @ bs). tkey m' a = tkey m a)"
  using tmr_reset_rep [OF assms(1,3,4,2)] time_us_add_usecs_mod [OF assms(3)] by simp

theorem tmr_reset_restarts_witness:
  "\<exists>m' ys. tmr_reset (Some \<lparr>secs = 10, usecs = 900000\<rparr>) (0, 0, 0) \<lparr>secs = 0, usecs = 0\<rparr> 1 sample_mem = Some m' \<and>
     timer_rep m' ys [3] \<and> timers_sorted m' ys \<and> set ys = {1, 2} \<and> tkey m' 1 = 11300000"
proof -
  have rep: "timer_rep sample_mem ([] @ 1 # [2]) [3]" using sample_rep by simp
  have srt: "timers_sorted sample_mem ([] @ [2])" by (simp add: timers_sorted_def)
  obtain r where r: "theap sample_mem 1 = Some r" "t_usecs r = 400000" by (simp add: sample_mem_def)
  show ?thesis
    using tmr_reset_restarts [OF rep srt _ r(1), of "\<lparr>secs = 10, usecs = 900000\<rparr>" "(0, 0, 0)" "\<lparr>secs = 0, usecs = 0\<rparr>"] r(2)
    by (auto simp: time_ok_def time_us_def)
qed

text \<open>
  (C27) \<open>tmr_timeout\<close> returns \<open>NULL\<close> exactly when no timer is pending, and otherwise the
  time from now to the earliest expiry (zero when it is past) as normalised seconds and
  microseconds: the timeout given to \<open>select\<close> never lets a timer expire unnoticed.
\<close>

theorem tmr_timeout_earliest:
  assumes "timer_rep m xs fs" "timers_sorted m xs" "time_ok now"
  shows "if xs = [] then tmr_timeout (Some now) clk now0 m = Some None
     else \<exists>s u. tmr_timeout (Some now) clk now0 m = Some (Some (s, u)) \<and> 0 \<le> s \<and> 0 \<le> u \<and> u < 1000000 \<and>
       s * 1000000 + u = int (Min (tkey m ` set xs) - time_us now)"
  using tmr_timeout_rep [OF assms] assms(1) by (auto simp: tmr_timeout_def timer_rep_def)

theorem tmr_timeout_earliest_witness:
  "\<exists>s u. tmr_timeout (Some \<lparr>secs = 9, usecs = 100000\<rparr>) (0, 0, 0) \<lparr>secs = 0, usecs = 0\<rparr> sample_mem = Some (Some (s, u)) \<and>
     s * 1000000 + u = 1400000"
  using tmr_timeout_earliest [OF sample_rep, of "\<lparr>secs = 9, usecs = 100000\<rparr>" "(0, 0, 0)" "\<lparr>secs = 0, usecs = 0\<rparr>"]
  by (auto simp: time_ok_def time_us_def tkey_def time_at_def sample_mem_def)



text \<open>
  (C28) \<open>tmr_destroy\<close> cancels every pending timer and releases every object of both lists,
  and nothing else.
\<close>

theorem tmr_destroy_releases:
  assumes "timer_rep m xs fs"
  shows "\<exists>m'. tmr_destroy m = Some m' \<and> timers m' = None \<and> free_timers m' = None \<and>
     (\<forall>a. theap m' a = None \<longleftrightarrow> a \<in> set xs \<union> set fs \<or> theap m a = None)"
  by (rule tmr_destroy_rep [OF assms])

theorem tmr_destroy_releases_witness:
  "\<exists>m'. tmr_destroy sample_mem = Some m' \<and> timers m' = None \<and> free_timers m' = None \<and>
     (\<forall>a. theap m' a = None \<longleftrightarrow> a \<in> set [1, 2] \<union> set [3] \<or> theap sample_mem a = None)"
  by (rule tmr_destroy_releases [OF sample_rep(1)])

text \<open>
  A callback that cancels the timer next in the list (as freeing a stream from
  \<open>server_timer_proc\<close> does) does not stop that timer: the loop has already fetched its
  address, so its callback is invoked on the released object, and if that callback cannot
  run any more the whole pass fails.
\<close>

theorem tmr_run_runs_cancelled_timer:
  assumes "timer_rep m (a # b # rs) fs" "time_ok now" "tkey m a \<le> time_us now" "tkey m b \<le> time_us now"
    and "\<not> per_at m a" "theap m a = Some ra" "theap m b = Some rb" "tmr_cancel b m = Some m1"
    and "call (timer_proc ra) (client_data ra) now (s, m) = Some (s1, m1)"
    and "\<forall>m2. call (timer_proc rb) (client_data rb) now (s1, m2) = None"
  shows "tmr_run call (Some now) clk now0 (s, m) = None"
proof -
  have "timer_rep m ([] @ a # b # rs) fs" using assms(1) by simp
  then have "tmr_run_loop call now (Some a) (s, m) = None"
    by (rule run_loop_stale_next [where call = call]) (fact assms)+
  with assms(1) show ?thesis by (simp add: tmr_run_def getnow_def timer_rep_def)
qed

theorem tmr_run_runs_cancelled_timer_witness:
  "tmr_run (\<lambda>p d now sm. if p = 7 then map_option (\<lambda>m. (True, m)) (tmr_cancel 2 (snd sm))
                          else if fst sm then None else Some sm)
     (Some \<lparr>secs = 12, usecs = 0\<rparr>) (0, 0, 0) \<lparr>secs = 0, usecs = 0\<rparr>
     (False, sample_mem\<lparr>theap := (theap sample_mem)(1 \<mapsto> (the (theap sample_mem 1))\<lparr>periodic := 0\<rparr>)\<rparr>) = None"
  (is "tmr_run ?call _ _ _ (_, ?m) = None")
proof -
  let ?ra = "the (theap ?m 1)" and ?rb = "the (theap ?m 2)" and ?now = "\<lparr>secs = 12, usecs = 0\<rparr>"
  have rep: "timer_rep ?m (1 # 2 # []) [3]"
    by (simp add: sample_mem_def timer_rep_def time_at_def time_ok_def)
  obtain m1 where m1: "tmr_cancel 2 ?m = Some m1"
    using tmr_cancel_rep [of ?m "[1]" 2 "[]" "[3]"] rep by auto
  have p: "timer_proc ?ra = 7" "timer_proc ?rb = 8" by (simp_all add: sample_mem_def)
  show ?thesis
    by (rule tmr_run_runs_cancelled_timer [OF rep _ _ _ _ _ _ m1, of ?now ?ra ?rb ?call False True])
      (use m1 p in \<open>simp_all add: sample_mem_def time_ok_def tkey_def time_at_def time_us_def per_at_def\<close>)
qed

text \<open>
  Two repeating timers with period zero that are due at the same instant make a pass of
  \<open>tmr_run\<close> run for ever: each is re-inserted behind the other.
\<close>

theorem tmr_run_zero_period_diverges:
  assumes "leaves_timers call now"
    and "time_ok now" "chasing now m a b rs fs"
  shows "tmr_run call (Some now) clk now0 (s, m) = None"
  using chasing_diverges [OF assms] assms(3)
  by (simp add: tmr_run_def getnow_def chasing_def timer_rep_def)

theorem tmr_run_zero_period_diverges_witness:
  "tmr_run (\<lambda>p d now sm. Some sm) (Some \<lparr>secs = 12, usecs = 0\<rparr>) (0, 0, 0) \<lparr>secs = 0, usecs = 0\<rparr>
     ((), \<lparr>theap = [1 \<mapsto> \<lparr>timer_proc = (), client_data = (), t_usecs = 0, periodic = 1,
              t_time = \<lparr>secs = 11, usecs = 0\<rparr>, t_prev = None, t_next = Some 2\<rparr>,
            2 \<mapsto> \<lparr>timer_proc = (), client_data = (), t_usecs = 0, periodic = 1,
              t_time = \<lparr>secs = 11, usecs = 0\<rparr>, t_prev = Some 1, t_next = None\<rparr>],
          timers = Some 1, free_timers = None\<rparr>) = None"
  by (rule tmr_run_zero_period_diverges [where a = 1 and b = 2 and rs = "[]" and fs = "[]"])
    (simp_all add: leaves_timers_def chasing_def timer_rep_def timers_sorted_def tkey_def time_at_def
      time_ok_def time_us_def per_at_def us_at_def)

end
