(* ===== verification/Iperf_Error.thy ===== *)
theory Iperf_Error
  imports Prelude
begin

text \<open>
  The error numbers of the library (the anonymous enum of \<open>iperf_api.h\<close>). \<open>i_errno\<close> is an
  \<open>int\<close>, and the number is what the control connection carries.
\<close>

definition IENONE :: int where "IENONE = 0"
definition IESERVCLIENT :: int where "IESERVCLIENT = 1"
definition IENOROLE :: int where "IENOROLE = 2"
definition IESERVERONLY :: int where "IESERVERONLY = 3"
definition IECLIENTONLY :: int where "IECLIENTONLY = 4"
definition IEDURATION :: int where "IEDURATION = 5"
definition IENUMSTREAMS :: int where "IENUMSTREAMS = 6"
definition IEBLOCKSIZE :: int where "IEBLOCKSIZE = 7"
definition IEBUFSIZE :: int where "IEBUFSIZE = 8"
definition IEINTERVAL :: int where "IEINTERVAL = 9"
definition IEMSS :: int where "IEMSS = 10"
definition IENOSENDFILE :: int where "IENOSENDFILE = 11"
definition IEOMIT :: int where "IEOMIT = 12"
definition IEUNIMP :: int where "IEUNIMP = 13"
definition IEFILE :: int where "IEFILE = 14"
definition IEBURST :: int where "IEBURST = 15"
definition IEENDCONDITIONS :: int where "IEENDCONDITIONS = 16"
definition IELOGFILE :: int where "IELOGFILE = 17"
definition IENOSCTP :: int where "IENOSCTP = 18"
definition IEBIND :: int where "IEBIND = 19"
definition IEUDPBLOCKSIZE :: int where "IEUDPBLOCKSIZE = 20"
definition IEBADTOS :: int where "IEBADTOS = 21"
definition IESETCLIENTAUTH :: int where "IESETCLIENTAUTH = 22"
definition IESETSERVERAUTH :: int where "IESETSERVERAUTH = 23"
definition IEBADFORMAT :: int where "IEBADFORMAT = 24"
definition IEREVERSEBIDIR :: int where "IEREVERSEBIDIR = 25"
definition IEBADPORT :: int where "IEBADPORT = 26"
definition IENEWTEST :: int where "IENEWTEST = 100"
definition IEINITTEST :: int where "IEINITTEST = 101"
definition IELISTEN :: int where "IELISTEN = 102"
definition IECONNECT :: int where "IECONNECT = 103"
definition IEACCEPT :: int where "IEACCEPT = 104"
definition IESENDCOOKIE :: int where "IESENDCOOKIE = 105"
definition IERECVCOOKIE :: int where "IERECVCOOKIE = 106"
definition IECTRLWRITE :: int where "IECTRLWRITE = 107"
definition IECTRLREAD :: int where "IECTRLREAD = 108"
definition IECTRLCLOSE :: int where "IECTRLCLOSE = 109"
definition IEMESSAGE :: int where "IEMESSAGE = 110"
definition IESENDMESSAGE :: int where "IESENDMESSAGE = 111"
definition IERECVMESSAGE :: int where "IERECVMESSAGE = 112"
definition IESENDPARAMS :: int where "IESENDPARAMS = 113"
definition IERECVPARAMS :: int where "IERECVPARAMS = 114"
definition IEPACKAGERESULTS :: int where "IEPACKAGERESULTS = 115"
definition IESENDRESULTS :: int where "IESENDRESULTS = 116"
definition IERECVRESULTS :: int where "IERECVRESULTS = 117"
definition IESELECT :: int where "IESELECT = 118"
definition IECLIENTTERM :: int where "IECLIENTTERM = 119"
definition IESERVERTERM :: int where "IESERVERTERM = 120"
definition IEACCESSDENIED :: int where "IEACCESSDENIED = 121"
definition IESETNODELAY :: int where "IESETNODELAY = 122"
definition IESETMSS :: int where "IESETMSS = 123"
definition IESETBUF :: int where "IESETBUF = 124"
definition IESETTOS :: int where "IESETTOS = 125"
definition IESETCOS :: int where "IESETCOS = 126"
definition IESETFLOW :: int where "IESETFLOW = 127"
definition IEREUSEADDR :: int where "IEREUSEADDR = 128"
definition IENONBLOCKING :: int where "IENONBLOCKING = 129"
definition IESETWINDOWSIZE :: int where "IESETWINDOWSIZE = 130"
definition IEPROTOCOL :: int where "IEPROTOCOL = 131"
definition IEAFFINITY :: int where "IEAFFINITY = 132"
definition IEDAEMON :: int where "IEDAEMON = 133"
definition IESETCONGESTION :: int where "IESETCONGESTION = 134"
definition IEPIDFILE :: int where "IEPIDFILE = 135"
definition IEV6ONLY :: int where "IEV6ONLY = 136"
definition IESETSCTPDISABLEFRAG :: int where "IESETSCTPDISABLEFRAG = 137"
definition IESETSCTPNSTREAM :: int where "IESETSCTPNSTREAM = 138"
definition IESETSCTPBINDX :: int where "IESETSCTPBINDX = 139"
definition IESETPACING :: int where "IESETPACING = 140"
definition IESETBUF2 :: int where "IESETBUF2 = 141"
definition IEAUTHTEST :: int where "IEAUTHTEST = 142"
definition IECREATESTREAM :: int where "IECREATESTREAM = 200"
definition IEINITSTREAM :: int where "IEINITSTREAM = 201"
definition IESTREAMLISTEN :: int where "IESTREAMLISTEN = 202"
definition IESTREAMCONNECT :: int where "IESTREAMCONNECT = 203"
definition IESTREAMACCEPT :: int where "IESTREAMACCEPT = 204"
definition IESTREAMWRITE :: int where "IESTREAMWRITE = 205"
definition IESTREAMREAD :: int where "IESTREAMREAD = 206"
definition IESTREAMCLOSE :: int where "IESTREAMCLOSE = 207"
definition IESTREAMID :: int where "IESTREAMID = 208"
definition IENEWTIMER :: int where "IENEWTIMER = 300"
definition IEUPDATETIMER :: int where "IEUPDATETIMER = 301"

lemmas ierr_defs =
  IENONE_def IESERVCLIENT_def IENOROLE_def IESERVERONLY_def IECLIENTONLY_def IEDURATION_def
  IENUMSTREAMS_def IEBLOCKSIZE_def IEBUFSIZE_def IEINTERVAL_def IEMSS_def IENOSENDFILE_def IEOMIT_def
  IEUNIMP_def IEFILE_def IEBURST_def IEENDCONDITIONS_def IELOGFILE_def IENOSCTP_def IEBIND_def
  IEUDPBLOCKSIZE_def IEBADTOS_def IESETCLIENTAUTH_def IESETSERVERAUTH_def IEBADFORMAT_def
  IEREVERSEBIDIR_def IEBADPORT_def IENEWTEST_def IEINITTEST_def IELISTEN_def IECONNECT_def IEACCEPT_def
  IESENDCOOKIE_def IERECVCOOKIE_def IECTRLWRITE_def IECTRLREAD_def IECTRLCLOSE_def IEMESSAGE_def
  IESENDMESSAGE_def IERECVMESSAGE_def IESENDPARAMS_def IERECVPARAMS_def IEPACKAGERESULTS_def
  IESENDRESULTS_def IERECVRESULTS_def IESELECT_def IECLIENTTERM_def IESERVERTERM_def IEACCESSDENIED_def
  IESETNODELAY_def IESETMSS_def IESETBUF_def IESETTOS_def IESETCOS_def IESETFLOW_def IEREUSEADDR_def
  IENONBLOCKING_def IESETWINDOWSIZE_def IEPROTOCOL_def IEAFFINITY_def IEDAEMON_def IESETCONGESTION_def
  IEPIDFILE_def IEV6ONLY_def IESETSCTPDISABLEFRAG_def IESETSCTPNSTREAM_def IESETSCTPBINDX_def
  IESETPACING_def IESETBUF2_def IEAUTHTEST_def IECREATESTREAM_def IEINITSTREAM_def IESTREAMLISTEN_def
  IESTREAMCONNECT_def IESTREAMACCEPT_def IESTREAMWRITE_def IESTREAMREAD_def IESTREAMCLOSE_def
  IESTREAMID_def IENEWTIMER_def IEUPDATETIMER_def

end
