(* ===== verification/Sys.thy ===== *)
theory Sys
  imports Iperf_Error Iperf_Time "HOL-Library.State_Monad"
begin

text \<open>
  The operating system as a parameter. Every system call the program makes is a field of the
  record \<open>kernel\<close>: a function of the call's arguments and the state \<open>'w\<close> of the outside
  world. Nothing is assumed about these functions here; what a theorem relies on is a named
  hypothesis (\<open>read_bounded\<close>, \<open>write_bounded\<close>). The program's side of the interface is the
  record \<open>sys\<close>: the world, the C variables \<open>errno\<close>, \<open>gerror\<close> and \<open>i_errno\<close>, and a log of the
  resources acquired and released and of the bytes written, which the code itself never
  reads. C functions are written in the state monad of the library.
\<close>

section \<open>Results of system calls\<close>

datatype 'a sysret = Fail int | Ok 'a

text \<open>Values of \<open>errno\<close> the code distinguishes (Linux numbering; \<open>EWOULDBLOCK = EAGAIN\<close>).\<close>

definition EINTR :: int where "EINTR = 4"
definition EBADF :: int where "EBADF = 9"
definition EAGAIN :: int where "EAGAIN = 11"
definition ENOMEM :: int where "ENOMEM = 12"
definition EAFNOSUPPORT :: int where "EAFNOSUPPORT = 97"
definition ENOBUFS :: int where "ENOBUFS = 105"
definition ETIMEDOUT :: int where "ETIMEDOUT = 110"
definition EINPROGRESS :: int where "EINPROGRESS = 115"

lemmas errno_defs = EINTR_def EBADF_def EAGAIN_def ENOMEM_def EAFNOSUPPORT_def ENOBUFS_def ETIMEDOUT_def EINPROGRESS_def

definition AF_UNSPEC :: int where "AF_UNSPEC = 0"
definition AF_INET :: int where "AF_INET = 2"
definition AF_INET6 :: int where "AF_INET6 = 10"

definition SOCK_STREAM :: int where "SOCK_STREAM = 1"
definition SOCK_DGRAM :: int where "SOCK_DGRAM = 2"

lemmas sock_defs = AF_UNSPEC_def AF_INET_def AF_INET6_def SOCK_STREAM_def SOCK_DGRAM_def

record sockaddr =
  sa_family :: int
  sa_port :: int
  sa_addr :: "u8 list"

record addrinfo =
  ai_id :: nat
  ai_family :: int
  ai_addr :: sockaddr

record hints =
  h_family :: int
  h_socktype :: int
  h_passive :: bool

text \<open>Socket options, named by their level and option constants.\<close>

datatype sockopt =
    SO_REUSEADDR | SO_RCVBUF | SO_SNDBUF | SO_ERROR | SO_RCVTIMEO | IPV6_V6ONLY | IPV6_TCLASS | IP_TOS
  | TCP_NODELAY | TCP_MAXSEG

text \<open>The fields of the kernel's \<open>struct tcp_info\<close> the program reads.\<close>

record tcp_info =
  tcpi_total_retrans :: u32
  tcpi_snd_cwnd :: u32
  tcpi_snd_mss :: u32
  tcpi_rtt :: u32
  tcpi_rttvar :: u32
  tcpi_pmtu :: u32

text \<open>
  \<open>k_clock\<close> is \<open>clock_gettime\<close>: its return value and the two fields it stores. \<open>k_uninit\<close> is
  what an uninitialised local of type \<open>struct iperf_time\<close> happens to hold, which matters only
  when the clock cannot be read, and \<open>k_garbage\<close> the bytes of an uninitialised buffer, which
  matter when a read falls short. \<open>k_malloc\<close> says whether an allocation succeeds, \<open>k_select\<close>
  which of the descriptors are ready and how many, and the time that is left, as Linux stores it in the timeout, \<open>k_tcpinfo\<close> is \<open>getsockopt\<close> with \<open>TCP_INFO\<close>,
  \<open>k_cpu\<close> gives \<open>clock\<close> and the user and system times of \<open>getrusage\<close> in microseconds,
  \<open>k_random\<close> reads \<open>/dev/urandom\<close>, and \<open>k_cast\<close> is the value the processor produces when a
  double that is infinite or out of range is converted to \<open>uint64_t\<close>.
\<close>

record 'w kernel =
  k_read :: "int \<Rightarrow> nat \<Rightarrow> 'w \<Rightarrow> u8 list sysret \<times> 'w"
  k_write :: "int \<Rightarrow> u8 list \<Rightarrow> 'w \<Rightarrow> nat sysret \<times> 'w"
  k_sendfile :: "int \<Rightarrow> int \<Rightarrow> nat \<Rightarrow> nat \<Rightarrow> 'w \<Rightarrow> nat sysret \<times> 'w"
  k_close :: "int \<Rightarrow> 'w \<Rightarrow> unit sysret \<times> 'w"
  k_socket :: "int \<Rightarrow> int \<Rightarrow> 'w \<Rightarrow> int sysret \<times> 'w"
  k_bind :: "int \<Rightarrow> sockaddr \<Rightarrow> 'w \<Rightarrow> unit sysret \<times> 'w"
  k_connect :: "int \<Rightarrow> sockaddr \<Rightarrow> 'w \<Rightarrow> unit sysret \<times> 'w"
  k_listen :: "int \<Rightarrow> 'w \<Rightarrow> unit sysret \<times> 'w"
  k_accept :: "int \<Rightarrow> 'w \<Rightarrow> int sysret \<times> 'w"
  k_recvfrom :: "int \<Rightarrow> nat \<Rightarrow> 'w \<Rightarrow> (u8 list \<times> sockaddr) sysret \<times> 'w"
  k_setsockopt :: "int \<Rightarrow> sockopt \<Rightarrow> int \<Rightarrow> 'w \<Rightarrow> unit sysret \<times> 'w"
  k_getsockopt :: "int \<Rightarrow> sockopt \<Rightarrow> 'w \<Rightarrow> int sysret \<times> 'w"
  k_getfl :: "int \<Rightarrow> 'w \<Rightarrow> u32 sysret \<times> 'w"
  k_setfl :: "int \<Rightarrow> u32 \<Rightarrow> 'w \<Rightarrow> unit sysret \<times> 'w"
  k_poll :: "int \<Rightarrow> int \<Rightarrow> 'w \<Rightarrow> int sysret \<times> 'w"
  k_getaddrinfo :: "string option \<Rightarrow> string option \<Rightarrow> hints \<Rightarrow> 'w \<Rightarrow> addrinfo sysret \<times> 'w"
  k_getsockname :: "int \<Rightarrow> 'w \<Rightarrow> sockaddr sysret \<times> 'w"
  k_getpeername :: "int \<Rightarrow> 'w \<Rightarrow> sockaddr sysret \<times> 'w"
  k_clock :: "'w \<Rightarrow> (int \<times> int \<times> int) \<times> 'w"
  k_uninit :: iperf_time
  k_garbage :: "nat \<Rightarrow> u8"
  k_malloc :: "nat \<Rightarrow> 'w \<Rightarrow> bool \<times> 'w"
  k_mkstemp :: "string \<Rightarrow> 'w \<Rightarrow> (int \<times> string) sysret \<times> 'w"
  k_unlink :: "string \<Rightarrow> 'w \<Rightarrow> unit sysret \<times> 'w"
  k_ftruncate :: "int \<Rightarrow> int \<Rightarrow> 'w \<Rightarrow> unit sysret \<times> 'w"
  k_mmap :: "nat \<Rightarrow> int \<Rightarrow> 'w \<Rightarrow> u8 list sysret \<times> 'w"
  k_munmap :: "'w \<Rightarrow> unit sysret \<times> 'w"
  k_open :: "string \<Rightarrow> bool \<Rightarrow> 'w \<Rightarrow> int sysret \<times> 'w"
  k_fsync :: "int \<Rightarrow> 'w \<Rightarrow> unit sysret \<times> 'w"
  k_getenv :: "string \<Rightarrow> string option"
  k_random :: "nat \<Rightarrow> 'w \<Rightarrow> u8 list option \<times> 'w"
  k_tcpinfo :: "int \<Rightarrow> 'w \<Rightarrow> tcp_info sysret \<times> 'w"
  k_cpu :: "'w \<Rightarrow> (int \<times> int \<times> int) \<times> 'w"
  k_select :: "int \<Rightarrow> int list \<Rightarrow> int list \<Rightarrow> (int \<times> int) option \<Rightarrow> 'w \<Rightarrow> ((int list \<times> int list \<times> int) sysret \<times> int \<times> int) \<times> 'w"
  k_kill :: "int \<Rightarrow> 'w \<Rightarrow> unit sysret \<times> 'w"
  k_daemon :: "'w \<Rightarrow> unit sysret \<times> 'w"
  k_pid :: int
  k_cast :: u64

text \<open>What POSIX promises of \<open>read\<close> and \<open>write\<close>: never more than was asked for.\<close>

definition read_bounded :: "'w kernel \<Rightarrow> bool" where
  "read_bounded K \<longleftrightarrow> (\<forall>fd n w bs w'. k_read K fd n w = (Ok bs, w') \<longrightarrow> length bs \<le> n)"

definition write_bounded :: "'w kernel \<Rightarrow> bool" where
  "write_bounded K \<longleftrightarrow> (\<forall>fd bs w n w'. k_write K fd bs w = (Ok n, w') \<longrightarrow> n \<le> length bs)"

definition sendfile_bounded :: "'w kernel \<Rightarrow> bool" where
  "sendfile_bounded K \<longleftrightarrow> (\<forall>t f off n w k w'. k_sendfile K t f off n w = (Ok k, w') \<longrightarrow> k \<le> n)"

lemma read_boundedD: "read_bounded K \<Longrightarrow> k_read K fd n w = (Ok bs, w') \<Longrightarrow> length bs \<le> n"
  unfolding read_bounded_def by blast

lemma write_boundedD: "write_bounded K \<Longrightarrow> k_write K fd bs w = (Ok n, w') \<Longrightarrow> n \<le> length bs"
  unfolding write_bounded_def by blast

lemma sendfile_boundedD: "sendfile_bounded K \<Longrightarrow> k_sendfile K t f off n w = (Ok k, w') \<Longrightarrow> k \<le> n"
  unfolding sendfile_bounded_def by blast

section \<open>The program's side\<close>

datatype event =
    Opened int | Closed int
  | GotAddr nat | FreedAddr nat
  | Wrote int "u8 list"

record 'w sys =
  world :: 'w
  errno :: int
  gerror :: int
  i_errno :: int
  elog :: "event list"

abbreviation ret :: "'a \<Rightarrow> ('s, 'a) state" where
  "ret \<equiv> State_Monad.return"

definition modify :: "('s \<Rightarrow> 's) \<Rightarrow> ('s, unit) state" where
  "modify f = State (\<lambda>s. ((), f s))"

definition gets :: "('s \<Rightarrow> 'a) \<Rightarrow> ('s, 'a) state" where
  "gets f = State (\<lambda>s. (f s, s))"

definition do_if :: "bool \<Rightarrow> ('s, unit) state \<Rightarrow> ('s, unit) state" where
  "do_if b m = (if b then m else ret ())"

lemma run_modify [simp]: "run_state (modify f) s = ((), f s)"
  by (simp add: modify_def)

lemma run_gets [simp]: "run_state (gets f) s = (f s, s)"
  by (simp add: gets_def)

lemma run_do_if [simp]: "run_state (do_if b m) s = (if b then run_state m s else ((), s))"
  by (simp add: do_if_def)

text \<open>A failing call stores its error number in \<open>errno\<close>; a successful one leaves it alone.\<close>

definition syscall :: "('w \<Rightarrow> 'a sysret \<times> 'w) \<Rightarrow> ('w sys, 'a option) state" where
  "syscall f = State (\<lambda>s. case f (world s) of
       (Ok x, w) \<Rightarrow> (Some x, s\<lparr>world := w\<rparr>)
     | (Fail e, w) \<Rightarrow> (None, s\<lparr>world := w, errno := e\<rparr>))"

definition log_event :: "event \<Rightarrow> ('w sys, unit) state" where
  "log_event e = modify (\<lambda>s. s\<lparr>elog := elog s @ [e]\<rparr>)"

definition set_errno :: "int \<Rightarrow> ('w sys, unit) state" where
  "set_errno e = modify (\<lambda>s. s\<lparr>errno := e\<rparr>)"

definition set_i_errno :: "int \<Rightarrow> ('w sys, unit) state" where
  "set_i_errno e = modify (\<lambda>s. s\<lparr>i_errno := e\<rparr>)"

text \<open>\<open>i_errno = e; return r;\<close>\<close>

definition fail_with :: "int \<Rightarrow> 'a \<Rightarrow> ('w sys, 'a) state" where
  "fail_with e r = do { set_i_errno e; ret r }"

text \<open>A local buffer of \<open>n\<close> bytes into which \<open>out\<close> was read.\<close>

definition local_buf :: "'w kernel \<Rightarrow> nat \<Rightarrow> u8 list \<Rightarrow> u8 list" where
  "local_buf K n out = out @ map (k_garbage K) [length out..<n]"

lemma local_buf_full [simp]: "length out = n \<Longrightarrow> local_buf K n out = out"
  by (simp add: local_buf_def)

text \<open>\<open>iperf_time_now(&now)\<close> on an uninitialised local.\<close>

definition sys_time_now :: "'w kernel \<Rightarrow> ('w sys, int \<times> iperf_time) state" where
  "sys_time_now K = State (\<lambda>s. case k_clock K (world s) of
       (clk, w) \<Rightarrow> (iperf_time_now clk (k_uninit K), s\<lparr>world := w\<rparr>))"

text \<open>\<open>close\<close> releases the descriptor whatever it returns, and may overwrite \<open>errno\<close>.\<close>

definition sys_close :: "'w kernel \<Rightarrow> int \<Rightarrow> ('w sys, unit) state" where
  "sys_close K fd = do { syscall (k_close K fd); log_event (Closed fd) }"

definition sys_socket :: "'w kernel \<Rightarrow> int \<Rightarrow> int \<Rightarrow> ('w sys, int option) state" where
  "sys_socket K family proto = do {
     r \<leftarrow> syscall (k_socket K family proto);
     (case r of None \<Rightarrow> ret None | Some fd \<Rightarrow> do { log_event (Opened fd); ret (Some fd) })
   }"

text \<open>\<open>gerror = getaddrinfo(...)\<close>: the error code, or the first result and \<open>gerror = 0\<close>.\<close>

definition sys_getaddrinfo ::
  "'w kernel \<Rightarrow> string option \<Rightarrow> string option \<Rightarrow> hints \<Rightarrow> ('w sys, addrinfo option) state" where
  "sys_getaddrinfo K node serv hs = State (\<lambda>s. case k_getaddrinfo K node serv hs (world s) of
       (Ok ai, w) \<Rightarrow> (Some ai, s\<lparr>world := w, gerror := 0, elog := elog s @ [GotAddr (ai_id ai)]\<rparr>)
     | (Fail e, w) \<Rightarrow> (None, s\<lparr>world := w, gerror := e\<rparr>))"

definition sys_freeaddrinfo :: "addrinfo \<Rightarrow> ('w sys, unit) state" where
  "sys_freeaddrinfo ai = log_event (FreedAddr (ai_id ai))"

definition sys_malloc :: "'w kernel \<Rightarrow> nat \<Rightarrow> ('w sys, bool) state" where
  "sys_malloc K n = State (\<lambda>s. case k_malloc K n (world s) of (ok, w) \<Rightarrow> (ok, s\<lparr>world := w\<rparr>))"

text \<open>The sets are copies, which the call overwrites only when it succeeds.\<close>

definition sys_select ::
  "'w kernel \<Rightarrow> int \<Rightarrow> int list \<Rightarrow> int list \<Rightarrow> (int \<times> int) option \<Rightarrow> ('w sys, int \<times> int list \<times> int list \<times> (int \<times> int) option) state" where
  "sys_select K n rs ws timeout = State (\<lambda>s. case k_select K n rs ws timeout (world s) of
       ((Ok (rs', ws', r), left), w) \<Rightarrow> ((r, rs', ws', map_option (\<lambda>_. left) timeout), s\<lparr>world := w\<rparr>)
     | ((Fail e, left), w) \<Rightarrow> ((-1, rs, ws, map_option (\<lambda>_. left) timeout), s\<lparr>world := w, errno := e\<rparr>))"

named_theorems sys_run \<open>running the program's side of system calls\<close>

lemma run_log_event [sys_run]: "run_state (log_event e) s = ((), s\<lparr>elog := elog s @ [e]\<rparr>)"
  by (simp add: log_event_def)

lemma run_set_errno [sys_run]: "run_state (set_errno e) s = ((), s\<lparr>errno := e\<rparr>)"
  by (simp add: set_errno_def)

lemma run_set_i_errno [sys_run]: "run_state (set_i_errno e) s = ((), s\<lparr>i_errno := e\<rparr>)"
  by (simp add: set_i_errno_def)

lemma run_fail_with [sys_run]: "run_state (fail_with e r) s = (r, s\<lparr>i_errno := e\<rparr>)"
  by (simp add: fail_with_def sys_run)

lemma run_freeaddrinfo [sys_run]:
  "run_state (sys_freeaddrinfo ai) s = ((), s\<lparr>elog := elog s @ [FreedAddr (ai_id ai)]\<rparr>)"
  by (simp add: sys_freeaddrinfo_def sys_run)

lemma syscall_elog: "run_state (syscall f) s = (x, s') \<Longrightarrow> elog s' = elog s"
  by (auto simp: syscall_def split: prod.splits sysret.splits)

lemma close_elog: "run_state (sys_close K fd) s = (x, s') \<Longrightarrow> elog s' = elog s @ [Closed fd]"
  by (auto simp: sys_close_def sys_run split: prod.splits dest: syscall_elog)

lemma run_socket:
  "run_state (sys_socket K fam proto) s = (case k_socket K fam proto (world s) of
      (Ok fd, w) \<Rightarrow> (Some fd, s\<lparr>world := w, elog := elog s @ [Opened fd]\<rparr>)
    | (Fail e, w) \<Rightarrow> (None, s\<lparr>world := w, errno := e\<rparr>))"
  by (auto simp: sys_socket_def syscall_def sys_run split: prod.splits sysret.splits)

end
