(* ===== verification/C_String.thy ===== *)
theory C_String
  imports C_Double
begin

text \<open>
  The parts of \<open>ctype.h\<close>, \<open>stdlib.h\<close>, \<open>strings.h\<close> and \<open>stdio.h\<close> the program uses on text, in
  the C locale. Strings are lists of characters without the terminating zero.
\<close>

section \<open>Characters\<close>

definition c_isspace :: "char \<Rightarrow> bool" where
  "c_isspace c \<longleftrightarrow> of_char c = (32 :: int) \<or> 9 \<le> (of_char c :: int) \<and> (of_char c :: int) \<le> 13"

definition c_isupper :: "char \<Rightarrow> bool" where
  "c_isupper c \<longleftrightarrow> 65 \<le> (of_char c :: int) \<and> (of_char c :: int) \<le> 90"

definition c_islower :: "char \<Rightarrow> bool" where
  "c_islower c \<longleftrightarrow> 97 \<le> (of_char c :: int) \<and> (of_char c :: int) \<le> 122"

definition c_toupper :: "char \<Rightarrow> char" where
  "c_toupper c = (if c_islower c then char_of (of_char c - 32 :: int) else c)"

definition c_tolower :: "char \<Rightarrow> char" where
  "c_tolower c = (if c_isupper c then char_of (of_char c + 32 :: int) else c)"

definition strcaseeq :: "string \<Rightarrow> string \<Rightarrow> bool" where
  "strcaseeq s t \<longleftrightarrow> map c_tolower s = map c_tolower t"

text \<open>The value of a digit in a base up to 16.\<close>

definition digit_in :: "nat \<Rightarrow> char \<Rightarrow> nat option" where
  "digit_in base c =
     (let n = of_char c :: int;
          d = (if 48 \<le> n \<and> n \<le> 57 then Some (nat (n - 48))
               else if 97 \<le> n \<and> n \<le> 102 then Some (nat (n - 87))
               else if 65 \<le> n \<and> n \<le> 70 then Some (nat (n - 55)) else None)
      in case d of Some v \<Rightarrow> if v < base then Some v else None | None \<Rightarrow> None)"

fun scan_digits :: "nat \<Rightarrow> nat \<Rightarrow> string \<Rightarrow> nat \<times> string" where
  "scan_digits base acc [] = (acc, [])"
| "scan_digits base acc (c # s) =
     (case digit_in base c of Some v \<Rightarrow> scan_digits base (acc * base + v) s | None \<Rightarrow> (acc, c # s))"

section \<open>Integers\<close>

definition scan_sign :: "string \<Rightarrow> int \<times> string" where
  "scan_sign s = (case s of c # t \<Rightarrow>
      if c = CHR ''-'' then (-1, t) else if c = CHR ''+'' then (1, t) else (1, s)
    | [] \<Rightarrow> (1, s))"

text \<open>A \<open>0x\<close> counts as a prefix only in front of a hexadecimal digit.\<close>

definition hex_prefix :: "string \<Rightarrow> bool" where
  "hex_prefix s = (case s of a # x # d # _ \<Rightarrow>
      a = CHR ''0'' \<and> (x = CHR ''x'' \<or> x = CHR ''X'') \<and> digit_in 16 d \<noteq> None | _ \<Rightarrow> False)"

text \<open>
  \<open>strtol\<close> with base 0, 8, 10 or 16: the value, clamped to the range of a 64-bit \<open>long\<close>, and
  the rest of the string. Without any digit the rest is the whole string.
\<close>

definition strtol :: "nat \<Rightarrow> string \<Rightarrow> int \<times> string" where
  "strtol base s =
     (let (sg, t) = scan_sign (dropWhile c_isspace s);
          hex = (base = 0 \<or> base = 16) \<and> hex_prefix t;
          b = (if hex then 16 else if base \<noteq> 0 then base
               else if t \<noteq> [] \<and> hd t = CHR ''0'' then 8 else 10);
          u = (if hex then drop 2 t else t);
          (v, rest) = scan_digits b 0 u
      in if rest = u then (0, s)
         else (max (- (2 ^ 63)) (min (2 ^ 63 - 1) (sg * int v)), rest))"

definition atoi :: "string \<Rightarrow> int" where
  "atoi s = to_int32 (fst (strtol 10 s))"

fun show_nat :: "nat \<Rightarrow> string" where
  "show_nat n = (if n < 10 then [char_of (48 + n)] else show_nat (n div 10) @ [char_of (48 + n mod 10)])"

declare show_nat.simps [simp del]

text \<open>\<open>%d\<close>\<close>

definition show_int :: "int \<Rightarrow> string" where
  "show_int i = (if i < 0 then ''-'' @ show_nat (nat (- i)) else show_nat (nat i))"

text \<open>\<open>%02x\<close> for a value below 256.\<close>

definition hex_digit :: "nat \<Rightarrow> char" where
  "hex_digit d = char_of (if d < 10 then 48 + d else 87 + d)"

definition show_hex2 :: "nat \<Rightarrow> string" where
  "show_hex2 n = [hex_digit (n div 16 mod 16), hex_digit (n mod 16)]"

section \<open>Floating point\<close>

text \<open>
  The conversion \<open>%lf\<close>: optional sign, digits with an optional point, and an exponent, which
  is taken only when it has digits; after \<open>0x\<close> the digits are hexadecimal and the exponent is
  binary. The value is rounded once. \<open>None\<close> stands for a failed conversion and for the words
  \<open>inf\<close> and \<open>nan\<close>, whose values are not finite.
\<close>

definition scan_exponent :: "char \<Rightarrow> string \<Rightarrow> int \<times> string" where
  "scan_exponent e s = (case s of
      c # t \<Rightarrow>
        if c_tolower c = e then
          (let (sg, u) = scan_sign t; (v, rest) = scan_digits 10 0 u
           in if rest = u then (0, s) else (sg * int v, rest))
        else (0, s)
    | [] \<Rightarrow> (0, s))"

definition scan_lf :: "string \<Rightarrow> (rat \<times> string) option" where
  "scan_lf s =
     (let (sg, t) = scan_sign (dropWhile c_isspace s);
          hex = (case t of a # x # _ \<Rightarrow> a = CHR ''0'' \<and> (x = CHR ''x'' \<or> x = CHR ''X'') | _ \<Rightarrow> False);
          base = (if hex then 16 else 10);
          u = (if hex then drop 2 t else t);
          (m, u1) = scan_digits base 0 u;
          point = (u1 \<noteq> [] \<and> hd u1 = CHR ''.'');
          (m2, u2) = (if point then scan_digits base m (tl u1) else (m, u1));
          fraclen = (if point then length (tl u1) - length u2 else 0);
          ndigits = (length u - length u1) + fraclen;
          (e, rest) = scan_exponent (if hex then CHR ''p'' else CHR ''e'') u2
      in if ndigits = 0 then (if hex then Some (0, tl t) else None)
         else Some (rnd (of_int sg * of_nat m2 *
                (if hex then 2 powi (e - 4 * int fraclen) else 10 powi (e - int fraclen))), rest))"

text \<open>\<open>%w.pf\<close> for a non-negative precision: exact decimal rounding, padded on the left.\<close>

definition pad_left :: "nat \<Rightarrow> string \<Rightarrow> string" where
  "pad_left w s = replicate (w - length s) CHR '' '' @ s"

definition pad_zero :: "nat \<Rightarrow> string \<Rightarrow> string" where
  "pad_zero w s = replicate (w - length s) CHR ''0'' @ s"

definition show_fixed :: "nat \<Rightarrow> rat \<Rightarrow> string" where
  "show_fixed p x =
     (let n = nat (rhe (\<bar>x\<bar> * 10 ^ p));
          body = show_nat (n div 10 ^ p) @ (if p = 0 then [] else CHR ''.'' # pad_zero p (show_nat (n mod 10 ^ p)))
      in if x < 0 then CHR ''-'' # body else body)"

definition show_lf :: "nat \<Rightarrow> nat \<Rightarrow> rat \<Rightarrow> string" where
  "show_lf w p x = pad_left w (show_fixed p x)"

section \<open>Lemmas\<close>

lemma show_nat_Nil [simp]: "show_nat n \<noteq> []"
  by (subst show_nat.simps) simp

lemma show_nat_length: "n < 10 ^ k \<Longrightarrow> 0 < k \<Longrightarrow> length (show_nat n) \<le> k"
proof (induction k arbitrary: n)
  case (Suc k)
  then show ?case
    by (subst show_nat.simps) (cases k; force simp: less_mult_imp_div_less mult.commute)
qed simp

lemma show_nat_one: "n < 10 \<Longrightarrow> show_nat n = [char_of (48 + n)]"
  by (simp add: show_nat.simps)

lemma of_char_int [simp]: "(of_char (char_of (n :: nat)) :: int) = int n mod 256"
proof -
  have "(of_char (char_of n) :: int) = int (of_char (char_of n))" by (rule of_nat_of_char [symmetric])
  then show ?thesis by (simp add: zmod_int)
qed

lemma digit_in_dec: "d < 10 \<Longrightarrow> digit_in 10 (char_of (48 + d)) = Some d"
  by (simp add: digit_in_def)

lemma digit_in_hex: "d < 16 \<Longrightarrow> digit_in 16 (hex_digit d) = Some d"
  by (auto simp: digit_in_def hex_digit_def Let_def)

lemma scan_digits_append:
  "scan_digits b acc (s @ t) = (case scan_digits b acc s of (v, []) \<Rightarrow> scan_digits b v t | (v, r) \<Rightarrow> (v, r @ t))"
  by (induction b acc s rule: scan_digits.induct) (auto split: option.splits list.splits)

lemma scan_show_nat: "scan_digits 10 0 (show_nat n) = (n, [])"
proof (induction n rule: show_nat.induct)
  case (1 n)
  show ?case
  proof (cases "n < 10")
    case True
    then show ?thesis by (simp add: show_nat_one digit_in_dec)
  next
    case False
    then show ?thesis using 1
      by (subst show_nat.simps) (simp add: scan_digits_append digit_in_dec)
  qed
qed

text \<open>Digits are neither signs, spaces nor letters.\<close>

definition is_digit :: "char \<Rightarrow> bool" where
  "is_digit c \<longleftrightarrow> 48 \<le> (of_char c :: int) \<and> (of_char c :: int) \<le> 57"

lemma show_nat_digits: "c \<in> set (show_nat n) \<Longrightarrow> is_digit c"
proof (induction n rule: show_nat.induct)
  case (1 n)
  have d: "is_digit (char_of (48 + m mod 10))" "m < 10 \<Longrightarrow> is_digit (char_of (48 + m))" for m :: nat
  proof -
    have "int (m mod 10) < 10" by simp
    then show "is_digit (char_of (48 + m mod 10))"
      unfolding is_digit_def of_char_int by (simp only: of_nat_add of_nat_numeral) auto
    show "m < 10 \<Longrightarrow> is_digit (char_of (48 + m))" unfolding is_digit_def of_char_int by simp
  qed
  from 1 d show ?case
    by (subst (asm) show_nat.simps) (auto split: if_splits)
qed

lemma digit_sep:
  assumes "is_digit c"
  shows "\<not> c_isspace c" "c \<noteq> CHR ''-''" "c \<noteq> CHR ''+''" "c \<noteq> CHR ''x''" "c \<noteq> CHR ''X''" "c \<noteq> CHR ''.''"
  using assms by (auto simp: is_digit_def c_isspace_def)

lemma show_nat_hd: "\<exists>c t. show_nat n = c # t \<and> is_digit c \<and> (\<forall>x \<in> set t. is_digit x)"
  using show_nat_digits [of _ n] by (cases "show_nat n") auto

lemma scan_sign_show_nat [simp]:
  "scan_sign (dropWhile c_isspace (show_nat n @ r)) = (1, show_nat n @ r)"
  using show_nat_hd [of n] digit_sep by (auto simp: scan_sign_def)

lemma scan_digits_show_nat:
  "r = [] \<or> digit_in 10 (hd r) = None \<Longrightarrow> scan_digits 10 0 (show_nat n @ r) = (n, r)"
  by (cases r) (auto simp: scan_digits_append scan_show_nat)

text \<open>Reading back what \<open>%d\<close> prints.\<close>

lemma atoi_show_nat:
  assumes "n < 2 ^ 31"
  shows "atoi (show_nat n) = int n"
proof -
  have "scan_sign (dropWhile c_isspace (show_nat n)) = (1, show_nat n)"
    using scan_sign_show_nat [of n "[]"] by simp
  moreover have "int n < 2 ^ 31" using assms by simp
  ultimately show ?thesis
    using show_nat_Nil [of n, THEN not_sym] by (simp add: atoi_def strtol_def scan_show_nat)
qed

text \<open>A number printed with \<open>%d\<close> and followed by a unit letter.\<close>

definition plain_suffix :: "string \<Rightarrow> bool" where
  "plain_suffix r \<longleftrightarrow> (case r of [] \<Rightarrow> True
     | c # _ \<Rightarrow> digit_in 10 c = None \<and> c_tolower c \<notin> {CHR ''x'', CHR ''e'', CHR ''.''})"

lemma scan_lf_show_nat:
  assumes "plain_suffix r"
  shows "scan_lf (show_nat n @ r) = Some (rnd (of_nat n), r)"
proof -
  obtain c t where ct: "show_nat n = c # t" "is_digit c" "\<forall>x \<in> set t. is_digit x"
    using show_nat_hd by blast
  have low: "c_tolower CHR ''x'' = CHR ''x''" "c_tolower CHR ''X'' = CHR ''x''" "c_tolower CHR ''.'' = CHR ''.''"
    by code_simp+
  have nohex: "\<not> (case show_nat n @ r of a # x # _ \<Rightarrow> a = CHR ''0'' \<and> (x = CHR ''x'' \<or> x = CHR ''X'') | _ \<Rightarrow> False)"
    using assms ct digit_sep low by (cases t; cases r) (auto simp: plain_suffix_def)
  have dg: "scan_digits 10 0 (show_nat n @ r) = (n, r)"
    using assms by (intro scan_digits_show_nat) (auto simp: plain_suffix_def split: list.splits)
  have pt: "(r \<noteq> [] \<and> hd r = CHR ''.'') = False"
    using assms low by (auto simp: plain_suffix_def split: list.splits)
  have ex: "scan_exponent CHR ''e'' r = (0, r)"
    using assms by (auto simp: plain_suffix_def scan_exponent_def split: list.splits)
  have sg: "scan_sign (dropWhile c_isspace (show_nat n @ r)) = (1, show_nat n @ r)"
    by simp
  have len: "length r < length (show_nat n @ r)" by simp
  obtain z where z: "z = show_nat n @ r" by simp
  show ?thesis
    using nohex dg ex sg len unfolding z [symmetric] scan_lf_def by (simp add: pt)
qed

end
