(* ===== verification/Net.thy ===== *)
theory Net
  imports Sys C_String
begin

text \<open>
  The socket layer (\<open>net.c\<close>): reading and writing whole buffers over partial transfers, and
  setting up connecting and listening sockets with the clean-up of every error path.
\<close>

definition NET_SOFTERROR :: int where "NET_SOFTERROR = -1"
definition NET_HARDERROR :: int where "NET_HARDERROR = -2"

lemmas net_error_defs = NET_SOFTERROR_def NET_HARDERROR_def

section \<open>Reading and writing\<close>

text \<open>
  The loop of \<open>Nread\<close>: \<open>nleft\<close> bytes are missing, \<open>buf\<close> is what has been read. The result is
  the return value, the bytes stored, and the new state.
\<close>

function Nread_loop :: "'w kernel \<Rightarrow> int \<Rightarrow> nat \<Rightarrow> nat \<Rightarrow> u8 list \<Rightarrow> 'w sys \<Rightarrow> (int \<times> u8 list) \<times> 'w sys" where
  "Nread_loop K fd count nleft buf s =
     (if 0 < nleft then
        (case run_state (syscall (k_read K fd nleft)) s of
           (None, s') \<Rightarrow>
             if errno s' = EINTR \<or> errno s' = EAGAIN
             then ((to_int32 (int (count - nleft)), buf), s')
             else ((NET_HARDERROR, buf), s')
         | (Some bs, s') \<Rightarrow>
             if length bs = 0 then ((to_int32 (int (count - nleft)), buf), s')
             else Nread_loop K fd count (nleft - length bs) (buf @ bs) s')
      else ((to_int32 (int (count - nleft)), buf), s))"
  by pat_completeness auto
termination
  by (relation "measure (\<lambda>(K, fd, count, nleft, buf, s). nleft)") auto

declare Nread_loop.simps [simp del]

definition Nread :: "'w kernel \<Rightarrow> int \<Rightarrow> nat \<Rightarrow> ('w sys, int \<times> u8 list) state" where
  "Nread K fd count = State (Nread_loop K fd count count [])"

function Nwrite_loop :: "'w kernel \<Rightarrow> int \<Rightarrow> nat \<Rightarrow> u8 list \<Rightarrow> 'w sys \<Rightarrow> int \<times> 'w sys" where
  "Nwrite_loop K fd count buf s =
     (if 0 < length buf then
        (case run_state (syscall (k_write K fd buf)) s of
           (None, s') \<Rightarrow>
             if errno s' = EINTR \<or> errno s' = EAGAIN then (to_int32 (int (count - length buf)), s')
             else if errno s' = ENOBUFS then (NET_SOFTERROR, s')
             else (NET_HARDERROR, s')
         | (Some n, s') \<Rightarrow>
             if n = 0 then (NET_SOFTERROR, s')
             else Nwrite_loop K fd count (drop n buf) (s'\<lparr>elog := elog s' @ [Wrote fd (take n buf)]\<rparr>))
      else (to_int32 (int count), s))"
  by pat_completeness auto
termination
  by (relation "measure (\<lambda>(K, fd, count, buf, s). length buf)") auto

declare Nwrite_loop.simps [simp del]

definition Nwrite :: "'w kernel \<Rightarrow> int \<Rightarrow> u8 list \<Rightarrow> ('w sys, int) state" where
  "Nwrite K fd buf = State (Nwrite_loop K fd (length buf) buf)"

definition has_sendfile :: int where
  "has_sendfile = 1"

text \<open>
  \<open>Nsendfile\<close> in the Linux configuration: the file offset is recomputed from what is left, so
  a retried call continues where the last one stopped. A soft error before any byte went out
  is reported as such.
\<close>

function Nsendfile_loop :: "'w kernel \<Rightarrow> int \<Rightarrow> int \<Rightarrow> nat \<Rightarrow> nat \<Rightarrow> 'w sys \<Rightarrow> int \<times> 'w sys" where
  "Nsendfile_loop K fromfd tofd count nleft s =
     (if 0 < nleft then
        (case run_state (syscall (k_sendfile K tofd fromfd (count - nleft) nleft)) s of
           (None, s') \<Rightarrow>
             if errno s' = EINTR \<or> errno s' = EAGAIN then
               (if count = nleft then (NET_SOFTERROR, s') else (to_int32 (int (count - nleft)), s'))
             else if errno s' = ENOBUFS \<or> errno s' = ENOMEM then (NET_SOFTERROR, s')
             else (NET_HARDERROR, s')
         | (Some r, s') \<Rightarrow>
             if r = 0 then (NET_SOFTERROR, s')
             else Nsendfile_loop K fromfd tofd count (nleft - r) s')
      else (to_int32 (int count), s))"
  by pat_completeness auto
termination
  by (relation "measure (\<lambda>(K, fromfd, tofd, count, nleft, s). nleft)") auto

declare Nsendfile_loop.simps [simp del]

definition Nsendfile :: "'w kernel \<Rightarrow> int \<Rightarrow> int \<Rightarrow> nat \<Rightarrow> ('w sys, int) state" where
  "Nsendfile K fromfd tofd count = State (Nsendfile_loop K fromfd tofd count count)"

section \<open>Socket flags and addresses\<close>

definition O_NONBLOCK :: u32 where "O_NONBLOCK = 2048"

definition setnonblocking :: "'w kernel \<Rightarrow> int \<Rightarrow> bool \<Rightarrow> ('w sys, int) state" where
  "setnonblocking K fd nonblocking = do {
     r \<leftarrow> syscall (k_getfl K fd);
     (case r of None \<Rightarrow> ret (-1)
      | Some flags \<Rightarrow> do {
          let newflags = (if nonblocking then flags OR O_NONBLOCK else flags AND NOT O_NONBLOCK);
          if newflags \<noteq> flags then do {
            r \<leftarrow> syscall (k_setfl K fd newflags);
            ret (if r = None then -1 else 0)
          }
          else ret 0
        })
   }"

definition getsockdomain :: "'w kernel \<Rightarrow> int \<Rightarrow> ('w sys, int) state" where
  "getsockdomain K sock = do {
     r \<leftarrow> syscall (k_getsockname K sock);
     ret (case r of None \<Rightarrow> -1 | Some sa \<Rightarrow> sa_family sa)
   }"

section \<open>Connecting\<close>

text \<open>
  With a timeout the socket is made non-blocking for the duration of the call; the old flags
  are put back at the end. \<open>flags\<close> is what \<open>F_GETFL\<close> returned, \<open>-1\<close> included.
\<close>

definition timeout_connect :: "'w kernel \<Rightarrow> int \<Rightarrow> sockaddr \<Rightarrow> int \<Rightarrow> ('w sys, int) state" where
  "timeout_connect K s name timeout = do {
     fl \<leftarrow> (if timeout \<noteq> -1 then do {
              f \<leftarrow> syscall (k_getfl K s);
              let flags = (case f of None \<Rightarrow> -1 | Some x \<Rightarrow> x);
              r \<leftarrow> syscall (k_setfl K s (flags OR O_NONBLOCK));
              ret (if r = None then None else Some flags)
            }
            else ret (Some 0));
     (case fl of None \<Rightarrow> ret (-1)
      | Some flags \<Rightarrow> do {
          c \<leftarrow> syscall (k_connect K s name);
          e \<leftarrow> gets errno;
          r \<leftarrow> (if c = None \<and> e = EINPROGRESS then do {
                  p \<leftarrow> syscall (k_poll K s timeout);
                  (if p = Some 1 then do {
                     v \<leftarrow> syscall (k_getsockopt K s SO_ERROR);
                     (case v of None \<Rightarrow> ret (-1)
                      | Some optval \<Rightarrow> do { set_errno optval; ret (if optval = 0 then 0 else -1) })
                   }
                   else if p = Some 0 then do { set_errno ETIMEDOUT; ret (-1) }
                   else ret (-1))
                }
                else ret (if c = None then -1 else 0));
          (if timeout \<noteq> -1 then do {
             f \<leftarrow> syscall (k_setfl K s flags);
             ret (if f = None then -1 else r)
           }
           else ret r)
        })
   }"

text \<open>The error exit of both set-up routines: close, free, and put \<open>errno\<close> back.\<close>

definition fail_close :: "'w kernel \<Rightarrow> int \<Rightarrow> addrinfo list \<Rightarrow> ('w sys, int) state" where
  "fail_close K s ais = do {
     saved_errno \<leftarrow> gets errno;
     sys_close K s;
     (if ais = [] then ret () else
        (case ais of [a] \<Rightarrow> sys_freeaddrinfo a
         | a # b # _ \<Rightarrow> do { sys_freeaddrinfo a; sys_freeaddrinfo b }));
     set_errno saved_errno;
     ret (-1)
   }"

definition htons :: "int \<Rightarrow> int" where
  "htons p = p mod 65536"

definition netdial ::
  "'w kernel \<Rightarrow> int \<Rightarrow> int \<Rightarrow> string option \<Rightarrow> int \<Rightarrow> string option \<Rightarrow> int \<Rightarrow> int \<Rightarrow> ('w sys, int) state" where
  "netdial K domain proto lcl local_port server port timeout = do {
     let hs = \<lparr>h_family = domain, h_socktype = proto, h_passive = False\<rparr>;
     lr \<leftarrow> (if lcl \<noteq> None then do { a \<leftarrow> sys_getaddrinfo K lcl None hs; ret (a = None, a) }
           else ret (False, None));
     (if fst lr then ret (-1) else do {
        let local_res = snd lr;
        sr \<leftarrow> sys_getaddrinfo K server None hs;
        (case sr of None \<Rightarrow> ret (-1)
         | Some server_res \<Rightarrow> do {
             sk \<leftarrow> sys_socket K (ai_family server_res) proto;
             (case sk of
                None \<Rightarrow> do {
                  (case local_res of None \<Rightarrow> ret () | Some a \<Rightarrow> sys_freeaddrinfo a);
                  sys_freeaddrinfo server_res;
                  ret (-1)
                }
              | Some s \<Rightarrow> do {
                  b \<leftarrow> (case local_res of
                      Some lres \<Rightarrow> do {
                        let addr = (if local_port \<noteq> 0 then (ai_addr lres)\<lparr>sa_port := htons local_port\<rparr> else ai_addr lres);
                        r \<leftarrow> syscall (k_bind K s addr);
                        (if r = None then fail_close K s [lres, server_res]
                         else do { sys_freeaddrinfo lres; ret 0 })
                      }
                    | None \<Rightarrow>
                        if local_port \<noteq> 0 then
                          (if ai_family server_res = AF_INET \<or> ai_family server_res = AF_INET6 then do {
                             r \<leftarrow> syscall (k_bind K s \<lparr>sa_family = ai_family server_res,
                                     sa_port = htons local_port, sa_addr = []\<rparr>);
                             (if r = None then fail_close K s [server_res] else ret 0)
                           }
                           else do { set_errno EAFNOSUPPORT; ret (-1) })
                        else ret 0);
                  (if b < 0 then ret (-1) else do {
                     c \<leftarrow> timeout_connect K s ((ai_addr server_res)\<lparr>sa_port := htons port\<rparr>) timeout;
                     e \<leftarrow> gets errno;
                     (if c < 0 \<and> e \<noteq> EINPROGRESS then fail_close K s [server_res]
                      else do { sys_freeaddrinfo server_res; ret s })
                   })
                })
           })
      })
   }"

section \<open>Listening\<close>

text \<open>\<open>snprintf(portstr, 6, "%d", port)\<close> keeps at most five characters.\<close>

definition netannounce :: "'w kernel \<Rightarrow> int \<Rightarrow> int \<Rightarrow> string option \<Rightarrow> int \<Rightarrow> ('w sys, int) state" where
  "netannounce K domain proto lcl port = do {
     let portstr = take 5 (show_int port);
     let fam = (if domain = AF_UNSPEC \<and> lcl = None then AF_INET6 else domain);
     ar \<leftarrow> sys_getaddrinfo K lcl (Some portstr) \<lparr>h_family = fam, h_socktype = proto, h_passive = True\<rparr>;
     (case ar of None \<Rightarrow> ret (-1)
      | Some res \<Rightarrow> do {
          sk \<leftarrow> sys_socket K (ai_family res) proto;
          (case sk of
             None \<Rightarrow> do { sys_freeaddrinfo res; ret (-1) }
           | Some s \<Rightarrow> do {
               r \<leftarrow> syscall (k_setsockopt K s SO_REUSEADDR 1);
               (if r = None then fail_close K s [res] else do {
                  v \<leftarrow> (if ai_family res = AF_INET6 \<and> (domain = AF_UNSPEC \<or> domain = AF_INET6) then
                          syscall (k_setsockopt K s IPV6_V6ONLY (if domain = AF_UNSPEC then 0 else 1))
                        else ret (Some ()));
                  (if v = None then fail_close K s [res] else do {
                     b \<leftarrow> syscall (k_bind K s (ai_addr res));
                     (if b = None then fail_close K s [res] else do {
                        sys_freeaddrinfo res;
                        (if proto = SOCK_STREAM then do {
                           l \<leftarrow> syscall (k_listen K s);
                           (if l = None then fail_close K s [] else ret s)
                         }
                         else ret s)
                      })
                   })
                })
             })
        })
   }"

end
