(* ===== verification/Net_Props.thy ===== *)
theory Net_Props
  imports Net "HOL-Library.Sublist" "HOL-Library.Multiset"
begin

text \<open>
  What the socket layer promises: the transfer loops over partial reads and writes, and the
  release of every resource on the error paths of the set-up routines.
\<close>

section \<open>Transfers\<close>

lemma to_int32_len: "n < 2147483648 \<Longrightarrow> to_int32 (int n) = int n"
  by (rule to_int32_id) auto

text \<open>The state after a read: \<open>read_stop\<close> says why a read returned early.\<close>

definition read_stop :: "'w kernel \<Rightarrow> int \<Rightarrow> nat \<Rightarrow> 'w \<Rightarrow> bool" where
  "read_stop K fd n w \<longleftrightarrow>
     (case fst (k_read K fd n w) of Ok bs \<Rightarrow> bs = [] | Fail e \<Rightarrow> e = EINTR \<or> e = EAGAIN)"

lemma Nread_loop_spec:
  assumes "read_bounded K" "cnt < 2147483648" "nleft \<le> cnt" "length buf = cnt - nleft"
    and "Nread_loop K fd cnt nleft buf s = ((r, out), s')"
  shows "prefix buf out \<and> length out \<le> cnt \<and> elog s' = elog s \<and>
     (r = int (length out) \<and> (length out = cnt \<or> (\<exists>w. read_stop K fd (cnt - length out) w))
      \<or> r = NET_HARDERROR)"
  using assms
proof (induction K fd cnt nleft buf s rule: Nread_loop.induct)
  case (1 K fd cnt nleft buf s)
  show ?case
  proof (cases "nleft = 0")
    case True
    then show ?thesis using "1.prems" by (auto simp: Nread_loop.simps to_int32_len)
  next
    case left: False
    show ?thesis
    proof (cases "k_read K fd nleft (world s)")
      case (Pair x w)
      show ?thesis
      proof (cases x)
        case (Fail e)
        have "Nread_loop K fd cnt nleft buf s =
            (if e = EINTR \<or> e = EAGAIN then ((int (length buf), buf), s\<lparr>world := w, errno := e\<rparr>)
             else ((NET_HARDERROR, buf), s\<lparr>world := w, errno := e\<rparr>))"
          using left Pair Fail "1.prems"(2,4)
          by (subst Nread_loop.simps) (simp add: syscall_def to_int32_len)
        then show ?thesis using "1.prems" left Pair Fail
          by (auto simp: read_stop_def intro!: exI [of _ "world s"] split: if_splits)
      next
        case (Ok bs)
        have "length bs \<le> nleft"
          using "1.prems"(1) Pair Ok by (simp add: read_boundedD)
        moreover have run: "run_state (syscall (k_read K fd nleft)) s = (Some bs, s\<lparr>world := w\<rparr>)"
          using Pair Ok by (simp add: syscall_def)
        ultimately show ?thesis
        proof (cases "bs = []")
          case True
          then have "Nread_loop K fd cnt nleft buf s = ((int (length buf), buf), s\<lparr>world := w\<rparr>)"
            using left run "1.prems"(2,4) by (subst Nread_loop.simps) (simp add: to_int32_len)
          then show ?thesis using "1.prems" left Pair Ok True
            by (auto simp: read_stop_def intro!: exI [of _ "world s"])
        next
          case False
          have "Nread_loop K fd cnt nleft buf s =
              Nread_loop K fd cnt (nleft - length bs) (buf @ bs) (s\<lparr>world := w\<rparr>)"
            using left run False by (subst Nread_loop.simps) simp
          then show ?thesis
            using "1.IH" [OF _ run [symmetric] refl] "1.prems" left False \<open>length bs \<le> nleft\<close>
            by (simp add: le_diff_conv) (meson append_prefixD)
        qed
      qed
    qed
  qed
qed

text \<open>
  A write loop logs the chunks \<open>cs\<close> it hands over; together they are the beginning of the
  buffer, and a non-negative result counts exactly them.
\<close>

lemma Nwrite_loop_spec:
  assumes "write_bounded K" "cnt < 2147483648" "length buf \<le> cnt"
    and "Nwrite_loop K fd cnt buf s = (r, s')"
  shows "\<exists>cs. elog s' = elog s @ map (Wrote fd) cs \<and> [] \<notin> set cs \<and> prefix (concat cs) buf \<and>
     (r = int (cnt - length buf + length (concat cs)) \<or> r = NET_SOFTERROR \<or> r = NET_HARDERROR)"
  using assms
proof (induction K fd cnt buf s arbitrary: r s' rule: Nwrite_loop.induct)
  case (1 K fd cnt buf s)
  show ?case
  proof (cases "buf = []")
    case True
    then show ?thesis using "1.prems" by (auto simp: Nwrite_loop.simps to_int32_len)
  next
    case left: False
    obtain x w where kw: "k_write K fd buf (world s) = (x, w)" by force
    show ?thesis
    proof (cases x)
      case (Fail e)
      then have "r = int (cnt - length buf) \<or> r = NET_SOFTERROR \<or> r = NET_HARDERROR" "elog s' = elog s"
        using left kw "1.prems"
        by (auto simp: Nwrite_loop.simps [of K fd cnt buf s] syscall_def to_int32_len split: if_splits)
      then show ?thesis by (auto intro: exI [of _ "[]"])
    next
      case (Ok n)
      have n: "n \<le> length buf" using "1.prems"(1) kw Ok by (simp add: write_boundedD)
      have run: "run_state (syscall (k_write K fd buf)) s = (Some n, s\<lparr>world := w\<rparr>)"
        using kw Ok by (simp add: syscall_def)
      show ?thesis
      proof (cases "n = 0")
        case True
        then have "r = NET_SOFTERROR" "elog s' = elog s"
          using left run "1.prems" by (auto simp: Nwrite_loop.simps [of K fd cnt buf s])
        then show ?thesis by (auto intro: exI [of _ "[]"])
      next
        case False
        define t where "t = s\<lparr>world := w, elog := elog s @ [Wrote fd (take n buf)]\<rparr>"
        have "Nwrite_loop K fd cnt (drop n buf) t = (r, s')"
          using left run False "1.prems"(4) by (simp add: Nwrite_loop.simps [of K fd cnt buf s] t_def)
        then obtain cs where cs: "elog s' = elog t @ map (Wrote fd) cs" "[] \<notin> set cs" "prefix (concat cs) (drop n buf)"
          "r = int (cnt - length (drop n buf) + length (concat cs)) \<or> r = NET_SOFTERROR \<or> r = NET_HARDERROR"
          using "1.IH" [OF _ run [symmetric] refl False] left "1.prems"(1,2,3) by (force simp: t_def)
        have "prefix (take n buf @ concat cs) (take n buf @ drop n buf)"
          using cs(3) by (simp only: same_prefix_prefix)
        then show ?thesis using cs n left False "1.prems"(3)
          by (intro exI [of _ "take n buf # cs"]) (auto simp: t_def)
      qed
    qed
  qed
qed

lemma Nwrite_spec:
  assumes "write_bounded K" "length buf < 2147483648" "run_state (Nwrite K fd buf) s = (r, s')"
  shows "\<exists>cs. elog s' = elog s @ map (Wrote fd) cs \<and> [] \<notin> set cs \<and> prefix (concat cs) buf \<and>
     (0 \<le> r \<longrightarrow> concat cs = take (nat r) buf \<and> r \<le> int (length buf)) \<and>
     (r < 0 \<longrightarrow> r = NET_SOFTERROR \<or> r = NET_HARDERROR)"
proof -
  obtain cs where "elog s' = elog s @ map (Wrote fd) cs" "[] \<notin> set cs" and pre: "prefix (concat cs) buf"
    and r: "r = int (length (concat cs)) \<or> r = NET_SOFTERROR \<or> r = NET_HARDERROR"
    using Nwrite_loop_spec [OF assms(1,2) order_refl, of fd s r s'] assms(3) by (auto simp: Nwrite_def)
  moreover have "0 \<le> r \<longrightarrow> concat cs = take (nat r) buf \<and> r \<le> int (length buf)"
    using r pre prefix_length_le [OF pre] by (auto simp: net_error_defs elim: prefixE)
  ultimately show ?thesis by auto
qed

lemma Nsendfile_loop_spec:
  assumes "sendfile_bounded K" "cnt < 2147483648" "nleft \<le> cnt"
    and "Nsendfile_loop K fromfd tofd cnt nleft s = (r, s')"
  shows "(int (cnt - nleft) \<le> r \<and> r \<le> int cnt \<or> r = NET_SOFTERROR \<or> r = NET_HARDERROR) \<and>
     (r = 0 \<longrightarrow> cnt = 0) \<and> elog s' = elog s"
  using assms
proof (induction K fromfd tofd cnt nleft s arbitrary: r s' rule: Nsendfile_loop.induct)
  case (1 K fromfd tofd cnt nleft s)
  show ?case
  proof (cases "nleft = 0")
    case True
    then show ?thesis using "1.prems" by (auto simp: Nsendfile_loop.simps to_int32_len)
  next
    case left: False
    obtain x w where kw: "k_sendfile K tofd fromfd (cnt - nleft) nleft (world s) = (x, w)" by force
    show ?thesis
    proof (cases x)
      case (Fail e)
      then show ?thesis using left kw "1.prems"
        by (auto simp: Nsendfile_loop.simps [of K fromfd tofd cnt nleft s] syscall_def to_int32_len
            net_error_defs split: if_splits)
    next
      case (Ok n)
      have n: "n \<le> nleft" using "1.prems"(1) kw Ok by (simp add: sendfile_boundedD)
      have run: "run_state (syscall (k_sendfile K tofd fromfd (cnt - nleft) nleft)) s = (Some n, s\<lparr>world := w\<rparr>)"
        using kw Ok by (simp add: syscall_def)
      show ?thesis
      proof (cases "n = 0")
        case True
        then show ?thesis using left run "1.prems"
          by (auto simp: Nsendfile_loop.simps [of K fromfd tofd cnt nleft s] net_error_defs)
      next
        case False
        have "Nsendfile_loop K fromfd tofd cnt (nleft - n) (s\<lparr>world := w\<rparr>) = (r, s')"
          using left run False "1.prems"(4) by (simp add: Nsendfile_loop.simps [of K fromfd tofd cnt nleft s])
        then show ?thesis
          using "1.IH" [OF _ run [symmetric] refl False] left n "1.prems"(1,2,3) by force
      qed
    qed
  qed
qed

section \<open>Resources\<close>

text \<open>Descriptors opened and closed, and address lists obtained and freed, by a log.\<close>

fun opened :: "event list \<Rightarrow> int multiset" where
  "opened [] = {#}"
| "opened (Opened fd # l) = add_mset fd (opened l)"
| "opened (e # l) = opened l"

fun closed_fds :: "event list \<Rightarrow> int multiset" where
  "closed_fds [] = {#}"
| "closed_fds (Closed fd # l) = add_mset fd (closed_fds l)"
| "closed_fds (e # l) = closed_fds l"

fun got_addrs :: "event list \<Rightarrow> nat multiset" where
  "got_addrs [] = {#}"
| "got_addrs (GotAddr a # l) = add_mset a (got_addrs l)"
| "got_addrs (e # l) = got_addrs l"

fun freed_addrs :: "event list \<Rightarrow> nat multiset" where
  "freed_addrs [] = {#}"
| "freed_addrs (FreedAddr a # l) = add_mset a (freed_addrs l)"
| "freed_addrs (e # l) = freed_addrs l"

text \<open>What a run with log \<open>l\<close> still holds at its end.\<close>

definition holds :: "int multiset \<Rightarrow> nat multiset \<Rightarrow> event list \<Rightarrow> bool" where
  "holds fds ais l \<longleftrightarrow> opened l = closed_fds l + fds \<and> got_addrs l = freed_addrs l + ais"

text \<open>
  A small program logic over the log: \<open>logs m Q\<close> says that every run of \<open>m\<close> only appends to
  the log, and that its result and what it appends satisfy \<open>Q\<close>. The rules are collected in
  \<open>log_rules\<close> and applied backwards along the code.
\<close>

definition logs :: "('w sys, 'a) state \<Rightarrow> ('a \<Rightarrow> event list \<Rightarrow> bool) \<Rightarrow> bool" where
  "logs m Q \<longleftrightarrow> (\<forall>s x s'. run_state m s = (x, s') \<longrightarrow> (\<exists>l. elog s' = elog s @ l \<and> Q x l))"

named_theorems log_rules \<open>rules of the log logic\<close>

lemma logsI: "(\<And>s x s'. run_state m s = (x, s') \<Longrightarrow> \<exists>l. elog s' = elog s @ l \<and> Q x l) \<Longrightarrow> logs m Q"
  by (auto simp: logs_def)

lemma logsD: "logs m Q \<Longrightarrow> run_state m s = (x, s') \<Longrightarrow> \<exists>l. elog s' = elog s @ l \<and> Q x l"
  by (auto simp: logs_def)

lemma logs_ret [log_rules]: "Q x [] \<Longrightarrow> logs (ret x) Q"
  by (auto simp: logs_def)

lemma logs_bind [log_rules]:
  assumes "logs m (\<lambda>x l. logs (f x) (\<lambda>y k. Q y (l @ k)))"
  shows "logs (m \<bind> f) Q"
proof (rule logsI)
  fix s y s'
  assume "run_state (m \<bind> f) s = (y, s')"
  then obtain x t where run: "run_state m s = (x, t)" "run_state (f x) t = (y, s')"
    by (auto split: prod.splits)
  obtain l where l: "elog t = elog s @ l" "logs (f x) (\<lambda>y k. Q y (l @ k))"
    using logsD [OF assms run(1)] by blast
  obtain k where "elog s' = elog t @ k" "Q y (l @ k)"
    using logsD [OF l(2) run(2)] by blast
  then show "\<exists>l. elog s' = elog s @ l \<and> Q y l"
    using l(1) by auto
qed

lemma logs_syscall [log_rules]: "(\<And>x. Q x []) \<Longrightarrow> logs (syscall f) Q"
  by (rule logsI) (auto dest: syscall_elog)

lemma logs_gets [log_rules]: "(\<And>x. Q x []) \<Longrightarrow> logs (gets f) Q"
  by (auto simp: logs_def)

lemma logs_set_errno [log_rules]: "Q () [] \<Longrightarrow> logs (set_errno e) Q"
  by (auto simp: logs_def sys_run)

lemma logs_set_i_errno [log_rules]: "Q () [] \<Longrightarrow> logs (set_i_errno e) Q"
  by (auto simp: logs_def sys_run)

lemma logs_fail_with [log_rules]: "Q r [] \<Longrightarrow> logs (fail_with e r) Q"
  by (auto simp: logs_def sys_run)

lemma logs_time_now [log_rules]: "(\<And>x. Q x []) \<Longrightarrow> logs (sys_time_now K) Q"
  by (auto simp: logs_def sys_time_now_def split: prod.splits)

lemma logs_event [log_rules]: "Q () [e] \<Longrightarrow> logs (log_event e) Q"
  by (auto simp: logs_def sys_run)

lemma logs_if [log_rules]:
  "(b \<Longrightarrow> logs m Q) \<Longrightarrow> (\<not> b \<Longrightarrow> logs n Q) \<Longrightarrow> logs (if b then m else n) Q"
  by simp

lemma logs_case_option [log_rules]:
  "(x = None \<Longrightarrow> logs m Q) \<Longrightarrow> (\<And>a. x = Some a \<Longrightarrow> logs (f a) Q) \<Longrightarrow>
   logs (case x of None \<Rightarrow> m | Some a \<Rightarrow> f a) Q"
  by (cases x) auto

lemma logs_close [log_rules]: "Q () [Closed fd] \<Longrightarrow> logs (sys_close K fd) Q"
  unfolding sys_close_def by (intro log_rules) simp

lemma logs_free [log_rules]: "Q () [FreedAddr (ai_id a)] \<Longrightarrow> logs (sys_freeaddrinfo a) Q"
  unfolding sys_freeaddrinfo_def by (intro log_rules) simp

text \<open>\<open>socket\<close> never succeeds with a negative descriptor.\<close>

definition socket_nonneg :: "'w kernel \<Rightarrow> bool" where
  "socket_nonneg K \<longleftrightarrow> (\<forall>fam proto w fd w'. k_socket K fam proto w = (Ok fd, w') \<longrightarrow> 0 \<le> fd)"

lemma logs_socket:
  "socket_nonneg K \<Longrightarrow> Q None [] \<Longrightarrow> (\<And>fd. 0 \<le> fd \<Longrightarrow> Q (Some fd) [Opened fd]) \<Longrightarrow>
   logs (sys_socket K fam proto) Q"
  unfolding socket_nonneg_def
  by (rule logsI) (force simp: run_socket split: prod.splits sysret.splits)

lemma logs_getaddrinfo [log_rules]:
  "Q None [] \<Longrightarrow> (\<And>a. Q (Some a) [GotAddr (ai_id a)]) \<Longrightarrow> logs (sys_getaddrinfo K node serv hs) Q"
  by (rule logsI) (auto simp: sys_getaddrinfo_def split: prod.splits sysret.splits)

lemma logs_fail_close [log_rules]:
  "length ais \<le> 2 \<Longrightarrow> Q (-1) (Closed fd # map (\<lambda>a. FreedAddr (ai_id a)) ais) \<Longrightarrow> logs (fail_close K fd ais) Q"
  unfolding fail_close_def
  by (cases ais rule: remdups_adj.cases) (simp, intro log_rules, simp)+

lemma logs_timeout_connect [log_rules]:
  "(\<And>r. Q r []) \<Longrightarrow> logs (timeout_connect K fd sa timeout) Q"
  unfolding timeout_connect_def Let_def by (intro log_rules | simp)+

lemma netannounce_logs:
  assumes "socket_nonneg K"
  shows "logs (netannounce K domain proto lcl port)
    (\<lambda>r l. if 0 \<le> r then holds {#r#} {#} l else r = -1 \<and> holds {#} {#} l)"
  unfolding netannounce_def Let_def
  by (intro log_rules logs_socket [OF assms]) (auto simp: holds_def)

lemma netdial_logs:
  assumes "socket_nonneg K"
  shows "logs (netdial K domain proto lcl local_port server port timeout)
    (\<lambda>r l. if 0 \<le> r then holds {#r#} {#} l
       else r = -1 \<and> (holds {#} {#} l
         \<or> lcl \<noteq> None \<and> (\<exists>a. holds {#} {#a#} l)
         \<or> lcl = None \<and> local_port \<noteq> 0 \<and> (\<exists>fd a. holds {#fd#} {#a#} l)))"
  unfolding netdial_def Let_def
  by (intro log_rules logs_socket [OF assms]) (auto simp: holds_def)

section \<open>A concrete operating system\<close>

text \<open>
  For the examples: the world is the input not yet read, reads deliver at most two bytes,
  writes take at most three, sockets are numbered 5, and looking up the host \<open>bad\<close> fails.
\<close>

definition sample_kernel :: "u8 list kernel" where
  "sample_kernel = \<lparr>
     k_read = (\<lambda>fd n w. (Ok (take (min n 2) w), drop (min n 2) w)),
     k_write = (\<lambda>fd bs w. (Ok (min 3 (length bs)), w)),
     k_sendfile = (\<lambda>t f off n w. (Ok (min 2 n), w)),
     k_close = (\<lambda>fd w. (Ok (), w)),
     k_socket = (\<lambda>fam proto w. (Ok 5, w)),
     k_bind = (\<lambda>fd sa w. (if sa_port sa = 1 then Fail 98 else Ok (), w)),
     k_connect = (\<lambda>fd sa w. (Ok (), w)),
     k_listen = (\<lambda>fd w. (Ok (), w)),
     k_accept = (\<lambda>fd w. (Ok 6, w)),
     k_recvfrom = (\<lambda>fd n w. (Ok (take n w, \<lparr>sa_family = 2, sa_port = 5201, sa_addr = [127, 0, 0, 1]\<rparr>), drop n w)),
     k_setsockopt = (\<lambda>fd opt v w. (Ok (), w)),
     k_getsockopt = (\<lambda>fd opt w. (Ok 0, w)),
     k_getfl = (\<lambda>fd w. (Ok 0, w)),
     k_setfl = (\<lambda>fd fl w. (Ok (), w)),
     k_poll = (\<lambda>fd timeout w. (Ok 1, w)),
     k_getaddrinfo = (\<lambda>node serv hs w.
        (if node = Some ''bad'' then Fail (-2)
         else Ok \<lparr>ai_id = length w, ai_family = (if h_family hs = 1 then 1 else 2),
                  ai_addr = \<lparr>sa_family = 2, sa_port = 0, sa_addr = [127, 0, 0, 1]\<rparr>\<rparr>, 0 # w)),
     k_getsockname = (\<lambda>fd w. (Ok \<lparr>sa_family = 2, sa_port = 0, sa_addr = []\<rparr>, w)),
     k_getpeername = (\<lambda>fd w. (Ok \<lparr>sa_family = 2, sa_port = 0, sa_addr = []\<rparr>, w)),
     k_clock = (\<lambda>w. ((0, 0, 0), w)),
     k_uninit = \<lparr>secs = 0, usecs = 0\<rparr>,
     k_garbage = (\<lambda>i. 170),
     k_malloc = (\<lambda>n w. (True, w)),
     k_mkstemp = (\<lambda>t w. (Ok (7, t), w)),
     k_unlink = (\<lambda>t w. (Ok (), w)),
     k_ftruncate = (\<lambda>fd n w. (Ok (), w)),
     k_mmap = (\<lambda>n fd w. (Ok (replicate n 0), w)),
     k_munmap = (\<lambda>w. (Ok (), w)),
     k_open = (\<lambda>name wr w. (Ok 8, w)),
     k_fsync = (\<lambda>fd w. (Ok (), w)),
     k_getenv = (\<lambda>v. None),
     k_random = (\<lambda>n w. (Some (replicate n 1), w)),
     k_tcpinfo = (\<lambda>fd w. (Ok \<lparr>tcpi_total_retrans = 0, tcpi_snd_cwnd = 10, tcpi_snd_mss = 1448, tcpi_rtt = 100,
        tcpi_rttvar = 10, tcpi_pmtu = 1500\<rparr>, w)),
     k_cpu = (\<lambda>w. ((0, 0, 0), w)),
     k_select = (\<lambda>n rs ws tv w. ((Ok (rs, ws, int (length rs) + int (length ws)), (0, 0)), w)), k_kill = (\<lambda>pid w. (Fail 3, w)),
     k_daemon = (\<lambda>w. (Ok (), w)), k_pid = 1,
     k_cast = 0\<rparr>"

definition sample_sys :: "u8 list \<Rightarrow> u8 list sys" where
  "sample_sys w = \<lparr>world = w, errno = 0, gerror = 0, i_errno = IENONE, elog = []\<rparr>"

lemma sample_kernel_ok:
  "read_bounded sample_kernel" "write_bounded sample_kernel" "sendfile_bounded sample_kernel"
  "socket_nonneg sample_kernel"
  by (auto simp: sample_kernel_def read_bounded_def write_bounded_def sendfile_bounded_def socket_nonneg_def
      split: if_splits)

section \<open>Properties\<close>



text \<open>
  (C30) \<open>Nwrite\<close> always returns. When the kernel never accepts more than it is offered, the
  chunks it hands over are non-empty and form the beginning of the buffer, in order and
  without a gap; a non-negative result counts exactly these bytes, and the only negative
  results are the two error codes.
\<close>

theorem Nwrite_sends_prefix:
  assumes "write_bounded K" "length buf < 2147483648" "run_state (Nwrite K fd buf) s = (r, s')"
  shows "\<exists>cs. elog s' = elog s @ map (Wrote fd) cs \<and> [] \<notin> set cs \<and> prefix (concat cs) buf \<and>
     (0 \<le> r \<longrightarrow> concat cs = take (nat r) buf) \<and> (r < 0 \<longrightarrow> r = NET_SOFTERROR \<or> r = NET_HARDERROR)"
  using Nwrite_spec [OF assms] by blast

theorem Nwrite_sends_prefix_witness:
  "\<exists>s'. run_state (Nwrite sample_kernel 4 [1, 2, 3, 4]) (sample_sys []) = (4, s')
    \<and> elog s' = [Wrote 4 [1, 2, 3], Wrote 4 [4]]
    \<and> (\<exists>cs. elog s' = map (Wrote 4) cs \<and> concat cs = [1, 2, 3, 4])"
proof -
  obtain s' where run: "run_state (Nwrite sample_kernel 4 [1, 2, 3, 4]) (sample_sys []) = (4, s')"
    and l: "elog s' = [Wrote 4 [1, 2, 3], Wrote 4 [4]]"
    by (simp add: Nwrite_def Nwrite_loop.simps syscall_def sample_kernel_def sample_sys_def to_int32_len [of 4, simplified])
  have "\<exists>cs. elog s' = map (Wrote 4) cs \<and> concat cs = [1, 2, 3, 4]"
    using Nwrite_sends_prefix [OF sample_kernel_ok(2) _ run] by (force simp: sample_sys_def)
  then show ?thesis using run l by blast
qed

text \<open>
  (C31) \<open>netannounce\<close> leaks nothing: when it succeeds, the descriptor it returns is the only
  one it leaves open; on every error path it returns \<open>-1\<close> with every descriptor it opened
  closed again. The address lists are freed in both cases.
\<close>

theorem netannounce_releases:
  assumes "socket_nonneg K" "run_state (netannounce K domain proto lcl port) s = (r, s')"
  shows "\<exists>l. elog s' = elog s @ l \<and>
     (if 0 \<le> r then holds {#r#} {#} l else r = -1 \<and> holds {#} {#} l)"
  using logsD [OF netannounce_logs [OF assms(1)] assms(2)] .

theorem netannounce_releases_witness:
  "\<exists>s'. run_state (netannounce sample_kernel AF_UNSPEC SOCK_STREAM None 5201) (sample_sys []) = (5, s')
     \<and> holds {#5#} {#} (elog s')"
proof -
  obtain s' where run: "run_state (netannounce sample_kernel AF_UNSPEC SOCK_STREAM None 5201) (sample_sys []) = (5, s')"
    by (simp add: netannounce_def sys_getaddrinfo_def run_socket syscall_def sys_run sock_defs
        sample_kernel_def sample_sys_def)
  have "holds {#5#} {#} (elog s')"
    using netannounce_releases [OF sample_kernel_ok(4) run] by (auto simp: sample_sys_def)
  then show ?thesis using run by blast
qed

text \<open>
  What \<open>netdial\<close> holds when it returns: on success exactly the connected descriptor; on
  failure nothing, except that with a local address its address list may be left allocated,
  and that with a bare local port the socket and the server's address list may be.
\<close>

theorem netdial_accounts:
  assumes "socket_nonneg K" "run_state (netdial K domain proto lcl local_port server port timeout) s = (r, s')"
  shows "\<exists>l. elog s' = elog s @ l \<and>
     (if 0 \<le> r then holds {#r#} {#} l
      else r = -1 \<and> (holds {#} {#} l
        \<or> lcl \<noteq> None \<and> (\<exists>a. holds {#} {#a#} l)
        \<or> lcl = None \<and> local_port \<noteq> 0 \<and> (\<exists>fd a. holds {#fd#} {#a#} l)))"
  using logsD [OF netdial_logs [OF assms(1)] assms(2)] .

theorem netdial_accounts_witness:
  "\<exists>s'. run_state (netdial sample_kernel AF_UNSPEC SOCK_STREAM (Some ''me'') 0 (Some ''host'') 5201 (-1)) (sample_sys []) = (5, s')
     \<and> holds {#5#} {#} (elog s')"
proof -
  obtain s' where run: "run_state (netdial sample_kernel AF_UNSPEC SOCK_STREAM (Some ''me'') 0 (Some ''host'') 5201 (-1)) (sample_sys []) = (5, s')"
    by (simp add: netdial_def timeout_connect_def sys_getaddrinfo_def run_socket syscall_def sys_run sock_defs
        sample_kernel_def sample_sys_def)
  have "holds {#5#} {#} (elog s')"
    using netdial_accounts [OF sample_kernel_ok(4) run] by (auto simp: sample_sys_def)
  then show ?thesis using run by blast
qed

text \<open>
  Both exceptions happen: when the local address resolves and the server's does not, the
  local address list is never freed; and when the server's address is neither IPv4 nor IPv6
  and a local port was asked for, the socket stays open and the server's list allocated.
\<close>

theorem netdial_leaks:
  "(\<exists>s'. run_state (netdial sample_kernel AF_UNSPEC SOCK_STREAM (Some ''me'') 0 (Some ''bad'') 5201 (-1)) (sample_sys []) = (-1, s')
     \<and> elog s' = [GotAddr 0] \<and> holds {#} {#0#} (elog s'))
   \<and> (\<exists>s'. run_state (netdial sample_kernel 1 SOCK_STREAM None 4000 (Some ''host'') 5201 (-1)) (sample_sys []) = (-1, s')
     \<and> elog s' = [GotAddr 0, Opened 5] \<and> holds {#5#} {#0#} (elog s'))"
  by (simp add: netdial_def timeout_connect_def sys_getaddrinfo_def run_socket syscall_def sys_run sock_defs
      holds_def sample_kernel_def sample_sys_def)

end
