(* ===== verification/Units.thy ===== *)
theory Units
  imports C_String
begin

text \<open>
  Numbers with unit suffixes (\<open>units.c\<close>): reading \<open>10M\<close> and the like from the command line,
  and printing amounts with the unit that fits.
\<close>

section \<open>Reading\<close>

definition KILO_UNIT :: rat where "KILO_UNIT = 1024"
definition MEGA_UNIT :: rat where "MEGA_UNIT = 1024 * 1024"
definition GIGA_UNIT :: rat where "GIGA_UNIT = 1024 * 1024 * 1024"
definition TERA_UNIT :: rat where "TERA_UNIT = 1024 * 1024 * 1024 * 1024"

definition KILO_RATE_UNIT :: rat where "KILO_RATE_UNIT = 1000"
definition MEGA_RATE_UNIT :: rat where "MEGA_RATE_UNIT = 1000 * 1000"
definition GIGA_RATE_UNIT :: rat where "GIGA_RATE_UNIT = 1000 * 1000 * 1000"
definition TERA_RATE_UNIT :: rat where "TERA_RATE_UNIT = 1000 * 1000 * 1000 * 1000"

lemmas unit_defs = KILO_UNIT_def MEGA_UNIT_def GIGA_UNIT_def TERA_UNIT_def
lemmas rate_unit_defs = KILO_RATE_UNIT_def MEGA_RATE_UNIT_def GIGA_RATE_UNIT_def TERA_RATE_UNIT_def

text \<open>
  \<open>sscanf(s, "%lf%c", &n, &suffix)\<close>: the suffix keeps its initial value zero when nothing
  follows the number. When the number itself cannot be scanned, \<open>n\<close> is not assigned and the
  result of the three functions is indeterminate: \<open>None\<close>.
\<close>

definition scan_suffix :: "string \<Rightarrow> (rat \<times> char) option" where
  "scan_suffix s = (case scan_lf s of None \<Rightarrow> None
     | Some (n, rest) \<Rightarrow> Some (n, case rest of [] \<Rightarrow> char_of (0 :: nat) | c # _ \<Rightarrow> c))"

definition unit_atof :: "string \<Rightarrow> rat option" where
  "unit_atof s = (case scan_suffix s of None \<Rightarrow> None
     | Some (n, suffix) \<Rightarrow> Some
        (if suffix = CHR ''t'' \<or> suffix = CHR ''T'' then dmul n TERA_UNIT
         else if suffix = CHR ''g'' \<or> suffix = CHR ''G'' then dmul n GIGA_UNIT
         else if suffix = CHR ''m'' \<or> suffix = CHR ''M'' then dmul n MEGA_UNIT
         else if suffix = CHR ''k'' \<or> suffix = CHR ''K'' then dmul n KILO_UNIT
         else n))"

definition unit_atof_rate :: "string \<Rightarrow> rat option" where
  "unit_atof_rate s = (case scan_suffix s of None \<Rightarrow> None
     | Some (n, suffix) \<Rightarrow> Some
        (if suffix = CHR ''t'' \<or> suffix = CHR ''T'' then dmul n TERA_RATE_UNIT
         else if suffix = CHR ''g'' \<or> suffix = CHR ''G'' then dmul n GIGA_RATE_UNIT
         else if suffix = CHR ''m'' \<or> suffix = CHR ''M'' then dmul n MEGA_RATE_UNIT
         else if suffix = CHR ''k'' \<or> suffix = CHR ''K'' then dmul n KILO_RATE_UNIT
         else n))"

text \<open>\<open>(iperf_size_t) n\<close>: defined when the truncated value fits 64 unsigned bits.\<close>

definition unit_atoi :: "string \<Rightarrow> u64 option" where
  "unit_atoi s = (case scan_suffix s of None \<Rightarrow> None
     | Some (n, suffix) \<Rightarrow>
        (let v = d_to_int
              (if suffix = CHR ''t'' \<or> suffix = CHR ''T'' then dmul n TERA_UNIT
               else if suffix = CHR ''g'' \<or> suffix = CHR ''G'' then dmul n GIGA_UNIT
               else if suffix = CHR ''m'' \<or> suffix = CHR ''M'' then dmul n MEGA_UNIT
               else if suffix = CHR ''k'' \<or> suffix = CHR ''K'' then dmul n KILO_UNIT
               else n)
         in if 0 \<le> v \<and> v < 2 ^ 64 then Some (word_of_int v) else None))"

section \<open>Printing\<close>

datatype unit_conv = UNIT_CONV | KILO_CONV | MEGA_CONV | GIGA_CONV | TERA_CONV

fun conv_idx :: "unit_conv \<Rightarrow> nat" where
  "conv_idx UNIT_CONV = 0" | "conv_idx KILO_CONV = 1" | "conv_idx MEGA_CONV = 2"
| "conv_idx GIGA_CONV = 3" | "conv_idx TERA_CONV = 4"

text \<open>\<open>conv++\<close>\<close>

fun conv_succ :: "unit_conv \<Rightarrow> unit_conv" where
  "conv_succ UNIT_CONV = KILO_CONV" | "conv_succ KILO_CONV = MEGA_CONV"
| "conv_succ MEGA_CONV = GIGA_CONV" | "conv_succ GIGA_CONV = TERA_CONV" | "conv_succ TERA_CONV = TERA_CONV"

definition conversion_bytes :: "rat list" where
  "conversion_bytes = [1, ddiv 1 1024, ddiv (ddiv 1 1024) 1024, ddiv (ddiv (ddiv 1 1024) 1024) 1024,
     ddiv (ddiv (ddiv (ddiv 1 1024) 1024) 1024) 1024]"

definition conversion_bits :: "rat list" where
  "conversion_bits = [1, ddiv 1 1000, ddiv (ddiv 1 1000) 1000, ddiv (ddiv (ddiv 1 1000) 1000) 1000,
     ddiv (ddiv (ddiv (ddiv 1 1000) 1000) 1000) 1000]"

definition label_byte :: "string list" where
  "label_byte = [''Byte'', ''KByte'', ''MByte'', ''GByte'', ''TByte'']"

definition label_bit :: "string list" where
  "label_bit = [''bit'', ''Kbit'', ''Mbit'', ''Gbit'', ''Tbit'']"

text \<open>The \<open>while\<close> loops of the adaptive format: at most four steps.\<close>

function adapt :: "rat \<Rightarrow> rat \<Rightarrow> unit_conv \<Rightarrow> rat \<times> unit_conv" where
  "adapt b tmpNum conv =
     (if b \<le> tmpNum \<and> conv_idx conv < conv_idx TERA_CONV then adapt b (ddiv tmpNum b) (conv_succ conv)
      else (tmpNum, conv))"
  by pat_completeness auto
termination
proof (relation "measure (\<lambda>(b, t, c). 4 - conv_idx c)")
  show "((b, ddiv tmpNum b, conv_succ conv), b, tmpNum, conv) \<in> measure (\<lambda>(b, t, c). 4 - conv_idx c)"
    if "b \<le> tmpNum \<and> conv_idx conv < conv_idx TERA_CONV" for b tmpNum conv
    using that by (cases conv) auto
qed simp

declare adapt.simps [simp del]

definition unit_value :: "rat \<Rightarrow> char \<Rightarrow> rat \<times> string" where
  "unit_value inNum inFormat =
     (let inNum = (if \<not> c_isupper inFormat then dmul inNum 8 else inNum);
          u = c_toupper inFormat;
          conv = (if u = CHR ''B'' then UNIT_CONV
                  else if u = CHR ''K'' then KILO_CONV
                  else if u = CHR ''M'' then MEGA_CONV
                  else if u = CHR ''G'' then GIGA_CONV
                  else if u = CHR ''T'' then TERA_CONV
                  else if c_isupper inFormat then snd (adapt 1024 inNum UNIT_CONV)
                  else snd (adapt 1000 inNum UNIT_CONV))
      in if \<not> c_isupper inFormat
         then (dmul inNum (conversion_bits ! conv_idx conv), label_bit ! conv_idx conv)
         else (dmul inNum (conversion_bytes ! conv_idx conv), label_byte ! conv_idx conv))"

definition unit_format :: "rat \<Rightarrow> string" where
  "unit_format n =
     (if n < rnd (9995 / 1000) then show_lf 4 2 n
      else if n < rnd (9995 / 100) then show_lf 4 1 n
      else if n < rnd (9995 / 10) then show_lf 4 0 n
      else show_lf 4 0 n)"

text \<open>\<open>snprintf\<close> stores at most \<open>inLen - 1\<close> characters.\<close>

definition unit_snprintf :: "nat \<Rightarrow> rat \<Rightarrow> char \<Rightarrow> string" where
  "unit_snprintf inLen inNum inFormat =
     (let (n, suffix) = unit_value inNum inFormat
      in take (inLen - 1) (unit_format n @ CHR '' '' # suffix))"

section \<open>Lemmas\<close>

lemma scan_suffix_show_nat:
  "plain_suffix (c # r) \<Longrightarrow> scan_suffix (show_nat n @ c # r) = Some (rnd (of_nat n), c)"
  by (simp add: scan_suffix_def scan_lf_show_nat)

lemma scan_suffix_show_nat_nil: "scan_suffix (show_nat n) = Some (rnd (of_nat n), char_of (0::nat))"
  using scan_lf_show_nat [of "[]" n] by (simp add: scan_suffix_def plain_suffix_def)

text \<open>The factor a unit letter stands for, in the two systems.\<close>

definition bin_factor :: "char \<Rightarrow> int" where
  "bin_factor c = (if c_tolower c = CHR ''t'' then 1024 ^ 4 else if c_tolower c = CHR ''g'' then 1024 ^ 3
     else if c_tolower c = CHR ''m'' then 1024 ^ 2 else if c_tolower c = CHR ''k'' then 1024 else 1)"

definition dec_factor :: "char \<Rightarrow> int" where
  "dec_factor c = (if c_tolower c = CHR ''t'' then 1000 ^ 4 else if c_tolower c = CHR ''g'' then 1000 ^ 3
     else if c_tolower c = CHR ''m'' then 1000 ^ 2 else if c_tolower c = CHR ''k'' then 1000 else 1)"

definition unit_letters :: string where
  "unit_letters = ''tTgGmMkK''"

lemma unit_letter_cases:
  assumes "c \<in> set unit_letters"
  obtains "c = CHR ''t''" | "c = CHR ''T''" | "c = CHR ''g''" | "c = CHR ''G''"
    | "c = CHR ''m''" | "c = CHR ''M''" | "c = CHR ''k''" | "c = CHR ''K''"
  using assms by (auto simp: unit_letters_def)

lemma letters_plain: "list_all (\<lambda>c. plain_suffix [c]) unit_letters"
  by code_simp

lemma plain_suffix_letter: "c \<in> set unit_letters \<Longrightarrow> plain_suffix [c]"
  using letters_plain by (simp add: list_all_iff)

lemma factor_letters:
  "map bin_factor unit_letters = [1024 ^ 4, 1024 ^ 4, 1024 ^ 3, 1024 ^ 3, 1024 ^ 2, 1024 ^ 2, 1024, 1024]"
  "map dec_factor unit_letters = [1000 ^ 4, 1000 ^ 4, 1000 ^ 3, 1000 ^ 3, 1000 ^ 2, 1000 ^ 2, 1000, 1000]"
  by code_simp+

lemma factor_pos: "0 < bin_factor c" "0 < dec_factor c"
  by (simp_all add: bin_factor_def dec_factor_def)

lemma dmul_nat_exact:
  assumes "int n * k \<le> 2 ^ 53" "0 < k"
  shows "dmul (rnd (of_nat n)) (of_int k) = of_int (int n * k)"
proof -
  have "int n * 1 \<le> int n * k" using assms(2) by (intro mult_left_mono) auto
  then have "rnd (of_int (int n)) = of_int (int n)" "rnd (of_int (int n * k)) = of_int (int n * k)"
    using assms by (intro rnd_int; simp)+
  then show ?thesis by (simp add: dmul_def)
qed

lemma unit_atof_letter:
  assumes "c \<in> set unit_letters"
  shows "unit_atof (show_nat n @ [c]) = Some (dmul (rnd (of_nat n)) (of_int (bin_factor c)))"
    "unit_atof_rate (show_nat n @ [c]) = Some (dmul (rnd (of_nat n)) (of_int (dec_factor c)))"
    "unit_atoi (show_nat n @ [c]) =
       (let v = d_to_int (dmul (rnd (of_nat n)) (of_int (bin_factor c)))
        in if 0 \<le> v \<and> v < 2 ^ 64 then Some (word_of_int v) else None)"
  using assms factor_letters scan_suffix_show_nat [OF plain_suffix_letter [OF assms], of n]
  by (cases c rule: unit_letter_cases;
      simp add: unit_atof_def unit_atof_rate_def unit_atoi_def unit_defs rate_unit_defs unit_letters_def)+

section \<open>Four places\<close>

text \<open>A double below the double nearest to \<open>c\<close> is below \<open>c\<close> itself.\<close>

lemma below_rnd: "rnd v = v \<Longrightarrow> v < rnd c \<Longrightarrow> v < c"
  using rnd_mono [of c v] by (cases "v < c") auto

lemma rhe_less: "y < of_int n - 1 / 2 \<Longrightarrow> rhe y < n"
  using rhe_bounds(1) [of y] of_int_less_iff [where 'a = rat, of "rhe y" n] by linarith

lemma show_lf_four:
  assumes "0 \<le> v" "v * 10 ^ p < of_int (10 ^ k) - 1 / 2" "0 < k" "if p = 0 then k \<le> 4 else k = 3 \<and> p < 3"
  shows "length (show_lf 4 p v) = 4"
proof -
  let ?n = "nat (rhe (v * 10 ^ p))"
  have "rhe (v * 10 ^ p) < 10 ^ k" using rhe_less [OF assms(2)] .
  then have n: "?n < 10 ^ k"
    using assms(3) by (simp add: nat_less_iff)
  have sf: "show_fixed p v = show_nat (?n div 10 ^ p) @ (if p = 0 then [] else CHR ''.'' # pad_zero p (show_nat (?n mod 10 ^ p)))"
    using assms(1) by (simp add: show_fixed_def Let_def)
  show ?thesis
  proof (cases "p = 0")
    case True
    then have "length (show_nat ?n) \<le> 4"
      using show_nat_length [OF n assms(3)] assms(4) by simp
    then show ?thesis using True sf by (simp add: show_lf_def pad_left_def)
  next
    case False
    then have k: "k = 3" "p = 1 \<or> p = 2" using assms(4) by auto
    have "length (show_nat (?n mod 10 ^ p)) \<le> p"
      using False by (intro show_nat_length) auto
    then have z: "length (pad_zero p (show_nat (?n mod 10 ^ p))) = p"
      by (simp add: pad_zero_def)
    have "?n div 10 ^ p < 10 ^ (3 - p)"
      using n k by (auto simp: less_mult_imp_div_less)
    then have "length (show_nat (?n div 10 ^ p)) \<le> 3 - p"
      using k by (intro show_nat_length) auto
    moreover have "1 \<le> length (show_nat (?n div 10 ^ p))"
      by (simp add: Suc_le_eq)
    ultimately have "length (show_fixed p v) \<le> 4"
      using sf False z k by auto
    then show ?thesis by (simp add: show_lf_def pad_left_def)
  qed
qed

lemma unit_format_four:
  assumes "rnd v = v" "0 \<le> v" "v < 9999"
  shows "length (unit_format v) = 4"
proof -
  consider "v < rnd (9995 / 1000)" | "\<not> v < rnd (9995 / 1000)" "v < rnd (9995 / 100)"
    | "\<not> v < rnd (9995 / 1000)" "\<not> v < rnd (9995 / 100)" by blast
  then show ?thesis
  proof cases
    case 1
    then have "length (show_lf 4 2 v) = 4"
      using below_rnd [OF assms(1) 1] assms(2) by (intro show_lf_four [of v 2 3]) auto
    then show ?thesis using 1 by (simp add: unit_format_def)
  next
    case 2
    then have "length (show_lf 4 1 v) = 4"
      using below_rnd [OF assms(1) 2(2)] assms(2) by (intro show_lf_four [of v 1 3]) auto
    then show ?thesis using 2 by (simp add: unit_format_def)
  next
    case 3
    have "length (show_lf 4 0 v) = 4"
      using assms(2,3) by (intro show_lf_four [of v 0 4]) auto
    then show ?thesis using 3 by (simp add: unit_format_def)
  qed
qed

lemma ddiv_upper:
  assumes "0 \<le> t" "0 < b"
  shows "t \<le> ddiv t b * (b * (1 + 1 / 2 ^ 52))"
proof -
  have "t / b - t / b / 2 ^ 53 \<le> ddiv t b"
    using rnd_error [of "t / b"] assms unfolding ddiv_def abs_le_iff by simp
  then have "(t / b) * (1 - 1 / 2 ^ 53) \<le> ddiv t b"
    by (simp add: algebra_simps)
  then have "(t / b) * (1 - 1 / 2 ^ 53) * (b * (1 + 1 / 2 ^ 52)) \<le> ddiv t b * (b * (1 + 1 / 2 ^ 52))"
    using assms by (intro mult_right_mono) auto
  moreover have "(t / b) * (1 - 1 / 2 ^ 53) * (b * (1 + 1 / 2 ^ 52)) = t * ((1 - 1 / 2 ^ 53) * (1 + 1 / 2 ^ 52))"
    using assms by simp
  moreover have "t * 1 \<le> t * ((1 - 1 / 2 ^ 53) * (1 + 1 / 2 ^ 52))"
    using assms by (intro mult_left_mono) simp_all
  ultimately show ?thesis by linarith
qed

text \<open>
  What the loop leaves: a number below the base (or the largest unit), from which the start
  value is recovered up to the rounding of the divisions.
\<close>

lemma adapt_spec:
  assumes "0 < b" "0 \<le> t" "adapt b t c = (t', c')"
  shows "0 \<le> t' \<and> conv_idx c \<le> conv_idx c' \<and> conv_idx c' \<le> 4 \<and> (t' < b \<or> c' = TERA_CONV) \<and>
     t \<le> t' * (b * (1 + 1 / 2 ^ 52)) ^ (conv_idx c' - conv_idx c)"
  using assms
proof (induction b t c rule: adapt.induct)
  case (1 b t c)
  let ?f = "b * (1 + 1 / 2 ^ 52) :: rat"
  show ?case
  proof (cases "b \<le> t \<and> conv_idx c < conv_idx TERA_CONV")
    case True
    have s: "conv_idx (conv_succ c) = Suc (conv_idx c)" using True by (cases c) auto
    have "0 \<le> ddiv t b" using "1.prems" by (simp add: ddiv_def)
    then have ih: "0 \<le> t' \<and> conv_idx (conv_succ c) \<le> conv_idx c' \<and> conv_idx c' \<le> 4 \<and> (t' < b \<or> c' = TERA_CONV) \<and>
       ddiv t b \<le> t' * ?f ^ (conv_idx c' - conv_idx (conv_succ c))"
      using "1.IH" [OF True "1.prems"(1)] "1.prems"(3) True by (simp add: adapt.simps [of b t c])
    have "t \<le> ddiv t b * ?f" using "1.prems" by (intro ddiv_upper)
    also have "\<dots> \<le> t' * ?f ^ (conv_idx c' - conv_idx (conv_succ c)) * ?f"
      using ih "1.prems" by (intro mult_right_mono) auto
    also have "\<dots> = t' * ?f ^ (conv_idx c' - conv_idx c)"
      using ih s by (metis Suc_diff_le diff_Suc_Suc mult.assoc power_Suc2)
    finally show ?thesis using ih s by auto
  next
    case False
    then have "t' = t" "c' = c" using "1.prems"(3) by (auto simp: adapt.simps [of b t c])
    then show ?thesis using False "1.prems" by (cases c) (auto simp: adapt.simps)
  qed
qed

lemma ddiv_lower:
  assumes "0 \<le> c" "0 < b" "c * d \<le> (1 + 1 / 2 ^ 53) ^ k" "0 \<le> d"
  shows "0 \<le> ddiv c b" "ddiv c b * (b * d) \<le> (1 + 1 / 2 ^ 53) ^ Suc k"
proof -
  show "0 \<le> ddiv c b" using assms by (simp add: ddiv_def)
  have "ddiv c b \<le> c / b + c / b / 2 ^ 53"
    using rnd_error [of "c / b"] assms unfolding ddiv_def abs_le_iff by simp
  then have "ddiv c b \<le> c / b * (1 + 1 / 2 ^ 53)" by (simp add: algebra_simps)
  then have "ddiv c b * (b * d) \<le> c / b * (1 + 1 / 2 ^ 53) * (b * d)"
    using assms by (intro mult_right_mono) auto
  also have "\<dots> = (1 + 1 / 2 ^ 53) * (c * d)" using assms(2) by simp
  also have "\<dots> \<le> (1 + 1 / 2 ^ 53) * (1 + 1 / 2 ^ 53) ^ k"
    using assms(3) by (intro mult_left_mono) auto
  finally show "ddiv c b * (b * d) \<le> (1 + 1 / 2 ^ 53) ^ Suc k" by simp
qed

lemma ddiv_powers:
  assumes "0 < b"
  shows "0 \<le> ((\<lambda>c. ddiv c b) ^^ k) 1 \<and> ((\<lambda>c. ddiv c b) ^^ k) 1 * b ^ k \<le> (1 + 1 / 2 ^ 53) ^ k"
proof (induction k)
  case (Suc k)
  then show ?case
    using ddiv_lower [of "((\<lambda>c. ddiv c b) ^^ k) 1" b "b ^ k" k] assms by simp
qed simp

lemma conversion_nth:
  assumes "k \<le> 4"
  shows "0 \<le> conversion_bits ! k \<and> conversion_bits ! k * 1000 ^ k \<le> 1 + 1 / 2 ^ 40"
    "0 \<le> conversion_bytes ! k \<and> conversion_bytes ! k * 1024 ^ k \<le> 1 + 1 / 2 ^ 40"
proof -
  have "k = 0 \<or> k = 1 \<or> k = 2 \<or> k = 3 \<or> k = 4" using assms by auto
  then have c: "conversion_bits ! k = ((\<lambda>c. ddiv c 1000) ^^ k) 1" "conversion_bytes ! k = ((\<lambda>c. ddiv c 1024) ^^ k) 1"
    by (auto simp: conversion_bits_def conversion_bytes_def numeral_eq_Suc)
  have "(1 + 1 / 2 ^ 53 :: rat) ^ k \<le> (1 + 1 / 2 ^ 53) ^ 4"
    using assms by (intro power_increasing) auto
  also have "\<dots> \<le> 1 + 1 / 2 ^ 40" by (simp add: power_divide)
  finally show "0 \<le> conversion_bits ! k \<and> conversion_bits ! k * 1000 ^ k \<le> 1 + 1 / 2 ^ 40"
    "0 \<le> conversion_bytes ! k \<and> conversion_bytes ! k * 1024 ^ k \<le> 1 + 1 / 2 ^ 40"
    unfolding c using ddiv_powers [of 1000 k] ddiv_powers [of 1024 k] by (meson order_trans zero_less_numeral)+
qed

text \<open>The converted number stays below 9000, for amounts up to a petabyte.\<close>

lemma adapted_small:
  assumes b: "0 < b" "b \<le> 1024" "1000 \<le> b" and n: "0 \<le> n" "n \<le> 8 * 10 ^ 15"
    and ad: "adapt b n UNIT_CONV = (t', c)"
    and c: "0 \<le> cv" "cv * b ^ conv_idx c \<le> 1 + 1 / 2 ^ 40"
  shows "0 \<le> n * cv" "n * cv \<le> 9000"
proof -
  let ?k = "conv_idx c"
  show "0 \<le> n * cv" using n c by simp
  have sp: "0 \<le> t'" "?k \<le> 4" "t' < b \<or> c = TERA_CONV" "n \<le> t' * (b * (1 + 1 / 2 ^ 52)) ^ ?k"
    using adapt_spec [OF b(1) n(1) ad] by auto
  show "n * cv \<le> 9000"
  proof (cases "t' < b")
    case True
    have "n * cv \<le> t' * (b * (1 + 1 / 2 ^ 52)) ^ ?k * cv"
      using sp c by (intro mult_right_mono) auto
    also have "\<dots> = t' * (1 + 1 / 2 ^ 52) ^ ?k * (cv * b ^ ?k)"
      by (simp only: power_mult_distrib mult_ac)
    also have "\<dots> \<le> 1024 * 2 * 2"
    proof (intro mult_mono)
      have "(1 + 1 / 2 ^ 52 :: rat) ^ ?k \<le> (1 + 1 / 2 ^ 52) ^ 4"
        using sp(2) by (intro power_increasing) auto
      also have "\<dots> \<le> 2" by (simp add: power_divide)
      finally show "(1 + 1 / 2 ^ 52 :: rat) ^ ?k \<le> 2" .
    qed (use sp True b c in \<open>auto intro: order_trans\<close>)
    finally show ?thesis by simp
  next
    case False
    then have tera: "cv * b ^ 4 \<le> 1 + 1 / 2 ^ 40" using sp(3) c(2) by auto
    have "n * cv * 1000 ^ 4 \<le> n * cv * b ^ 4"
      using n c b by (intro mult_left_mono power_mono) auto
    also have "\<dots> = n * (cv * b ^ 4)" by simp
    also have "\<dots> \<le> 8 * 10 ^ 15 * (1 + 1 / 2 ^ 40)"
      using n c b tera by (intro mult_mono) auto
    finally show ?thesis by (simp add: mult.commute)
  qed
qed

section \<open>Properties\<close>

text \<open>
  A decimal number followed by a unit letter is read as the number times the power of
  1024 the letter names, in both cases, and exactly so, as long as the product has at most
  53 bits: \<open>unit_atoi\<close> returns that integer and \<open>unit_atof\<close> that double.
\<close>

theorem unit_atoi_exact:
  assumes "c \<in> set unit_letters" "int n * bin_factor c \<le> 2 ^ 53"
  shows "unit_atoi (show_nat n @ [c]) = Some (word_of_int (int n * bin_factor c)) \<and>
     unit_atof (show_nat n @ [c]) = Some (of_int (int n * bin_factor c))"
proof -
  have ex: "dmul (rnd (of_nat n)) (of_int (bin_factor c)) = of_int (int n * bin_factor c)"
    using assms(2) factor_pos by (intro dmul_nat_exact)
  have nn: "0 \<le> int n * bin_factor c" using factor_pos(1) [of c] by simp
  then have "d_to_int (of_int (int n * bin_factor c)) = int n * bin_factor c"
    unfolding d_to_int_def by (metis floor_of_int of_int_0_le_iff)
  then show ?thesis
    using ex nn assms(2) by (simp only: unit_atof_letter [OF assms(1)] Let_def) simp
qed

theorem unit_atoi_exact_witness:
  "unit_atoi (show_nat 128 @ ''K'') = Some 131072 \<and> unit_atof (show_nat 128 @ ''K'') = Some 131072"
proof -
  have "bin_factor CHR ''K'' = 1024" by code_simp
  then show ?thesis using unit_atoi_exact [of "CHR ''K''" 128] by (simp add: unit_letters_def)
qed

text \<open>
  Rates use powers of 1000: a decimal number followed by a unit letter is read by
  \<open>unit_atof_rate\<close> as exactly the number times that power, up to 53 bits.
\<close>

theorem unit_atof_rate_exact:
  assumes "c \<in> set unit_letters" "int n * dec_factor c \<le> 2 ^ 53"
  shows "unit_atof_rate (show_nat n @ [c]) = Some (of_int (int n * dec_factor c))"
  using dmul_nat_exact [OF assms(2) factor_pos(2)] unit_atof_letter(2) [OF assms(1)] by simp

theorem unit_atof_rate_exact_witness:
  "unit_atof_rate (show_nat 10 @ ''M'') = Some 10000000"
proof -
  have "dec_factor CHR ''M'' = 1000000" by code_simp
  then show ?thesis using unit_atof_rate_exact [of "CHR ''M''" 10] by (simp add: unit_letters_def)
qed



end
