(* ===== verification/Dscp.thy ===== *)
theory Dscp
  imports C_String
begin

text \<open>
  The names of IP type-of-service values (\<open>dscp.c\<close>): the table, parsing of a name or a number
  (decimal, octal or hexadecimal) and printing.
\<close>

section \<open>The code\<close>

definition ipqos :: "(string \<times> int) list" where
  "ipqos = [
     (''af11'', 0x28), (''af12'', 0x30), (''af13'', 0x38),
     (''af21'', 0x48), (''af22'', 0x50), (''af23'', 0x58),
     (''af31'', 0x68), (''af32'', 0x70), (''af33'', 0x78),
     (''af41'', 0x88), (''af42'', 0x90), (''af43'', 0x98),
     (''cs0'', 0x00), (''cs1'', 0x20), (''cs2'', 0x40), (''cs3'', 0x60),
     (''cs4'', 0x80), (''cs5'', 0xa0), (''cs6'', 0xc0), (''cs7'', 0xe0),
     (''ef'', 0xb8), (''lowdelay'', 0x10), (''throughput'', 0x08), (''reliability'', 0x04)]"

definition parse_qos :: "string option \<Rightarrow> int" where
  "parse_qos arg = (case arg of None \<Rightarrow> -1
     | Some cp \<Rightarrow>
        (case find (\<lambda>(name, value). strcaseeq cp name) ipqos of
           Some (name, value) \<Rightarrow> value
         | None \<Rightarrow>
            (let (val, ep) = strtol 0 cp
             in if cp = [] \<or> ep \<noteq> [] \<or> val < 0 \<or> 255 < val then -1 else val)))"

definition iptos2str :: "int \<Rightarrow> string" where
  "iptos2str iptos =
     (let iptos = (if iptos < 0 \<or> 64 < iptos then 0 else iptos)
      in case find (\<lambda>(name, value). value = iptos) ipqos of
           Some (name, value) \<Rightarrow> name
         | None \<Rightarrow> take 4 (''0x'' @ show_hex2 (nat iptos)))"

section \<open>Properties\<close>

lemma ipqos_values: "list_all (\<lambda>(name, value). 0 \<le> value \<and> value \<le> 255) ipqos"
  by code_simp

lemma ipqos_distinct: "distinct (map fst ipqos)" "distinct (map snd ipqos)"
  by code_simp+

lemma ipqos_lower: "list_all (\<lambda>(name, value). map c_tolower name = name) ipqos"
  by code_simp

lemma find_key:
  "(k, v) \<in> set xs \<Longrightarrow> distinct (map fst xs) \<Longrightarrow> find (\<lambda>(k', v'). k = k') xs = Some (k, v)"
  by (induction xs) force+

lemma parse_qos_range: "parse_qos arg = -1 \<or> 0 \<le> parse_qos arg \<and> parse_qos arg \<le> 255"
proof (cases arg)
  case (Some cp)
  show ?thesis
  proof (cases "find (\<lambda>(name, value). strcaseeq cp name) ipqos")
    case None
    then show ?thesis using Some by (auto simp: parse_qos_def split: prod.splits)
  next
    case (Some nv)
    then have "nv \<in> set ipqos" by (metis find_Some_iff nth_mem)
    then show ?thesis using ipqos_values Some \<open>arg = Some cp\<close>
      by (auto simp: parse_qos_def list_all_iff)
  qed
qed (simp add: parse_qos_def)

lemma parse_qos_name:
  assumes "map c_tolower cp = name" "(name, val) \<in> set ipqos"
  shows "parse_qos (Some cp) = val"
proof -
  have eq: "find (\<lambda>(n, v). strcaseeq cp n) ipqos = find (\<lambda>(n, v). name = n) ipqos"
    using ipqos_lower assms(1) by (intro find_cong) (auto simp: strcaseeq_def list_all_iff)
  show ?thesis
    using find_key [OF assms(2) ipqos_distinct(1)] by (simp add: parse_qos_def eq)
qed

lemma ipqos_heads: "list_all (\<lambda>(name, value). name \<noteq> [] \<and> c_tolower (hd name) \<noteq> CHR ''0'') ipqos"
  by code_simp

text \<open>No name starts with a zero, so a hexadecimal number is never taken for one.\<close>

lemma parse_qos_hex: "parse_qos (Some (CHR ''0'' # s)) =
   (let (val, ep) = strtol 0 (CHR ''0'' # s) in if ep \<noteq> [] \<or> val < 0 \<or> 255 < val then -1 else val)"
proof -
  have "c_tolower CHR ''0'' = CHR ''0''" by code_simp
  then have "find (\<lambda>(n, v). strcaseeq (CHR ''0'' # s) n) ipqos = None"
    using ipqos_heads by (auto simp: find_None_iff strcaseeq_def list_all_iff dest!: bspec)
  then show ?thesis by (simp add: parse_qos_def)
qed

lemma strtol_hex2:
  assumes "n < 256"
  shows "strtol 0 (''0x'' @ show_hex2 n) = (int n, [])"
proof -
  have z: "\<not> c_isspace CHR ''0''" by code_simp
  have "n div 16 < 16" using assms by simp
  then have d: "digit_in 16 (hex_digit (n div 16 mod 16)) = Some (n div 16)"
      "digit_in 16 (hex_digit (n mod 16)) = Some (n mod 16)"
    by (simp_all add: digit_in_hex)
  then have sc: "scan_digits 16 0 (show_hex2 n) = (n, [])"
    by (simp add: show_hex2_def)
  have "hex_prefix (''0x'' @ show_hex2 n)"
    using d by (simp add: hex_prefix_def show_hex2_def)
  moreover have "show_hex2 n \<noteq> []" by (simp add: show_hex2_def)
  ultimately show ?thesis
    using assms sc z by (auto simp: strtol_def scan_sign_def)
qed

lemma iptos2str_small:
  assumes "0 \<le> v" "v \<le> 64"
  shows "parse_qos (Some (iptos2str v)) = v"
proof (cases "find (\<lambda>(name, value). value = v) ipqos")
  case None
  then have "iptos2str v = ''0x'' @ show_hex2 (nat v)"
    using assms by (simp add: iptos2str_def show_hex2_def)
  then show ?thesis using strtol_hex2 [of "nat v"] assms by (simp add: parse_qos_hex)
next
  case (Some nv)
  then have nv: "nv \<in> set ipqos" "snd nv = v" by (force simp: find_Some_iff in_set_conv_nth)+
  then have "map c_tolower (fst nv) = fst nv" using ipqos_lower by (auto simp: list_all_iff)
  then show ?thesis
    using parse_qos_name [of "fst nv" "fst nv" v] nv assms Some by (cases nv) (simp add: iptos2str_def)
qed

text \<open>
  (C37) \<open>parse_qos\<close> accepts every name of the table in any mixture of upper and lower case and
  returns its value; whatever its argument, the result is \<open>-1\<close> or fits the eight bits of the
  TOS field.
\<close>

theorem parse_qos_names:
  shows "(\<forall>cp name value. map c_tolower cp = name \<longrightarrow> (name, value) \<in> set ipqos \<longrightarrow> parse_qos (Some cp) = value) \<and>
     (\<forall>arg. parse_qos arg = -1 \<or> 0 \<le> parse_qos arg \<and> parse_qos arg \<le> 255)"
  using parse_qos_name parse_qos_range by blast

theorem parse_qos_names_witness: "parse_qos (Some ''AF21'') = 72 \<and> parse_qos (Some ''ef0'') = -1"
proof
  have low: "map c_tolower ''AF21'' = ''af21''" by code_simp
  have "(''af21'', 72) \<in> set ipqos" by (simp add: ipqos_def)
  then show "parse_qos (Some ''AF21'') = 72"
    using parse_qos_names low by metis
  show "parse_qos (Some ''ef0'') = -1" by code_simp
qed

text \<open>
  What \<open>iptos2str\<close> prints is read back by \<open>parse_qos\<close> as the same value for every value it
  covers (0 to 64); every other value, including the table's own entries above 64, is
  printed as \<open>cs0\<close>.
\<close>

theorem iptos2str_roundtrip:
  "parse_qos (Some (iptos2str v)) = (if 0 \<le> v \<and> v \<le> 64 then v else 0)"
proof (cases "0 \<le> v \<and> v \<le> 64")
  case True
  then show ?thesis by (simp add: iptos2str_small)
next
  case False
  then have "iptos2str v = iptos2str 0" by (auto simp: iptos2str_def Let_def)
  then show ?thesis using False iptos2str_small [of 0] by auto
qed

end
