(* ===== verification/Json.thy ===== *)
theory Json
  imports C_String
begin

text \<open>
  The JSON library (\<open>cjson.c\<close>). An item keeps the fields of \<open>struct cJSON\<close>; the list of the
  \<open>next\<close> links is an Isabelle list. Text is a list of bytes without the terminating zero, and
  a parser returns what it read and the rest of the text, or \<open>None\<close> where the code returns
  \<open>false\<close>. Memory never runs out here (\<open>ensure\<close> and \<open>cJSON_New_Item\<close> succeed), the decimal
  point is the one of the C locale, and the flags \<open>cJSON_IsReference\<close> and
  \<open>cJSON_StringIsConst\<close>, which only say who frees a string, are left out.
\<close>

section \<open>Items\<close>

datatype jtype = cJSON_Invalid | cJSON_False | cJSON_True | cJSON_NULL | cJSON_Number
  | cJSON_String | cJSON_Array | cJSON_Object | cJSON_Raw

datatype cJSON = CJ (jtype: jtype) (valueint: int) (valuedouble: rat) (valuestring: "string option")
  (jstring: "string option") (child: "cJSON list")

definition LLONG_MAX :: int where "LLONG_MAX = 9223372036854775807"
definition LLONG_MIN :: int where "LLONG_MIN = - LLONG_MAX - 1"

text \<open>The saturating conversion; \<open>LLONG_MAX\<close> becomes a double in the comparison.\<close>

definition sat_int64 :: "rat \<Rightarrow> int" where
  "sat_int64 d = (if d_of_int LLONG_MAX \<le> d then LLONG_MAX else if d \<le> d_of_int LLONG_MIN then LLONG_MIN else d_to_int d)"

definition cJSON_New_Item :: cJSON where
  "cJSON_New_Item = CJ cJSON_Invalid 0 0 None None []"

definition cJSON_CreateNull :: cJSON where "cJSON_CreateNull = CJ cJSON_NULL 0 0 None None []"
definition cJSON_CreateTrue :: cJSON where "cJSON_CreateTrue = CJ cJSON_True 0 0 None None []"
definition cJSON_CreateFalse :: cJSON where "cJSON_CreateFalse = CJ cJSON_False 0 0 None None []"

definition cJSON_CreateBool :: "bool \<Rightarrow> cJSON" where
  "cJSON_CreateBool b = CJ (if b then cJSON_True else cJSON_False) 0 0 None None []"

definition cJSON_CreateNumber :: "rat \<Rightarrow> cJSON" where
  "cJSON_CreateNumber num = CJ cJSON_Number (sat_int64 num) num None None []"

text \<open>\<open>NULL\<close> when there is no string to copy.\<close>

definition cJSON_CreateString :: "string option \<Rightarrow> cJSON option" where
  "cJSON_CreateString s = map_option (\<lambda>s. CJ cJSON_String 0 0 (Some s) None []) s"

definition cJSON_CreateRaw :: "string option \<Rightarrow> cJSON option" where
  "cJSON_CreateRaw s = map_option (\<lambda>s. CJ cJSON_Raw 0 0 (Some s) None []) s"

definition cJSON_CreateArray :: cJSON where "cJSON_CreateArray = CJ cJSON_Array 0 0 None None []"
definition cJSON_CreateObject :: cJSON where "cJSON_CreateObject = CJ cJSON_Object 0 0 None None []"

lemmas create_defs = cJSON_CreateNull_def cJSON_CreateTrue_def cJSON_CreateFalse_def cJSON_CreateBool_def
  cJSON_CreateNumber_def cJSON_CreateString_def cJSON_CreateArray_def cJSON_CreateObject_def

section \<open>Arrays and objects\<close>

definition cJSON_GetArraySize :: "cJSON \<Rightarrow> int" where
  "cJSON_GetArraySize arr = to_int32 (int (length (child arr)))"

definition cJSON_GetArrayItem :: "cJSON \<Rightarrow> int \<Rightarrow> cJSON option" where
  "cJSON_GetArrayItem arr i =
     (if i < 0 then None else if nat i < length (child arr) then Some (child arr ! nat i) else None)"

text \<open>
  A member without a name is unequal to every name for the case insensitive comparison. The
  case sensitive search hands it to \<open>strcmp\<close>, which must not happen; the model is the one of
  an object, whose members all have names.
\<close>

definition case_insensitive_strcmp :: "string \<Rightarrow> string option \<Rightarrow> bool" where
  \<comment> \<open>whether the result is zero\<close>
  "case_insensitive_strcmp s1 s2 = (case s2 of None \<Rightarrow> False | Some s \<Rightarrow> strcaseeq s1 s)"

definition get_object_item :: "cJSON \<Rightarrow> string \<Rightarrow> bool \<Rightarrow> cJSON option" where
  "get_object_item object name case_sensitive =
     List.find (\<lambda>j. if case_sensitive then jstring j = Some name else case_insensitive_strcmp name (jstring j)) (child object)"

definition cJSON_GetObjectItem :: "cJSON \<Rightarrow> string \<Rightarrow> cJSON option" where
  "cJSON_GetObjectItem object s = get_object_item object s False"

definition cJSON_GetObjectItemCaseSensitive :: "cJSON \<Rightarrow> string \<Rightarrow> cJSON option" where
  "cJSON_GetObjectItemCaseSensitive object s = get_object_item object s True"

definition cJSON_HasObjectItem :: "cJSON \<Rightarrow> string \<Rightarrow> bool" where
  "cJSON_HasObjectItem object s \<longleftrightarrow> cJSON_GetObjectItem object s \<noteq> None"

fun cJSON_AddItemToArray :: "cJSON \<Rightarrow> cJSON option \<Rightarrow> cJSON" where
  "cJSON_AddItemToArray arr None = arr"
| "cJSON_AddItemToArray (CJ ty vi vd vs nm ch) (Some item) = CJ ty vi vd vs nm (ch @ [item])"

fun set_string :: "string \<Rightarrow> cJSON \<Rightarrow> cJSON" where
  "set_string s (CJ ty vi vd vs nm ch) = CJ ty vi vd vs (Some s) ch"

definition cJSON_AddItemToObjectCS :: "cJSON \<Rightarrow> string \<Rightarrow> cJSON option \<Rightarrow> cJSON" where
  "cJSON_AddItemToObjectCS object s item = cJSON_AddItemToArray object (map_option (set_string s) item)"

text \<open>\<open>cJSON_AddItemToObject\<close> reads the type of the item, so a \<open>NULL\<close> item has no result.\<close>

definition cJSON_AddItemToObject :: "cJSON \<Rightarrow> string \<Rightarrow> cJSON \<Rightarrow> cJSON" where
  "cJSON_AddItemToObject object s item = cJSON_AddItemToObjectCS object s (Some item)"

definition cJSON_AddTrueToObject :: "string \<Rightarrow> cJSON \<Rightarrow> cJSON" where
  "cJSON_AddTrueToObject name object = cJSON_AddItemToObject object name cJSON_CreateTrue"

definition cJSON_AddNumberToObject :: "string \<Rightarrow> rat \<Rightarrow> cJSON \<Rightarrow> cJSON" where
  "cJSON_AddNumberToObject name n object = cJSON_AddItemToObject object name (cJSON_CreateNumber n)"

definition cJSON_AddStringToObject :: "string \<Rightarrow> string \<Rightarrow> cJSON \<Rightarrow> cJSON" where
  "cJSON_AddStringToObject name s object =
     (case cJSON_CreateString (Some s) of Some item \<Rightarrow> cJSON_AddItemToObject object name item | None \<Rightarrow> object)"

text \<open>Unlinking the member with a name: the member and what is left of the object.\<close>

fun detach_first :: "(cJSON \<Rightarrow> bool) \<Rightarrow> cJSON list \<Rightarrow> cJSON list" where
  "detach_first P [] = []"
| "detach_first P (x # xs) = (if P x then xs else x # detach_first P xs)"

fun cJSON_DetachItemFromObject :: "cJSON \<Rightarrow> string \<Rightarrow> cJSON option \<times> cJSON" where
  "cJSON_DetachItemFromObject (CJ ty vi vd vs nm ch) s =
     (get_object_item (CJ ty vi vd vs nm ch) s False,
      CJ ty vi vd vs nm (detach_first (\<lambda>j. case_insensitive_strcmp s (jstring j)) ch))"

section \<open>Comparison\<close>

text \<open>Lists are walked side by side while both last, and members looked up in the other object.\<close>

function cJSON_Compare :: "cJSON \<Rightarrow> cJSON \<Rightarrow> bool \<Rightarrow> bool" where
  "cJSON_Compare (CJ ta ia da sa na ca) b case_sensitive =
     (ta = jtype b \<and>
      (case ta of
         cJSON_Invalid \<Rightarrow> False
       | cJSON_False \<Rightarrow> True | cJSON_True \<Rightarrow> True | cJSON_NULL \<Rightarrow> True
       | cJSON_Number \<Rightarrow> da = valuedouble b
       | cJSON_String \<Rightarrow> sa \<noteq> None \<and> sa = valuestring b
       | cJSON_Raw \<Rightarrow> sa \<noteq> None \<and> sa = valuestring b
       | cJSON_Array \<Rightarrow> list_all (\<lambda>(x, y). cJSON_Compare x y case_sensitive) (zip ca (child b))
       | cJSON_Object \<Rightarrow> list_all (\<lambda>x. case jstring x of None \<Rightarrow> False
            | Some name \<Rightarrow> (case get_object_item b name case_sensitive of None \<Rightarrow> False
                | Some y \<Rightarrow> cJSON_Compare x y case_sensitive)) ca))"
  by pat_completeness auto

termination
  by (relation "measure (\<lambda>(a, _). size a)")
     (auto dest!: set_zip_leftD simp: less_Suc_eq_le intro: order_trans [OF _ size_list_estimation'] size_list_estimation' order_refl)

section \<open>Numbers\<close>

text \<open>
  \<open>%1.Pg\<close>: the \<open>P\<close> significant digits and the decimal exponent of a positive number, rounded
  exactly, then the shorter of the two notations with trailing zeros of the fraction removed.
\<close>

fun show_dec :: "int \<Rightarrow> string" where
  "show_dec n = (if n < 10 then [char_of (48 + n)] else show_dec (n div 10) @ [char_of (48 + n mod 10)])"

declare show_dec.simps [simp del]

definition dec_exp :: "rat \<Rightarrow> int" where
  "dec_exp x = (let (p, q) = quotient_of x; e = int (length (show_dec p)) - int (length (show_dec q))
    in if 10 powi e \<le> x then e else e - 1)"

definition sci_digits :: "nat \<Rightarrow> rat \<Rightarrow> int \<times> int" where
  "sci_digits P x = (let e = dec_exp x; n = rhe (x / 10 powi (e - int P + 1))
    in if n = 10 ^ P then (10 ^ (P - 1), e + 1) else (n, e))"

definition strip_zeros :: "string \<Rightarrow> string" where
  "strip_zeros s = rev (dropWhile (\<lambda>c. c = CHR ''0'') (rev s))"

definition with_point :: "string \<Rightarrow> string \<Rightarrow> string" where
  "with_point a b = (if b = [] then a else a @ CHR ''.'' # b)"

definition show_exp :: "int \<Rightarrow> string" where
  "show_exp X = CHR ''e'' # (if X < 0 then CHR ''-'' else CHR ''+'') # pad_zero 2 (show_dec \<bar>X\<bar>)"

definition show_g_pos :: "nat \<Rightarrow> rat \<Rightarrow> string" where
  "show_g_pos P x =
     (let (n, X) = sci_digits P x; ds = show_dec n in
      if -4 \<le> X \<and> X < int P then
        (if 0 \<le> X then with_point (take (nat X + 1) ds) (strip_zeros (drop (nat X + 1) ds))
         else with_point ''0'' (strip_zeros (replicate (nat (- X) - 1) CHR ''0'' @ ds)))
      else with_point (take 1 ds) (strip_zeros (drop 1 ds)) @ show_exp X)"

definition show_g :: "nat \<Rightarrow> rat \<Rightarrow> string" where
  "show_g P x = (if x = 0 then ''0'' else if x < 0 then CHR ''-'' # show_g_pos P (- x) else show_g_pos P x)"

text \<open>15 digits when they are enough to get the number back, 17 otherwise.\<close>

definition print_number :: "rat \<Rightarrow> string option" where
  "print_number d =
     (let buf = show_g 15 d;
          buf = (if map_option fst (scan_lf buf) = Some d then buf else show_g 17 d)
      in if 25 < length buf then None else Some buf)"

definition number_char :: "char \<Rightarrow> bool" where
  "number_char c \<longleftrightarrow> is_digit c \<or> c \<in> set ''+-eE.''"

definition parse_number :: "string \<Rightarrow> (cJSON \<times> string) option" where
  "parse_number s =
     (let number_c_string = takeWhile number_char (take 63 s) in
      case scan_lf number_c_string of
        None \<Rightarrow> None
      | Some (number, after_end) \<Rightarrow>
          Some (CJ cJSON_Number (sat_int64 number) number None None [],
                drop (length number_c_string - length after_end) s))"

section \<open>Strings\<close>

abbreviation chr_code :: "char \<Rightarrow> nat" where
  "chr_code c \<equiv> of_char c"

definition escape_char :: "char \<Rightarrow> string" where
  "escape_char c =
     (if 31 < chr_code c \<and> c \<noteq> CHR 0x22 \<and> c \<noteq> CHR 0x5C then [c]
      else if c = CHR 0x5C then [CHR 0x5C, CHR 0x5C]
      else if c = CHR 0x22 then [CHR 0x5C, CHR 0x22]
      else if c = CHR 0x08 then [CHR 0x5C, CHR ''b'']
      else if c = CHR 0x0C then [CHR 0x5C, CHR ''f'']
      else if c = CHR 0x0A then [CHR 0x5C, CHR ''n'']
      else if c = CHR 0x0D then [CHR 0x5C, CHR ''r'']
      else if c = CHR 0x09 then [CHR 0x5C, CHR ''t'']
      else [CHR 0x5C, CHR ''u'', CHR ''0'', CHR ''0''] @ show_hex2 (chr_code c))"

definition print_string_ptr :: "string option \<Rightarrow> string" where
  "print_string_ptr input = [CHR 0x22] @ (case input of None \<Rightarrow> [] | Some s \<Rightarrow> concat (map escape_char s)) @ [CHR 0x22]"

text \<open>Four hexadecimal digits, or zero.\<close>

definition parse_hex4 :: "string \<Rightarrow> nat" where
  "parse_hex4 inp = (case inp of a # b # c # d # _ \<Rightarrow>
      (case (digit_in 16 a, digit_in 16 b, digit_in 16 c, digit_in 16 d) of
         (Some a, Some b, Some c, Some d) \<Rightarrow> ((a * 16 + b) * 16 + c) * 16 + d | _ \<Rightarrow> 0)
    | _ \<Rightarrow> 0)"

definition utf8_encode :: "nat \<Rightarrow> string option" where
  "utf8_encode cp =
     (let cont = (\<lambda>k. char_of (128 + (cp div 64 ^ k) mod 64) :: char) in
      if cp < 0x80 then Some [char_of cp]
      else if cp < 0x800 then Some [char_of (0xC0 + cp div 64), cont 0]
      else if cp < 0x10000 then Some [char_of (0xE0 + cp div 64 ^ 2), cont 1, cont 0]
      else if cp \<le> 0x10FFFF then Some [char_of (0xF0 + cp div 64 ^ 3), cont 2, cont 1, cont 0]
      else None)"

text \<open>
  The bytes for the literal at the start of \<open>inp\<close> (which runs to the closing quote) and the
  number of characters it takes up.
\<close>

definition utf16_literal_to_utf8 :: "string \<Rightarrow> (string \<times> nat) option" where
  "utf16_literal_to_utf8 inp =
     (if length inp < 6 then None
      else let first_code = parse_hex4 (drop 2 inp) in
        if 0xDC00 \<le> first_code \<and> first_code \<le> 0xDFFF then None
        else if 0xD800 \<le> first_code \<and> first_code \<le> 0xDBFF then
          (let second = drop 6 inp in
           if length second < 6 then None
           else if second ! 0 \<noteq> CHR 0x5C \<or> second ! 1 \<noteq> CHR ''u'' then None
           else let second_code = parse_hex4 (drop 2 second) in
             if second_code < 0xDC00 \<or> 0xDFFF < second_code then None
             else map_option (\<lambda>out. (out, 12))
                    (utf8_encode (0x10000 + (first_code mod 0x400) * 0x400 + second_code mod 0x400)))
        else map_option (\<lambda>out. (out, 6)) (utf8_encode first_code))"

text \<open>From behind the opening quote: the text up to the closing quote and what follows it.\<close>

fun string_end :: "string \<Rightarrow> (string \<times> string) option" where
  "string_end [] = None"
| "string_end [c] = (if c = CHR 0x22 then Some ([], []) else None)"
| "string_end (c # d # s) =
     (if c = CHR 0x22 then Some ([], d # s)
      else if c = CHR 0x5C then map_option (\<lambda>(a, r). (c # d # a, r)) (string_end s)
      else map_option (\<lambda>(a, r). (c # a, r)) (string_end (d # s)))"

definition unescape_char :: "char \<Rightarrow> char option" where
  "unescape_char c =
     (if c = CHR ''b'' then Some (CHR 0x08)
      else if c = CHR ''f'' then Some (CHR 0x0C)
      else if c = CHR ''n'' then Some (CHR 0x0A)
      else if c = CHR ''r'' then Some (CHR 0x0D)
      else if c = CHR ''t'' then Some (CHR 0x09)
      else if c = CHR 0x22 \<or> c = CHR 0x5C \<or> c = CHR ''/'' then Some c
      else None)"

function unescape :: "string \<Rightarrow> string option" where
  "unescape [] = Some []"
| "unescape (c # s) =
     (if c \<noteq> CHR 0x5C then map_option (\<lambda>out. c # out) (unescape s)
      else (case s of
          [] \<Rightarrow> None
        | d # s' \<Rightarrow>
            if d = CHR ''u'' then
              (case utf16_literal_to_utf8 (c # s) of
                 None \<Rightarrow> None
               | Some (u, n) \<Rightarrow> map_option (\<lambda>out. u @ out) (unescape (drop (n - 1) s)))
            else (case unescape_char d of
                 None \<Rightarrow> None
               | Some e \<Rightarrow> map_option (\<lambda>out. e # out) (unescape s'))))"
  by pat_completeness auto

termination
  by (relation "measure length") auto

text \<open>A string value is a C string: it ends at the first zero byte, which \<open>\u0000\<close> produces.\<close>

definition c_string :: "string \<Rightarrow> string" where
  "c_string s = takeWhile (\<lambda>c. c \<noteq> CHR 0x00) s"

definition parse_string :: "string \<Rightarrow> (string \<times> string) option" where
  "parse_string inp = (case inp of
      q # s \<Rightarrow> if q \<noteq> CHR 0x22 then None
               else (case string_end s of None \<Rightarrow> None
                 | Some (body, rest) \<Rightarrow> map_option (\<lambda>out. (c_string out, rest)) (unescape body))
    | [] \<Rightarrow> None)"

section \<open>Printing\<close>

definition fmt_str :: "bool \<Rightarrow> string \<Rightarrow> string" where
  "fmt_str fmt s = (if fmt then s else [])"

text \<open>
  \<open>dep\<close> is the field \<open>depth\<close> of the print buffer: the number of open brackets around the
  value. An item of invalid type and a raw item without text cannot be printed.
\<close>

fun print_value :: "bool \<Rightarrow> nat \<Rightarrow> cJSON \<Rightarrow> string option"
and print_array :: "bool \<Rightarrow> nat \<Rightarrow> cJSON list \<Rightarrow> string option"
and print_object :: "bool \<Rightarrow> nat \<Rightarrow> cJSON list \<Rightarrow> string option" where
  "print_value fmt dep (CJ ty vi vd vs nm ch) =
     (case ty of
        cJSON_NULL \<Rightarrow> Some ''null''
      | cJSON_False \<Rightarrow> Some ''false''
      | cJSON_True \<Rightarrow> Some ''true''
      | cJSON_Number \<Rightarrow> print_number vd
      | cJSON_Raw \<Rightarrow> vs
      | cJSON_String \<Rightarrow> Some (print_string_ptr vs)
      | cJSON_Array \<Rightarrow> map_option (\<lambda>body. ''['' @ body @ '']'') (print_array fmt (Suc dep) ch)
      | cJSON_Object \<Rightarrow> map_option
          (\<lambda>body. ''{'' @ fmt_str fmt [CHR 0x0A] @ body @ fmt_str fmt (replicate dep (CHR 0x09)) @ ''}'')
          (print_object fmt (Suc dep) ch)
      | cJSON_Invalid \<Rightarrow> None)"
| "print_array fmt dep [] = Some []"
| "print_array fmt dep (x # xs) =
     (case print_value fmt dep x of None \<Rightarrow> None | Some v \<Rightarrow>
       map_option (\<lambda>r. v @ (if xs = [] then [] else '','' @ fmt_str fmt '' '') @ r) (print_array fmt dep xs))"
| "print_object fmt dep [] = Some []"
| "print_object fmt dep (x # xs) =
     (case print_value fmt dep x of None \<Rightarrow> None | Some v \<Rightarrow>
       map_option (\<lambda>r. fmt_str fmt (replicate dep (CHR 0x09)) @ print_string_ptr (jstring x) @
           '':'' @ fmt_str fmt [CHR 0x09] @ v @ (if xs = [] then [] else '','') @ fmt_str fmt [CHR 0x0A] @ r)
         (print_object fmt dep xs))"

definition cJSON_Print :: "cJSON \<Rightarrow> string option" where
  "cJSON_Print item = print_value True 0 item"

definition cJSON_PrintUnformatted :: "cJSON \<Rightarrow> string option" where
  "cJSON_PrintUnformatted item = print_value False 0 item"

section \<open>Parsing\<close>

text \<open>
  The text ends with a zero byte, which the code skips as white space and then steps back
  onto; here that position is the empty list.
\<close>

definition buffer_skip_whitespace :: "string \<Rightarrow> string" where
  "buffer_skip_whitespace s = dropWhile (\<lambda>c. chr_code c \<le> 32) s"

text \<open>
  The loops over the comma separated elements of an array and members of an object, from in
  front of an element on; \<open>pv\<close> is the parser of the values inside. The first argument bounds
  the number of rounds: a round passes a comma, so the length of the text is enough.
\<close>

fun parse_elements :: "nat \<Rightarrow> (string \<Rightarrow> (cJSON \<times> string) option) \<Rightarrow> string \<Rightarrow> (cJSON list \<times> string) option" where
  "parse_elements 0 pv s = None"
| "parse_elements (Suc n) pv s =
     (case pv (buffer_skip_whitespace s) of
        None \<Rightarrow> None
      | Some (v, r) \<Rightarrow>
          (case buffer_skip_whitespace r of
             c # t \<Rightarrow> if c = CHR '','' then map_option (\<lambda>(vs, r). (v # vs, r)) (parse_elements n pv t)
                     else if c = CHR '']'' then Some ([v], t)
                     else None
           | [] \<Rightarrow> None))"

fun parse_members :: "nat \<Rightarrow> (string \<Rightarrow> (cJSON \<times> string) option) \<Rightarrow> string \<Rightarrow> (cJSON list \<times> string) option" where
  "parse_members 0 pv s = None"
| "parse_members (Suc n) pv s =
     (case parse_string (buffer_skip_whitespace s) of
        None \<Rightarrow> None
      | Some (name, r) \<Rightarrow>
          (case buffer_skip_whitespace r of
             c # t \<Rightarrow>
               if c \<noteq> CHR '':'' then None
               else (case pv (buffer_skip_whitespace t) of
                   None \<Rightarrow> None
                 | Some (v, r) \<Rightarrow>
                     (case buffer_skip_whitespace r of
                        c # t \<Rightarrow>
                          if c = CHR '','' then map_option (\<lambda>(vs, r). (set_string name v # vs, r)) (parse_members n pv t)
                          else if c = CHR ''}'' then Some ([set_string name v], t)
                          else None
                      | [] \<Rightarrow> None))
           | [] \<Rightarrow> None))"

definition parse_array :: "(string \<Rightarrow> (cJSON \<times> string) option) \<Rightarrow> string \<Rightarrow> (cJSON \<times> string) option" where
  "parse_array pv s =
     (case buffer_skip_whitespace (tl s) of
        c # t \<Rightarrow> if c = CHR '']'' then Some (CJ cJSON_Array 0 0 None None [], t)
                else map_option (\<lambda>(vs, r). (CJ cJSON_Array 0 0 None None vs, r)) (parse_elements (length s) pv (c # t))
      | [] \<Rightarrow> None)"

definition parse_object :: "(string \<Rightarrow> (cJSON \<times> string) option) \<Rightarrow> string \<Rightarrow> (cJSON \<times> string) option" where
  "parse_object pv s =
     (case buffer_skip_whitespace (tl s) of
        c # t \<Rightarrow> if c = CHR ''}'' then Some (CJ cJSON_Object 0 0 None None [], t)
                else map_option (\<lambda>(vs, r). (CJ cJSON_Object 0 0 None None vs, r)) (parse_members (length s) pv (c # t))
      | [] \<Rightarrow> None)"

definition CJSON_NESTING_LIMIT :: nat where "CJSON_NESTING_LIMIT = 1000"

text \<open>
  \<open>parse_scalar\<close> are the branches that do not nest. The argument of \<open>parse_value\<close> is how many
  more brackets may be opened, \<open>CJSON_NESTING_LIMIT\<close> minus the field \<open>depth\<close>.
\<close>

definition parse_scalar :: "string \<Rightarrow> (cJSON \<times> string) option" where
  "parse_scalar s =
     (if take 4 s = ''null'' then Some (CJ cJSON_NULL 0 0 None None [], drop 4 s)
      else if take 5 s = ''false'' then Some (CJ cJSON_False 0 0 None None [], drop 5 s)
      else if take 4 s = ''true'' then Some (CJ cJSON_True 1 0 None None [], drop 4 s)
      else (case s of
          c # _ \<Rightarrow>
            if c = CHR 0x22 then map_option (\<lambda>(v, r). (CJ cJSON_String 0 0 (Some v) None [], r)) (parse_string s)
            else if c = CHR ''-'' \<or> is_digit c then parse_number s
            else None
        | [] \<Rightarrow> None))"

primrec parse_value :: "nat \<Rightarrow> string \<Rightarrow> (cJSON \<times> string) option" where
  "parse_value 0 s = parse_scalar s"
| "parse_value (Suc n) s =
     (case s of
        c # _ \<Rightarrow> if c = CHR ''['' then parse_array (parse_value n) s
                else if c = CHR ''{'' then parse_object (parse_value n) s
                else parse_scalar s
      | [] \<Rightarrow> parse_scalar s)"

text \<open>Text behind the value is accepted unless \<open>require_null_terminated\<close> is set.\<close>

definition cJSON_ParseWithOpts :: "string \<Rightarrow> bool \<Rightarrow> cJSON option" where
  "cJSON_ParseWithOpts v require_null_terminated =
     (case parse_value CJSON_NESTING_LIMIT (buffer_skip_whitespace (c_string v)) of
        None \<Rightarrow> None
      | Some (item, rest) \<Rightarrow>
          if require_null_terminated \<and> buffer_skip_whitespace rest \<noteq> [] then None else Some item)"

definition cJSON_Parse :: "string \<Rightarrow> cJSON option" where
  "cJSON_Parse v = cJSON_ParseWithOpts v False"

end
