(* ===== verification/Test_Types.thy ===== *)
theory Test_Types
  imports Timer Net Json
begin

text \<open>
  The data model of the test (\<open>iperf.h\<close>, \<open>iperf_api.h\<close>): settings, per-interval and per-stream
  results, streams, protocols and the test itself, as records with the fields of the C
  structures, and the constants. A stream's \<open>settings\<close> pointer always equals that of its test
  (\<open>iperf_new_stream\<close>), so a stream has no copy of its own; function pointers are values
  naming the function.
\<close>

section \<open>Constants\<close>

definition Ptcp :: int where "Ptcp = SOCK_STREAM"
definition Pudp :: int where "Pudp = SOCK_DGRAM"
definition Psctp :: int where "Psctp = 12"
lemmas prot_defs = Ptcp_def Pudp_def Psctp_def sock_defs

definition DEFAULT_UDP_BLKSIZE :: int where "DEFAULT_UDP_BLKSIZE = 1460"
definition DEFAULT_TCP_BLKSIZE :: int where "DEFAULT_TCP_BLKSIZE = 128 * 1024"
definition DEFAULT_SCTP_BLKSIZE :: int where "DEFAULT_SCTP_BLKSIZE = 64 * 1024"
definition MAX_TCP_BUFFER :: int where "MAX_TCP_BUFFER = 512 * (1024 * 1024)"
definition MAX_BLOCKSIZE :: int where "MAX_BLOCKSIZE = 1024 * 1024"
definition MIN_UDP_BLOCKSIZE :: int where "MIN_UDP_BLOCKSIZE = 4 + 4 + 8"
definition MAX_UDP_BLOCKSIZE :: int where "MAX_UDP_BLOCKSIZE = 65535 - 8 - 20"
definition MIN_INTERVAL :: rat where "MIN_INTERVAL = rnd (1 / 10)"
definition MAX_INTERVAL :: rat where "MAX_INTERVAL = 60"
definition MAX_TIME :: int where "MAX_TIME = 86400"
definition MAX_BURST :: int where "MAX_BURST = 1000"
definition MAX_MSS :: int where "MAX_MSS = 9 * 1024"
definition MAX_STREAMS :: int where "MAX_STREAMS = 128"
definition UDP_RATE :: u64 where "UDP_RATE = 1024 * 1024"
definition OMIT_DEFAULT :: int where "OMIT_DEFAULT = 0"
definition DURATION :: int where "DURATION = 10"
definition PORT :: int where "PORT = 5201"
definition COOKIE_SIZE :: nat where "COOKIE_SIZE = 37"
lemmas limit_defs = DEFAULT_UDP_BLKSIZE_def DEFAULT_TCP_BLKSIZE_def DEFAULT_SCTP_BLKSIZE_def
  MAX_TCP_BUFFER_def MAX_BLOCKSIZE_def MIN_UDP_BLOCKSIZE_def MAX_UDP_BLOCKSIZE_def MAX_TIME_def
  MAX_BURST_def MAX_MSS_def MAX_STREAMS_def UDP_RATE_def OMIT_DEFAULT_def DURATION_def PORT_def

text \<open>States of a test, as sent over the control connection.\<close>

definition TEST_START :: int where "TEST_START = 1"
definition TEST_RUNNING :: int where "TEST_RUNNING = 2"
definition TEST_END :: int where "TEST_END = 4"
definition PARAM_EXCHANGE :: int where "PARAM_EXCHANGE = 9"
definition CREATE_STREAMS :: int where "CREATE_STREAMS = 10"
definition SERVER_TERMINATE :: int where "SERVER_TERMINATE = 11"
definition CLIENT_TERMINATE :: int where "CLIENT_TERMINATE = 12"
definition EXCHANGE_RESULTS :: int where "EXCHANGE_RESULTS = 13"
definition DISPLAY_RESULTS :: int where "DISPLAY_RESULTS = 14"
definition IPERF_START :: int where "IPERF_START = 15"
definition IPERF_DONE :: int where "IPERF_DONE = 16"
definition ACCESS_DENIED :: int where "ACCESS_DENIED = -1"
definition SERVER_ERROR :: int where "SERVER_ERROR = -2"
lemmas state_defs = TEST_START_def TEST_RUNNING_def TEST_END_def PARAM_EXCHANGE_def CREATE_STREAMS_def
  SERVER_TERMINATE_def CLIENT_TERMINATE_def EXCHANGE_RESULTS_def DISPLAY_RESULTS_def IPERF_START_def
  IPERF_DONE_def ACCESS_DENIED_def SERVER_ERROR_def

section \<open>Structures\<close>

datatype iperf_mode = SENDER | RECEIVER | BIDIRECTIONAL

record iperf_interval_results =
  bytes_transferred :: u64
  interval_start_time :: iperf_time
  interval_end_time :: iperf_time
  interval_duration :: rat
  interval_packet_count :: int
  interval_outoforder_packets :: int
  interval_cnt_error :: int
  ir_packet_count :: int
  ir_jitter :: rat
  ir_outoforder_packets :: int
  ir_cnt_error :: int
  omitted :: int
  tcpInfo :: tcp_info
  interval_retrans :: int
  interval_sacks :: int
  snd_cwnd :: int
  rtt :: int
  rttvar :: int
  pmtu :: int

record iperf_stream_result =
  bytes_received :: u64
  bytes_sent :: u64
  bytes_received_this_interval :: u64
  bytes_sent_this_interval :: u64
  bytes_sent_omit :: u64
  stream_prev_total_retrans :: int
  stream_retrans :: int
  stream_prev_total_sacks :: int
  stream_sacks :: int
  stream_max_rtt :: int
  stream_min_rtt :: int
  stream_sum_rtt :: int
  stream_count_rtt :: int
  stream_max_snd_cwnd :: int
  start_time :: iperf_time
  end_time :: iperf_time
  start_time_fixed :: iperf_time
  sender_time :: rat
  receiver_time :: rat
  interval_results :: "iperf_interval_results list"

record iperf_settings =
  domain :: int
  socket_bufsize :: int
  blksize :: int
  rate :: u64
  fqrate :: u64
  pacing_timer :: int
  burst :: int
  mss :: int
  ttl :: int
  tos :: int
  flowlabel :: int
  bytes :: u64
  blocks :: u64
  unit_format_char :: char
  num_ostreams :: int
  connect_timeout :: int

datatype stream_fn = No_fn | Tcp_send | Tcp_recv | Udp_send | Udp_recv | Diskfile_send | Diskfile_recv

text \<open>\<open>stream_addr\<close> is the address of the object, which timers keep as their client data.\<close>

record iperf_stream =
  stream_addr :: nat
  local_port :: int
  remote_port :: int
  socket :: int
  stream_id :: int
  sender :: int
  stream_result :: iperf_stream_result
  send_timer :: ptr
  green_light :: int
  buffer_fd :: int
  buffer :: "u8 list"
  diskfile_fd :: int
  diskfile_left :: int
  packet_count :: int
  peer_packet_count :: int
  omitted_packet_count :: int
  jitter :: rat
  prev_transit :: rat
  outoforder_packets :: int
  omitted_outoforder_packets :: int
  cnt_error :: int
  omitted_cnt_error :: int
  target :: u64
  local_addr :: "sockaddr option"
  remote_addr :: "sockaddr option"
  rcv :: stream_fn
  snd_fn :: stream_fn
  rcv2 :: stream_fn
  snd2 :: stream_fn

record protocol =
  prot_id :: int
  prot_name :: string

text \<open>What is configured before the test starts.\<close>

record test_config =
  role :: char
  mode :: iperf_mode
  sender_has_retransmits :: int
  other_side_has_retransmits :: int
  protocol :: protocol
  server_hostname :: "string option"
  tmp_template :: "string option"
  bind_address :: "string option"
  xbind_addrs :: "string list"
  bind_port :: int
  server_port :: int
  omit :: int
  duration :: int
  diskfile_name :: "string option"
  affinity :: int
  server_affinity :: int
  title :: "string option"
  extra_data :: "string option"
  congestion :: "string option"
  congestion_used :: "string option"
  remote_congestion_used :: "string option"
  pidfile :: "string option"
  logfile :: "string option"
  daemon :: int
  one_off :: int
  no_delay :: int
  reverse :: int
  bidirectional :: int
  verbose :: int
  json_output :: int
  zerocopy :: int
  debug :: int
  get_server_output :: int
  udp_counters_64bit :: int
  forceflush :: int
  multisend :: int
  repeating_payload :: int
  stats_interval :: rat
  reporter_interval :: rat
  num_streams :: int
  settings :: iperf_settings
  protocols :: "protocol list"

text \<open>What changes while it runs.\<close>

record iperf_test = test_config +
  state :: int
  ctrl_sck :: int
  listener :: int
  prot_listener :: int
  ctrl_sck_mss :: int
  max_fd :: int
  read_set :: "int list"
  write_set :: "int list"
  omitting :: int
  omit_timer :: ptr
  test_timer :: ptr
  test_done :: int
  stats_timer :: ptr
  reporter_timer :: ptr
  cpu_util :: "rat \<times> rat \<times> rat"
  remote_cpu_util :: "rat \<times> rat \<times> rat"
  test_bytes_sent :: u64
  test_blocks_sent :: u64
  test_bytes_received :: u64
  test_blocks_received :: u64
  cookie :: "u8 list"
  streams :: "iperf_stream list"
  server_output_text :: "string option"
  server_output_list :: "string list"
  json_top :: "cJSON option"
  json_server_output :: "cJSON option"

text \<open>
  The cookie is a C string; \<open>cookie_wire\<close> is the \<open>COOKIE_SIZE\<close> bytes sent for it, and \<open>c_str\<close>
  cuts a buffer at its terminating zero.
\<close>

definition cookie_wire :: "u8 list \<Rightarrow> u8 list" where
  "cookie_wire c = take COOKIE_SIZE (c @ replicate COOKIE_SIZE 0)"

definition c_str :: "u8 list \<Rightarrow> u8 list" where
  "c_str bs = takeWhile (\<lambda>b. b \<noteq> 0) bs"

lemma c_str_cookie_wire:
  "0 \<notin> set c \<Longrightarrow> length c < COOKIE_SIZE \<Longrightarrow> c_str (cookie_wire c) = c"
  by (simp add: c_str_def cookie_wire_def takeWhile_append2 takeWhile_replicate COOKIE_SIZE_def)
     (subst takeWhile_append2, auto simp: takeWhile_replicate)

text \<open>The \<open>fd_set\<close> operations; a set is kept as a list without repetitions.\<close>

definition FD_SET :: "int \<Rightarrow> int list \<Rightarrow> int list" where
  "FD_SET fd s = List.insert fd s"

definition FD_CLR :: "int \<Rightarrow> int list \<Rightarrow> int list" where
  "FD_CLR fd s = filter (\<lambda>x. x \<noteq> fd) s"

definition FD_ISSET :: "int \<Rightarrow> int list \<Rightarrow> bool" where
  "FD_ISSET fd s \<longleftrightarrow> fd \<in> set s"

lemma FD_ISSET_ops [simp]:
  "FD_ISSET a (FD_SET b s) \<longleftrightarrow> a = b \<or> FD_ISSET a s"
  "FD_ISSET a (FD_CLR b s) \<longleftrightarrow> a \<noteq> b \<and> FD_ISSET a s"
  "\<not> FD_ISSET a []"
  by (auto simp: FD_ISSET_def FD_SET_def FD_CLR_def)

end
