(* ===== verification/Api_Options.thy ===== *)
theory Api_Options
  imports Test_Types Units Dscp
begin

text \<open>
  Configuring a test (\<open>iperf_api.c\<close>): the setter functions, the choice of the protocol, and the
  command line (\<open>iperf_parse_arguments\<close>). \<open>getopt_long\<close> is the C library's: its results, a
  sequence of option flags with their arguments, are the input of the model.
\<close>

section \<open>Setters\<close>

definition iperf_set_verbose :: "int \<Rightarrow> iperf_test \<Rightarrow> iperf_test" where
  "iperf_set_verbose v t = t\<lparr>verbose := v\<rparr>"

definition iperf_set_control_socket :: "int \<Rightarrow> iperf_test \<Rightarrow> iperf_test" where
  "iperf_set_control_socket fd t = t\<lparr>ctrl_sck := fd\<rparr>"

definition iperf_set_test_omit :: "int \<Rightarrow> iperf_test \<Rightarrow> iperf_test" where
  "iperf_set_test_omit v t = t\<lparr>omit := v\<rparr>"

definition iperf_set_test_duration :: "int \<Rightarrow> iperf_test \<Rightarrow> iperf_test" where
  "iperf_set_test_duration v t = t\<lparr>duration := v\<rparr>"

definition iperf_set_test_reporter_interval :: "rat \<Rightarrow> iperf_test \<Rightarrow> iperf_test" where
  "iperf_set_test_reporter_interval x t = t\<lparr>reporter_interval := x\<rparr>"

definition iperf_set_test_stats_interval :: "rat \<Rightarrow> iperf_test \<Rightarrow> iperf_test" where
  "iperf_set_test_stats_interval x t = t\<lparr>stats_interval := x\<rparr>"

definition iperf_set_test_interval :: "int \<Rightarrow> iperf_test \<Rightarrow> iperf_test" where
  "iperf_set_test_interval interval_ms t =
     iperf_set_test_stats_interval (ddiv (d_of_int interval_ms) 1000)
       (iperf_set_test_reporter_interval (ddiv (d_of_int interval_ms) 1000) t)"

definition iperf_set_test_state :: "int \<Rightarrow> iperf_test \<Rightarrow> iperf_test" where
  "iperf_set_test_state v t = t\<lparr>state := v\<rparr>"

abbreviation upd_settings :: "(iperf_settings \<Rightarrow> iperf_settings) \<Rightarrow> iperf_test \<Rightarrow> iperf_test" where
  "upd_settings f t \<equiv> t\<lparr>settings := f (settings t)\<rparr>"

definition iperf_set_test_blksize :: "int \<Rightarrow> iperf_test \<Rightarrow> iperf_test" where
  "iperf_set_test_blksize v = upd_settings (\<lambda>s. s\<lparr>blksize := v\<rparr>)"

definition iperf_set_test_logfile :: "string \<Rightarrow> iperf_test \<Rightarrow> iperf_test" where
  "iperf_set_test_logfile v t = t\<lparr>logfile := Some v\<rparr>"

definition iperf_set_test_rate :: "u64 \<Rightarrow> iperf_test \<Rightarrow> iperf_test" where
  "iperf_set_test_rate v = upd_settings (\<lambda>s. s\<lparr>rate := v\<rparr>)"

definition iperf_set_test_fqrate :: "u64 \<Rightarrow> iperf_test \<Rightarrow> iperf_test" where
  "iperf_set_test_fqrate v = upd_settings (\<lambda>s. s\<lparr>fqrate := v\<rparr>)"

definition iperf_set_test_pacing_timer :: "int \<Rightarrow> iperf_test \<Rightarrow> iperf_test" where
  "iperf_set_test_pacing_timer v = upd_settings (\<lambda>s. s\<lparr>pacing_timer := v\<rparr>)"

definition iperf_set_test_bytes :: "u64 \<Rightarrow> iperf_test \<Rightarrow> iperf_test" where
  "iperf_set_test_bytes v = upd_settings (\<lambda>s. s\<lparr>bytes := v\<rparr>)"

definition iperf_set_test_blocks :: "u64 \<Rightarrow> iperf_test \<Rightarrow> iperf_test" where
  "iperf_set_test_blocks v = upd_settings (\<lambda>s. s\<lparr>blocks := v\<rparr>)"

definition iperf_set_test_burst :: "int \<Rightarrow> iperf_test \<Rightarrow> iperf_test" where
  "iperf_set_test_burst v = upd_settings (\<lambda>s. s\<lparr>burst := v\<rparr>)"

definition iperf_set_test_server_port :: "int \<Rightarrow> iperf_test \<Rightarrow> iperf_test" where
  "iperf_set_test_server_port v t = t\<lparr>server_port := v\<rparr>"

definition iperf_set_test_socket_bufsize :: "int \<Rightarrow> iperf_test \<Rightarrow> iperf_test" where
  "iperf_set_test_socket_bufsize v = upd_settings (\<lambda>s. s\<lparr>socket_bufsize := v\<rparr>)"

definition iperf_set_test_num_streams :: "int \<Rightarrow> iperf_test \<Rightarrow> iperf_test" where
  "iperf_set_test_num_streams v t = t\<lparr>num_streams := v\<rparr>"

definition iperf_set_test_repeating_payload :: "int \<Rightarrow> iperf_test \<Rightarrow> iperf_test" where
  "iperf_set_test_repeating_payload v t = t\<lparr>repeating_payload := v\<rparr>"

text \<open>\<open>tcp_info.c\<close>, compiled for Linux: the kernel's \<open>tcp_info\<close> has the retransmit count.\<close>

definition has_tcpinfo :: int where "has_tcpinfo = 1"

definition has_tcpinfo_retransmits :: int where "has_tcpinfo_retransmits = 1"

definition check_sender_has_retransmits :: "iperf_test \<Rightarrow> iperf_test" where
  "check_sender_has_retransmits t =
     (if mode t \<noteq> RECEIVER \<and> prot_id (protocol t) = Ptcp \<and> has_tcpinfo_retransmits \<noteq> 0
      then t\<lparr>sender_has_retransmits := 1\<rparr> else t\<lparr>sender_has_retransmits := 0\<rparr>)"

definition iperf_set_test_role :: "char \<Rightarrow> iperf_test \<Rightarrow> iperf_test" where
  "iperf_set_test_role r t =
     (let t = t\<lparr>role := r\<rparr>;
          t = (if reverse t = 0 then
                 (if r = CHR ''c'' then t\<lparr>mode := SENDER\<rparr>
                  else if r = CHR ''s'' then t\<lparr>mode := RECEIVER\<rparr> else t)
               else
                 (if r = CHR ''c'' then t\<lparr>mode := RECEIVER\<rparr>
                  else if r = CHR ''s'' then t\<lparr>mode := SENDER\<rparr> else t))
      in check_sender_has_retransmits t)"

definition iperf_set_test_server_hostname :: "string \<Rightarrow> iperf_test \<Rightarrow> iperf_test" where
  "iperf_set_test_server_hostname v t = t\<lparr>server_hostname := Some v\<rparr>"

text \<open>\<open>set_protocol\<close> also returns 0, or \<open>-1\<close> with \<open>i_errno = IEPROTOCOL\<close>.\<close>

definition get_protocol :: "int \<Rightarrow> iperf_test \<Rightarrow> protocol option" where
  "get_protocol pid t = find (\<lambda>p. prot_id p = pid) (protocols t)"

definition set_protocol :: "int \<Rightarrow> iperf_test \<Rightarrow> int \<times> iperf_test" where
  "set_protocol pid t = (case find (\<lambda>p. prot_id p = pid) (protocols t) of
      Some p \<Rightarrow> (0, check_sender_has_retransmits (t\<lparr>protocol := p\<rparr>))
    | None \<Rightarrow> (-1, t))"

definition iperf_set_test_protocol :: "char \<Rightarrow> iperf_test \<Rightarrow> iperf_test" where
  "iperf_set_test_protocol c t =
     (if c = CHR ''u'' then iperf_set_test_blksize 0 (snd (set_protocol Pudp t)) else t)"

definition iperf_set_test_template :: "string \<Rightarrow> iperf_test \<Rightarrow> iperf_test" where
  "iperf_set_test_template v t = t\<lparr>tmp_template := Some v\<rparr>"

definition iperf_set_test_reverse :: "int \<Rightarrow> iperf_test \<Rightarrow> iperf_test" where
  "iperf_set_test_reverse v t =
     (let t = t\<lparr>reverse := v\<rparr>;
          t = (if reverse t = 0 then
                 (if role t = CHR ''c'' then t\<lparr>mode := SENDER\<rparr>
                  else if role t = CHR ''s'' then t\<lparr>mode := RECEIVER\<rparr> else t)
               else
                 (if role t = CHR ''c'' then t\<lparr>mode := RECEIVER\<rparr>
                  else if role t = CHR ''s'' then t\<lparr>mode := SENDER\<rparr> else t))
      in check_sender_has_retransmits t)"

text \<open>\<open>(uint64_t) x\<close> for a double: defined when the truncated value fits.\<close>

definition d_to_u64 :: "rat \<Rightarrow> u64 option" where
  "d_to_u64 x = (let v = d_to_int x in if 0 \<le> v \<and> v < 2 ^ 64 then Some (word_of_int v) else None)"

definition iperf_set_test_udp_bandwidth :: "string \<Rightarrow> iperf_test \<Rightarrow> iperf_test option" where
  "iperf_set_test_udp_bandwidth s t =
     do { x \<leftarrow> unit_atof_rate s; r \<leftarrow> d_to_u64 x; Some (iperf_set_test_rate r t) }"

definition iperf_set_test_json_output :: "int \<Rightarrow> iperf_test \<Rightarrow> iperf_test" where
  "iperf_set_test_json_output v t = t\<lparr>json_output := v\<rparr>"

definition iperf_has_zerocopy :: int where
  "iperf_has_zerocopy = has_sendfile"

definition iperf_set_test_zerocopy :: "int \<Rightarrow> iperf_test \<Rightarrow> iperf_test" where
  "iperf_set_test_zerocopy v t = t\<lparr>zerocopy := (if v \<noteq> 0 \<and> has_sendfile \<noteq> 0 then 1 else 0)\<rparr>"

definition iperf_set_test_get_server_output :: "int \<Rightarrow> iperf_test \<Rightarrow> iperf_test" where
  "iperf_set_test_get_server_output v t = t\<lparr>get_server_output := v\<rparr>"

definition iperf_set_test_unit_format :: "char \<Rightarrow> iperf_test \<Rightarrow> iperf_test" where
  "iperf_set_test_unit_format v = upd_settings (\<lambda>s. s\<lparr>unit_format_char := v\<rparr>)"

definition iperf_set_test_bind_address :: "string \<Rightarrow> iperf_test \<Rightarrow> iperf_test" where
  "iperf_set_test_bind_address v t = t\<lparr>bind_address := Some v\<rparr>"

definition iperf_set_test_udp_counters_64bit :: "int \<Rightarrow> iperf_test \<Rightarrow> iperf_test" where
  "iperf_set_test_udp_counters_64bit v t = t\<lparr>udp_counters_64bit := v\<rparr>"

definition iperf_set_test_one_off :: "int \<Rightarrow> iperf_test \<Rightarrow> iperf_test" where
  "iperf_set_test_one_off v t = t\<lparr>one_off := v\<rparr>"

definition iperf_set_test_tos :: "int \<Rightarrow> iperf_test \<Rightarrow> iperf_test" where
  "iperf_set_test_tos v = upd_settings (\<lambda>s. s\<lparr>tos := v\<rparr>)"

definition iperf_set_test_extra_data :: "string option \<Rightarrow> iperf_test \<Rightarrow> iperf_test" where
  "iperf_set_test_extra_data v t = t\<lparr>extra_data := v\<rparr>"

definition iperf_set_test_bidirectional :: "int \<Rightarrow> iperf_test \<Rightarrow> iperf_test" where
  "iperf_set_test_bidirectional v t =
     (let t = t\<lparr>bidirectional := v\<rparr>
      in if v \<noteq> 0 then t\<lparr>mode := BIDIRECTIONAL\<rparr> else iperf_set_test_reverse (reverse t) t)"

definition iperf_set_test_no_delay :: "int \<Rightarrow> iperf_test \<Rightarrow> iperf_test" where
  "iperf_set_test_no_delay v t = t\<lparr>no_delay := v\<rparr>"

section \<open>A new test\<close>

text \<open>
  \<open>malloc\<close> may fail: the two arguments say whether the two allocations succeed. A null
  \<open>protocol\<close> pointer, which only exists until \<open>iperf_defaults\<close>, is \<open>no_protocol\<close>.
\<close>

definition no_protocol :: protocol where
  "no_protocol = \<lparr>prot_id = 0, prot_name = []\<rparr>"

definition zero_settings :: iperf_settings where
  "zero_settings = \<lparr>domain = 0, socket_bufsize = 0, blksize = 0, rate = 0, fqrate = 0, pacing_timer = 0,
     burst = 0, mss = 0, ttl = 0, tos = 0, flowlabel = 0, bytes = 0, blocks = 0,
     unit_format_char = char_of (0 :: nat), num_ostreams = 0, connect_timeout = 0\<rparr>"

definition zero_test :: iperf_test where
  "zero_test = \<lparr>role = char_of (0 :: nat), mode = RECEIVER, sender_has_retransmits = 0,
     other_side_has_retransmits = 0, protocol = no_protocol, server_hostname = None, tmp_template = None,
     bind_address = None, xbind_addrs = [], bind_port = 0, server_port = 0, omit = 0, duration = 0,
     diskfile_name = None, affinity = 0, server_affinity = 0, title = None, extra_data = None,
     congestion = None, congestion_used = None, remote_congestion_used = None, pidfile = None,
     logfile = None, daemon = 0, one_off = 0, no_delay = 0, reverse = 0, bidirectional = 0, verbose = 0,
     json_output = 0, zerocopy = 0, debug = 0, get_server_output = 0, udp_counters_64bit = 0,
     forceflush = 0, multisend = 0, repeating_payload = 0, stats_interval = 0, reporter_interval = 0,
     num_streams = 0, settings = zero_settings, protocols = [], state = 0, ctrl_sck = 0, listener = 0,
     prot_listener = 0, ctrl_sck_mss = 0, max_fd = 0, read_set = [], write_set = [], omitting = 0,
     omit_timer = None, test_timer = None, test_done = 0, stats_timer = None, reporter_timer = None,
     cpu_util = (0, 0, 0), remote_cpu_util = (0, 0, 0), test_bytes_sent = 0, test_blocks_sent = 0,
     test_bytes_received = 0, test_blocks_received = 0, cookie = [], streams = [], server_output_text = None,
     server_output_list = [], json_top = None, json_server_output = None\<rparr>"

definition iperf_new_test :: "bool \<Rightarrow> bool \<Rightarrow> iperf_test option" where
  "iperf_new_test malloc1 malloc2 = (if \<not> malloc1 then None else if \<not> malloc2 then None else Some zero_test)"

definition iperf_defaults :: "bool \<Rightarrow> bool \<Rightarrow> iperf_test \<Rightarrow> int \<times> iperf_test" where
  "iperf_defaults new_tcp new_udp testp =
     (let testp = testp\<lparr>omit := OMIT_DEFAULT, duration := DURATION, diskfile_name := None, affinity := -1,
            server_affinity := -1, xbind_addrs := [], title := None, extra_data := None, congestion := None,
            congestion_used := None, remote_congestion_used := None, server_port := PORT, ctrl_sck := -1,
            prot_listener := -1, other_side_has_retransmits := 0, stats_interval := 1,
            reporter_interval := 1, num_streams := 1,
            settings := (settings testp)\<lparr>domain := AF_UNSPEC, unit_format_char := CHR ''a'',
              socket_bufsize := 0, blksize := DEFAULT_TCP_BLKSIZE, rate := 0, fqrate := 0,
              pacing_timer := 1000, burst := 0, mss := 0, bytes := 0, blocks := 0, connect_timeout := -1\<rparr>,
            cookie := [], multisend := 10, streams := [], protocols := []\<rparr>;
          tcp = \<lparr>prot_id = Ptcp, prot_name = ''TCP''\<rparr>;
          udp = \<lparr>prot_id = Pudp, prot_name = ''UDP''\<rparr>
      in if \<not> new_tcp then (-1, testp)
         else if \<not> new_udp then (-1, testp\<lparr>protocols := [tcp]\<rparr>)
         else (0, snd (set_protocol Ptcp (testp\<lparr>protocols := [tcp, udp]\<rparr>))))"

section \<open>The command line\<close>

text \<open>What \<open>getopt_long\<close> returns: a short option, or the code of a long one.\<close>

datatype opt = Opt char
  | OPT_SCTP | OPT_LOGFILE | OPT_GET_SERVER_OUTPUT | OPT_UDP_COUNTERS_64BIT | OPT_CLIENT_PORT
  | OPT_NUMSTREAMS | OPT_FORCEFLUSH | OPT_NO_FQ_SOCKET_PACING | OPT_FQ_RATE | OPT_DSCP
  | OPT_PACING_TIMER | OPT_CONNECT_TIMEOUT | OPT_REPEATING_PAYLOAD | OPT_EXTRA_DATA | OPT_BIDIRECTIONAL

text \<open>The locals of the function, with the test and \<open>i_errno\<close>.\<close>

record pstate =
  p_test :: iperf_test
  p_errno :: int
  p_blksize :: int
  server_flag :: int
  client_flag :: int
  rate_flag :: int
  duration_flag :: int

text \<open>
  Going on, returning \<open>-1\<close>, calling \<open>exit\<close>, or using an indeterminate number (a number that
  could not be scanned, or a double outside the range of the integer it is converted to).
\<close>

datatype pres = Go pstate | Err pstate | Exit int | Undef

definition perr :: "int \<Rightarrow> pstate \<Rightarrow> pres" where
  "perr e p = Err (p\<lparr>p_errno := e\<rparr>)"

definition upd_test :: "(iperf_test \<Rightarrow> iperf_test) \<Rightarrow> pstate \<Rightarrow> pstate" where
  "upd_test f p = p\<lparr>p_test := f (p_test p)\<rparr>"

definition upd_set :: "(iperf_settings \<Rightarrow> iperf_settings) \<Rightarrow> pstate \<Rightarrow> pstate" where
  "upd_set f = upd_test (upd_settings f)"

abbreviation client_opt :: "pstate \<Rightarrow> pstate" where
  "client_opt p \<equiv> p\<lparr>client_flag := 1\<rparr>"

definition u64_int :: "u64 \<Rightarrow> int" where
  "u64_int w = to_int32 (uint w)"

text \<open>\<open>atof\<close>, for text other than \<open>inf\<close> and \<open>nan\<close>.\<close>

definition atof :: "string \<Rightarrow> rat option" where
  "atof s = (case scan_lf s of Some (x, _) \<Rightarrow> Some x
     | None \<Rightarrow> (let w = map c_tolower (take 3 (snd (scan_sign (dropWhile c_isspace s))))
               in if w = ''inf'' \<or> w = ''nan'' then None else Some 0))"

text \<open>The case \<open>'b'\<close>: a rate, optionally followed by a slash and a burst count.\<close>

definition parse_rate :: "string \<Rightarrow> pstate \<Rightarrow> pres" where
  "parse_rate arg p =
     (let ratestr = takeWhile (\<lambda>c. c \<noteq> CHR ''/'') arg;
          rest = dropWhile (\<lambda>c. c \<noteq> CHR ''/'') arg;
          n = atoi (tl rest);
          p = (if rest \<noteq> [] then upd_set (\<lambda>s. s\<lparr>burst := n\<rparr>) p else p)
      in if rest \<noteq> [] \<and> (n \<le> 0 \<or> MAX_BURST < n) then perr IEBURST p
         else (case unit_atof_rate ratestr of None \<Rightarrow> Undef
           | Some x \<Rightarrow> (case d_to_u64 x of None \<Rightarrow> Undef
               | Some r \<Rightarrow> Go (client_opt (upd_set (\<lambda>s. s\<lparr>rate := r\<rparr>) p)\<lparr>rate_flag := 1\<rparr>))))"

definition parse_opt_1 :: "opt \<Rightarrow> string \<Rightarrow> pstate \<Rightarrow> pres" where
  "parse_opt_1 flag arg p =
     (let t = p_test p in
      if flag = Opt CHR ''p'' then
        (let portno = atoi arg in
         if portno < 1 \<or> 65535 < portno then perr IEBADPORT p else Go (upd_test (\<lambda>t. t\<lparr>server_port := portno\<rparr>) p))
      else if flag = Opt CHR ''f'' then
        (let c = (case arg of [] \<Rightarrow> char_of (0 :: nat) | c # _ \<Rightarrow> c);
             p = upd_set (\<lambda>s. s\<lparr>unit_format_char := c\<rparr>) p
         in if c \<in> set ''kKmMgGtT'' then Go p else perr IEBADFORMAT p)
      else if flag = Opt CHR ''i'' then
        (case atof arg of None \<Rightarrow> Undef
         | Some x \<Rightarrow>
             (let p = upd_test (\<lambda>t. t\<lparr>reporter_interval := x, stats_interval := x\<rparr>) p
              in if (x < MIN_INTERVAL \<or> MAX_INTERVAL < x) \<and> x \<noteq> 0 then perr IEINTERVAL p else Go p))
      else if flag = Opt CHR ''D'' then Go ((upd_test (\<lambda>t. t\<lparr>daemon := 1\<rparr>) p)\<lparr>server_flag := 1\<rparr>)
      else if flag = Opt CHR ''1'' then Go ((upd_test (\<lambda>t. t\<lparr>one_off := 1\<rparr>) p)\<lparr>server_flag := 1\<rparr>)
      else if flag = Opt CHR ''V'' then Go (upd_test (\<lambda>t. t\<lparr>verbose := 1\<rparr>) p)
      else if flag = Opt CHR ''J'' then Go (upd_test (\<lambda>t. t\<lparr>json_output := 1\<rparr>) p)
      else if flag = Opt CHR ''v'' then Exit 0
      else if flag = Opt CHR ''s'' then
        (if role t = CHR ''c'' then perr IESERVCLIENT p else Go (upd_test (iperf_set_test_role CHR ''s'') p))
      else if flag = Opt CHR ''c'' then
        (if role t = CHR ''s'' then perr IESERVCLIENT p
         else Go (upd_test (\<lambda>t. iperf_set_test_server_hostname arg (iperf_set_test_role CHR ''c'' t)) p))
      else if flag = Opt CHR ''u'' then
        (let (r, t') = set_protocol Pudp t;
             p = p\<lparr>p_test := t', p_errno := (if r < 0 then IEPROTOCOL else p_errno p)\<rparr>
         in Go (client_opt p))
      else if flag = OPT_SCTP then perr IEUNIMP p
      else if flag = OPT_NUMSTREAMS then
        (case unit_atoi arg of None \<Rightarrow> Undef
         | Some n \<Rightarrow> parse_rate arg (client_opt (upd_set (\<lambda>s. s\<lparr>num_ostreams := u64_int n\<rparr>) p)))
      else parse_rate arg p)"

definition opts_1 :: "opt list" where
  "opts_1 = map Opt ''pfiD1VJvscub'' @ [OPT_SCTP, OPT_NUMSTREAMS]"

definition parse_opt_2 :: "opt \<Rightarrow> string \<Rightarrow> pstate \<Rightarrow> pres" where
  "parse_opt_2 flag arg p =
     (let t = p_test p in
      if flag = Opt CHR ''t'' then
        (let n = atoi arg; p = upd_test (\<lambda>t. t\<lparr>duration := n\<rparr>) p in
         if MAX_TIME < n then perr IEDURATION p else Go (client_opt p\<lparr>duration_flag := 1\<rparr>))
      else if flag = Opt CHR ''n'' then
        (case unit_atoi arg of None \<Rightarrow> Undef | Some n \<Rightarrow> Go (client_opt (upd_set (\<lambda>s. s\<lparr>bytes := n\<rparr>) p)))
      else if flag = Opt CHR ''k'' then
        (case unit_atoi arg of None \<Rightarrow> Undef | Some n \<Rightarrow> Go (client_opt (upd_set (\<lambda>s. s\<lparr>blocks := n\<rparr>) p)))
      else if flag = Opt CHR ''l'' then
        (case unit_atoi arg of None \<Rightarrow> Undef | Some n \<Rightarrow> Go (client_opt (p\<lparr>p_blksize := u64_int n\<rparr>)))
      else if flag = Opt CHR ''P'' then
        (let n = atoi arg; p = upd_test (\<lambda>t. t\<lparr>num_streams := n\<rparr>) p in
         if MAX_STREAMS < n then perr IENUMSTREAMS p else Go (client_opt p))
      else if flag = Opt CHR ''R'' then
        (if bidirectional t \<noteq> 0 then perr IEREVERSEBIDIR p
         else Go (client_opt (upd_test (iperf_set_test_reverse 1) p)))
      else if flag = OPT_BIDIRECTIONAL then
        (if reverse t \<noteq> 0 then perr IEREVERSEBIDIR p
         else Go (client_opt (upd_test (iperf_set_test_bidirectional 1) p)))
      else if flag = Opt CHR ''w'' then
        (case unit_atof arg of None \<Rightarrow> Undef
         | Some farg \<Rightarrow>
             if of_int MAX_TCP_BUFFER < farg then perr IEBUFSIZE p
             else if d_to_int farg < - (2 ^ 31) then Undef
             else Go (client_opt (upd_set (\<lambda>s. s\<lparr>socket_bufsize := d_to_int farg\<rparr>) p)))
      else if flag = Opt CHR ''B'' then Go (upd_test (\<lambda>t. t\<lparr>bind_address := Some arg\<rparr>) p)
      else if flag = OPT_CLIENT_PORT then
        (let portno = atoi arg in
         if portno < 1 \<or> 65535 < portno then perr IEBADPORT p else Go (upd_test (\<lambda>t. t\<lparr>bind_port := portno\<rparr>) p))
      else if flag = Opt CHR ''M'' then
        (let n = atoi arg; p = upd_set (\<lambda>s. s\<lparr>mss := n\<rparr>) p in
         if MAX_MSS < n then perr IEMSS p else Go (client_opt p))
      else if flag = Opt CHR ''N'' then Go (client_opt (upd_test (\<lambda>t. t\<lparr>no_delay := 1\<rparr>) p))
      else if flag = Opt CHR ''4'' then Go (upd_set (\<lambda>s. s\<lparr>domain := AF_INET\<rparr>) p)
      else if flag = Opt CHR ''6'' then Go (upd_set (\<lambda>s. s\<lparr>domain := AF_INET6\<rparr>) p)
      else if flag = Opt CHR ''S'' then
        (let (v, endptr) = strtol 0 arg; n = to_int32 v; p = upd_set (\<lambda>s. s\<lparr>tos := n\<rparr>) p in
         if endptr = arg \<or> n < 0 \<or> 255 < n then perr IEBADTOS p else Go (client_opt p))
      else
        (let n = parse_qos (Some arg); p = upd_set (\<lambda>s. s\<lparr>tos := n\<rparr>) p in
         if n < 0 then perr IEBADTOS p else Go (client_opt p)))"

definition opts_2 :: "opt list" where
  "opts_2 = map Opt ''tnklPRwBMN46S'' @ [OPT_BIDIRECTIONAL, OPT_CLIENT_PORT, OPT_DSCP]"

text \<open>
  The build has no flow labels, no CPU affinity, no choice of the congestion control and no
  fair-queueing rate, so their options are refused. Allocation of an \<open>xbind_entry\<close> succeeds.
\<close>

definition parse_opt_3 :: "opt \<Rightarrow> string \<Rightarrow> pstate \<Rightarrow> pres" where
  "parse_opt_3 flag arg p =
     (if flag = OPT_EXTRA_DATA then Go (client_opt (upd_test (\<lambda>t. t\<lparr>extra_data := Some arg\<rparr>) p))
      else if flag = Opt CHR ''L'' then perr IEUNIMP p
      else if flag = Opt CHR ''X'' then Go (upd_test (\<lambda>t. t\<lparr>xbind_addrs := xbind_addrs t @ [arg]\<rparr>) p)
      else if flag = Opt CHR ''Z'' then
        (if has_sendfile = 0 then perr IENOSENDFILE p else Go (client_opt (upd_test (\<lambda>t. t\<lparr>zerocopy := 1\<rparr>) p)))
      else if flag = OPT_REPEATING_PAYLOAD then Go (client_opt (upd_test (\<lambda>t. t\<lparr>repeating_payload := 1\<rparr>) p))
      else if flag = Opt CHR ''O'' then
        (let n = atoi arg; p = upd_test (\<lambda>t. t\<lparr>omit := n\<rparr>) p in
         if n < 0 \<or> 60 < n then perr IEOMIT p else Go (client_opt p))
      else if flag = Opt CHR ''F'' then Go (upd_test (\<lambda>t. t\<lparr>diskfile_name := Some arg\<rparr>) p)
      else if flag = Opt CHR ''A'' then perr IEUNIMP p
      else if flag = Opt CHR ''T'' then Go (client_opt (upd_test (\<lambda>t. t\<lparr>title := Some arg\<rparr>) p))
      else if flag = Opt CHR ''C'' then perr IEUNIMP p
      else if flag = Opt CHR ''d'' then Go (upd_test (\<lambda>t. t\<lparr>debug := 1\<rparr>) p)
      else if flag = Opt CHR ''I'' then Go ((upd_test (\<lambda>t. t\<lparr>pidfile := Some arg\<rparr>) p)\<lparr>server_flag := 1\<rparr>)
      else if flag = OPT_LOGFILE then Go (upd_test (\<lambda>t. t\<lparr>logfile := Some arg\<rparr>) p)
      else if flag = OPT_FORCEFLUSH then Go (upd_test (\<lambda>t. t\<lparr>forceflush := 1\<rparr>) p)
      else if flag = OPT_GET_SERVER_OUTPUT then Go (client_opt (upd_test (\<lambda>t. t\<lparr>get_server_output := 1\<rparr>) p))
      else if flag = OPT_UDP_COUNTERS_64BIT then Go (upd_test (\<lambda>t. t\<lparr>udp_counters_64bit := 1\<rparr>) p)
      else if flag = OPT_NO_FQ_SOCKET_PACING then perr IEUNIMP p
      else if flag = OPT_FQ_RATE then perr IEUNIMP p
      else if flag = OPT_PACING_TIMER then
        (case unit_atoi arg of None \<Rightarrow> Undef
         | Some n \<Rightarrow> Go (client_opt (upd_set (\<lambda>s. s\<lparr>pacing_timer := u64_int n\<rparr>) p)))
      else if flag = OPT_CONNECT_TIMEOUT then
        (case unit_atoi arg of None \<Rightarrow> Undef
         | Some n \<Rightarrow> Go (client_opt (upd_set (\<lambda>s. s\<lparr>connect_timeout := u64_int n\<rparr>) p)))
      else if flag = Opt CHR ''h'' then Exit 0
      else Exit 1)"

definition parse_opt :: "opt \<Rightarrow> string \<Rightarrow> pstate \<Rightarrow> pres" where
  "parse_opt flag arg p =
     (if flag \<in> set opts_1 then parse_opt_1 flag arg p
      else if flag \<in> set opts_2 then parse_opt_2 flag arg p
      else parse_opt_3 flag arg p)"

fun parse_loop :: "(opt \<times> string) list \<Rightarrow> pstate \<Rightarrow> pres" where
  "parse_loop [] p = Go p"
| "parse_loop ((flag, arg) # opts) p =
     (case parse_opt flag arg p of Go p' \<Rightarrow> parse_loop opts p' | r \<Rightarrow> r)"

text \<open>The block size when none was given, and the other defaults that depend on the options.\<close>

definition pick_blksize :: "int \<Rightarrow> int \<Rightarrow> int" where
  "pick_blksize pid b =
     (if b = 0 then
        (if pid = Pudp then 0 else if pid = Psctp then DEFAULT_SCTP_BLKSIZE else DEFAULT_TCP_BLKSIZE)
      else b)"

definition fill_defaults :: "int \<Rightarrow> pstate \<Rightarrow> pstate" where
  "fill_defaults blk p =
     (let p = upd_set (\<lambda>s. s\<lparr>blksize := blk\<rparr>) p;
          p = (if rate_flag p = 0
               then upd_set (\<lambda>s. s\<lparr>rate := (if prot_id (protocol (p_test p)) = Pudp then UDP_RATE else 0)\<rparr>) p
               else p)
      in if (bytes (settings (p_test p)) \<noteq> 0 \<or> blocks (settings (p_test p)) \<noteq> 0) \<and> duration_flag p = 0
         then upd_test (\<lambda>t. t\<lparr>duration := 0\<rparr>) p else p)"

text \<open>The checks after the loop.\<close>

definition parse_finish :: "pstate \<Rightarrow> pres" where
  "parse_finish p =
     (let t = p_test p; pid = prot_id (protocol t); blk = pick_blksize pid (p_blksize p) in
      if role t = CHR ''c'' \<and> server_flag p \<noteq> 0 then perr IESERVERONLY p
      else if role t = CHR ''s'' \<and> client_flag p \<noteq> 0 then perr IECLIENTONLY p
      else if pid \<noteq> Pudp \<and> blk \<le> 0 \<or> MAX_BLOCKSIZE < blk then perr IEBLOCKSIZE p
      else if pid = Pudp \<and> (0 < blk \<and> (blk < MIN_UDP_BLOCKSIZE \<or> MAX_UDP_BLOCKSIZE < blk))
           then perr IEUDPBLOCKSIZE p
      else
        (let p = fill_defaults blk p; s = settings (p_test p)
         in if duration_flag p \<noteq> 0 \<and> bytes s \<noteq> 0 \<or> duration_flag p \<noteq> 0 \<and> blocks s \<noteq> 0 \<or>
               bytes s \<noteq> 0 \<and> blocks s \<noteq> 0 then perr IEENDCONDITIONS p
            else if role (p_test p) \<noteq> CHR ''c'' \<and> role (p_test p) \<noteq> CHR ''s'' then perr IENOROLE p
            else Go p))"

definition iperf_parse_arguments :: "(opt \<times> string) list \<Rightarrow> int \<Rightarrow> iperf_test \<Rightarrow> pres" where
  "iperf_parse_arguments opts errno0 t =
     (case parse_loop opts \<lparr>p_test = t, p_errno = errno0, p_blksize = 0, server_flag = 0, client_flag = 0,
         rate_flag = 0, duration_flag = 0\<rparr> of
        Go p \<Rightarrow> parse_finish p
      | r \<Rightarrow> r)"

end
