(* ===== verification/Api_Options_Props.thy ===== *)
theory Api_Options_Props
  imports Api_Options
begin

text \<open>
  The command line: every accepted command line leaves a test within the documented limits,
  and options of the wrong role are refused.
\<close>

section \<open>The limits\<close>

definition unit_formats :: string where "unit_formats = ''akKmMgGtT''"

lemma d_to_int_le: "x \<le> of_int n \<Longrightarrow> 0 \<le> n \<Longrightarrow> d_to_int x \<le> n"
  by (simp add: d_to_int_def floor_le_iff ceiling_le_iff)

definition settings_ok :: "iperf_settings \<Rightarrow> bool" where
  "settings_ok s \<longleftrightarrow> 0 \<le> burst s \<and> burst s \<le> MAX_BURST \<and> 0 \<le> tos s \<and> tos s \<le> 255 \<and> mss s \<le> MAX_MSS \<and>
     socket_bufsize s \<le> MAX_TCP_BUFFER \<and> unit_format_char s \<in> set unit_formats"

definition config_ok :: "iperf_test \<Rightarrow> bool" where
  "config_ok t \<longleftrightarrow> 1 \<le> server_port t \<and> server_port t \<le> 65535 \<and> 0 \<le> bind_port t \<and> bind_port t \<le> 65535 \<and>
     duration t \<le> MAX_TIME \<and> num_streams t \<le> MAX_STREAMS \<and> 0 \<le> omit t \<and> omit t \<le> 60 \<and>
     (stats_interval t = 0 \<or> MIN_INTERVAL \<le> stats_interval t \<and> stats_interval t \<le> MAX_INTERVAL) \<and>
     reporter_interval t = stats_interval t \<and> \<not> (reverse t \<noteq> 0 \<and> bidirectional t \<noteq> 0) \<and>
     protocol t \<in> set (protocols t) \<and> settings_ok (settings t)"

text \<open>A property of the state a step goes on with.\<close>

fun goes :: "(pstate \<Rightarrow> bool) \<Rightarrow> pres \<Rightarrow> bool" where
  "goes P (Go p) = P p"
| "goes P _ = True"

named_theorems goes_rules

lemma goes_Go [goes_rules]: "P p \<Longrightarrow> goes P (Go p)" by simp
lemma goes_Err [goes_rules]: "goes P (perr e p)" by (simp add: perr_def)
lemma goes_Exit [goes_rules]: "goes P (Exit n)" "goes P Undef" by simp_all

lemma goes_flag [goes_rules]:
  "goes P m \<Longrightarrow> goes P n \<Longrightarrow> goes P (if (flag :: opt) = c then m else n)" by simp

lemma goes_if: "(b \<Longrightarrow> goes P m) \<Longrightarrow> (\<not> b \<Longrightarrow> goes P n) \<Longrightarrow> goes P (if b then m else n)" by simp

lemma goes_option [goes_rules]:
  "goes P m \<Longrightarrow> (\<And>x. o1 = Some x \<Longrightarrow> goes P (f x)) \<Longrightarrow> goes P (case o1 of None \<Rightarrow> m | Some x \<Rightarrow> f x)"
  by (cases o1) auto

lemma goes_pair [goes_rules]:
  "(\<And>a b. x = (a, b) \<Longrightarrow> goes P (f a b)) \<Longrightarrow> goes P (case x of (a, b) \<Rightarrow> f a b)"
  by (cases x) auto

lemma retrans_fields [simp]:
  "config_ok (check_sender_has_retransmits t) = config_ok t"
  "role (check_sender_has_retransmits t) = role t"
  by (simp_all add: check_sender_has_retransmits_def config_ok_def)

lemma config_mode [simp]: "config_ok (t\<lparr>mode := m\<rparr>) = config_ok t" "config_ok (t\<lparr>role := r\<rparr>) = config_ok t"
  by (simp_all add: config_ok_def)

lemma config_role [simp]: "config_ok (iperf_set_test_role r t) = config_ok t"
  by (simp add: iperf_set_test_role_def Let_def)

lemma config_hostname [simp]: "config_ok (iperf_set_test_server_hostname r t) = config_ok t"
  by (simp add: iperf_set_test_server_hostname_def config_ok_def)

lemma config_reverse [simp]:
  "config_ok (iperf_set_test_reverse v t) = config_ok (t\<lparr>reverse := v\<rparr>)"
  by (simp add: iperf_set_test_reverse_def Let_def)

lemma config_bidir [simp]:
  "config_ok (iperf_set_test_bidirectional v t) = config_ok (t\<lparr>bidirectional := v\<rparr>)"
  by (simp add: iperf_set_test_bidirectional_def Let_def)

lemma find_mem: "find P xs = Some x \<Longrightarrow> x \<in> set xs"
  by (metis find_Some_iff nth_mem)

lemma config_set_prot: "config_ok t \<Longrightarrow> p \<in> set (protocols t) \<Longrightarrow> config_ok (t\<lparr>protocol := p\<rparr>)"
  by (simp add: config_ok_def)

lemma config_protocol:
  "set_protocol i t = (r, t') \<Longrightarrow> config_ok t \<Longrightarrow> config_ok t'"
  by (auto simp: set_protocol_def split: option.splits dest!: find_mem intro!: config_set_prot)

lemma p_test_upd [simp]:
  "p_test (upd_test f p) = f (p_test p)"
  "p_test (upd_set g p) = (p_test p)\<lparr>settings := g (settings (p_test p))\<rparr>"
  by (simp_all add: upd_set_def upd_test_def)

lemma config_settings [simp]: "config_ok t \<Longrightarrow> settings_ok s \<Longrightarrow> config_ok (t\<lparr>settings := s\<rparr>)"
  by (simp add: config_ok_def)

lemma settings_okD [simp]: "config_ok t \<Longrightarrow> settings_ok (settings t)"
  by (simp add: config_ok_def)

text \<open>Fields the invariant says nothing about, and fields with a bound of their own.\<close>

lemma config_free [simp]:
  "config_ok (t\<lparr>daemon := i\<rparr>) = config_ok t" "config_ok (t\<lparr>one_off := i\<rparr>) = config_ok t"
  "config_ok (t\<lparr>verbose := i\<rparr>) = config_ok t" "config_ok (t\<lparr>json_output := i\<rparr>) = config_ok t"
  "config_ok (t\<lparr>no_delay := i\<rparr>) = config_ok t" "config_ok (t\<lparr>zerocopy := i\<rparr>) = config_ok t"
  "config_ok (t\<lparr>repeating_payload := i\<rparr>) = config_ok t" "config_ok (t\<lparr>debug := i\<rparr>) = config_ok t"
  "config_ok (t\<lparr>forceflush := i\<rparr>) = config_ok t" "config_ok (t\<lparr>get_server_output := i\<rparr>) = config_ok t"
  "config_ok (t\<lparr>udp_counters_64bit := i\<rparr>) = config_ok t"
  "config_ok (t\<lparr>bind_address := x\<rparr>) = config_ok t" "config_ok (t\<lparr>diskfile_name := x\<rparr>) = config_ok t"
  "config_ok (t\<lparr>extra_data := x\<rparr>) = config_ok t" "config_ok (t\<lparr>title := x\<rparr>) = config_ok t"
  "config_ok (t\<lparr>pidfile := x\<rparr>) = config_ok t" "config_ok (t\<lparr>logfile := x\<rparr>) = config_ok t"
  "config_ok (t\<lparr>xbind_addrs := ys\<rparr>) = config_ok t"
  by (simp_all add: config_ok_def)

lemma config_bounded [simp]:
  assumes "config_ok t"
  shows "1 \<le> n \<Longrightarrow> n \<le> 65535 \<Longrightarrow> config_ok (t\<lparr>server_port := n\<rparr>)"
    "0 \<le> n \<Longrightarrow> n \<le> 65535 \<Longrightarrow> config_ok (t\<lparr>bind_port := n\<rparr>)"
    "n \<le> MAX_TIME \<Longrightarrow> config_ok (t\<lparr>duration := n\<rparr>)"
    "n \<le> MAX_STREAMS \<Longrightarrow> config_ok (t\<lparr>num_streams := n\<rparr>)"
    "0 \<le> n \<Longrightarrow> n \<le> 60 \<Longrightarrow> config_ok (t\<lparr>omit := n\<rparr>)"
    "x = 0 \<or> MIN_INTERVAL \<le> x \<and> x \<le> MAX_INTERVAL \<Longrightarrow> config_ok (t\<lparr>reporter_interval := x, stats_interval := x\<rparr>)"
    "bidirectional t = 0 \<Longrightarrow> config_ok (t\<lparr>reverse := n\<rparr>)"
    "reverse t = 0 \<Longrightarrow> config_ok (t\<lparr>bidirectional := n\<rparr>)"
  using assms unfolding config_ok_def by simp_all

lemma settings_free [simp]:
  "settings_ok (s\<lparr>rate := w\<rparr>) = settings_ok s" "settings_ok (s\<lparr>bytes := w\<rparr>) = settings_ok s"
  "settings_ok (s\<lparr>blocks := w\<rparr>) = settings_ok s" "settings_ok (s\<lparr>num_ostreams := n\<rparr>) = settings_ok s"
  "settings_ok (s\<lparr>domain := n\<rparr>) = settings_ok s" "settings_ok (s\<lparr>pacing_timer := n\<rparr>) = settings_ok s"
  "settings_ok (s\<lparr>connect_timeout := n\<rparr>) = settings_ok s" "settings_ok (s\<lparr>blksize := n\<rparr>) = settings_ok s"
  by (simp_all add: settings_ok_def)

lemma settings_bounded [simp]:
  assumes "settings_ok s"
  shows "0 \<le> n \<Longrightarrow> n \<le> MAX_BURST \<Longrightarrow> settings_ok (s\<lparr>burst := n\<rparr>)"
    "0 \<le> n \<Longrightarrow> n \<le> 255 \<Longrightarrow> settings_ok (s\<lparr>tos := n\<rparr>)"
    "n \<le> MAX_MSS \<Longrightarrow> settings_ok (s\<lparr>mss := n\<rparr>)"
    "n \<le> MAX_TCP_BUFFER \<Longrightarrow> settings_ok (s\<lparr>socket_bufsize := n\<rparr>)"
    "c \<in> set unit_formats \<Longrightarrow> settings_ok (s\<lparr>unit_format_char := c\<rparr>)"
  using assms unfolding settings_ok_def by simp_all

lemma parse_rate_config:
  "config_ok (p_test p) \<Longrightarrow> goes (\<lambda>p. config_ok (p_test p)) (parse_rate arg p)"
  unfolding parse_rate_def Let_def by (intro goes_rules goes_if) (auto simp: not_less not_le)

lemma parse_opt_1_config:
  "config_ok (p_test p) \<Longrightarrow> goes (\<lambda>p. config_ok (p_test p)) (parse_opt_1 flag arg p)"
  unfolding parse_opt_1_def Let_def
  by (intro goes_rules goes_if parse_rate_config)
    (auto simp: not_less not_le unit_formats_def config_protocol)

lemma qos_bound: "\<not> parse_qos a < 0 \<Longrightarrow> parse_qos a \<le> 255"
  using parse_qos_range [of a] by auto

lemma parse_opt_2_config:
  "config_ok (p_test p) \<Longrightarrow> goes (\<lambda>p. config_ok (p_test p)) (parse_opt_2 flag arg p)"
  unfolding parse_opt_2_def Let_def
  by (intro goes_rules goes_if)
    (simp_all add: not_less not_le qos_bound d_to_int_le MAX_TCP_BUFFER_def)

lemma parse_opt_3_config:
  "config_ok (p_test p) \<Longrightarrow> goes (\<lambda>p. config_ok (p_test p)) (parse_opt_3 flag arg p)"
  unfolding parse_opt_3_def Let_def by (intro goes_rules goes_if) (simp_all add: not_less not_le)

lemma parse_opt_config:
  "config_ok (p_test p) \<Longrightarrow> goes (\<lambda>p. config_ok (p_test p)) (parse_opt flag arg p)"
  unfolding parse_opt_def by (simp add: parse_opt_1_config parse_opt_2_config parse_opt_3_config)

section \<open>Options of one role only\<close>

definition client_opts :: "opt list" where
  "client_opts = map Opt ''ubtnklPRwMNSZOT'' @ [OPT_NUMSTREAMS, OPT_BIDIRECTIONAL, OPT_DSCP, OPT_EXTRA_DATA,
     OPT_REPEATING_PAYLOAD, OPT_GET_SERVER_OUTPUT, OPT_PACING_TIMER, OPT_CONNECT_TIMEOUT]"

definition server_opts :: "opt list" where
  "server_opts = map Opt ''D1I''"

definition flags_step :: "opt \<Rightarrow> pstate \<Rightarrow> pstate \<Rightarrow> bool" where
  "flags_step flag p p' \<longleftrightarrow>
     client_flag p' = (if flag \<in> set client_opts then 1 else client_flag p) \<and>
     server_flag p' = (if flag \<in> set server_opts then 1 else server_flag p)"

lemma flags_upd [simp]:
  "client_flag (upd_test f p) = client_flag p" "server_flag (upd_test f p) = server_flag p"
  "client_flag (upd_set g p) = client_flag p" "server_flag (upd_set g p) = server_flag p"
  by (simp_all add: upd_test_def upd_set_def)

lemma parse_rate_flags:
  "goes (\<lambda>p'. client_flag p' = 1 \<and> server_flag p' = server_flag p) (parse_rate arg p)"
  unfolding parse_rate_def Let_def by (intro goes_rules goes_if) auto

lemma goes_mono: "goes P r \<Longrightarrow> (\<And>p. P p \<Longrightarrow> Q p) \<Longrightarrow> goes Q r"
  by (cases r) auto

lemmas flag_tables = client_opts_def server_opts_def opts_1_def opts_2_def

lemma goes_if_concrete: "goes P (if b then m else n) = (if b then goes P m else goes P n)"
  by simp

lemma parse_rate_flags':
  "flag \<in> set client_opts \<Longrightarrow> flag \<notin> set server_opts \<Longrightarrow> server_flag p = server_flag q \<Longrightarrow>
   goes (flags_step flag q) (parse_rate arg p)"
  by (rule goes_mono [OF parse_rate_flags]) (simp add: flags_step_def)

lemma parse_opt_1_flags:
  assumes "flag \<in> set opts_1"
  shows "goes (flags_step flag p) (parse_opt_1 flag arg p)"
  using assms [unfolded opts_1_def, simplified]
  by (elim disjE; simp only: parse_opt_1_def Let_def opt.inject opt.distinct char.inject simp_thms if_True if_False;
        (intro goes_rules goes_if parse_rate_flags')?; simp add: flags_step_def flag_tables)

lemma parse_opt_2_flags:
  assumes "flag \<in> set opts_2"
  shows "goes (flags_step flag p) (parse_opt_2 flag arg p)"
  using assms [unfolded opts_2_def, simplified]
  by (elim disjE; simp only: parse_opt_2_def Let_def opt.inject opt.distinct char.inject simp_thms if_True if_False;
        (intro goes_rules goes_if parse_rate_flags')?; simp add: flags_step_def flag_tables)

definition opts_3 :: "opt list" where
  "opts_3 = map Opt ''LXZOFATCdIh'' @ [OPT_EXTRA_DATA, OPT_REPEATING_PAYLOAD, OPT_LOGFILE, OPT_FORCEFLUSH,
     OPT_GET_SERVER_OUTPUT, OPT_UDP_COUNTERS_64BIT, OPT_NO_FQ_SOCKET_PACING, OPT_FQ_RATE, OPT_PACING_TIMER,
     OPT_CONNECT_TIMEOUT]"

lemma parse_opt_3_flags:
  assumes "flag \<in> set opts_3"
  shows "goes (flags_step flag p) (parse_opt_3 flag arg p)"
  using assms [unfolded opts_3_def, simplified]
  by (elim disjE; simp only: parse_opt_3_def Let_def opt.inject opt.distinct char.inject simp_thms if_True if_False;
        (intro goes_rules goes_if parse_rate_flags')?; simp add: flags_step_def flag_tables)

lemma parse_opt_flags: "goes (flags_step flag p) (parse_opt flag arg p)"
proof (cases "flag \<in> set opts_1 \<union> set opts_2 \<union> set opts_3")
  case True
  then show ?thesis
    by (auto simp: parse_opt_def parse_opt_1_flags parse_opt_2_flags parse_opt_3_flags)
next
  case False
  then have "parse_opt flag arg p = Exit 1"
    by (simp add: parse_opt_def parse_opt_3_def opts_3_def)
  then show ?thesis by simp
qed

section \<open>The whole command line\<close>

lemma parse_loop_config:
  "config_ok (p_test p) \<Longrightarrow> parse_loop opts p = Go p' \<Longrightarrow> config_ok (p_test p')"
proof (induction opts p rule: parse_loop.induct)
  case (2 flag arg opts p)
  then show ?case using parse_opt_config [of p flag arg] by (auto split: pres.splits)
qed simp

lemma parse_loop_flags:
  assumes "parse_loop opts p = Go p'"
  shows "(client_flag p' = 0 \<longrightarrow> client_flag p = 0 \<and> fst ` set opts \<inter> set client_opts = {}) \<and>
     (server_flag p' = 0 \<longrightarrow> server_flag p = 0 \<and> fst ` set opts \<inter> set server_opts = {})"
  using assms
proof (induction opts p rule: parse_loop.induct)
  case (2 flag arg opts p)
  then show ?case
    using parse_opt_flags [of flag p arg] by (auto simp: flags_step_def split: pres.splits if_splits)
qed simp

text \<open>What the final checks establish.\<close>

definition blksize_ok :: "int \<Rightarrow> int \<Rightarrow> bool" where
  "blksize_ok pid b \<longleftrightarrow> (if pid = Pudp then b \<le> 0 \<or> MIN_UDP_BLOCKSIZE \<le> b \<and> b \<le> MAX_UDP_BLOCKSIZE
     else 0 < b \<and> b \<le> MAX_BLOCKSIZE)"

definition one_end_condition :: "iperf_test \<Rightarrow> bool" where
  "one_end_condition t \<longleftrightarrow>
     (bytes (settings t) \<noteq> 0 \<longrightarrow> blocks (settings t) = 0 \<and> duration t = 0) \<and>
     (blocks (settings t) \<noteq> 0 \<longrightarrow> bytes (settings t) = 0 \<and> duration t = 0)"

lemma upd_fields [simp]:
  "rate_flag (upd_test f p) = rate_flag p" "duration_flag (upd_test f p) = duration_flag p"
  "rate_flag (upd_set g p) = rate_flag p" "duration_flag (upd_set g p) = duration_flag p"
  by (simp_all add: upd_test_def upd_set_def)

lemma fill_defaults_fields [simp]:
  "blksize (settings (p_test (fill_defaults blk p))) = blk"
  "bytes (settings (p_test (fill_defaults blk p))) = bytes (settings (p_test p))"
  "blocks (settings (p_test (fill_defaults blk p))) = blocks (settings (p_test p))"
  "role (p_test (fill_defaults blk p)) = role (p_test p)"
  "protocol (p_test (fill_defaults blk p)) = protocol (p_test p)"
  "duration_flag (fill_defaults blk p) = duration_flag p"
  "duration (p_test (fill_defaults blk p)) =
     (if (bytes (settings (p_test p)) \<noteq> 0 \<or> blocks (settings (p_test p)) \<noteq> 0) \<and> duration_flag p = 0
      then 0 else duration (p_test p))"
  by (auto simp: fill_defaults_def Let_def)

lemma fill_defaults_config: "config_ok (p_test p) \<Longrightarrow> config_ok (p_test (fill_defaults blk p))"
  by (simp add: fill_defaults_def Let_def MAX_TIME_def)

lemma parse_finish_checks:
  "goes (\<lambda>p'. blksize_ok (prot_id (protocol (p_test p'))) (blksize (settings (p_test p'))) \<and>
     one_end_condition (p_test p') \<and> role (p_test p') = role (p_test p) \<and>
     (role (p_test p) = CHR ''c'' \<and> server_flag p = 0 \<or> role (p_test p) = CHR ''s'' \<and> client_flag p = 0) \<and>
     (config_ok (p_test p) \<longrightarrow> config_ok (p_test p')))
   (parse_finish p)"
  unfolding parse_finish_def Let_def
  by (intro goes_if goes_rules) (auto simp: blksize_ok_def one_end_condition_def fill_defaults_config)

section \<open>Properties\<close>

definition fresh_test :: iperf_test where
  "fresh_test = snd (iperf_defaults True True zero_test)"

lemma fresh_test_ok: "config_ok fresh_test"
proof -
  have "MIN_INTERVAL \<le> 1" unfolding MIN_INTERVAL_def by (rule rnd_le) simp_all
  then show ?thesis
    by (simp add: fresh_test_def iperf_defaults_def set_protocol_def prot_defs Let_def
        check_sender_has_retransmits_def zero_test_def zero_settings_def config_ok_def settings_ok_def
        unit_formats_def limit_defs MAX_INTERVAL_def)
qed

lemma no_role [simp]: "char_of (0 :: nat) \<noteq> CHR ''c''" "char_of (0 :: nat) \<noteq> CHR ''s''"
  by code_simp+

text \<open>Evaluating a concrete command line.\<close>

definition accepts :: "(opt \<times> string) list \<Rightarrow> (iperf_test \<Rightarrow> bool) \<Rightarrow> bool" where
  "accepts opts P = (case iperf_parse_arguments opts 0 fresh_test of Go p \<Rightarrow> P (p_test p) | _ \<Rightarrow> False)"

lemma acceptsE:
  assumes "accepts opts P"
  obtains p where "iperf_parse_arguments opts 0 fresh_test = Go p" "P (p_test p)"
  using assms by (auto simp: accepts_def split: pres.splits)



text \<open>
  Options of the other role are refused: when a command line is accepted for a server, it
  contains no client option, and when it is accepted for a client, no server option.
\<close>

theorem iperf_parse_arguments_roles:
  assumes "iperf_parse_arguments opts e t = Go p"
  shows "(role (p_test p) = CHR ''s'' \<longrightarrow> fst ` set opts \<inter> set client_opts = {}) \<and>
     (role (p_test p) = CHR ''c'' \<longrightarrow> fst ` set opts \<inter> set server_opts = {})"
proof -
  obtain q where q: "parse_loop opts \<lparr>p_test = t, p_errno = e, p_blksize = 0, server_flag = 0, client_flag = 0,
      rate_flag = 0, duration_flag = 0\<rparr> = Go q" "parse_finish q = Go p"
    using assms by (auto simp: iperf_parse_arguments_def split: pres.splits)
  then show ?thesis using parse_loop_flags [OF q(1)] parse_finish_checks [of q] by auto
qed

theorem iperf_parse_arguments_roles_witness:
  "\<exists>p. iperf_parse_arguments [(Opt CHR ''s'', []), (Opt CHR ''1'', [])] 0 fresh_test = Go p
     \<and> role (p_test p) = CHR ''s'' \<and> {Opt CHR ''s'', Opt CHR ''1''} \<inter> set client_opts = {}"
proof -
  have "accepts [(Opt CHR ''s'', []), (Opt CHR ''1'', [])] (\<lambda>t. role t = CHR ''s'')" by code_simp
  then obtain p where p: "iperf_parse_arguments [(Opt CHR ''s'', []), (Opt CHR ''1'', [])] 0 fresh_test = Go p"
    "role (p_test p) = CHR ''s''"
    by (auto elim: acceptsE)
  then show ?thesis using iperf_parse_arguments_roles [OF p(1)] by auto
qed

text \<open>
  The order of the options matters for bidirectional tests: \<open>-c host --bidir\<close> selects the
  bidirectional mode, but \<open>--bidir -c host\<close> is accepted as well and leaves the client a plain
  sender, because setting the role overwrites the mode, while the bidirectional flag, which
  is what the server is told, stays set.
\<close>

theorem bidir_before_role_is_lost:
  "\<exists>p q. iperf_parse_arguments [(Opt CHR ''c'', ''host''), (OPT_BIDIRECTIONAL, [])] 0 fresh_test = Go p \<and>
     iperf_parse_arguments [(OPT_BIDIRECTIONAL, []), (Opt CHR ''c'', ''host'')] 0 fresh_test = Go q \<and>
     mode (p_test p) = BIDIRECTIONAL \<and> bidirectional (p_test p) = 1 \<and>
     mode (p_test q) = SENDER \<and> bidirectional (p_test q) = 1"
proof -
  have "accepts [(Opt CHR ''c'', ''host''), (OPT_BIDIRECTIONAL, [])]
      (\<lambda>t. mode t = BIDIRECTIONAL \<and> bidirectional t = 1)"
    "accepts [(OPT_BIDIRECTIONAL, []), (Opt CHR ''c'', ''host'')] (\<lambda>t. mode t = SENDER \<and> bidirectional t = 1)"
    by code_simp+
  then show ?thesis by (elim acceptsE) blast
qed

end
