(* ===== verification/Udp.thy ===== *)
theory Udp
  imports Test_Types
begin

text \<open>
  UDP streams (\<open>iperf_udp.c\<close>): the packet header, loss and jitter accounting on receipt,
  sending, and the simulated connection set-up. Counters keep their C widths. Output to the
  terminal and to the JSON report is left out.
\<close>

section \<open>Network byte order\<close>

primrec be_bytes :: "nat \<Rightarrow> nat \<Rightarrow> u8 list" where
  "be_bytes 0 n = []"
| "be_bytes (Suc k) n = be_bytes k (n div 256) @ [of_nat n]"

definition be_val :: "u8 list \<Rightarrow> nat" where
  "be_val bs = foldl (\<lambda>a b. a * 256 + unat b) 0 bs"

lemma be_bytes_length [simp]: "length (be_bytes k n) = k"
  by (induction k arbitrary: n) auto

lemma be_val_append [simp]: "be_val (bs @ [b]) = be_val bs * 256 + unat b"
  by (simp add: be_val_def)

lemma be_val_bytes: "be_val (be_bytes k n) = n mod 256 ^ k"
proof (induction k arbitrary: n)
  case (Suc k)
  have "unat (of_nat n :: u8) = n mod 256" by (simp add: unat_of_nat)
  then show ?case using Suc
    by (simp add: mod_mult2_eq mult.commute)
qed (simp add: be_val_def)

section \<open>Receiving\<close>

text \<open>
  The header: seconds and microseconds of the send time, and the sequence number in 64 or 32
  bits. It is read from the stream's buffer, whatever the number of bytes just received.
\<close>

definition udp_header :: "bool \<Rightarrow> u8 list \<Rightarrow> iperf_time \<times> u64" where
  "udp_header wide buf =
     (\<lparr>secs = of_nat (be_val (take 4 buf)), usecs = of_nat (be_val (take 4 (drop 4 buf)))\<rparr>,
      of_nat (be_val (take (if wide then 8 else 4) (drop 8 buf))))"

text \<open>\<open>packet_count\<close> is an \<open>int\<close>; in the comparison with \<open>pcount\<close> it is converted to 64 bits.\<close>

definition udp_count :: "u64 \<Rightarrow> iperf_stream \<Rightarrow> iperf_stream" where
  "udp_count pcount sp =
     (let expected = word_of_int (packet_count sp + 1) :: u64 in
      if expected \<le> pcount then
        (let sp = (if expected < pcount
                   then sp\<lparr>cnt_error := to_int32 (uint (word_of_int (cnt_error sp) + ((pcount - 1) - word_of_int (packet_count sp))))\<rparr>
                   else sp)
         in sp\<lparr>packet_count := to_int32 (uint pcount)\<rparr>)
      else
        (let sp = sp\<lparr>outoforder_packets := to_int32 (outoforder_packets sp + 1)\<rparr>
         in if 0 < cnt_error sp then sp\<lparr>cnt_error := cnt_error sp - 1\<rparr> else sp))"

definition udp_jitter :: "iperf_time \<Rightarrow> iperf_time \<Rightarrow> iperf_stream \<Rightarrow> iperf_stream" where
  "udp_jitter arrival_time sent_time sp =
     (let (_, temp_time) = iperf_time_diff arrival_time sent_time;
          transit = iperf_time_in_secs temp_time;
          d = dsub transit (prev_transit sp);
          d = (if d < 0 then - d else d)
      in sp\<lparr>prev_transit := transit, jitter := dadd (jitter sp) (ddiv (dsub d (jitter sp)) 16)\<rparr>)"

definition add_received :: "int \<Rightarrow> iperf_stream_result \<Rightarrow> iperf_stream_result" where
  "add_received r res = res\<lparr>bytes_received := bytes_received res + word_of_int r,
     bytes_received_this_interval := bytes_received_this_interval res + word_of_int r\<rparr>"

definition iperf_udp_recv :: "'w kernel \<Rightarrow> iperf_test \<Rightarrow> iperf_stream \<Rightarrow> ('w sys, int \<times> iperf_stream) state" where
  "iperf_udp_recv K t sp = do {
     (r, out) \<leftarrow> Nread K (socket sp) (c_size_t (blksize (settings t)));
     let sp = sp\<lparr>buffer := out @ drop (length out) (buffer sp)\<rparr>;
     if r \<le> 0 then ret (r, sp)
     else if state t = TEST_RUNNING then do {
       let sp = sp\<lparr>stream_result := add_received r (stream_result sp)\<rparr>;
       let (sent_time, pcount) = udp_header (udp_counters_64bit t \<noteq> 0) (buffer sp);
       let sp = udp_count pcount sp;
       (_, arrival_time) \<leftarrow> sys_time_now K;
       ret (r, udp_jitter arrival_time sent_time sp)
     }
     else ret (r, sp)
   }"

section \<open>Sending\<close>

text \<open>\<open>htobe64(sp->packet_count)\<close> and \<open>htonl(sp->packet_count)\<close> convert the \<open>int\<close> first.\<close>

definition udp_stamp :: "bool \<Rightarrow> iperf_time \<Rightarrow> int \<Rightarrow> u8 list \<Rightarrow> u8 list" where
  "udp_stamp wide before n buf =
     (let h = be_bytes 4 (unat (secs before)) @ be_bytes 4 (unat (usecs before)) @
              (if wide then be_bytes 8 (unat (word_of_int n :: u64)) else be_bytes 4 (unat (word_of_int n :: u32)))
      in h @ drop (length h) buf)"

definition add_sent :: "int \<Rightarrow> iperf_stream_result \<Rightarrow> iperf_stream_result" where
  "add_sent r res = res\<lparr>bytes_sent := bytes_sent res + word_of_int r,
     bytes_sent_this_interval := bytes_sent_this_interval res + word_of_int r\<rparr>"

definition iperf_udp_send :: "'w kernel \<Rightarrow> iperf_test \<Rightarrow> iperf_stream \<Rightarrow> ('w sys, int \<times> iperf_stream) state" where
  "iperf_udp_send K t sp = do {
     (_, before) \<leftarrow> sys_time_now K;
     let sp = sp\<lparr>packet_count := to_int32 (packet_count sp + 1)\<rparr>;
     let sp = sp\<lparr>buffer := udp_stamp (udp_counters_64bit t \<noteq> 0) before (packet_count sp) (buffer sp)\<rparr>;
     r \<leftarrow> Nwrite K (socket sp) (take (c_size_t (blksize (settings t))) (buffer sp));
     if r < 0 then ret (r, sp)
     else ret (r, sp\<lparr>stream_result := add_sent r (stream_result sp)\<rparr>)
   }"

section \<open>Connections\<close>

definition iperf_udp_buffercheck :: "'w kernel \<Rightarrow> iperf_test \<Rightarrow> int \<Rightarrow> ('w sys, int) state" where
  "iperf_udp_buffercheck K t s = do {
     let opt = socket_bufsize (settings t);
     ok \<leftarrow> (if opt \<noteq> 0 then do {
              a \<leftarrow> syscall (k_setsockopt K s SO_RCVBUF opt);
              (if a = None then ret False else do {
                 b \<leftarrow> syscall (k_setsockopt K s SO_SNDBUF opt);
                 ret (b \<noteq> None) })
            }
            else ret True);
     if \<not> ok then fail_with IESETBUF (-1)
     else do {
       snd_actual \<leftarrow> syscall (k_getsockopt K s SO_SNDBUF);
       (case snd_actual of None \<Rightarrow> fail_with IESETBUF (-1)
        | Some sndbuf \<Rightarrow>
            if opt \<noteq> 0 \<and> sndbuf < opt then fail_with IESETBUF2 (-1)
            else do {
              let rc = (if sndbuf < blksize (settings t) then 1 else 0);
              rcv_actual \<leftarrow> syscall (k_getsockopt K s SO_RCVBUF);
              (case rcv_actual of None \<Rightarrow> fail_with IESETBUF (-1)
               | Some rcvbuf \<Rightarrow>
                   if opt \<noteq> 0 \<and> rcvbuf < opt then fail_with IESETBUF2 (-1)
                   else ret (if rcvbuf < blksize (settings t) then 1 else rc))
            })
     }
   }"

definition UDP_BUFFER_EXTRA :: int where "UDP_BUFFER_EXTRA = 1024"

text \<open>The two calls of \<open>iperf_udp_buffercheck\<close> shared by both sides, with the enlarged size.\<close>

definition udp_size_buffers :: "'w kernel \<Rightarrow> iperf_test \<Rightarrow> int \<Rightarrow> ('w sys, int \<times> iperf_test) state" where
  "udp_size_buffers K t s = do {
     rc \<leftarrow> iperf_udp_buffercheck K t s;
     if rc < 0 then ret (rc, t)
     else if 0 < rc \<and> socket_bufsize (settings t) = 0 then do {
       let t = t\<lparr>settings := (settings t)\<lparr>socket_bufsize := blksize (settings t) + UDP_BUFFER_EXTRA\<rparr>\<rparr>;
       rc \<leftarrow> iperf_udp_buffercheck K t s;
       ret (rc, t)
     }
     else ret (rc, t)
   }"

text \<open>\<open>write(s, &buf, sizeof(buf))\<close> of an \<open>int\<close>, least significant byte first.\<close>

definition int_bytes :: "int \<Rightarrow> u8 list" where
  "int_bytes v = rev (be_bytes 4 (nat v))"

definition iperf_udp_accept :: "'w kernel \<Rightarrow> iperf_test \<Rightarrow> ('w sys, int \<times> iperf_test) state" where
  "iperf_udp_accept K t = do {
     let s = prot_listener t;
     pkt \<leftarrow> syscall (k_recvfrom K (prot_listener t) 4);
     (case pkt of None \<Rightarrow> fail_with IESTREAMACCEPT (-1, t)
      | Some (_, sa_peer) \<Rightarrow> do {
          c \<leftarrow> syscall (k_connect K s sa_peer);
          if c = None then fail_with IESTREAMACCEPT (-1, t)
          else do {
            (rc, t) \<leftarrow> udp_size_buffers K t s;
            if rc < 0 then ret (rc, t)
            else do {
              l \<leftarrow> netannounce K (domain (settings t)) Pudp (bind_address t) (server_port t);
              let t = t\<lparr>prot_listener := l\<rparr>;
              if l < 0 then fail_with IESTREAMLISTEN (-1, t)
              else do {
                let t = t\<lparr>read_set := FD_SET l (read_set t), max_fd := (if max_fd t < l then l else max_fd t)\<rparr>;
                w \<leftarrow> syscall (k_write K s (int_bytes 987654321));
                if w = None then fail_with IESTREAMWRITE (-1, t) else ret (s, t)
              }
            }
          }
        })
   }"

definition iperf_udp_listen :: "'w kernel \<Rightarrow> iperf_test \<Rightarrow> ('w sys, int) state" where
  "iperf_udp_listen K t = do {
     s \<leftarrow> netannounce K (domain (settings t)) Pudp (bind_address t) (server_port t);
     if s < 0 then fail_with IESTREAMLISTEN (-1) else ret s
   }"

text \<open>The failure of setting \<open>SO_RCVTIMEO\<close> is ignored.\<close>

definition iperf_udp_connect :: "'w kernel \<Rightarrow> iperf_test \<Rightarrow> ('w sys, int \<times> iperf_test) state" where
  "iperf_udp_connect K t = do {
     s \<leftarrow> netdial K (domain (settings t)) Pudp (bind_address t) (bind_port t) (server_hostname t) (server_port t) (-1);
     if s < 0 then fail_with IESTREAMCONNECT (-1, t)
     else do {
       (rc, t) \<leftarrow> udp_size_buffers K t s;
       if rc < 0 then ret (rc, t)
       else do {
         _ \<leftarrow> syscall (k_setsockopt K s SO_RCVTIMEO 30);
         w \<leftarrow> syscall (k_write K s (int_bytes 123456789));
         if w = None then fail_with IESTREAMWRITE (-1, t)
         else do {
           r \<leftarrow> syscall (k_recvfrom K s 4);
           if r = None then fail_with IESTREAMREAD (-1, t) else ret (s, t)
         }
       }
     }
   }"

definition iperf_udp_init :: "iperf_test \<Rightarrow> int" where
  "iperf_udp_init t = 0"

end
