(* ===== verification/Udp_Props.thy ===== *)
theory Udp_Props
  imports Udp Net_Props Api_Options
begin

text \<open>
  UDP accounting: the header survives the round trip, the loss counter is exact for every
  arrival order without duplicates, the jitter stays between its old value and the new
  sample, and what the set-up routines leave open.
\<close>

section \<open>The header\<close>

lemma be_word32: "of_nat (be_val (be_bytes 4 (unat w))) = (w :: u32)"
  using unat_less_2p [of w] by (simp add: be_val_bytes)

lemma be_word64: "of_nat (be_val (be_bytes 8 (unat w))) = (w :: u64)"
  using unat_less_2p [of w] by (simp add: be_val_bytes)

lemma udp_header_stamp:
  "udp_header wide (udp_stamp wide tm n buf) =
     (tm, if wide then word_of_int n else ucast (word_of_int n :: u32))"
proof -
  have "of_nat (be_val (be_bytes 4 (unat (word_of_int n :: u32)))) = (ucast (word_of_int n :: u32) :: u64)"
    using unat_less_2p [of "word_of_int n :: u32"] by (simp add: be_val_bytes unsigned_of_nat)
  then show ?thesis
    by (simp add: udp_header_def udp_stamp_def be_word32 be_word64)
qed

lemma udp_header_stamp_int:
  assumes "0 \<le> n" "n < 2 ^ 31"
  shows "udp_header wide (udp_stamp wide tm n buf) = (tm, word_of_int n)"
proof -
  have "uint (word_of_int n :: u32) = n" using assms by (simp only: uint_word_of_int) simp
  then have "ucast (word_of_int n :: u32) = (word_of_int n :: u64)" by (simp only: ucast_eq)
  then show ?thesis by (simp add: udp_header_stamp)
qed

section \<open>Loss\<close>

text \<open>How often a packet arrives behind one with a larger number.\<close>

fun late :: "nat \<Rightarrow> nat list \<Rightarrow> nat" where
  "late m [] = 0"
| "late m (x # xs) = (if m < x then late x xs else Suc (late m xs))"

lemma late_snoc: "late m (xs @ [x]) = late m xs + (if Max (insert m (set xs)) < x then 0 else 1)"
proof (induction m xs rule: late.induct)
  case (2 m y ys)
  have "Max (insert m (set (y # ys))) = (if m < y then Max (insert y (set ys)) else Max (insert m (set ys)))"
    by (cases "ys = []") (auto simp: insert_commute [of m y] max_def)
  then show ?case using 2 by simp
qed simp

text \<open>A whole arrival sequence.\<close>

definition udp_arrivals :: "nat list \<Rightarrow> iperf_stream \<Rightarrow> iperf_stream" where
  "udp_arrivals xs sp = fold (\<lambda>n. udp_count (of_nat n)) xs sp"

lemma u64_of_small: "0 \<le> i \<Longrightarrow> i < 2 ^ 63 \<Longrightarrow> uint (word_of_int i :: u64) = i"
  by (simp only: uint_word_of_int) simp

lemma u64_of_nat: "n < 2 ^ 63 \<Longrightarrow> uint (of_nat n :: u64) = int n"
  using u64_of_small [of "int n"] by simp

lemma udp_count_forward:
  assumes "packet_count sp = int m" "cnt_error sp = int c" "m < n" "n < 2 ^ 31" "c + (n - 1 - m) < 2 ^ 31"
  shows "packet_count (udp_count (of_nat n) sp) = int n" "cnt_error (udp_count (of_nat n) sp) = int (c + (n - 1 - m))"
    "outoforder_packets (udp_count (of_nat n) sp) = outoforder_packets sp"
proof -
  have n: "uint (of_nat n :: u64) = int n" "uint (word_of_int (int m + 1) :: u64) = int m + 1"
  proof -
    show "uint (of_nat n :: u64) = int n" using assms by (intro u64_of_nat) simp
    show "uint (word_of_int (int m + 1) :: u64) = int m + 1" using assms by (intro u64_of_small) simp_all
  qed
  have exp: "word_of_int (packet_count sp + 1) \<le> (of_nat n :: u64)"
    using assms n unfolding word_le_def by simp
  have gap: "word_of_int (packet_count sp + 1) < (of_nat n :: u64) \<longleftrightarrow> m + 1 < n"
    using assms n unfolding word_less_def by auto
  have sum: "word_of_int (cnt_error sp) + ((of_nat n - 1) - word_of_int (packet_count sp)) = (of_nat (c + (n - 1 - m)) :: u64)"
    using assms by (simp add: of_nat_diff)
  have "uint (of_nat (c + (n - 1 - m)) :: u64) = int (c + (n - 1 - m))"
    using assms by (intro u64_of_nat) simp
  then have err: "to_int32 (uint (word_of_int (cnt_error sp) + ((of_nat n - 1) - word_of_int (packet_count sp)) :: u64)) = int (c + (n - 1 - m))"
    unfolding sum using assms by simp
  show "packet_count (udp_count (of_nat n) sp) = int n" "cnt_error (udp_count (of_nat n) sp) = int (c + (n - 1 - m))"
    "outoforder_packets (udp_count (of_nat n) sp) = outoforder_packets sp"
    using exp gap err n(1) assms by (auto simp: udp_count_def Let_def)
qed

lemma udp_count_late:
  assumes "packet_count sp = int m" "n \<le> m" "m < 2 ^ 31" "0 < cnt_error sp"
    "0 \<le> outoforder_packets sp" "outoforder_packets sp < 2 ^ 31 - 1"
  shows "packet_count (udp_count (of_nat n) sp) = int m" "cnt_error (udp_count (of_nat n) sp) = cnt_error sp - 1"
    "outoforder_packets (udp_count (of_nat n) sp) = outoforder_packets sp + 1"
proof -
  have n: "uint (of_nat n :: u64) = int n" "uint (word_of_int (int m + 1) :: u64) = int m + 1"
  proof -
    show "uint (of_nat n :: u64) = int n" using assms by (intro u64_of_nat) simp
    show "uint (word_of_int (int m + 1) :: u64) = int m + 1" using assms by (intro u64_of_small) simp_all
  qed
  have "\<not> word_of_int (packet_count sp + 1) \<le> (of_nat n :: u64)"
    using assms n unfolding word_le_def by simp
  then show "packet_count (udp_count (of_nat n) sp) = int m" "cnt_error (udp_count (of_nat n) sp) = cnt_error sp - 1"
    "outoforder_packets (udp_count (of_nat n) sp) = outoforder_packets sp + 1"
    using assms by (simp_all add: udp_count_def Let_def)
qed

definition counts :: "nat list \<Rightarrow> iperf_stream \<Rightarrow> bool" where
  "counts xs sp \<longleftrightarrow> packet_count sp = int (Max (insert 0 (set xs))) \<and>
     cnt_error sp = int (Max (insert 0 (set xs)) - length xs) \<and> outoforder_packets sp = int (late 0 xs)"

lemma late_length: "late m xs \<le> length xs"
  by (induction m xs rule: late.induct) auto

lemma arrivals_fit:
  assumes "distinct xs" "\<forall>n \<in> set xs. 0 < n"
  shows "length xs \<le> Max (insert 0 (set xs))"
proof -
  have "set xs \<subseteq> {1..Max (insert 0 (set xs))}" using assms(2) by (auto simp: Suc_le_eq)
  then have "card (set xs) \<le> card {1..Max (insert 0 (set xs))}" by (intro card_mono) auto
  then show ?thesis using distinct_card [OF assms(1)] by simp
qed

lemma arrivals_gap:
  assumes "distinct (xs @ [n])" "\<forall>k \<in> set (xs @ [n]). 0 < k" "n \<le> Max (insert 0 (set xs))"
  shows "length xs < Max (insert 0 (set xs))"
proof -
  have "insert n (set xs) \<subseteq> {1..Max (insert 0 (set xs))}" using assms(2,3) by (auto simp: Suc_le_eq)
  then have "card (insert n (set xs)) \<le> card {1..Max (insert 0 (set xs))}" by (intro card_mono) auto
  then show ?thesis using assms(1) distinct_card [of xs] by simp
qed

lemma counts_step:
  assumes "counts xs sp" "distinct (xs @ [n])" "\<forall>k \<in> set (xs @ [n]). 0 < k \<and> k < 2 ^ 31"
  shows "counts (xs @ [n]) (udp_count (of_nat n) sp)"
proof -
  define m where "m = Max (insert 0 (set xs))"
  have m: "m < 2 ^ 31" using assms(3) unfolding m_def by (subst Max_less_iff) auto
  have len: "length xs \<le> m" unfolding m_def using assms by (intro arrivals_fit) auto
  have sp: "packet_count sp = int m" "cnt_error sp = int (m - length xs)" "outoforder_packets sp = int (late 0 xs)"
    using assms(1) by (simp_all add: counts_def m_def)
  have mx: "Max (insert 0 (set (xs @ [n]))) = max n m"
    unfolding m_def by (cases "xs = []") (simp_all add: insert_commute)
  show ?thesis
  proof (cases "m < n")
    case True
    then have e: "m - length xs + (n - 1 - m) = n - Suc (length xs)" using len by simp
    have n: "n < 2 ^ 31" using assms(3) by simp
    then have b: "m - length xs + (n - 1 - m) < 2 ^ 31" unfolding e by simp
    have mx1: "Max (insert 0 (set (xs @ [n]))) = n" using mx True by simp
    have l1: "late 0 (xs @ [n]) = late 0 xs" using late_snoc [of 0 xs n] True unfolding m_def by simp
    show ?thesis
      using udp_count_forward [OF sp(1,2) True n b] sp(3) unfolding counts_def mx1 l1 e by simp
  next
    case False
    then have "n \<le> Max (insert 0 (set xs))" unfolding m_def by (simp only: not_less)
    then have "length xs < m" unfolding m_def using assms(2,3) by (intro arrivals_gap) auto
    moreover have "int (late 0 xs) < 2 ^ 31 - 1"
      using late_length [of 0 xs] calculation m by simp
    moreover have "Max (insert 0 (set (xs @ [n]))) = m" using mx False by simp
    moreover have "late 0 (xs @ [n]) = Suc (late 0 xs)"
      using late_snoc [of 0 xs n] False unfolding m_def by simp
    ultimately show ?thesis
      using udp_count_late [OF sp(1)] sp(2,3) False m unfolding counts_def by simp
  qed
qed

lemma arrivals_counts:
  assumes "distinct xs" "\<forall>k \<in> set xs. 0 < k \<and> k < 2 ^ 31" "counts [] sp"
  shows "counts xs (udp_arrivals xs sp)"
  using assms
proof (induction xs rule: rev_induct)
  case (snoc n xs)
  then show ?case using counts_step [of xs "udp_arrivals xs sp" n] by (simp add: udp_arrivals_def)
qed (simp add: udp_arrivals_def)

section \<open>Jitter\<close>

lemma scaled_step:
  assumes "0 \<le> e"
  shows "0 \<le> ddiv (rnd e) 16" "ddiv (rnd e) 16 \<le> e"
proof -
  show "0 \<le> ddiv (rnd e) 16" using assms by (simp add: ddiv_def)
  have up: "rnd x \<le> 2 * x" if "0 \<le> x" for x
  proof -
    have "rnd x - x \<le> x / 2 ^ 53" using rnd_error [of x] that unfolding abs_le_iff by simp
    also have "\<dots> \<le> x" using that by simp
    finally show ?thesis by simp
  qed
  have "ddiv (rnd e) 16 \<le> 2 * (rnd e / 16)" using assms up [of "rnd e / 16"] by (simp add: ddiv_def)
  also have "\<dots> \<le> e" using up [OF assms] assms by simp
  finally show "ddiv (rnd e) 16 \<le> e" .
qed

text \<open>One step of the smoothing filter stays between the old value and the sample.\<close>

lemma smooth_between:
  assumes "rnd j = j" "rnd d = d"
  shows "min j d \<le> dadd j (ddiv (dsub d j) 16)" "dadd j (ddiv (dsub d j) 16) \<le> max j d"
proof -
  have "min j d \<le> j + ddiv (dsub d j) 16 \<and> j + ddiv (dsub d j) 16 \<le> max j d"
  proof (cases "j \<le> d")
    case True
    then show ?thesis using scaled_step [of "d - j"] by (simp add: dsub_def)
  next
    case False
    have "ddiv (dsub d j) 16 = - ddiv (rnd (j - d)) 16"
      using rnd_minus [of "j - d"] rnd_minus [of "rnd (j - d) / 16"] by (simp add: ddiv_def dsub_def)
    then show ?thesis using scaled_step [of "j - d"] False by simp
  qed
  then show "min j d \<le> dadd j (ddiv (dsub d j) 16)" "dadd j (ddiv (dsub d j) 16) \<le> max j d"
    unfolding dadd_def using assms by (auto intro!: rnd_ge rnd_le simp: min_def max_def split: if_splits)
qed

section \<open>Set-up\<close>

lemma logs_buffercheck [log_rules]:
  "(\<And>r. Q r []) \<Longrightarrow> logs (iperf_udp_buffercheck K t s) Q"
  unfolding iperf_udp_buffercheck_def Let_def by (intro log_rules | simp)+

lemma logs_case_prod [log_rules]:
  "(\<And>a b. x = (a, b) \<Longrightarrow> logs (f a b) Q) \<Longrightarrow> logs (case x of (a, b) \<Rightarrow> f a b) Q"
  by (cases x) auto

lemma logs_size_buffers [log_rules]:
  "(\<And>r t'. Q (r, t') []) \<Longrightarrow> logs (udp_size_buffers K t s) Q"
  unfolding udp_size_buffers_def Let_def by (intro log_rules | simp)+

lemma logs_bindI:
  assumes "logs m P" "\<And>x l. P x l \<Longrightarrow> logs (f x) (\<lambda>y k. Q y (l @ k))"
  shows "logs (m \<bind> f) Q"
proof (rule logs_bind, rule logsI)
  fix s x s'
  assume "run_state m s = (x, s')"
  then show "\<exists>l. elog s' = elog s @ l \<and> logs (f x) (\<lambda>y k. Q y (l @ k))"
    using logsD [OF assms(1)] assms(2) by blast
qed

text \<open>What a failed connection attempt of either kind may leave behind.\<close>

definition dial_residue :: "string option \<Rightarrow> int \<Rightarrow> event list \<Rightarrow> bool" where
  "dial_residue lcl lport l \<longleftrightarrow> holds {#} {#} l \<or> lcl \<noteq> None \<and> (\<exists>a. holds {#} {#a#} l)
     \<or> lcl = None \<and> lport \<noteq> 0 \<and> (\<exists>fd a. holds {#fd#} {#a#} l)"

lemma netdial_residue:
  assumes "socket_nonneg K"
  shows "logs (netdial K dmn proto lcl lport server port timeout)
    (\<lambda>r l. if 0 \<le> r then holds {#r#} {#} l else dial_residue lcl lport l)"
proof (rule logsI)
  fix s x s'
  assume "run_state (netdial K dmn proto lcl lport server port timeout) s = (x, s')"
  from logsD [OF netdial_logs [OF assms] this]
  show "\<exists>l. elog s' = elog s @ l \<and> (if 0 \<le> x then holds {#x#} {#} l else dial_residue lcl lport l)"
    unfolding dial_residue_def by auto
qed

lemma udp_connect_logs:
  assumes "socket_nonneg K"
  shows "logs (iperf_udp_connect K t)
    (\<lambda>(r, t') l. if 0 \<le> r then holds {#r#} {#} l
       else dial_residue (bind_address t) (bind_port t) l \<or> (\<exists>fd \<ge> 0. holds {#fd#} {#} l))"
  unfolding iperf_udp_connect_def
proof (rule logs_bindI [OF netdial_residue [OF assms]], goal_cases)
  case (1 x l)
  then show ?case by (intro log_rules) (auto split: if_splits)
qed

section \<open>Properties\<close>

text \<open>
  (C33) The loss statistics of a UDP stream are exact for every arrival order in which no
  sequence number is repeated: the highest number seen is the packet count, the error count
  is the number of smaller numbers still missing, and the out-of-order count is the number
  of packets that arrived behind a larger one.
\<close>

theorem udp_loss_exact:
  assumes "distinct xs" "\<forall>k \<in> set xs. 0 < k \<and> k < 2 ^ 31"
    "packet_count sp = 0" "cnt_error sp = 0" "outoforder_packets sp = 0"
  shows "packet_count (udp_arrivals xs sp) = int (Max (insert 0 (set xs))) \<and>
     cnt_error (udp_arrivals xs sp) = int (card ({1..Max (insert 0 (set xs))} - set xs)) \<and>
     outoforder_packets (udp_arrivals xs sp) = int (late 0 xs)"
proof -
  have "counts xs (udp_arrivals xs sp)"
    using assms by (intro arrivals_counts) (simp_all add: counts_def)
  moreover have "card ({1..Max (insert 0 (set xs))} - set xs) = Max (insert 0 (set xs)) - length xs"
  proof -
    have "set xs \<subseteq> {1..Max (insert 0 (set xs))}" using assms(2) by (auto simp: Suc_le_eq)
    then show ?thesis using distinct_card [OF assms(1)] by (subst card_Diff_subset) auto
  qed
  ultimately show ?thesis by (simp add: counts_def)
qed

definition zero_result :: iperf_stream_result where
  "zero_result = \<lparr>bytes_received = 0, bytes_sent = 0, bytes_received_this_interval = 0,
     bytes_sent_this_interval = 0, bytes_sent_omit = 0, stream_prev_total_retrans = 0, stream_retrans = 0,
     stream_prev_total_sacks = 0, stream_sacks = 0, stream_max_rtt = 0, stream_min_rtt = 0, stream_sum_rtt = 0,
     stream_count_rtt = 0, stream_max_snd_cwnd = 0, start_time = \<lparr>secs = 0, usecs = 0\<rparr>,
     end_time = \<lparr>secs = 0, usecs = 0\<rparr>, start_time_fixed = \<lparr>secs = 0, usecs = 0\<rparr>, sender_time = 0,
     receiver_time = 0, interval_results = []\<rparr>"

definition sample_stream :: iperf_stream where
  "sample_stream = \<lparr>stream_addr = 1, local_port = 0, remote_port = 0, socket = 5, stream_id = 1, sender = 1,
     stream_result = zero_result, send_timer = None, green_light = 1, buffer_fd = -1,
     buffer = replicate 16 0, diskfile_fd = -1, diskfile_left = 0, packet_count = 0, peer_packet_count = 0,
     omitted_packet_count = 0, jitter = 0, prev_transit = 0, outoforder_packets = 0,
     omitted_outoforder_packets = 0, cnt_error = 0, omitted_cnt_error = 0, target = 0, local_addr = None,
     remote_addr = None, rcv = Udp_recv, snd_fn = Udp_send, rcv2 = No_fn, snd2 = No_fn\<rparr>"

theorem udp_loss_exact_witness:
  "packet_count (udp_arrivals [1, 2, 5, 4, 7] sample_stream) = 7 \<and>
   cnt_error (udp_arrivals [1, 2, 5, 4, 7] sample_stream) = 2 \<and>
   outoforder_packets (udp_arrivals [1, 2, 5, 4, 7] sample_stream) = 1"
proof -
  have "{Suc 0..7} - {1, 2, 5, 4, 7} = {3, 6 :: nat}" by auto
  then show ?thesis
    using udp_loss_exact [of "[1, 2, 5, 4, 7]" sample_stream]
    by (simp add: sample_stream_def)
qed

text \<open>
  The jitter estimate never leaves the range between its old value and the magnitude of
  the new transit-time difference, whatever the rounding of the double arithmetic does; in
  particular it never becomes negative.
\<close>

theorem udp_jitter_between:
  assumes "rnd (jitter sp) = jitter sp" "0 \<le> jitter sp" "udp_jitter arrival sent sp = sp'"
  shows "\<exists>d. d = \<bar>dsub (prev_transit sp') (prev_transit sp)\<bar> \<and> 0 \<le> jitter sp' \<and> rnd (jitter sp') = jitter sp' \<and>
     min (jitter sp) d \<le> jitter sp' \<and> jitter sp' \<le> max (jitter sp) d"
proof -
  define d where "d = \<bar>dsub (prev_transit sp') (prev_transit sp)\<bar>"
  obtain p tt where df: "iperf_time_diff arrival sent = (p, tt)" by force
  have tr: "prev_transit sp' = iperf_time_in_secs tt"
    and j: "jitter sp' = dadd (jitter sp) (ddiv (dsub d (jitter sp)) 16)"
    using assms(3) df by (auto simp: udp_jitter_def d_def Let_def abs_if)
  have rd: "rnd d = d" by (simp add: d_def abs_if dsub_def rnd_minus)
  have b: "min (jitter sp) d \<le> jitter sp'" "jitter sp' \<le> max (jitter sp) d"
    unfolding j using smooth_between [OF assms(1) rd] by auto
  have "0 \<le> d" by (simp add: d_def)
  then have "0 \<le> jitter sp'" using b(1) assms(2) by (simp add: min_def split: if_splits)
  moreover have "rnd (jitter sp') = jitter sp'" by (simp add: j dadd_def)
  ultimately show ?thesis using b d_def by blast
qed

theorem udp_jitter_between_witness:
  "0 \<le> jitter (udp_jitter \<lparr>secs = 5, usecs = 250000\<rparr> \<lparr>secs = 5, usecs = 0\<rparr> sample_stream)"
  using udp_jitter_between [of sample_stream "\<lparr>secs = 5, usecs = 250000\<rparr>" "\<lparr>secs = 5, usecs = 0\<rparr>", OF _ _ refl]
  by (auto simp: sample_stream_def)

text \<open>
  (C34) A packet carries its own number: when \<open>iperf_udp_send\<close> succeeds, the bytes it wrote are the
  first \<open>r\<close> bytes of the stream's buffer, and this buffer decodes, in the counter width of the
  test, to the clock reading before the call and the incremented packet count; the byte
  counters grow by \<open>r\<close>.
\<close>

theorem iperf_udp_send_header:
  assumes "write_bounded K" "0 \<le> blksize (settings t)" "blksize (settings t) < 2 ^ 31"
    "0 \<le> packet_count sp" "packet_count sp < 2 ^ 31 - 1" "k_clock K (world s) = (clk, w)"
    "run_state (iperf_udp_send K t sp) s = ((r, sp'), s')" "0 \<le> r"
  shows "(\<exists>cs. elog s' = elog s @ map (Wrote (socket sp)) cs \<and> concat cs = take (nat r) (buffer sp')) \<and>
     udp_header (udp_counters_64bit t \<noteq> 0) (buffer sp') =
       (snd (iperf_time_now clk (k_uninit K)), word_of_int (packet_count sp + 1)) \<and>
     packet_count sp' = packet_count sp + 1 \<and>
     bytes_sent (stream_result sp') = bytes_sent (stream_result sp) + word_of_int r"
proof -
  define before where "before = snd (iperf_time_now clk (k_uninit K))"
  define n where "n = packet_count sp + 1"
  define sp1 where "sp1 = sp\<lparr>packet_count := n, buffer := udp_stamp (udp_counters_64bit t \<noteq> 0) before n (buffer sp)\<rparr>"
  have n: "to_int32 (packet_count sp + 1) = n" "0 \<le> n" "n < 2 ^ 31" using assms by (simp_all add: n_def)
  obtain q s2 where w: "run_state (Nwrite K (socket sp) (take (c_size_t (blksize (settings t))) (buffer sp1))) (s\<lparr>world := w\<rparr>) = (q, s2)"
    by force
  have res: "q = r" "s2 = s'" "sp' = sp1\<lparr>stream_result := add_sent r (stream_result sp)\<rparr>"
    using assms(6,7,8) w n(1) by (auto simp: iperf_udp_send_def sys_time_now_def before_def sp1_def Let_def split: prod.splits if_splits)
  have len: "length (take (c_size_t (blksize (settings t))) (buffer sp1)) < 2147483648"
    using assms(2,3) by (auto simp: min_def nat_less_iff)
  obtain cs where cs: "elog s' = elog s @ map (Wrote (socket sp)) cs"
      "concat cs = take (nat r) (take (c_size_t (blksize (settings t))) (buffer sp1))"
      "r \<le> int (length (take (c_size_t (blksize (settings t))) (buffer sp1)))"
    using Nwrite_spec [OF assms(1) len w] res(1,2) assms(8) by auto
  then have "nat r \<le> c_size_t (blksize (settings t))" by simp
  then have "concat cs = take (nat r) (buffer sp1)" using cs(2) by (simp add: min_absorb1)
  then show ?thesis
    using cs(1) udp_header_stamp_int [OF n(2,3)] by (auto simp: res(3) sp1_def before_def n_def add_sent_def min_def)
qed

text \<open>The sample test: blocks of sixteen bytes, 32-bit counters.\<close>

definition sample_udp_test :: iperf_test where
  "sample_udp_test = zero_test\<lparr>settings := zero_settings\<lparr>blksize := 16\<rparr>, state := TEST_RUNNING\<rparr>"

theorem iperf_udp_send_header_witness:
  "\<exists>sp' s'. run_state (iperf_udp_send sample_kernel sample_udp_test sample_stream) (sample_sys []) = ((16, sp'), s') \<and>
     udp_header False (buffer sp') = (\<lparr>secs = 0, usecs = 0\<rparr>, 1)"
proof -
  have st: "udp_stamp False \<lparr>secs = 0, usecs = 0\<rparr> 1 (replicate 16 0) = [0, 0, 0, 0, 0, 0, 0, 0, 0, 0, 0, 1, 0, 0, 0, 0]"
    by code_simp
  have "fst (run_state (Nwrite sample_kernel 5 [0, 0, 0, 0, 0, 0, 0, 0, 0, 0, 0, 1, 0, 0, 0, 0]) (sample_sys [])) = 16"
    by code_simp
  then obtain s2 where "run_state (Nwrite sample_kernel 5 [0, 0, 0, 0, 0, 0, 0, 0, 0, 0, 0, 1, 0, 0, 0, 0]) (sample_sys []) = (16, s2)"
    by (metis prod.collapse)
  moreover have "run_state (sys_time_now sample_kernel) (sample_sys []) = ((0, \<lparr>secs = 0, usecs = 0\<rparr>), sample_sys [])"
    by code_simp
  ultimately obtain sp' s' where run: "run_state (iperf_udp_send sample_kernel sample_udp_test sample_stream) (sample_sys []) = ((16, sp'), s')"
    using st by (simp add: iperf_udp_send_def Let_def sample_stream_def sample_udp_test_def zero_test_def zero_settings_def)
  have "udp_header False (buffer sp') = (\<lparr>secs = 0, usecs = 0\<rparr>, 1)"
    using iperf_udp_send_header [OF sample_kernel_ok(2) _ _ _ _ _ run]
    by (simp add: sample_kernel_def sample_sys_def sample_stream_def sample_udp_test_def zero_test_def zero_settings_def
        iperf_time_now_def)
  then show ?thesis using run by blast
qed

text \<open>
  What \<open>iperf_udp_connect\<close> holds when it returns: on success exactly the connected socket;
  on failure what a failed \<open>netdial\<close> leaves, or one descriptor: every error after the socket
  was connected returns without closing it.
\<close>

theorem iperf_udp_connect_accounts:
  assumes "socket_nonneg K" "run_state (iperf_udp_connect K t) s = ((r, t'), s')"
  shows "\<exists>l. elog s' = elog s @ l \<and>
     (if 0 \<le> r then holds {#r#} {#} l
      else dial_residue (bind_address t) (bind_port t) l \<or> (\<exists>fd \<ge> 0. holds {#fd#} {#} l))"
  using logsD [OF udp_connect_logs [OF assms(1)] assms(2)] by auto

theorem iperf_udp_connect_accounts_witness:
  "\<exists>t' s'. run_state (iperf_udp_connect sample_kernel (sample_udp_test\<lparr>server_hostname := Some ''host''\<rparr>)) (sample_sys []) = ((-1, t'), s')
     \<and> (\<exists>fd \<ge> 0. holds {#fd#} {#} (elog s')) \<and> elog s' = [GotAddr 0, Opened 5, FreedAddr 0]"
proof -
  have "(case run_state (iperf_udp_connect sample_kernel (sample_udp_test\<lparr>server_hostname := Some ''host''\<rparr>)) (sample_sys []) of
     ((r, t'), s') \<Rightarrow> r = -1 \<and> elog s' = [GotAddr 0, Opened 5, FreedAddr 0])"
    by code_simp
  then obtain t' s' where run: "run_state (iperf_udp_connect sample_kernel (sample_udp_test\<lparr>server_hostname := Some ''host''\<rparr>)) (sample_sys []) = ((-1, t'), s')"
    and l: "elog s' = [GotAddr 0, Opened 5, FreedAddr 0]"
    by (auto split: prod.splits)
  have "\<exists>fd \<ge> 0. holds {#fd#} {#} (elog s')"
    using iperf_udp_connect_accounts [OF sample_kernel_ok(4) run] l
    by (auto simp: sample_sys_def dial_residue_def holds_def sample_udp_test_def zero_test_def)
  then show ?thesis using run l by blast
qed

text \<open>
  The packet counter is an \<open>int\<close> even with 64-bit counters on the wire: when the receiver
  has seen packet \<open>2^31 - 1\<close>, the next two packets of an undisturbed stream make its count
  negative, and the second of them is taken for an out-of-order packet.
\<close>

theorem udp_counter_wraps:
  assumes "packet_count sp = 2 ^ 31 - 1" "0 \<le> outoforder_packets sp" "outoforder_packets sp < 2 ^ 31 - 1"
  shows "packet_count (udp_count (2 ^ 31) sp) = - (2 ^ 31) \<and>
     outoforder_packets (udp_count (2 ^ 31) sp) = outoforder_packets sp \<and>
     outoforder_packets (udp_count (2 ^ 31 + 1) (udp_count (2 ^ 31) sp)) = outoforder_packets sp + 1"
proof -
  have "to_int32 2147483648 = - 2147483648" by (simp add: to_int32_def)
  then show ?thesis using assms by (simp add: udp_count_def Let_def)
qed

theorem udp_counter_wraps_witness:
  "outoforder_packets (udp_count (2 ^ 31 + 1) (udp_count (2 ^ 31) (sample_stream\<lparr>packet_count := 2 ^ 31 - 1\<rparr>))) = 1"
  using udp_counter_wraps [of "sample_stream\<lparr>packet_count := 2 ^ 31 - 1\<rparr>"] by (simp add: sample_stream_def)

end
