(* ===== verification/Tcp.thy ===== *)
theory Tcp
  imports Test_Types Udp
begin

text \<open>
  TCP streams (\<open>iperf_tcp.c\<close>): sending and receiving blocks, and setting up the data
  connections with the socket options of the test. The build has neither flow labels nor
  fair-queueing rates; output and the JSON report are left out.
\<close>

section \<open>Data\<close>

definition iperf_tcp_recv :: "'w kernel \<Rightarrow> iperf_test \<Rightarrow> iperf_stream \<Rightarrow> ('w sys, int \<times> iperf_stream) state" where
  "iperf_tcp_recv K t sp = do {
     (r, out) \<leftarrow> Nread K (socket sp) (c_size_t (blksize (settings t)));
     let sp = sp\<lparr>buffer := out @ drop (length out) (buffer sp)\<rparr>;
     if r < 0 then ret (r, sp)
     else if state t = TEST_RUNNING then ret (r, sp\<lparr>stream_result := add_received r (stream_result sp)\<rparr>)
     else ret (r, sp)
   }"

definition iperf_tcp_send :: "'w kernel \<Rightarrow> iperf_test \<Rightarrow> iperf_stream \<Rightarrow> ('w sys, int \<times> iperf_stream) state" where
  "iperf_tcp_send K t sp = do {
     let n = c_size_t (blksize (settings t));
     r \<leftarrow> (if zerocopy t \<noteq> 0 then Nsendfile K (buffer_fd sp) (socket sp) n
           else Nwrite K (socket sp) (take n (buffer sp)));
     if r < 0 then ret (r, sp)
     else ret (r, sp\<lparr>stream_result := add_sent r (stream_result sp)\<rparr>)
   }"

section \<open>Connections\<close>

text \<open>
  A refused cookie is answered with \<open>ACCESS_DENIED\<close> and the socket is closed; its number is
  returned all the same.
\<close>

definition iperf_tcp_accept :: "'w kernel \<Rightarrow> iperf_test \<Rightarrow> ('w sys, int) state" where
  "iperf_tcp_accept K t = do {
     a \<leftarrow> syscall (k_accept K (listener t));
     (case a of None \<Rightarrow> fail_with IESTREAMCONNECT (-1)
      | Some s \<Rightarrow> do {
          log_event (Opened s);
          (r, out) \<leftarrow> Nread K s COOKIE_SIZE;
          if r < 0 then fail_with IERECVCOOKIE (-1)
          else if c_str (local_buf K COOKIE_SIZE out) \<noteq> cookie t then do {
            w \<leftarrow> Nwrite K s [word_of_int ACCESS_DENIED];
            if w < 0 then fail_with IESENDMESSAGE (-1)
            else do { sys_close K s; ret s }
          }
          else ret s
        })
   }"

text \<open>The error exit: close, free, put \<open>errno\<close> back, set \<open>i_errno\<close>.\<close>

definition tcp_fail :: "'w kernel \<Rightarrow> int \<Rightarrow> addrinfo list \<Rightarrow> int \<Rightarrow> ('w sys, int) state" where
  "tcp_fail K s ais e = do { _ \<leftarrow> fail_close K s ais; fail_with e (-1) }"

text \<open>
  The socket options common to both ends. The result is 0, or \<open>-1\<close> after the error exit.
\<close>

definition tcp_set_options :: "'w kernel \<Rightarrow> iperf_test \<Rightarrow> int \<Rightarrow> addrinfo \<Rightarrow> ('w sys, int) state" where
  "tcp_set_options K t s res = do {
     a \<leftarrow> (if no_delay t \<noteq> 0 then syscall (k_setsockopt K s TCP_NODELAY 1) else ret (Some ()));
     if a = None then tcp_fail K s [res] IESETNODELAY
     else do {
       b \<leftarrow> (if mss (settings t) \<noteq> 0 then syscall (k_setsockopt K s TCP_MAXSEG (mss (settings t))) else ret (Some ()));
       if b = None then tcp_fail K s [res] IESETMSS
       else if socket_bufsize (settings t) \<noteq> 0 then do {
         c \<leftarrow> syscall (k_setsockopt K s SO_RCVBUF (socket_bufsize (settings t)));
         if c = None then tcp_fail K s [res] IESETBUF
         else do {
           d \<leftarrow> syscall (k_setsockopt K s SO_SNDBUF (socket_bufsize (settings t)));
           if d = None then tcp_fail K s [res] IESETBUF else ret 0
         }
       }
       else ret 0
     }
   }"

text \<open>
  Reading the buffer sizes back: an error closes the socket, but a size that is too small
  only sets \<open>i_errno\<close>. \<open>ais\<close> is what the error exit frees.
\<close>

definition tcp_verify_buffers :: "'w kernel \<Rightarrow> iperf_test \<Rightarrow> int \<Rightarrow> addrinfo list \<Rightarrow> ('w sys, int) state" where
  "tcp_verify_buffers K t s ais = do {
     a \<leftarrow> syscall (k_getsockopt K s SO_SNDBUF);
     (case a of None \<Rightarrow> tcp_fail K s ais IESETBUF
      | Some sndbuf_actual \<Rightarrow>
          if socket_bufsize (settings t) \<noteq> 0 \<and> sndbuf_actual < socket_bufsize (settings t)
          then fail_with IESETBUF2 (-1)
          else do {
            b \<leftarrow> syscall (k_getsockopt K s SO_RCVBUF);
            (case b of None \<Rightarrow> tcp_fail K s ais IESETBUF
             | Some rcvbuf_actual \<Rightarrow>
                 if socket_bufsize (settings t) \<noteq> 0 \<and> rcvbuf_actual < socket_bufsize (settings t)
                 then fail_with IESETBUF2 (-1) else ret 0)
          })
   }"

text \<open>Replacing the listening socket by one with the options of the test.\<close>

definition tcp_relisten :: "'w kernel \<Rightarrow> iperf_test \<Rightarrow> ('w sys, int \<times> iperf_test) state" where
  "tcp_relisten K t = do {
     let s = listener t;
     let t = t\<lparr>read_set := FD_CLR s (read_set t)\<rparr>;
     sys_close K s;
     let portstr = take 5 (show_int (server_port t));
     let dmn = domain (settings t);
     let fam = (if dmn = AF_UNSPEC \<and> bind_address t = None then AF_INET6 else dmn);
     ar \<leftarrow> sys_getaddrinfo K (bind_address t) (Some portstr) \<lparr>h_family = fam, h_socktype = SOCK_STREAM, h_passive = True\<rparr>;
     (case ar of None \<Rightarrow> fail_with IESTREAMLISTEN (-1, t)
      | Some res \<Rightarrow> do {
          sk \<leftarrow> sys_socket K (ai_family res) SOCK_STREAM;
          (case sk of None \<Rightarrow> do { sys_freeaddrinfo res; fail_with IESTREAMLISTEN (-1, t) }
           | Some s \<Rightarrow> do {
               o1 \<leftarrow> tcp_set_options K t s res;
               if o1 < 0 then ret (-1, t)
               else do {
                 a \<leftarrow> syscall (k_setsockopt K s SO_REUSEADDR 1);
                 if a = None then do { r \<leftarrow> tcp_fail K s [res] IEREUSEADDR; ret (r, t) }
                 else do {
                   v \<leftarrow> (if ai_family res = AF_INET6 \<and> (dmn = AF_UNSPEC \<or> dmn = AF_INET)
                        then syscall (k_setsockopt K s IPV6_V6ONLY (if dmn = AF_UNSPEC then 0 else 1))
                        else ret (Some ()));
                   if v = None then do { r \<leftarrow> tcp_fail K s [res] IEV6ONLY; ret (r, t) }
                   else do {
                     b \<leftarrow> syscall (k_bind K s (ai_addr res));
                     if b = None then do { r \<leftarrow> tcp_fail K s [res] IESTREAMLISTEN; ret (r, t) }
                     else do {
                       sys_freeaddrinfo res;
                       l \<leftarrow> syscall (k_listen K s);
                       if l = None then fail_with IESTREAMLISTEN (-1, t)
                       else ret (s, t\<lparr>listener := s\<rparr>)
                     }
                   }
                 }
               }
             })
        })
   }"

definition iperf_tcp_listen :: "'w kernel \<Rightarrow> iperf_test \<Rightarrow> ('w sys, int \<times> iperf_test) state" where
  "iperf_tcp_listen K t = do {
     (s, t) \<leftarrow> (if no_delay t \<noteq> 0 \<or> mss (settings t) \<noteq> 0 \<or> socket_bufsize (settings t) \<noteq> 0
               then tcp_relisten K t else ret (listener t, t));
     if s < 0 then ret (-1, t)
     else do {
       v \<leftarrow> tcp_verify_buffers K t s [];
       if v < 0 then ret (-1, t) else ret (s, t)
     }
   }"

text \<open>Binding the local end, with \<open>--bind\<close> or with \<open>--cport\<close> alone.\<close>

definition tcp_bind_local :: "'w kernel \<Rightarrow> iperf_test \<Rightarrow> int \<Rightarrow> addrinfo option \<Rightarrow> addrinfo \<Rightarrow> ('w sys, int) state" where
  "tcp_bind_local K t s local_res server_res =
     (case local_res of
        Some lres \<Rightarrow> do {
          b \<leftarrow> syscall (k_bind K s ((ai_addr lres)\<lparr>sa_port := htons (bind_port t)\<rparr>));
          if b = None then tcp_fail K s [lres, server_res] IESTREAMCONNECT
          else do { sys_freeaddrinfo lres; ret 0 }
        }
      | None \<Rightarrow>
          if bind_port t \<noteq> 0 then
            (if ai_family server_res = AF_INET \<or> ai_family server_res = AF_INET6 then do {
               b \<leftarrow> syscall (k_bind K s \<lparr>sa_family = ai_family server_res, sa_port = htons (bind_port t), sa_addr = []\<rparr>);
               if b = None then tcp_fail K s [server_res] IESTREAMCONNECT else ret 0
             }
             else tcp_fail K s [server_res] IEPROTOCOL)
          else ret 0)"

definition iperf_tcp_connect :: "'w kernel \<Rightarrow> iperf_test \<Rightarrow> ('w sys, int) state" where
  "iperf_tcp_connect K t = do {
     let hs = \<lparr>h_family = domain (settings t), h_socktype = SOCK_STREAM, h_passive = False\<rparr>;
     lr \<leftarrow> (if bind_address t \<noteq> None then do { a \<leftarrow> sys_getaddrinfo K (bind_address t) None hs; ret (a = None, a) }
           else ret (False, None));
     if fst lr then fail_with IESTREAMCONNECT (-1)
     else do {
       let local_res = snd lr;
       sr \<leftarrow> sys_getaddrinfo K (server_hostname t) (Some (take 5 (show_int (server_port t)))) hs;
       (case sr of None \<Rightarrow> do {
            (case local_res of None \<Rightarrow> ret () | Some a \<Rightarrow> sys_freeaddrinfo a);
            fail_with IESTREAMCONNECT (-1)
          }
        | Some server_res \<Rightarrow> do {
            sk \<leftarrow> sys_socket K (ai_family server_res) SOCK_STREAM;
            (case sk of None \<Rightarrow> do {
                 (case local_res of None \<Rightarrow> ret () | Some a \<Rightarrow> sys_freeaddrinfo a);
                 sys_freeaddrinfo server_res;
                 fail_with IESTREAMCONNECT (-1)
               }
             | Some s \<Rightarrow> do {
                 b \<leftarrow> tcp_bind_local K t s local_res server_res;
                 if b < 0 then ret (-1)
                 else do {
                   o1 \<leftarrow> tcp_set_options K t s server_res;
                   if o1 < 0 then ret (-1)
                   else do {
                     v \<leftarrow> tcp_verify_buffers K t s [server_res];
                     if v < 0 then ret (-1)
                     else do {
                       c \<leftarrow> syscall (k_connect K s (ai_addr server_res));
                       e \<leftarrow> gets errno;
                       if c = None \<and> e \<noteq> EINPROGRESS then tcp_fail K s [server_res] IESTREAMCONNECT
                       else do {
                         sys_freeaddrinfo server_res;
                         w \<leftarrow> Nwrite K s (cookie_wire (cookie t));
                         if w < 0 then tcp_fail K s [] IESENDCOOKIE else ret s
                       }
                     }
                   }
                 }
               })
          })
     }
   }"

end
