(* ===== verification/Tcp_Props.thy ===== *)
theory Tcp_Props
  imports Tcp Udp_Props
begin

text \<open>
  The TCP data connections: a connection without the test's cookie is closed, and what the
  connecting side holds when it returns.
\<close>

section \<open>Transfers in the log\<close>

lemma Nread_loop_elog: "elog (snd (Nread_loop K fd cnt nleft buf s)) = elog s"
proof (induction K fd cnt nleft buf s rule: Nread_loop.induct)
  case (1 K fd cnt nleft buf s)
  show ?case
  proof (cases "run_state (syscall (k_read K fd nleft)) s")
    case (Pair x s')
    then show ?thesis using 1 syscall_elog [OF Pair]
      by (subst Nread_loop.simps) (auto split: option.splits)
  qed
qed

lemma logs_Nread [log_rules]: "(\<And>x. Q x []) \<Longrightarrow> logs (Nread K fd n) Q"
  using Nread_loop_elog [of K fd n n "[]"] by (intro logsI) (metis Nread_def append_Nil2 state.sel snd_conv)

lemma Nwrite_loop_elog: "\<exists>cs. elog (snd (Nwrite_loop K fd cnt buf s)) = elog s @ map (Wrote fd) cs"
proof (induction K fd cnt buf s rule: Nwrite_loop.induct)
  case (1 K fd cnt buf s)
  obtain x s' where run: "run_state (syscall (k_write K fd buf)) s = (x, s')" by force
  have e: "elog s' = elog s" using syscall_elog [OF run] .
  show ?case
  proof (cases "\<exists>n. x = Some n \<and> 0 < n \<and> 0 < length buf")
    case True
    then obtain n where n: "x = Some n" "0 < n" "0 < length buf" by blast
    obtain cs where "elog (snd (Nwrite_loop K fd cnt (drop n buf) (s'\<lparr>elog := elog s' @ [Wrote fd (take n buf)]\<rparr>))) =
        elog s' @ [Wrote fd (take n buf)] @ map (Wrote fd) cs"
      using "1" [OF n(3) run [symmetric] n(1)] n(2) by auto
    then have "elog (snd (Nwrite_loop K fd cnt buf s)) = elog s @ map (Wrote fd) (take n buf # cs)"
      using n run e by (subst Nwrite_loop.simps) simp
    then show ?thesis by blast
  next
    case False
    then have "elog (snd (Nwrite_loop K fd cnt buf s)) = elog s"
      using run e by (subst Nwrite_loop.simps) (auto split: option.splits)
    then show ?thesis by (metis append_Nil2 list.simps(8))
  qed
qed

lemma logs_Nwrite [log_rules]: "(\<And>r cs. Q r (map (Wrote fd) cs)) \<Longrightarrow> logs (Nwrite K fd buf) Q"
  using Nwrite_loop_elog [of K fd "length buf" buf] by (intro logsI) (metis Nwrite_def state.sel snd_conv)

lemma log_append [simp]:
  "opened (l @ k) = opened l + opened k" "closed_fds (l @ k) = closed_fds l + closed_fds k"
  "got_addrs (l @ k) = got_addrs l + got_addrs k" "freed_addrs (l @ k) = freed_addrs l + freed_addrs k"
  by (induction l rule: opened.induct) auto

lemma wrote_neutral [simp]:
  "opened (map (Wrote fd) cs) = {#}" "closed_fds (map (Wrote fd) cs) = {#}"
  "got_addrs (map (Wrote fd) cs) = {#}" "freed_addrs (map (Wrote fd) cs) = {#}"
  by (induction cs) auto

lemma logs_tcp_fail [log_rules]:
  "length ais \<le> 2 \<Longrightarrow> Q (-1) (Closed fd # map (\<lambda>a. FreedAddr (ai_id a)) ais) \<Longrightarrow> logs (tcp_fail K fd ais e) Q"
  unfolding tcp_fail_def by (intro log_rules) simp_all

lemma logs_set_options [log_rules]:
  "Q 0 [] \<Longrightarrow> Q (-1) [Closed s, FreedAddr (ai_id res)] \<Longrightarrow> logs (tcp_set_options K t s res) Q"
  unfolding tcp_set_options_def by (intro log_rules) simp_all

lemma logs_verify_buffers [log_rules]:
  "length ais \<le> 2 \<Longrightarrow> Q 0 [] \<Longrightarrow> (socket_bufsize (settings t) \<noteq> 0 \<Longrightarrow> Q (-1) []) \<Longrightarrow>
   Q (-1) (Closed s # map (\<lambda>a. FreedAddr (ai_id a)) ais) \<Longrightarrow> logs (tcp_verify_buffers K t s ais) Q"
  unfolding tcp_verify_buffers_def by (intro log_rules) simp_all

lemma logs_bind_local [log_rules]:
  "Q 0 (case lr of None \<Rightarrow> [] | Some a \<Rightarrow> [FreedAddr (ai_id a)]) \<Longrightarrow>
   Q (-1) (Closed s # (case lr of None \<Rightarrow> [] | Some a \<Rightarrow> [FreedAddr (ai_id a)]) @ [FreedAddr (ai_id sr)]) \<Longrightarrow>
   logs (tcp_bind_local K t s lr sr) Q"
  unfolding tcp_bind_local_def by (intro log_rules) simp_all

lemma tcp_connect_logs:
  assumes "socket_nonneg K"
  shows "logs (iperf_tcp_connect K t)
    (\<lambda>r l. if 0 \<le> r then holds {#r#} {#} l
       else r = -1 \<and> (holds {#} {#} l \<or> socket_bufsize (settings t) \<noteq> 0 \<and> (\<exists>fd a. holds {#fd#} {#a#} l)))"
  unfolding iperf_tcp_connect_def Let_def
  by (intro log_rules logs_socket [OF assms]) (auto simp: holds_def)

section \<open>Properties\<close>

text \<open>
  What \<open>iperf_tcp_connect\<close> holds when it returns: on success exactly the connected socket;
  on failure \<open>-1\<close> and nothing, except when a socket buffer size was requested: then the check
  that the kernel granted it may fail with the socket open and the address list allocated.
\<close>

theorem iperf_tcp_connect_accounts:
  assumes "socket_nonneg K" "run_state (iperf_tcp_connect K t) s = (r, s')"
  shows "\<exists>l. elog s' = elog s @ l \<and>
     (if 0 \<le> r then holds {#r#} {#} l
      else r = -1 \<and> (holds {#} {#} l \<or> socket_bufsize (settings t) \<noteq> 0 \<and> (\<exists>fd a. holds {#fd#} {#a#} l)))"
  using logsD [OF tcp_connect_logs [OF assms(1)] assms(2)] .

text \<open>A kernel that takes every write whole.\<close>

definition full_kernel :: "u8 list kernel" where
  "full_kernel = sample_kernel\<lparr>k_write := (\<lambda>fd bs w. (Ok (length bs), w))\<rparr>"

lemma full_kernel_ok: "socket_nonneg full_kernel"
  by (auto simp: full_kernel_def sample_kernel_def socket_nonneg_def)

theorem iperf_tcp_connect_accounts_witness:
  "\<exists>s'. run_state (iperf_tcp_connect full_kernel (sample_udp_test\<lparr>server_hostname := Some ''host''\<rparr>)) (sample_sys []) = (5, s')
     \<and> holds {#5#} {#} (elog s')"
proof -
  have "fst (run_state (iperf_tcp_connect full_kernel (sample_udp_test\<lparr>server_hostname := Some ''host''\<rparr>)) (sample_sys [])) = 5"
    by code_simp
  then obtain s' where run: "run_state (iperf_tcp_connect full_kernel (sample_udp_test\<lparr>server_hostname := Some ''host''\<rparr>)) (sample_sys []) = (5, s')"
    by (metis prod.collapse)
  have "holds {#5#} {#} (elog s')"
    using iperf_tcp_connect_accounts [OF full_kernel_ok run] by (auto simp: sample_sys_def)
  then show ?thesis using run by blast
qed

text \<open>
  (C35) \<open>iperf_tcp_accept\<close> admits a data connection only with the test's cookie: when it returns a
  descriptor that it has not closed again, the bytes read from this descriptor begin with
  the cookie of the test. Otherwise the peer got \<open>ACCESS_DENIED\<close> and the descriptor is closed.
\<close>

theorem iperf_tcp_accept_cookie:
  assumes "run_state (iperf_tcp_accept K t) s = (r, s')" "0 \<le> r"
  shows "(\<exists>s1 q out s2. run_state (Nread K r COOKIE_SIZE) s1 = ((q, out), s2) \<and> 0 \<le> q \<and>
       c_str (local_buf K COOKIE_SIZE out) = cookie t \<and> elog s' = elog s @ [Opened r])
     \<or> (\<exists>cs. elog s' = elog s @ [Opened r] @ map (Wrote r) cs @ [Closed r])"
proof -
  obtain x s0 where a: "run_state (syscall (k_accept K (listener t))) s = (x, s0)" by force
  have e0: "elog s0 = elog s" using syscall_elog [OF a] .
  then obtain fd where fd: "x = Some fd"
    using assms a by (cases x) (auto simp: iperf_tcp_accept_def sys_run)
  define s1 where "s1 = s0\<lparr>elog := elog s0 @ [Opened fd]\<rparr>"
  obtain q out s2 where rd: "run_state (Nread K fd COOKIE_SIZE) s1 = ((q, out), s2)" by (metis prod.exhaust)
  have e2: "elog s2 = elog s1"
    using Nread_loop_elog [of K fd COOKIE_SIZE COOKIE_SIZE "[]" s1] rd by (simp add: Nread_def)
  have q: "0 \<le> q" using assms a fd rd by (auto simp: iperf_tcp_accept_def sys_run s1_def [symmetric] split: if_splits)
  show ?thesis
  proof (cases "c_str (local_buf K COOKIE_SIZE out) = cookie t")
    case True
    then have "r = fd" "s' = s2"
      using assms a fd rd q by (auto simp: iperf_tcp_accept_def sys_run s1_def [symmetric])
    then show ?thesis using rd q True e0 e2 s1_def by auto
  next
    case False
    obtain w s3 where wr: "run_state (Nwrite K fd [word_of_int ACCESS_DENIED]) s2 = (w, s3)" by force
    obtain u s4 where cl: "run_state (sys_close K fd) s3 = (u, s4)" by (metis prod.exhaust)
    have "r = fd" "s' = s4"
      using assms a fd rd q False wr cl by (auto simp: iperf_tcp_accept_def sys_run s1_def [symmetric] split: if_splits)
    moreover obtain cs where "elog s3 = elog s2 @ map (Wrote fd) cs"
      using Nwrite_loop_elog [of K fd 1 "[word_of_int ACCESS_DENIED]" s2] wr by (auto simp: Nwrite_def)
    ultimately show ?thesis using close_elog [OF cl] e0 e2 s1_def by auto
  qed
qed

theorem iperf_tcp_accept_cookie_witness:
  "\<exists>s'. run_state (iperf_tcp_accept full_kernel sample_udp_test) (sample_sys [7, 7, 0]) = (6, s') \<and>
     (\<exists>cs. elog s' = [Opened 6] @ map (Wrote 6) cs @ [Closed 6])"
proof -
  have "(case run_state (iperf_tcp_accept full_kernel sample_udp_test) (sample_sys [7, 7, 0]) of
      (r, s') \<Rightarrow> r = 6 \<and> Closed 6 \<in> set (elog s'))"
    by code_simp
  then obtain s' where run: "run_state (iperf_tcp_accept full_kernel sample_udp_test) (sample_sys [7, 7, 0]) = (6, s')"
    and l: "Closed 6 \<in> set (elog s')" by (auto split: prod.splits)
  then show ?thesis using iperf_tcp_accept_cookie [OF run] by (auto simp: sample_sys_def)
qed

end
