(* ===== verification/Json_Num.thy ===== *)
theory Json_Num
  imports Json
begin

text \<open>
  Numbers in JSON text: the 17 significant digits \<open>print_number\<close> falls back to identify a
  double, so \<open>parse_number\<close> reads every number back as it was, and the text never overruns the
  buffer of 26 bytes.
\<close>

section \<open>Rounding a number close to a double\<close>

lemma rhe_near:
  assumes "\<bar>y - of_int m\<bar> < 1 / 2"
  shows "rhe y = m"
  using rhe_bounds [of y] assms by linarith

lemma rnd_near:
  assumes d: "0 < d" "rnd d = d"
    and near: "\<bar>x - d\<bar> < 2 powi dexp d / 2"
    and low: "d = 2 ^ 52 * 2 powi dexp d \<Longrightarrow> \<bar>x - d\<bar> < 2 powi dexp d / 4"
  shows "rnd x = d"
proof -
  define e u where "e = dexp d" and "u = (2 :: rat) powi e"
  have u: "0 < u" by (simp add: u_def)
  define m where "m = rhe (d / u)"
  have dm: "d = of_int m * u" using d by (simp add: rnd_def rnd_pos_def m_def u_def e_def)
  have m: "2 ^ 52 \<le> m" "m < 2 ^ 53"
  proof -
    have "d / u = of_int m" using u dm by simp
    then have "of_int (2 ^ 52) \<le> (of_int m :: rat)" "of_int m < (of_int (2 ^ 53) :: rat)"
      using dexp_scaled [OF d(1)] by (simp_all add: e_def u_def)
    then show "2 ^ 52 \<le> m" "m < 2 ^ 53" by (simp_all only: of_int_le_iff of_int_less_iff)
  qed
  note near' = near [folded e_def, folded u_def] and low' = low [folded e_def, folded u_def]
  consider (mid) "2 ^ 52 * u \<le> x" "x < 2 ^ 53 * u" | (hi) "2 ^ 53 * u \<le> x" | (lo) "x < 2 ^ 52 * u" by linarith
  then show ?thesis
  proof cases
    case mid
    then have x: "0 < x" using u by (meson less_le_trans mult_pos_pos zero_less_numeral zero_less_power)
    have "dexp x = e" using mid by (intro dexp_unique) (simp_all add: u_def power_int_add)
    moreover have "rhe (x / u) = m" using near' u unfolding dm
      by (intro rhe_near) (simp add: abs_less_iff field_simps)
    ultimately show ?thesis using x by (simp add: rnd_def rnd_pos_def u_def [symmetric] dm)
  next
    case hi
    have "of_int m \<le> (2 ^ 53 - 1 :: rat)" using m by (simp flip: of_int_le_iff)
    then have "of_int m * u \<le> (2 ^ 53 - 1) * u" using u by (intro mult_right_mono) auto
    then have "u \<le> x - d" using hi unfolding dm by (simp add: algebra_simps)
    then show ?thesis using near' u by linarith
  next
    case lo
    have "of_int m = (2 ^ 52 :: rat)"
    proof (rule ccontr)
      assume "of_int m \<noteq> (2 ^ 52 :: rat)"
      then have "2 ^ 52 + 1 \<le> m" using m by (cases "m = 2 ^ 52") auto
      then have "(2 ^ 52 + 1 :: rat) \<le> of_int m" by (simp flip: of_int_le_iff)
      then have "(2 ^ 52 + 1) * u \<le> of_int m * u" using u by (intro mult_right_mono) auto
      then have "u \<le> d - x" using lo unfolding dm by (simp add: algebra_simps)
      then show False using near' u by linarith
    qed
    then have dd: "d = 2 ^ 52 * u" by (simp add: dm)
    have near4: "d - x < u / 4" using low' [OF dd] by linarith
    define v where "v = (2 :: rat) powi (e - 1)"
    have v: "0 < v" "u = 2 * v" by (simp_all add: v_def u_def power_int_diff)
    have x: "0 < x" using near4 v unfolding dd by simp
    have e1: "2 powi (52 + (e - 1)) = 2 ^ 52 * v" "2 powi (53 + (e - 1)) = 2 ^ 53 * v"
      using power_int_add [of "2 :: rat" 52 "e - 1"] power_int_add [of "2 :: rat" 53 "e - 1"] by (simp_all add: v_def)
    have "dexp x = e - 1" using lo near4 v unfolding dd by (intro dexp_unique; unfold e1; simp)
    moreover have "rhe (x / v) = 2 ^ 53" using near4 lo v dd
      by (intro rhe_near) (simp add: abs_less_iff field_simps)
    ultimately show ?thesis using x by (simp add: rnd_def rnd_pos_def v_def [symmetric] dd v)
  qed
qed

section \<open>Digits\<close>

definition dval :: "string \<Rightarrow> nat" where
  "dval s = foldl (\<lambda>a c. a * 10 + (of_char c - 48)) 0 s"

abbreviation digits :: "string \<Rightarrow> bool" where
  "digits s \<equiv> (\<forall>c \<in> set s. is_digit c)"

lemma digit_in_is_digit:
  assumes "is_digit c"
  shows "digit_in 10 c = Some (of_char c - 48)"
proof -
  have "(of_char c :: int) = int (of_char c)" by (rule of_nat_of_char [symmetric])
  then show ?thesis using assms unfolding digit_in_def is_digit_def by (auto simp: Let_def nat_diff_distrib')
qed

lemma foldl_dval:
  "foldl (\<lambda>a c. a * 10 + (of_char c - 48)) a s = a * 10 ^ length s + dval s"
proof (induction s rule: rev_induct)
  case (snoc x xs)
  then show ?case by (simp add: dval_def algebra_simps)
qed (simp add: dval_def)

lemma dval_Nil [simp]: "dval [] = 0"
  by (simp add: dval_def)

lemma dval_append: "dval (s @ t) = dval s * 10 ^ length t + dval t"
  using foldl_dval [of "dval s" t] by (simp add: dval_def)

lemma dval_zeros [simp]: "dval (replicate k CHR ''0'') = 0"
  by (induction k) (simp_all add: dval_def)

lemma scan_digits_dval:
  assumes "digits s" "r = [] \<or> \<not> is_digit (hd r)"
  shows "scan_digits 10 a (s @ r) = (a * 10 ^ length s + dval s, r)"
  using assms(1)
proof (induction s arbitrary: a)
  case Nil
  have "\<not> is_digit c \<Longrightarrow> digit_in 10 c = None" for c
    by (auto simp: digit_in_def is_digit_def Let_def split: if_splits)
  then show ?case using assms(2) by (cases r) auto
next
  case (Cons c s)
  have "dval (c # s) = (of_char c - 48) * 10 ^ length s + dval s"
    using dval_append [of "[c]" s] by (simp add: dval_def)
  with Cons show ?case by (simp add: digit_in_is_digit algebra_simps)
qed

section \<open>Decimal integers\<close>

lemma is_digit_char_of: "0 \<le> m \<Longrightarrow> m < 10 \<Longrightarrow> is_digit (char_of (48 + m :: int)) \<and> (of_char (char_of (48 + m) :: char) :: nat) = 48 + nat m"
proof -
  assume m: "0 \<le> m" "m < 10"
  have "(of_char (char_of (48 + m) :: char) :: int) = (48 + m) mod 256" by simp
  then have i: "(of_char (char_of (48 + m) :: char) :: int) = 48 + m" using m by simp
  moreover have "int (of_char (char_of (48 + m) :: char)) = (of_char (char_of (48 + m) :: char) :: int)"
    by (rule of_nat_of_char)
  ultimately show ?thesis using m by (simp add: is_digit_def)
qed

lemma show_dec_spec:
  assumes "0 \<le> n"
  shows "digits (show_dec n) \<and> int (dval (show_dec n)) = n \<and> show_dec n \<noteq> [] \<and> n < 10 ^ length (show_dec n) \<and>
    (0 < n \<longrightarrow> 10 ^ (length (show_dec n) - 1) \<le> n)"
  using assms
proof (induction n rule: show_dec.induct)
  case (1 n)
  show ?case
  proof (cases "n < 10")
    case True
    then show ?thesis using 1(2) is_digit_char_of [of n] by (subst show_dec.simps) (simp add: dval_def show_dec.simps)
  next
    case False
    let ?s = "show_dec (n div 10)"
    have IH: "digits ?s" "int (dval ?s) = n div 10" "?s \<noteq> []" "n div 10 < 10 ^ length ?s" "10 ^ (length ?s - 1) \<le> n div 10"
      using 1 False by (auto simp: pos_imp_zdiv_pos_iff)
    have eq: "show_dec n = ?s @ [char_of (48 + n mod 10)]" using False by (subst show_dec.simps) simp
    have d: "is_digit (char_of (48 + n mod 10))" "(of_char (char_of (48 + n mod 10) :: char) :: nat) = 48 + nat (n mod 10)"
      using is_digit_char_of [of "n mod 10"] by simp_all
    have "int (dval (show_dec n)) = n" unfolding eq dval_append
      by (simp add: IH(2)) (simp add: dval_def d)
    moreover have "n < 10 ^ length (show_dec n)" using IH(4) unfolding eq by simp
    moreover have "10 ^ (length (show_dec n) - 1) \<le> n"
    proof -
      have "(10 :: int) ^ length ?s = 10 * 10 ^ (length ?s - 1)" using IH(3) by (cases ?s) auto
      then show ?thesis using IH(5) unfolding eq by simp
    qed
    ultimately show ?thesis using IH d unfolding eq by simp
  qed
qed

lemmas show_dec_digits = show_dec_spec [THEN conjunct1]
  and show_dec_dval = show_dec_spec [THEN conjunct2, THEN conjunct1]
  and show_dec_Nil = show_dec_spec [THEN conjunct2, THEN conjunct2, THEN conjunct1]

lemma show_dec_length:
  assumes "10 ^ k \<le> n" "n < 10 ^ Suc k"
  shows "length (show_dec n) = Suc k"
proof -
  have n: "0 < n" using assms(1) by (rule less_le_trans [rotated]) simp
  let ?l = "length (show_dec n)"
  have b: "n < 10 ^ ?l" "10 ^ (?l - 1) \<le> n" using show_dec_spec [of n] n by auto
  have "(10 :: int) ^ k < 10 ^ ?l" "(10 :: int) ^ (?l - 1) < 10 ^ Suc k" using b assms by linarith+
  then have "k < ?l" "?l - 1 < Suc k" by (simp_all only: power_strict_increasing_iff one_less_numeral_iff semiring_norm)
  then show ?thesis by simp
qed

section \<open>Scientific notation\<close>

lemma dec_exp_bounds:
  assumes "0 < x"
  shows "10 powi dec_exp x \<le> x" "x < 10 powi (dec_exp x + 1)"
proof -
  obtain p q where pq: "quotient_of x = (p, q)" by force
  have q: "0 < q" using quotient_of_denom_pos [OF pq] .
  have x: "x = of_int p / of_int q" using quotient_of_div [OF pq] .
  have p: "0 < p" using assms q unfolding x by (simp add: zero_less_divide_iff)
  define a b where "a = int (length (show_dec p))" and "b = int (length (show_dec q))"
  have bound: "10 powi (int (length (show_dec m)) - 1) \<le> (of_int m :: rat)" "(of_int m :: rat) < 10 powi (int (length (show_dec m)))"
    if "0 < m" for m
  proof -
    have "10 ^ (length (show_dec m) - 1) \<le> m" "m < 10 ^ length (show_dec m)" "show_dec m \<noteq> []"
      using show_dec_spec [of m] that by auto
    then have "(of_int (10 ^ (length (show_dec m) - 1)) :: rat) \<le> of_int m" "(of_int m :: rat) < of_int (10 ^ length (show_dec m))"
      by (simp_all only: of_int_le_iff of_int_less_iff)
    moreover have "int (length (show_dec m)) - 1 = int (length (show_dec m) - 1)"
      using \<open>show_dec m \<noteq> []\<close> by (cases "show_dec m") auto
    ultimately show "10 powi (int (length (show_dec m)) - 1) \<le> (of_int m :: rat)" "(of_int m :: rat) < 10 powi (int (length (show_dec m)))"
      by (simp_all only: power_int_of_nat of_int_power of_int_numeral)
  qed
  have lo: "10 powi (a - b - 1) \<le> x"
  proof -
    have "(10 :: rat) powi (a - 1) / 10 powi b \<le> x"
      unfolding x using bound [OF p] bound [OF q] p q by (intro frac_le) (auto simp: a_def b_def less_imp_le)
    then show ?thesis by (simp add: power_int_diff divide_simps mult_ac)
  qed
  have hi: "x < 10 powi (a - b + 1)"
  proof -
    have "x < (10 :: rat) powi a / 10 powi (b - 1)"
      unfolding x using bound [OF p] bound [OF q] p by (intro frac_less) (auto simp: a_def b_def)
    then show ?thesis by (simp add: power_int_diff power_int_add divide_simps mult_ac)
  qed
  have "dec_exp x = (if 10 powi (a - b) \<le> x then a - b else a - b - 1)"
    by (simp add: dec_exp_def pq a_def b_def)
  then show "10 powi dec_exp x \<le> x" "x < 10 powi (dec_exp x + 1)" using lo hi by (auto split: if_splits)
qed

text \<open>The digits are \<open>P\<close> many and the number they stand for is off by half a unit in the last place.\<close>

lemma sci_digits_spec:
  assumes "0 < x" "0 < P" "sci_digits P x = (n, X)"
  shows "10 ^ (P - 1) \<le> n" "n < 10 ^ P"
    and "\<bar>of_int n * 10 powi (X - int P + 1) - x\<bar> \<le> 10 powi (dec_exp x - int P + 1) / 2"
proof -
  define e u m where "e = dec_exp x" and "u = (10 :: rat) powi (e - int P + 1)" and "m = rhe (x / u)"
  have u: "0 < u" by (simp add: u_def)
  have P1: "int (P - 1) = int P - 1" using assms(2) by simp
  have up: "10 powi e = 10 ^ (P - 1) * u" "10 powi (e + 1) = 10 ^ P * u"
    using power_int_add [of "10 :: rat" "int P - 1" "e - int P + 1"] power_int_of_nat [of "10 :: rat" "P - 1", unfolded P1]
      power_int_add [of "10 :: rat" "int P" "e - int P + 1", unfolded power_int_of_nat]
    by (simp_all add: u_def)
  have sc: "10 ^ (P - 1) \<le> x / u" "x / u < 10 ^ P"
    using dec_exp_bounds [OF assms(1)] u by (simp_all add: e_def [symmetric] up pos_le_divide_eq pos_divide_less_eq)
  have m: "10 ^ (P - 1) \<le> m" "m \<le> 10 ^ P"
    using sc rhe_within [of "10 ^ (P - 1)" "x / u" "10 ^ P"] by (simp_all add: m_def)
  have err: "\<bar>of_int m * u - x\<bar> \<le> u / 2"
  proof -
    have "\<bar>of_int m - x / u\<bar> \<le> 1 / 2" using rhe_bounds [of "x / u"] unfolding m_def by linarith
    then have "\<bar>of_int m - x / u\<bar> * u \<le> 1 / 2 * u" using u by (intro mult_right_mono) auto
    moreover have "\<bar>of_int m - x / u\<bar> * u = \<bar>of_int m * u - x\<bar>"
      using u by (simp add: abs_mult_pos left_diff_distrib)
    ultimately show ?thesis by simp
  qed
  have nX: "(n, X) = (if m = 10 ^ P then (10 ^ (P - 1), e + 1) else (m, e))"
    using assms(3) unfolding sci_digits_def Let_def e_def [symmetric] u_def [symmetric] m_def [symmetric] by (rule sym)
  have val: "of_int n * 10 powi (X - int P + 1) = of_int m * u"
  proof (cases "m = 10 ^ P")
    case True
    have "10 powi (e + 1 - int P + 1) = 10 * u"
      using power_int_add [of "10 :: rat" 1 "e - int P + 1"] by (simp add: u_def algebra_simps)
    moreover have "(10 :: rat) ^ P = 10 ^ (P - 1) * 10" using assms(2) by (cases P) auto
    ultimately show ?thesis using True nX by simp
  next
    case False
    then show ?thesis using nX by (simp add: u_def)
  qed
  show "10 ^ (P - 1) \<le> n" using m nX by (auto split: if_splits)
  show "n < 10 ^ P" using m nX assms(2) by (auto split: if_splits)
  show "\<bar>of_int n * 10 powi (X - int P + 1) - x\<bar> \<le> 10 powi (dec_exp x - int P + 1) / 2"
    using err by (simp add: val u_def e_def)
qed

lemma strip_zeros_eq: "\<exists>k. s = strip_zeros s @ replicate k CHR ''0''"
proof -
  have "rev s = takeWhile (\<lambda>c. c = CHR ''0'') (rev s) @ dropWhile (\<lambda>c. c = CHR ''0'') (rev s)" by simp
  then have "s = strip_zeros s @ rev (takeWhile (\<lambda>c. c = CHR ''0'') (rev s))"
    unfolding strip_zeros_def by (metis rev_append rev_rev_ident)
  moreover have "rev (takeWhile (\<lambda>c. c = CHR ''0'') (rev s)) = replicate (length (takeWhile (\<lambda>c. c = CHR ''0'') (rev s))) CHR ''0''"
    by (intro replicate_eqI) (auto dest: set_takeWhileD)
  ultimately show ?thesis by metis
qed

lemma strip_zeros_digits: "digits s \<Longrightarrow> digits (strip_zeros s)"
  by (auto simp: strip_zeros_def dest: set_dropWhileD)

lemma dval_strip:
  "of_nat (dval (a @ b)) * (10 :: rat) powi (X - int (length b)) =
   of_nat (dval (a @ strip_zeros b)) * 10 powi (X - int (length (strip_zeros b)))"
proof -
  obtain k where k: "b = strip_zeros b @ replicate k CHR ''0''" using strip_zeros_eq by blast
  let ?b = "strip_zeros b"
  have "dval (a @ b) = dval (a @ ?b) * 10 ^ k"
    using dval_append [of "a @ ?b" "replicate k CHR ''0''"] by (subst k) simp
  moreover have "length b = length ?b + k" by (subst k) simp
  moreover have "(10 :: rat) powi (X - int (length ?b)) = 10 ^ k * 10 powi (X - int (length ?b) - int k)"
    using power_int_add [of "10 :: rat" "int k" "X - int (length ?b) - int k"] by (simp add: power_int_of_nat)
  ultimately show ?thesis by (simp add: algebra_simps)
qed

section \<open>Reading decimal notation\<close>

lemma is_digit_not [simp]:
  "\<not> is_digit CHR ''.''" "\<not> is_digit CHR ''e''" "\<not> is_digit CHR ''-''" "\<not> is_digit CHR ''+''" "is_digit CHR ''0''"
  by (simp_all add: is_digit_def)

lemma scan_exponent_show:
  "scan_exponent CHR ''e'' (show_exp X) = (X, [])"
proof -
  have d: "digits (pad_zero 2 (show_dec \<bar>X\<bar>))" "pad_zero 2 (show_dec \<bar>X\<bar>) \<noteq> []"
    using show_dec_digits [of "\<bar>X\<bar>"] show_dec_Nil [of "\<bar>X\<bar>"] by (auto simp: pad_zero_def is_digit_def)
  have v: "int (dval (pad_zero 2 (show_dec \<bar>X\<bar>))) = \<bar>X\<bar>"
    using show_dec_dval [of "\<bar>X\<bar>"] by (simp add: pad_zero_def dval_append)
  have "scan_digits 10 0 (pad_zero 2 (show_dec \<bar>X\<bar>)) = (dval (pad_zero 2 (show_dec \<bar>X\<bar>)), [])"
    using scan_digits_dval [OF d(1), of "[]" 0] by simp
  moreover have "c_tolower CHR ''e'' = CHR ''e''" by code_simp
  ultimately show ?thesis using d(2) v
    by (auto simp: scan_exponent_def show_exp_def scan_sign_def)
qed

lemma scan_lf_decimal:
  assumes A: "digits A" "A \<noteq> []" and B: "digits B" and E: "E = [] \<and> e = 0 \<or> E = show_exp e"
  shows "scan_lf (with_point A B @ E) = Some (rnd (of_nat (dval (A @ B)) * 10 powi (e - int (length B))), [])"
proof -
  define s where "s = with_point A B @ E"
  obtain a A' where A': "A = a # A'" using A(2) by (cases A) auto
  have a: "is_digit a" using A A' by simp
  have sg: "scan_sign (dropWhile c_isspace s) = (1, s)"
    using digit_sep [OF a] by (simp add: s_def with_point_def A' scan_sign_def)
  have nohex: "(case s of a # x # _ \<Rightarrow> a = CHR ''0'' \<and> (x = CHR ''x'' \<or> x = CHR ''X'') | _ \<Rightarrow> False) = False"
    using A A' E digit_sep by (cases A') (auto simp: s_def with_point_def show_exp_def)
  have ex: "scan_exponent CHR ''e'' E = (e, [])"
    using E scan_exponent_show by (auto simp: scan_exponent_def)
  have hdE: "E = [] \<or> \<not> is_digit (hd E)" "E \<noteq> [] \<Longrightarrow> hd E \<noteq> CHR ''.''" using E by (auto simp: show_exp_def)
  have m: "scan_digits 10 0 s = (dval A, (if B = [] then E else CHR ''.'' # B @ E))"
    using scan_digits_dval [OF A(1), of "if B = [] then E else CHR ''.'' # B @ E" 0] hdE
    by (auto simp: s_def with_point_def)
  have m2: "scan_digits 10 (dval A) (B @ E) = (dval (A @ B), E)"
    using scan_digits_dval [OF B hdE(1), of "dval A"] by (simp add: dval_append)
  have len: "length (if B = [] then E else CHR ''.'' # B @ E) < length s" using A' by (simp add: s_def with_point_def)
  have "scan_lf s = Some (rnd (of_nat (dval (A @ B)) * 10 powi (e - int (length B))), [])"
    (is ?goal)
  proof (cases "B = []")
    case True
    have pt: "(E \<noteq> [] \<and> hd E = CHR ''.'') = False" using hdE(2) by auto
    show ?goal using True len by (simp add: scan_lf_def sg nohex m ex pt)
  next
    case False
    then show ?goal using len by (simp add: scan_lf_def sg nohex m m2 ex)
  qed
  then show ?thesis by (simp add: s_def)
qed

lemma scan_lf_minus:
  assumes "s \<noteq> []" "is_digit (hd s)"
  shows "scan_lf (CHR ''-'' # s) = map_option (\<lambda>(v, r). (- v, r)) (scan_lf s)"
proof -
  obtain c t where ct: "s = c # t" "is_digit c" using assms by (cases s) auto
  have "\<not> c_isspace CHR ''-''" by (simp add: c_isspace_def)
  then have "scan_sign (dropWhile c_isspace s) = (1, s)" "scan_sign (dropWhile c_isspace (CHR ''-'' # s)) = (-1, s)"
    using digit_sep [OF ct(2)] by (simp_all add: ct scan_sign_def)
  then show ?thesis unfolding scan_lf_def
    by (simp add: Let_def rnd_minus case_prod_unfold)
qed

section \<open>Printing with \<open>%g\<close>\<close>

lemma show_g_pos_scan:
  assumes "0 < x" "0 < P" "sci_digits P x = (n, X)"
  shows "scan_lf (show_g_pos P x) = Some (rnd (of_int n * 10 powi (X - int P + 1)), [])"
proof -
  note n = sci_digits_spec(1,2) [OF assms]
  have n0: "0 \<le> n" using n(1) by (rule order_trans [rotated]) simp
  define ds where "ds = show_dec n"
  have ds: "digits ds" "int (dval ds) = n" using show_dec_spec [OF n0] by (simp_all add: ds_def)
  have len: "length ds = P" using n assms(2) show_dec_length [of "P - 1" n] by (simp add: ds_def)
  have vds: "of_nat (dval ds) = (of_int n :: rat)" using ds(2) by (metis of_int_of_nat_eq)
  have split_at: "of_nat (dval (take k ds @ strip_zeros (drop k ds))) * (10 :: rat) powi (e - int (length (strip_zeros (drop k ds))))
      = of_int n * 10 powi (e - int (P - k))" for k e
    using dval_strip [of "take k ds" "drop k ds" e] by (simp add: vds len)
  have dd: "digits (take k ds)" "digits (drop k ds)" for k using ds(1) by (auto dest: in_set_takeD in_set_dropD)
  consider (int) "-4 \<le> X" "X < int P" "0 \<le> X" | (frac) "-4 \<le> X" "X < 0" | (exp) "\<not> (-4 \<le> X \<and> X < int P)" by linarith
  then show ?thesis
  proof cases
    case int
    let ?k = "Suc (nat X)"
    have s: "show_g_pos P x = with_point (take ?k ds) (strip_zeros (drop ?k ds)) @ []"
      using int by (simp add: show_g_pos_def assms(3) ds_def [symmetric])
    have ex: "- int (P - ?k) = X - int P + 1" using int by linarith
    have "take ?k ds \<noteq> []" using len assms(2) by auto
    then show ?thesis
      unfolding s using split_at [of ?k 0] strip_zeros_digits [OF dd(2)]
      by (subst scan_lf_decimal [where e = 0]) (auto simp: dd ex)
  next
    case frac
    let ?z = "replicate (nat (- X) - 1) CHR ''0''"
    have s: "show_g_pos P x = with_point ''0'' (strip_zeros (?z @ ds)) @ []"
      using frac assms(2) by (simp add: show_g_pos_def assms(3) ds_def [symmetric])
    have z: "digits (?z @ ds)" using ds(1) by auto
    have v: "of_nat (dval (''0'' @ strip_zeros (?z @ ds))) * (10 :: rat) powi (0 - int (length (strip_zeros (?z @ ds))))
        = of_int n * 10 powi (X - int P + 1)"
    proof -
      have "0 - int (length (?z @ ds)) = X - int P + 1" using frac len by simp
      moreover have "dval (''0'' @ ?z @ ds) = dval ds"
        using dval_append [of "CHR ''0'' # ?z" ds] dval_zeros [of "Suc (nat (- X) - 1)"] by (simp del: dval_zeros)
      ultimately show ?thesis using dval_strip [of "''0''" "?z @ ds" 0] vds by simp
    qed
    show ?thesis
      unfolding s using v strip_zeros_digits [OF z] by (subst scan_lf_decimal [where e = 0]) auto
  next
    case exp
    have s: "show_g_pos P x = with_point (take 1 ds) (strip_zeros (drop 1 ds)) @ show_exp X"
      using exp by (simp only: show_g_pos_def assms(3) prod.case Let_def ds_def [symmetric] if_False)
    have ex: "X - int (P - Suc 0) = X - int P + 1" using assms(2) by simp
    have "take 1 ds \<noteq> []" using len assms(2) by auto
    then show ?thesis
      unfolding s using split_at [of 1 X] strip_zeros_digits [OF dd(2)]
      by (subst scan_lf_decimal [where e = X]) (auto simp: dd ex)
  qed
qed

lemma show_g_pos_hd:
  assumes "0 < x" "0 < P"
  shows "show_g_pos P x \<noteq> [] \<and> is_digit (hd (show_g_pos P x)) \<and> (\<forall>c \<in> set (show_g_pos P x). number_char c)"
proof -
  obtain n X where nX: "sci_digits P x = (n, X)" by force
  note n = sci_digits_spec(1,2) [OF assms nX]
  have n0: "0 \<le> n" using n(1) by (rule order_trans [rotated]) simp
  have ds: "digits (show_dec n)" "show_dec n \<noteq> []" "digits (show_dec \<bar>X\<bar>)"
    using show_dec_spec [OF n0] show_dec_spec [of "\<bar>X\<bar>"] by auto
  have nc: "number_char c" if "is_digit c" for c using that by (simp add: number_char_def)
  have sz: "c \<in> set s" if "c \<in> set (strip_zeros s)" for c s using that by (auto simp: strip_zeros_def dest: set_dropWhileD)
  have "number_char CHR ''.''" "number_char CHR ''e''" "number_char CHR ''+''" "number_char CHR ''-''" "number_char CHR ''0''"
    by (simp_all add: number_char_def)
  then show ?thesis
    using ds nc by (auto simp: show_g_pos_def nX Let_def with_point_def show_exp_def pad_zero_def hd_append
        dest!: sz in_set_takeD in_set_dropD split: if_splits)
qed

text \<open>17 digits are enough.\<close>

lemma sci_17_recovers:
  assumes d: "0 < d" "rnd d = d" and "sci_digits 17 d = (n, X)"
  shows "rnd (of_int n * 10 powi (X - 16)) = d"
proof -
  define u where "u = (2 :: rat) powi dexp d"
  have u: "0 < u" by (simp add: u_def)
  have err: "\<bar>of_int n * 10 powi (X - 16) - d\<bar> \<le> 10 powi (dec_exp d - 16) / 2"
    using sci_digits_spec(3) [OF d(1) _ assms(3)] by simp
  have "10 powi (dec_exp d - 16) = 10 powi dec_exp d / (10 :: rat) ^ 16"
    by (subst power_int_diff) simp_all
  then have e: "\<bar>of_int n * 10 powi (X - 16) - d\<bar> \<le> d / 10 ^ 16 / 2"
    using err dec_exp_bounds(1) [OF d(1)] by simp
  have top: "d < 2 ^ 53 * u" using dexp_scaled(2) [OF d(1)] u by (simp add: u_def [symmetric] pos_divide_less_eq)
  show ?thesis
  proof (rule rnd_near [OF d])
    show "\<bar>of_int n * 10 powi (X - 16) - d\<bar> < 2 powi dexp d / 2" using e top u unfolding u_def [symmetric] by simp
  next
    assume "d = 2 ^ 52 * 2 powi dexp d"
    then show "\<bar>of_int n * 10 powi (X - 16) - d\<bar> < 2 powi dexp d / 4" using e u unfolding u_def [symmetric] by simp
  qed
qed

lemma show_g_chars:
  assumes "0 < P"
  shows "show_g P x \<noteq> [] \<and> (hd (show_g P x) = CHR ''-'' \<or> is_digit (hd (show_g P x))) \<and> (\<forall>c \<in> set (show_g P x). number_char c)"
  using show_g_pos_hd [OF _ assms, of x] show_g_pos_hd [OF _ assms, of "- x"]
  by (auto simp: show_g_def number_char_def is_digit_def)

lemma scan_show_g_17:
  assumes "rnd d = d"
  shows "scan_lf (show_g 17 d) = Some (d, [])"
proof -
  have pos: "scan_lf (show_g_pos 17 y) = Some (y, [])" if "0 < y" "rnd y = y" for y
  proof -
    obtain n X where nX: "sci_digits 17 y = (n, X)" by force
    show ?thesis using show_g_pos_scan [OF that(1) _ nX] sci_17_recovers [OF that nX] by simp
  qed
  consider "d = 0" | "0 < d" | "d < 0" by linarith
  then show ?thesis
  proof cases
    case 1
    show ?thesis using 1 scan_lf_decimal [of "''0''" "[]" "[]" 0] by (simp add: show_g_def with_point_def dval_def)
  next
    case 2
    then show ?thesis using pos [OF 2 assms] by (simp add: show_g_def)
  next
    case 3
    then show ?thesis using pos [of "- d"] show_g_pos_hd [of "- d" 17] assms
      by (simp add: show_g_def scan_lf_minus rnd_minus)
  qed
qed

text \<open>What \<open>print_number\<close> wrote is read as the number, and only number characters were written.\<close>

lemma print_number_scan:
  assumes "rnd d = d" "print_number d = Some s"
  shows "s \<noteq> []" "hd s = CHR ''-'' \<or> is_digit (hd s)" "\<forall>c \<in> set s. number_char c" "length s \<le> 25"
    and "scan_lf s = Some (d, [])"
proof -
  consider "s = show_g 15 d" "map_option fst (scan_lf s) = Some d" | "s = show_g 17 d"
    using assms(2) by (auto simp: print_number_def Let_def split: if_splits)
  then have "s \<noteq> [] \<and> (hd s = CHR ''-'' \<or> is_digit (hd s)) \<and> (\<forall>c \<in> set s. number_char c) \<and> scan_lf s = Some (d, [])"
  proof cases
    case 1
    have rest: "\<exists>v. scan_lf (show_g 15 d) = Some (v, [])"
    proof -
      have pos: "\<exists>v. scan_lf (show_g_pos 15 y) = Some (v, [])" if "0 < y" for y
        using show_g_pos_scan [OF that, of 15] by (metis prod.exhaust zero_less_numeral)
      consider "d = 0" | "0 < d" | "d < 0" by linarith
      then show ?thesis
      proof cases
        case 1
        then show ?thesis using scan_lf_decimal [of "''0''" "[]" "[]" 0] by (simp add: show_g_def with_point_def)
      next
        case 3
        then show ?thesis using pos [of "- d"] show_g_pos_hd [of "- d" 15] by (auto simp: show_g_def scan_lf_minus)
      qed (use pos in \<open>auto simp: show_g_def\<close>)
    qed
    then show ?thesis using 1 show_g_chars [of 15 d] by auto
  next
    case 2
    then show ?thesis using scan_show_g_17 [OF assms(1)] show_g_chars [of 17 d] by simp
  qed
  then show "s \<noteq> []" "hd s = CHR ''-'' \<or> is_digit (hd s)" "\<forall>c \<in> set s. number_char c" "scan_lf s = Some (d, [])"
    by auto
  show "length s \<le> 25" using assms(2) by (auto simp: print_number_def Let_def split: if_splits)
qed

lemma parse_print_number:
  assumes "rnd d = d" "print_number d = Some s" "r = [] \<or> \<not> number_char (hd r)"
  shows "parse_number (s @ r) = Some (CJ cJSON_Number (sat_int64 d) d None None [], r)"
proof -
  note s = print_number_scan [OF assms(1,2)]
  have "takeWhile number_char (take 63 (s @ r)) = s"
  proof (cases r)
    case Nil
    then show ?thesis using s(3,4) by (simp add: takeWhile_eq_all_conv)
  next
    case (Cons c t)
    then show ?thesis using s(3,4) assms(3) by (simp add: takeWhile_append2 take_Cons' takeWhile_eq_all_conv)
  qed
  then show ?thesis using s(5) by (simp add: parse_number_def)
qed

end
