(* ===== verification/Json_Props.thy ===== *)
theory Json_Props
  imports Json_Num
begin

text \<open>
  The JSON library as a codec: what \<open>cJSON_Print\<close> and \<open>cJSON_PrintUnformatted\<close> write,
  \<open>cJSON_Parse\<close> reads back. \<open>json_ok n\<close> are the items that can be sent: their numbers are
  doubles, their strings C strings, members have names, and at most \<open>n\<close> brackets are open at a
  time; \<open>parsed\<close> is the item a parser builds for them (a parsed \<open>true\<close> has \<open>valueint\<close> 1, a
  created one 0).
\<close>

section \<open>Items that can be sent\<close>

definition c_str_ok :: "string option \<Rightarrow> bool" where
  "c_str_ok s = (case s of None \<Rightarrow> False | Some t \<Rightarrow> CHR 0x00 \<notin> set t)"

fun json_ok :: "nat \<Rightarrow> cJSON \<Rightarrow> bool" where
  "json_ok n (CJ ty vi vd vs nm ch) =
     (case ty of
        cJSON_NULL \<Rightarrow> True | cJSON_False \<Rightarrow> True | cJSON_True \<Rightarrow> True
      | cJSON_Number \<Rightarrow> rnd vd = vd
      | cJSON_String \<Rightarrow> c_str_ok vs
      | cJSON_Array \<Rightarrow> (case n of 0 \<Rightarrow> False | Suc m \<Rightarrow> list_all (json_ok m) ch)
      | cJSON_Object \<Rightarrow> (case n of 0 \<Rightarrow> False | Suc m \<Rightarrow> list_all (\<lambda>j. json_ok m j \<and> c_str_ok (jstring j)) ch)
      | cJSON_Raw \<Rightarrow> False | cJSON_Invalid \<Rightarrow> False)"

fun parsed :: "cJSON \<Rightarrow> cJSON" where
  "parsed (CJ ty vi vd vs nm ch) =
     (case ty of
        cJSON_NULL \<Rightarrow> CJ cJSON_NULL 0 0 None None []
      | cJSON_False \<Rightarrow> CJ cJSON_False 0 0 None None []
      | cJSON_True \<Rightarrow> CJ cJSON_True 1 0 None None []
      | cJSON_Number \<Rightarrow> CJ cJSON_Number (sat_int64 vd) vd None None []
      | cJSON_String \<Rightarrow> CJ cJSON_String 0 0 vs None []
      | cJSON_Array \<Rightarrow> CJ cJSON_Array 0 0 None None (map parsed ch)
      | cJSON_Object \<Rightarrow> CJ cJSON_Object 0 0 None None (map (\<lambda>j. set_string (the (jstring j)) (parsed j)) ch)
      | cJSON_Raw \<Rightarrow> cJSON_New_Item | cJSON_Invalid \<Rightarrow> cJSON_New_Item)"

section \<open>Strings\<close>

lemma hex_digit_chars: "d < 16 \<Longrightarrow> hex_digit d \<noteq> CHR 0x22 \<and> hex_digit d \<noteq> CHR 0x5C \<and> hex_digit d \<noteq> CHR 0x00"
proof -
  assume d: "d < 16"
  have "(of_char (hex_digit d) :: nat) = (if d < 10 then 48 + d else 87 + d)"
    using d by (simp add: hex_digit_def)
  then show ?thesis using d by (auto split: if_splits)
qed

lemma unescape_escape: "unescape (escape_char c @ t) = map_option (\<lambda>out. c # out) (unescape t)"
proof -
  have u: "unescape ([CHR 0x5C, CHR ''u'', CHR ''0'', CHR ''0''] @ show_hex2 (chr_code c) @ t) = map_option (\<lambda>out. c # out) (unescape t)"
    if "chr_code c < 32"
  proof -
    have h: "digit_in 16 CHR ''0'' = Some 0" by code_simp
    have "parse_hex4 ([CHR ''0'', CHR ''0''] @ show_hex2 (chr_code c) @ t) = chr_code c"
      using digit_in_hex [of "chr_code c div 16 mod 16"] digit_in_hex [of "chr_code c mod 16"] that
      by (simp add: parse_hex4_def show_hex2_def h)
    then have "utf16_literal_to_utf8 ([CHR 0x5C, CHR ''u'', CHR ''0'', CHR ''0''] @ show_hex2 (chr_code c) @ t) = Some ([c], 6)"
      using that by (simp add: utf16_literal_to_utf8_def show_hex2_def utf8_encode_def)
    then show ?thesis by (cases "unescape t") (simp_all add: show_hex2_def)
  qed
  show ?thesis using u unfolding escape_char_def by (auto simp: unescape_char_def)
qed

lemma string_end_escape:
  "string_end (escape_char c @ t) = map_option (\<lambda>(a, r). (escape_char c @ a, r)) (string_end t)"
proof -
  have plain: "string_end (x # t) = map_option (\<lambda>(a, r). (x # a, r)) (string_end t)"
    if "x \<noteq> CHR 0x22" "x \<noteq> CHR 0x5C" for x t using that by (cases t) auto
  obtain h1 h2 where h: "show_hex2 (chr_code c) = [h1, h2]" "h1 \<noteq> CHR 0x22" "h1 \<noteq> CHR 0x5C" "h2 \<noteq> CHR 0x22" "h2 \<noteq> CHR 0x5C"
    using hex_digit_chars [of "chr_code c div 16 mod 16"] hex_digit_chars [of "chr_code c mod 16"] by (simp add: show_hex2_def)
  show ?thesis
    unfolding escape_char_def using h by (simp add: plain option.map_comp o_def case_prod_unfold)
qed

lemma escape_nonzero: "c \<noteq> CHR 0x00 \<Longrightarrow> CHR 0x00 \<notin> set (escape_char c)"
proof -
  assume c: "c \<noteq> CHR 0x00"
  have "CHR 0x00 \<notin> set (show_hex2 (chr_code c))"
    using hex_digit_chars [of "chr_code c div 16 mod 16"] hex_digit_chars [of "chr_code c mod 16"] by (auto simp: show_hex2_def)
  then show ?thesis using c by (simp add: escape_char_def)
qed

lemma parse_print_string:
  assumes "CHR 0x00 \<notin> set s"
  shows "parse_string (print_string_ptr (Some s) @ r) = Some (s, r)"
proof -
  let ?e = "concat (map escape_char s)"
  have end_eq: "string_end (?e @ CHR 0x22 # r) = Some (?e, r)"
  proof (induction s)
    case Nil
    show ?case by (cases r) auto
  next
    case (Cons c s)
    then show ?case by (simp add: string_end_escape)
  qed
  have un: "unescape ?e = Some s" by (induction s) (simp_all add: unescape_escape)
  have "c_string s = s" unfolding c_string_def takeWhile_eq_all_conv using assms by blast
  then show ?thesis by (simp add: parse_string_def print_string_ptr_def end_eq un)
qed

lemma print_string_nonzero: "c_str_ok s \<Longrightarrow> CHR 0x00 \<notin> set (print_string_ptr s)"
proof -
  assume "c_str_ok s"
  then obtain t where t: "s = Some t" "CHR 0x00 \<notin> set t" by (auto simp: c_str_ok_def split: option.splits)
  have "CHR 0x00 \<notin> set (concat (map escape_char t))"
    using t(2) escape_nonzero by (induction t) (simp_all add: eq_commute [of "CHR 0x00"])
  then show ?thesis by (simp add: t print_string_ptr_def)
qed

section \<open>White space\<close>

lemma skip_Nil [simp]: "buffer_skip_whitespace [] = []"
  by (simp add: buffer_skip_whitespace_def)

lemma skip_solid [simp]: "32 < chr_code c \<Longrightarrow> buffer_skip_whitespace (c # s) = c # s"
  by (simp add: buffer_skip_whitespace_def)

lemma skip_blank: "(\<forall>c \<in> set b. chr_code c \<le> 32) \<Longrightarrow> buffer_skip_whitespace (b @ s) = buffer_skip_whitespace s"
  by (simp add: buffer_skip_whitespace_def)

lemma skip_fmt [simp]:
  "buffer_skip_whitespace (fmt_str fmt '' '' @ s) = buffer_skip_whitespace s"
  "buffer_skip_whitespace (fmt_str fmt [CHR 0x0A] @ s) = buffer_skip_whitespace s"
  "buffer_skip_whitespace (fmt_str fmt [CHR 0x09] @ s) = buffer_skip_whitespace s"
  "buffer_skip_whitespace (fmt_str fmt (replicate n (CHR 0x09)) @ s) = buffer_skip_whitespace s"
  by (simp_all add: fmt_str_def skip_blank)

section \<open>Values\<close>

text \<open>Text that may follow a value.\<close>

abbreviation follow :: "string \<Rightarrow> bool" where
  "follow r \<equiv> r = [] \<or> \<not> number_char (hd r)"

lemma digit_solid: "c = CHR ''-'' \<or> is_digit c \<Longrightarrow> 32 < chr_code c \<and> c \<noteq> CHR 0x22 \<and> c \<noteq> CHR ''['' \<and> c \<noteq> CHR ''{'' \<and>
    c \<noteq> CHR '']'' \<and> c \<noteq> CHR ''n'' \<and> c \<noteq> CHR ''f'' \<and> c \<noteq> CHR ''t''"
proof -
  assume a: "c = CHR ''-'' \<or> is_digit c"
  have "is_digit c \<Longrightarrow> 48 \<le> chr_code c \<and> chr_code c \<le> 57"
    using of_nat_of_char [of c, where 'a = int] by (simp add: is_digit_def)
  then show ?thesis using a by (auto simp: is_digit_def)
qed

text \<open>Printed values start with a character that is neither white space nor a closing bracket.\<close>

lemma print_value_hd:
  assumes "print_value fmt dep j = Some s" "json_ok n j"
  shows "\<exists>c t. s = c # t \<and> 32 < chr_code c \<and> c \<noteq> CHR '']''"
proof (cases j)
  case (CJ ty vi vd vs nm ch)
  have num: ?thesis if "ty = cJSON_Number"
  proof -
    have p: "print_number vd = Some s" "rnd vd = vd" using assms that CJ by simp_all
    obtain c t where "s = c # t" "c = CHR ''-'' \<or> is_digit c"
      using print_number_scan(1,2) [OF p(2,1)] by (cases s) auto
    then show ?thesis using digit_solid [of c] by simp
  qed
  show ?thesis
  proof (cases ty)
    case cJSON_Number
    then show ?thesis by (rule num)
  next
    case cJSON_Array
    then obtain body where "s = CHR ''['' # body" using assms(1) unfolding CJ
      by (cases "print_array fmt (Suc dep) ch") auto
    then show ?thesis by simp
  next
    case cJSON_Object
    then obtain body where "s = CHR ''{'' # body" using assms(1) unfolding CJ
      by (cases "print_object fmt (Suc dep) ch") auto
    then show ?thesis by simp
  next
    case cJSON_String
    then have "s = print_string_ptr vs" using assms(1) unfolding CJ by simp
    then have "s = CHR 0x22 # tl (print_string_ptr vs)" by (simp add: print_string_ptr_def)
    then show ?thesis by simp
  next
    case cJSON_NULL
    then have "s = ''null''" using assms(1) unfolding CJ by simp
    then show ?thesis by simp
  next
    case cJSON_True
    then have "s = ''true''" using assms(1) unfolding CJ by simp
    then show ?thesis by simp
  next
    case cJSON_False
    then have "s = ''false''" using assms(1) unfolding CJ by simp
    then show ?thesis by simp
  qed (use assms(2) in \<open>simp_all add: CJ\<close>)
qed

lemma print_array_ConsE:
  assumes "print_array fmt dep (x # xs) = Some s"
  obtains v r where "print_value fmt dep x = Some v" "print_array fmt dep xs = Some r"
    "s = v @ (if xs = [] then [] else '','' @ fmt_str fmt '' '') @ r"
proof -
  obtain v where v: "print_value fmt dep x = Some v" using assms by (cases "print_value fmt dep x") simp_all
  obtain r where r: "print_array fmt dep xs = Some r" using assms v by (cases "print_array fmt dep xs") simp_all
  show thesis using assms by (intro that [OF v r]) (simp add: v r)
qed

lemma print_object_ConsE:
  assumes "print_object fmt dep (x # xs) = Some s"
  obtains v r where "print_value fmt dep x = Some v" "print_object fmt dep xs = Some r"
    "s = fmt_str fmt (replicate dep (CHR 0x09)) @ print_string_ptr (jstring x) @
           '':'' @ fmt_str fmt [CHR 0x09] @ v @ (if xs = [] then [] else '','') @ fmt_str fmt [CHR 0x0A] @ r"
proof -
  obtain v where v: "print_value fmt dep x = Some v" using assms by (cases "print_value fmt dep x") simp_all
  obtain r where r: "print_object fmt dep xs = Some r" using assms v by (cases "print_object fmt dep xs") simp_all
  show thesis using assms by (intro that [OF v r]) (simp add: v r)
qed

lemma print_array_length: "print_array fmt dep xs = Some s \<Longrightarrow> length xs \<le> Suc (length s)"
proof (induction xs arbitrary: s)
  case (Cons x xs)
  from Cons.prems obtain v r where r: "print_array fmt dep xs = Some r"
    "s = v @ (if xs = [] then [] else '','' @ fmt_str fmt '' '') @ r" by (rule print_array_ConsE)
  show ?case using Cons.IH [OF r(1)] r(2) by (cases xs) simp_all
qed simp

lemma print_object_length: "print_object fmt dep xs = Some s \<Longrightarrow> length xs \<le> length s"
proof (induction xs arbitrary: s)
  case (Cons x xs)
  from Cons.prems obtain v r where r: "print_object fmt dep xs = Some r"
    "s = fmt_str fmt (replicate dep (CHR 0x09)) @ print_string_ptr (jstring x) @
           '':'' @ fmt_str fmt [CHR 0x09] @ v @ (if xs = [] then [] else '','') @ fmt_str fmt [CHR 0x0A] @ r"
    by (rule print_object_ConsE)
  show ?case using Cons.IH [OF r(1)] r(2) by simp
qed simp

lemma parse_scalar_number:
  assumes "rnd d = d" "print_number d = Some s" "follow r"
  shows "parse_value n (s @ r) = Some (CJ cJSON_Number (sat_int64 d) d None None [], r)"
proof -
  obtain c t where c: "s = c # t" "c = CHR ''-'' \<or> is_digit c"
    using print_number_scan(1,2) [OF assms(1,2)] by (cases s) auto
  have "parse_scalar (s @ r) = parse_number (s @ r)"
    using c digit_solid [OF c(2)] by (auto simp: parse_scalar_def)
  then show ?thesis using parse_print_number [OF assms] c digit_solid [OF c(2)] by (cases n) auto
qed

lemma follow_sep [simp]:
  "\<not> number_char CHR '',''" "\<not> number_char CHR '']''" "\<not> number_char CHR ''}''" "\<not> number_char (CHR 0x0A)"
  by (simp_all add: number_char_def is_digit_def)

text \<open>One round of the loops over elements and members.\<close>

lemma parse_elements_step:
  assumes v: "print_value fmt dep x = Some v" "json_ok n x" and p: "\<And>r. follow r \<Longrightarrow> parse_value n (v @ r) = Some (y, r)"
  shows "parse_elements (Suc m) (parse_value n) (fmt_str fmt '' '' @ v @ CHR '']'' # r) = Some ([y], r)"
    and "parse_elements (Suc m) (parse_value n) (fmt_str fmt '' '' @ v @ CHR '','' # r) =
         map_option (\<lambda>(vs, r). (y # vs, r)) (parse_elements m (parse_value n) r)"
proof -
  obtain c t where c: "v = c # t" "32 < chr_code c" using print_value_hd [OF v] by blast
  have skip: "buffer_skip_whitespace (v @ r) = v @ r" for r using c by simp
  show "parse_elements (Suc m) (parse_value n) (fmt_str fmt '' '' @ v @ CHR '']'' # r) = Some ([y], r)"
    using p [of "CHR '']'' # r"] by (simp add: skip)
  show "parse_elements (Suc m) (parse_value n) (fmt_str fmt '' '' @ v @ CHR '','' # r) =
         map_option (\<lambda>(vs, r). (y # vs, r)) (parse_elements m (parse_value n) r)"
    using p [of "CHR '','' # r"] by (simp add: skip)
qed

lemma parse_members_step:
  assumes v: "print_value fmt dep x = Some v" "json_ok n x" and p: "\<And>r. follow r \<Longrightarrow> parse_value n (v @ r) = Some (y, r)"
    and nm: "CHR 0x00 \<notin> set nm" and tabs: "\<forall>c \<in> set tabs. chr_code c \<le> 32"
  shows "parse_members (Suc m) (parse_value n) (fmt_str fmt tabs @ print_string_ptr (Some nm) @ '':'' @ fmt_str fmt [CHR 0x09] @
           v @ fmt_str fmt [CHR 0x0A] @ fmt_str fmt (replicate k (CHR 0x09)) @ CHR ''}'' # r) = Some ([set_string nm y], r)"
      (is "?last tabs")
    and "parse_members (Suc m) (parse_value n) (fmt_str fmt tabs @ print_string_ptr (Some nm) @ '':'' @ fmt_str fmt [CHR 0x09] @
           v @ CHR '','' # r) = map_option (\<lambda>(vs, r). (set_string nm y # vs, r)) (parse_members m (parse_value n) r)"
      (is "?more tabs")
proof -
  obtain c t where c: "v = c # t" "32 < chr_code c" using print_value_hd [OF v] by blast
  have skip: "buffer_skip_whitespace (v @ r) = v @ r" for r using c by simp
  have skipn: "buffer_skip_whitespace (fmt_str fmt tabs @ print_string_ptr (Some nm) @ r) = print_string_ptr (Some nm) @ r" for r
    using tabs by (simp add: fmt_str_def skip_blank) (simp add: print_string_ptr_def)
  have pn: "parse_string (print_string_ptr (Some nm) @ r) = Some (nm, r)" for r by (rule parse_print_string [OF nm])
  have fl: "follow (fmt_str fmt [CHR 0x0A] @ fmt_str fmt (replicate k (CHR 0x09)) @ CHR ''}'' # r)"
    by (simp add: fmt_str_def)
  show "?last tabs" using p [OF fl] by (simp add: skipn pn skip)
  show "?more tabs" using p [of "CHR '','' # r"] by (simp add: skipn pn skip)
qed

lemma parse_elements_blank: "parse_elements m pv (fmt_str fmt '' '' @ s) = parse_elements m pv s"
  by (cases m) simp_all

lemma parse_members_blank: "parse_members m pv (buffer_skip_whitespace s) = parse_members m pv s"
  by (cases m) (simp_all add: buffer_skip_whitespace_def)

lemma parse_print:
  "print_value fmt dep j = Some s \<Longrightarrow> json_ok n j \<Longrightarrow> follow r \<Longrightarrow> parse_value n (s @ r) = Some (parsed j, r)"
  "print_array fmt dep xs = Some s \<Longrightarrow> list_all (json_ok n) xs \<Longrightarrow> xs \<noteq> [] \<Longrightarrow> length xs \<le> m \<Longrightarrow>
     parse_elements m (parse_value n) (s @ CHR '']'' # r) = Some (map parsed xs, r)"
  "print_object fmt dep xs = Some s \<Longrightarrow> list_all (\<lambda>j. json_ok n j \<and> c_str_ok (jstring j)) xs \<Longrightarrow> xs \<noteq> [] \<Longrightarrow> length xs \<le> m \<Longrightarrow>
     parse_members m (parse_value n) (s @ fmt_str fmt (replicate k (CHR 0x09)) @ CHR ''}'' # r) =
       Some (map (\<lambda>j. set_string (the (jstring j)) (parsed j)) xs, r)"
proof (induction fmt dep j and fmt dep xs and fmt dep xs arbitrary: s n r and s n r m and s n r m k
    rule: print_value_print_array_print_object.induct)
  case (1 fmt dep ty vi vd vs nm ch)
  show ?case
  proof (cases ty)
    case cJSON_Number
    then show ?thesis using 1 parse_scalar_number by simp
  next
    case cJSON_String
    then obtain v where v: "vs = Some v" "CHR 0x00 \<notin> set v" "s = print_string_ptr (Some v)"
      using 1 by (auto simp: c_str_ok_def split: option.splits)
    have "parse_value n (s @ r) = parse_scalar (s @ r)" by (cases n) (auto simp: v print_string_ptr_def)
    also have "\<dots> = Some (CJ cJSON_String 0 0 (Some v) None [], r)"
      using parse_print_string [OF v(2), of r] by (simp add: parse_scalar_def v) (simp add: print_string_ptr_def)
    finally show ?thesis using cJSON_String v by simp
  next
    case cJSON_Array
    then obtain b m where b: "print_array fmt (Suc dep) ch = Some b" "s = CHR ''['' # b @ '']''"
        "n = Suc m" "list_all (json_ok m) ch" using 1 by (auto split: nat.splits)
    show ?thesis
    proof (cases ch)
      case Nil
      then show ?thesis using b cJSON_Array by (simp add: parse_array_def)
    next
      case (Cons x xs)
      obtain v b' where v: "print_value fmt (Suc dep) x = Some v" "b = v @ b'"
        using b(1) unfolding Cons by (blast elim: print_array_ConsE)
      have "json_ok m x" using b(4) Cons by simp
      then obtain c t where ct: "b = c # t" "32 < chr_code c" "c \<noteq> CHR '']''"
        using print_value_hd [OF v(1), of m] v(2) by auto
      have "parse_elements (length (s @ r)) (parse_value m) (b @ CHR '']'' # r) = Some (map parsed ch, r)"
        using Cons print_array_length [OF b(1)] b(2) by (intro 1(1) [OF cJSON_Array b(1,4)]) simp_all
      then show ?thesis using b ct cJSON_Array by (simp add: parse_array_def)
    qed
  next
    case cJSON_Object
    then obtain b m where b: "print_object fmt (Suc dep) ch = Some b"
        "s = CHR ''{'' # fmt_str fmt [CHR 0x0A] @ b @ fmt_str fmt (replicate dep (CHR 0x09)) @ ''}''"
        "n = Suc m" "list_all (\<lambda>j. json_ok m j \<and> c_str_ok (jstring j)) ch" using 1 by (auto split: nat.splits)
    show ?thesis
    proof (cases ch)
      case Nil
      then show ?thesis using b cJSON_Object by (simp add: parse_object_def)
    next
      case (Cons x xs)
      obtain z where "b = fmt_str fmt (replicate (Suc dep) (CHR 0x09)) @ print_string_ptr (jstring x) @ z"
        using b(1) unfolding Cons by (rule print_object_ConsE) blast
      then obtain y where y: "buffer_skip_whitespace (b @ fmt_str fmt (replicate dep (CHR 0x09)) @ CHR ''}'' # r) = CHR 0x22 # y"
        by (simp add: print_string_ptr_def del: replicate.simps)
      have "parse_members (length (s @ r)) (parse_value m) (b @ fmt_str fmt (replicate dep (CHR 0x09)) @ CHR ''}'' # r) =
          Some (map (\<lambda>j. set_string (the (jstring j)) (parsed j)) ch, r)"
        using Cons print_object_length [OF b(1)] b(2) by (intro 1(2) [OF cJSON_Object b(1,4)]) simp_all
      then have "parse_members (length (s @ r)) (parse_value m) (CHR 0x22 # y) =
          Some (map (\<lambda>j. set_string (the (jstring j)) (parsed j)) ch, r)"
        using y parse_members_blank by metis
      then show ?thesis using b y cJSON_Object by (simp add: parse_object_def del: parse_members.simps)
    qed
  qed (use 1 in \<open>cases n; auto simp: parse_scalar_def\<close>)+
next
  case (2 fmt dep)
  then show ?case by simp
next
  case (3 fmt dep x xs)
  from 3(3) obtain v b where vb: "print_value fmt dep x = Some v" "print_array fmt dep xs = Some b"
    "s = v @ (if xs = [] then [] else '','' @ fmt_str fmt '' '') @ b" by (rule print_array_ConsE)
  have ok: "json_ok n x" "list_all (json_ok n) xs" using 3(4) by simp_all
  have pv: "\<And>r. follow r \<Longrightarrow> parse_value n (v @ r) = Some (parsed x, r)" using 3(1) [OF vb(1) ok(1)] .
  obtain m' where m: "m = Suc m'" using 3(6) by (cases m) auto
  show ?case
  proof (cases "xs = []")
    case True
    then show ?thesis using parse_elements_step(1) [OF vb(1) ok(1) pv, of m' r] vb m by simp
  next
    case False
    then show ?thesis
      using parse_elements_step(2) [OF vb(1) ok(1) pv, of m' "fmt_str fmt '' '' @ b @ CHR '']'' # r"]
        3(2) [OF vb(1) vb(2) ok(2) False, of m' r] 3(6) vb m by (simp add: parse_elements_blank)
  qed
next
  case (4 fmt dep)
  then show ?case by simp
next
  case (5 fmt dep x xs)
  from 5(3) obtain v b where vb: "print_value fmt dep x = Some v" "print_object fmt dep xs = Some b"
    "s = fmt_str fmt (replicate dep (CHR 0x09)) @ print_string_ptr (jstring x) @ '':'' @ fmt_str fmt [CHR 0x09] @ v @
      (if xs = [] then [] else '','') @ fmt_str fmt [CHR 0x0A] @ b" by (rule print_object_ConsE)
  have ok: "json_ok n x" "list_all (\<lambda>j. json_ok n j \<and> c_str_ok (jstring j)) xs" "c_str_ok (jstring x)" using 5(4) by simp_all
  obtain nm where nm: "jstring x = Some nm" "CHR 0x00 \<notin> set nm" using ok(3) by (auto simp: c_str_ok_def split: option.splits)
  have pv: "\<And>r. follow r \<Longrightarrow> parse_value n (v @ r) = Some (parsed x, r)" using 5(1) [OF vb(1) ok(1)] .
  obtain m' where m: "m = Suc m'" using 5(6) by (cases m) auto
  have tabs: "\<forall>c \<in> set (replicate dep (CHR 0x09)). chr_code c \<le> 32" by simp
  note step = parse_members_step [OF vb(1) ok(1) pv nm(2) tabs, of m', simplified nm(1) [symmetric]]
  show ?case
  proof (cases "xs = []")
    case True
    then show ?thesis using step(1) [of k r] vb m nm by (simp del: parse_members.simps)
  next
    case False
    let ?r = "b @ fmt_str fmt (replicate k (CHR 0x09)) @ CHR ''}'' # r"
    have "parse_members m' (parse_value n) (fmt_str fmt [CHR 0x0A] @ ?r) = parse_members m' (parse_value n) ?r"
      by (metis parse_members_blank skip_fmt(2))
    also have "\<dots> = Some (map (\<lambda>j. set_string (the (jstring j)) (parsed j)) xs, r)"
      using 5(2) [OF vb(1) vb(2) ok(2) False, of m' k r] 5(6) m by (simp del: parse_members.simps)
    finally show ?thesis using step(2) [of "fmt_str fmt [CHR 0x0A] @ ?r"] False vb m nm
      by (simp del: parse_members.simps)
  qed
qed

text \<open>The printed text is a C string.\<close>

lemma fmt_nonzero [simp]:
  "CHR 0x00 \<notin> set (fmt_str fmt '' '')" "CHR 0x00 \<notin> set (fmt_str fmt [CHR 0x0A])"
  "CHR 0x00 \<notin> set (fmt_str fmt [CHR 0x09])" "CHR 0x00 \<notin> set (fmt_str fmt (replicate k (CHR 0x09)))"
  by (simp_all add: fmt_str_def)

lemma print_nonzero:
  "print_value fmt dep j = Some s \<Longrightarrow> json_ok n j \<Longrightarrow> CHR 0x00 \<notin> set s"
  "print_array fmt dep xs = Some s \<Longrightarrow> list_all (json_ok n) xs \<Longrightarrow> CHR 0x00 \<notin> set s"
  "print_object fmt dep xs = Some s \<Longrightarrow> list_all (\<lambda>j. json_ok n j \<and> c_str_ok (jstring j)) xs \<Longrightarrow> CHR 0x00 \<notin> set s"
proof (induction fmt dep j and fmt dep xs and fmt dep xs arbitrary: s n and s n and s n
    rule: print_value_print_array_print_object.induct)
  case (1 fmt dep ty vi vd vs nm ch)
  show ?case
  proof (cases ty)
    case cJSON_Number
    then have "print_number vd = Some s" "rnd vd = vd" using 1 by simp_all
    then have "\<forall>c \<in> set s. number_char c" using print_number_scan(3) by blast
    moreover have "\<not> number_char (CHR 0x00)" by (simp add: number_char_def is_digit_def)
    ultimately show ?thesis by blast
  next
    case cJSON_String
    then show ?thesis using 1 print_string_nonzero [of vs] by simp
  next
    case cJSON_Array
    then obtain b m where "print_array fmt (Suc dep) ch = Some b" "s = CHR ''['' # b @ '']''" "list_all (json_ok m) ch"
      using 1 by (auto split: nat.splits)
    then show ?thesis using 1(1) [OF cJSON_Array] by simp
  next
    case cJSON_Object
    then obtain b m where "print_object fmt (Suc dep) ch = Some b"
        "s = CHR ''{'' # fmt_str fmt [CHR 0x0A] @ b @ fmt_str fmt (replicate dep (CHR 0x09)) @ ''}''"
        "list_all (\<lambda>j. json_ok m j \<and> c_str_ok (jstring j)) ch" using 1 by (auto split: nat.splits)
    then show ?thesis using 1(2) [OF cJSON_Object] by simp
  qed (use 1(3,4) in auto)
next
  case (3 fmt dep x xs)
  from 3(3) obtain v b where vb: "print_value fmt dep x = Some v" "print_array fmt dep xs = Some b"
    "s = v @ (if xs = [] then [] else '','' @ fmt_str fmt '' '') @ b" by (rule print_array_ConsE)
  show ?case using 3(1) [OF vb(1), of n] 3(2) [OF vb(1,2), of n] 3(4) vb(3) by simp
next
  case (5 fmt dep x xs)
  from 5(3) obtain v b where vb: "print_value fmt dep x = Some v" "print_object fmt dep xs = Some b"
    "s = fmt_str fmt (replicate dep (CHR 0x09)) @ print_string_ptr (jstring x) @ '':'' @ fmt_str fmt [CHR 0x09] @ v @
      (if xs = [] then [] else '','') @ fmt_str fmt [CHR 0x0A] @ b" by (rule print_object_ConsE)
  show ?case using 5(1) [OF vb(1), of n] 5(2) [OF vb(1,2), of n] 5(4) vb(3) print_string_nonzero [of "jstring x"] by simp
qed simp_all

lemma parse_of_print:
  assumes "print_value fmt 0 j = Some s" "json_ok CJSON_NESTING_LIMIT j"
  shows "cJSON_ParseWithOpts s strict = Some (parsed j)"
proof -
  obtain c t where c: "s = c # t" "32 < chr_code c" using print_value_hd [OF assms] by blast
  have "c_string s = s"
    unfolding c_string_def takeWhile_eq_all_conv using print_nonzero(1) [OF assms] by blast
  moreover have "parse_value CJSON_NESTING_LIMIT s = Some (parsed j, [])"
    using parse_print(1) [OF assms, of "[]"] by simp
  ultimately show ?thesis using c by (simp add: cJSON_ParseWithOpts_def)
qed

section \<open>What the parser builds\<close>

lemma parsed_set_string [simp]: "parsed (set_string nm j) = parsed j" "json_ok n (set_string nm j) = json_ok n j"
    "jstring (set_string nm j) = Some nm" "set_string nm (set_string nm' j) = set_string nm j"
  by (cases j, simp)+

definition built :: "nat \<Rightarrow> cJSON \<Rightarrow> bool" where
  "built n j \<longleftrightarrow> json_ok n j \<and> parsed j = j"

text \<open>A member is an item with its name set; without the name it is what the value parser built.\<close>

definition built_member :: "nat \<Rightarrow> cJSON \<Rightarrow> bool" where
  "built_member n j \<longleftrightarrow> json_ok n j \<and> c_str_ok (jstring j) \<and> set_string (the (jstring j)) (parsed j) = j"

lemma c_string_ok: "CHR 0x00 \<notin> set (c_string s)"
  unfolding c_string_def by (auto dest: set_takeWhileD)

lemma parse_string_ok: "parse_string s = Some (nm, r) \<Longrightarrow> CHR 0x00 \<notin> set nm"
  using c_string_ok by (auto simp: parse_string_def split: list.splits if_splits option.splits)

lemma scan_lf_rnd: "scan_lf s = Some (d, r) \<Longrightarrow> rnd d = d"
  by (auto simp: scan_lf_def Let_def split: prod.splits if_splits)

lemma built_number: "parse_number s = Some (j, r) \<Longrightarrow> built n j"
  by (auto simp: parse_number_def built_def Let_def split: option.splits prod.splits dest: scan_lf_rnd)

lemma built_string: "map_option (\<lambda>(v, r). (CJ cJSON_String 0 0 (Some v) None [], r)) (parse_string s) = Some (j, r) \<Longrightarrow> built n j"
  by (auto simp: built_def c_str_ok_def dest: parse_string_ok)

lemma built_scalar:
  assumes "parse_scalar s = Some (j, r)"
  shows "built n j"
proof -
  have words: "built n (CJ cJSON_NULL 0 0 None None [])" "built n (CJ cJSON_False 0 0 None None [])"
      "built n (CJ cJSON_True 1 0 None None [])" by (simp_all add: built_def)
  consider "take 4 s = ''null''" | "take 4 s \<noteq> ''null''" "take 5 s = ''false''"
    | "take 4 s \<noteq> ''null''" "take 5 s \<noteq> ''false''" "take 4 s = ''true''"
    | "take 4 s \<noteq> ''null''" "take 5 s \<noteq> ''false''" "take 4 s \<noteq> ''true''" by blast
  then show ?thesis
  proof cases
    case 4
    then obtain c t where c: "s = c # t" using assms by (cases s) (simp_all add: parse_scalar_def)
    then consider "map_option (\<lambda>(v, r). (CJ cJSON_String 0 0 (Some v) None [], r)) (parse_string s) = Some (j, r)"
      | "parse_number s = Some (j, r)" using assms 4 by (simp add: parse_scalar_def split: if_splits)
    then show ?thesis using built_string built_number by cases blast+
  qed (use assms words in \<open>simp_all add: parse_scalar_def\<close>)
qed

lemma built_elements:
  assumes pv: "\<And>s j r. pv s = Some (j, r) \<Longrightarrow> built n j"
  shows "parse_elements m pv s = Some (js, r) \<Longrightarrow> list_all (built n) js"
proof (induction m arbitrary: s js r)
  case (Suc m)
  from Suc.prems obtain v u where v: "pv (buffer_skip_whitespace s) = Some (v, u)" by (cases "pv (buffer_skip_whitespace s)") auto
  then obtain c t where c: "buffer_skip_whitespace u = c # t" using Suc.prems by (cases "buffer_skip_whitespace u") auto
  show ?case
  proof (cases "c = CHR '',''")
    case True
    then obtain vs where "parse_elements m pv t = Some (vs, r)" "js = v # vs" using Suc.prems v c by auto
    then show ?thesis using Suc.IH pv [OF v] by simp
  next
    case False
    then have "js = [v]" using Suc.prems v c by (simp split: if_splits)
    then show ?thesis using pv [OF v] by simp
  qed
qed simp

lemma built_member_set: "built n j \<Longrightarrow> CHR 0x00 \<notin> set nm \<Longrightarrow> built_member n (set_string nm j)"
  by (simp add: built_def built_member_def c_str_ok_def)

lemma built_members:
  assumes pv: "\<And>s j r. pv s = Some (j, r) \<Longrightarrow> built n j"
  shows "parse_members m pv s = Some (js, r) \<Longrightarrow> list_all (built_member n) js"
proof (induction m arbitrary: s js r)
  case (Suc m)
  from Suc.prems obtain nm u where nm: "parse_string (buffer_skip_whitespace s) = Some (nm, u)"
    by (cases "parse_string (buffer_skip_whitespace s)") auto
  then obtain c t where c: "buffer_skip_whitespace u = c # t" using Suc.prems by (cases "buffer_skip_whitespace u") auto
  then have col: "c = CHR '':''" using Suc.prems nm by (simp split: if_splits)
  obtain v w where v: "pv (buffer_skip_whitespace t) = Some (v, w)"
    using Suc.prems nm c col by (cases "pv (buffer_skip_whitespace t)") auto
  then obtain d x where d: "buffer_skip_whitespace w = d # x" using Suc.prems nm c col by (cases "buffer_skip_whitespace w") auto
  have m: "built_member n (set_string nm v)" using built_member_set [OF pv [OF v] parse_string_ok [OF nm]] .
  show ?case
  proof (cases "d = CHR '',''")
    case True
    then obtain vs where "parse_members m pv x = Some (vs, r)" "js = set_string nm v # vs" using Suc.prems nm c col v d by auto
    then show ?thesis using Suc.IH m by simp
  next
    case False
    then have "js = [set_string nm v]" using Suc.prems nm c col v d by (simp split: if_splits)
    then show ?thesis using m by simp
  qed
qed simp

lemma built_Array: "list_all (built n) js \<Longrightarrow> built (Suc n) (CJ cJSON_Array 0 0 None None js)"
  by (auto simp: built_def list_all_iff map_idI)

lemma built_Object: "list_all (built_member n) js \<Longrightarrow> built (Suc n) (CJ cJSON_Object 0 0 None None js)"
  by (auto simp: built_def built_member_def list_all_iff map_idI)

lemma built_value: "parse_value n s = Some (j, r) \<Longrightarrow> built n j"
proof (induction n arbitrary: s j r)
  case 0
  then show ?case using built_scalar by simp
next
  case (Suc n)
  have arr: "built (Suc n) j" if p: "parse_array (parse_value n) s = Some (j, r)"
  proof -
    obtain c t where c: "buffer_skip_whitespace (tl s) = c # t" using p by (cases "buffer_skip_whitespace (tl s)") (simp_all add: parse_array_def)
    then obtain vs where "j = CJ cJSON_Array 0 0 None None vs" "vs = [] \<or> parse_elements (length s) (parse_value n) (c # t) = Some (vs, r)"
      using p by (auto simp: parse_array_def split: if_splits)
    then show ?thesis using built_elements [of "parse_value n" n, OF Suc.IH] by (auto intro!: built_Array)
  qed
  have obj: "built (Suc n) j" if p: "parse_object (parse_value n) s = Some (j, r)"
  proof -
    obtain c t where c: "buffer_skip_whitespace (tl s) = c # t" using p by (cases "buffer_skip_whitespace (tl s)") (simp_all add: parse_object_def)
    then obtain vs where "j = CJ cJSON_Object 0 0 None None vs" "vs = [] \<or> parse_members (length s) (parse_value n) (c # t) = Some (vs, r)"
      using p by (auto simp: parse_object_def split: if_splits)
    then show ?thesis using built_members [of "parse_value n" n, OF Suc.IH] by (auto intro!: built_Object)
  qed
  show ?case using Suc.prems arr obj built_scalar by (cases s) (simp_all split: if_splits)
qed

lemma built_parse: "cJSON_ParseWithOpts s strict = Some j \<Longrightarrow> built CJSON_NESTING_LIMIT j"
  by (auto simp: cJSON_ParseWithOpts_def split: option.splits if_splits dest: built_value)

section \<open>The codec\<close>

text \<open>
  What the exchange of parameters and results needs of a JSON library: a printer and a parser
  of texts, the items that can be printed, and what arrives on the other side.
\<close>

locale json_codec =
  fixes enc :: "'j \<Rightarrow> string option" and dec :: "string \<Rightarrow> 'j option"
    and sendable :: "'j \<Rightarrow> bool" and arrives :: "'j \<Rightarrow> 'j"
  assumes dec_enc: "sendable j \<Longrightarrow> enc j = Some s \<Longrightarrow> dec s = Some (arrives j)"
    and enc_nonzero: "sendable j \<Longrightarrow> enc j = Some s \<Longrightarrow> CHR 0x00 \<notin> set s"
begin

text \<open>A text determines what arrives, and padding a text with zero bytes is no part of it.\<close>

lemma enc_determines: "sendable i \<Longrightarrow> sendable j \<Longrightarrow> enc i = Some s \<Longrightarrow> enc j = Some s \<Longrightarrow> arrives i = arrives j"
  using dec_enc by (metis option.inject)

lemma dec_padded:
  assumes "sendable j" "enc j = Some s"
  shows "dec (takeWhile (\<lambda>c. c \<noteq> CHR 0x00) (s @ CHR 0x00 # r)) = Some (arrives j)"
proof -
  have "takeWhile (\<lambda>c. c \<noteq> CHR 0x00) (s @ CHR 0x00 # r) = s"
    using enc_nonzero [OF assms] by (subst takeWhile_append2) auto
  then show ?thesis using dec_enc [OF assms] by simp
qed

end

interpretation cj: json_codec cJSON_PrintUnformatted cJSON_Parse "json_ok CJSON_NESTING_LIMIT" parsed
  by unfold_locales
     (auto simp: cJSON_PrintUnformatted_def cJSON_Parse_def parse_of_print dest: print_nonzero(1))

interpretation cjf: json_codec cJSON_Print cJSON_Parse "json_ok CJSON_NESTING_LIMIT" parsed
  by unfold_locales (auto simp: cJSON_Print_def cJSON_Parse_def parse_of_print dest: print_nonzero(1))

section \<open>The buffer of a number\<close>

lemma strip_zeros_length: "length (strip_zeros s) \<le> length s"
  unfolding strip_zeros_def by (metis length_dropWhile_le length_rev)

lemma with_point_length: "length (with_point a b) \<le> length a + length b + 1"
  by (simp add: with_point_def)

lemma powi_less_10: "(10 :: rat) powi a < 10 powi b \<longleftrightarrow> a < b"
  by (meson linorder_not_less one_less_numeral_iff power_int_increasing power_int_strict_increasing less_imp_le semiring_norm(76))

lemma show_g_pos_length:
  assumes x: "10 powi (- K) \<le> x" "x < 10 powi K" and K: "K < 999" and P: "0 < P"
  shows "length (show_g_pos P x) \<le> P + 6"
proof -
  have pos: "0 < x" using x(1) by (rule less_le_trans [rotated]) simp
  obtain n X where nX: "sci_digits P x = (n, X)" by force
  note n = sci_digits_spec(1,2) [OF pos P nX]
  have len: "length (show_dec n) = P" using n P show_dec_length [of "P - 1" n] by simp
  have "(10 :: rat) powi dec_exp x < 10 powi K" "(10 :: rat) powi (- K) < 10 powi (dec_exp x + 1)"
    using dec_exp_bounds [OF pos] x by linarith+
  then have "- K \<le> dec_exp x" "dec_exp x < K" by (simp_all add: powi_less_10)
  moreover have "X = dec_exp x \<or> X = dec_exp x + 1" using nX by (auto simp: sci_digits_def Let_def split: if_splits)
  ultimately have X: "\<bar>X\<bar> < 10 ^ 3" using K by auto
  have "length (show_dec \<bar>X\<bar>) \<le> 3"
  proof (cases "X = 0")
    case True
    then show ?thesis by (simp add: show_dec.simps)
  next
    case False
    then have "(10 :: int) ^ (length (show_dec \<bar>X\<bar>) - 1) < 10 ^ 3" using show_dec_spec [of "\<bar>X\<bar>"] X by simp
    then have "length (show_dec \<bar>X\<bar>) - 1 < 3" by (simp only: power_strict_increasing_iff one_less_numeral_iff semiring_norm)
    then show ?thesis by simp
  qed
  then have e: "length (show_exp X) \<le> 5" by (simp add: show_exp_def pad_zero_def)
  have w: "length (with_point (take k (show_dec n)) (strip_zeros (drop k (show_dec n)))) \<le> P + 1" for k
    using with_point_length [of "take k (show_dec n)" "strip_zeros (drop k (show_dec n))"] strip_zeros_length [of "drop k (show_dec n)"] len
    by auto
  have z: "length (with_point ''0'' (strip_zeros (replicate k CHR ''0'' @ show_dec n))) \<le> P + 2 + k" for k
    using with_point_length [of "''0''" "strip_zeros (replicate k CHR ''0'' @ show_dec n)"]
      strip_zeros_length [of "replicate k CHR ''0'' @ show_dec n"] len by simp
  consider "-4 \<le> X" "X < int P" "0 \<le> X" | "-4 \<le> X" "X < 0" | "\<not> (-4 \<le> X \<and> X < int P)" by linarith
  then show ?thesis
  proof cases
    case 1
    then show ?thesis using w [of "nat X + 1"] by (simp add: show_g_pos_def nX Let_def)
  next
    case 2
    then show ?thesis using z [of "nat (- X) - 1"] P by (simp add: show_g_pos_def nX Let_def)
  next
    case 3
    then have "show_g_pos P x = with_point (take 1 (show_dec n)) (strip_zeros (drop 1 (show_dec n))) @ show_exp X"
      by (simp only: show_g_pos_def nX prod.case Let_def if_False)
    then show ?thesis using w [of 1] e by simp
  qed
qed

lemma show_g_length:
  assumes "x = 0 \<or> 10 powi (- K) \<le> \<bar>x\<bar> \<and> \<bar>x\<bar> < 10 powi K" "K < 999" "0 < P"
  shows "length (show_g P x) \<le> P + 7"
  using assms show_g_pos_length [of K x P] show_g_pos_length [of K "- x" P] by (auto simp: show_g_def abs_if split: if_splits)

section \<open>Properties\<close>

text \<open>
  (C16) Text written by \<open>cJSON_Print\<close> or \<open>cJSON_PrintUnformatted\<close> is read back by \<open>cJSON_Parse\<close>: for every
  item whose numbers are doubles, whose strings and member names are C strings and which nests
  at most 1000 brackets, the parser builds the same tree, with every number, string, name,
  order of members and nesting as it was.
\<close>

theorem cJSON_roundtrip:
  assumes "json_ok CJSON_NESTING_LIMIT j" "cJSON_PrintUnformatted j = Some s \<or> cJSON_Print j = Some s"
  shows "cJSON_Parse s = Some (parsed j)"
  using assms cj.dec_enc cjf.dec_enc by blast

definition sample_item :: cJSON where
  "sample_item = cJSON_AddItemToObject
     (cJSON_AddStringToObject ''ti'' [CHR 0x22, CHR 0x0A] (cJSON_AddNumberToObject ''n'' (5/2) (cJSON_AddTrueToObject ''tcp'' cJSON_CreateObject)))
     ''a'' (cJSON_AddItemToArray cJSON_CreateArray (Some (cJSON_CreateNumber (- 7))))"

lemmas add_defs = cJSON_AddItemToObject_def cJSON_AddItemToObjectCS_def cJSON_AddStringToObject_def
  cJSON_AddNumberToObject_def cJSON_AddTrueToObject_def

theorem cJSON_roundtrip_witness:
  "\<exists>s. json_ok CJSON_NESTING_LIMIT sample_item \<and> cJSON_PrintUnformatted sample_item = Some s \<and>
     cJSON_Parse s = Some (parsed sample_item)"
proof -
  have r: "rnd (5 / 2) = 5 / 2" "rnd (- 7) = - 7" by code_simp+
  have ok: "json_ok CJSON_NESTING_LIMIT sample_item"
    unfolding CJSON_NESTING_LIMIT_def
    by (simp add: sample_item_def add_defs create_defs numeral_eq_Suc c_str_ok_def r)
  have n: "print_number (5 / 2) = Some ''2.5''" "print_number (- 7) = Some ''-7''" by code_simp+
  obtain s where s: "cJSON_PrintUnformatted sample_item = Some s"
    by (simp add: cJSON_PrintUnformatted_def sample_item_def add_defs create_defs n)
  show ?thesis using cJSON_roundtrip [OF ok] s ok by blast
qed


lemma nesting_limit_Suc: "CJSON_NESTING_LIMIT = Suc 999"
  by (simp add: CJSON_NESTING_LIMIT_def)


text \<open>
  (C18) Every double of the format's exponent range is printed: its text fits the buffer of 26
  bytes (so \<open>print_number\<close> succeeds) and reading it with \<open>strtod\<close> gives the same double, with 15
  digits where they are enough and with 17 where they are not.
\<close>

theorem print_number_exact:
  assumes "rnd d = d" "d = 0 \<or> 10 powi (- K) \<le> \<bar>d\<bar> \<and> \<bar>d\<bar> < 10 powi K" "K < 999"
  shows "\<exists>s. print_number d = Some s \<and> length s < 26 \<and> scan_lf s = Some (d, [])"
proof -
  have len: "length (show_g P d) \<le> P + 7" if "0 < P" for P using show_g_length [OF assms(2,3) that] .
  have "length (show_g 15 d) \<le> 25" "length (show_g 17 d) \<le> 25" using len [of 15] len [of 17] by simp_all
  then have "print_number d \<noteq> None" by (simp add: print_number_def Let_def)
  then obtain s where s: "print_number d = Some s" by blast
  show ?thesis using print_number_scan(4,5) [OF assms(1) s] s by auto
qed

theorem print_number_exact_witness:
  "\<exists>s. print_number (rnd (1 / 3)) = Some s \<and> length s < 26 \<and> scan_lf s = Some (rnd (1 / 3), [])"
proof -
  have "10 powi (- 3) \<le> \<bar>rnd (1 / 3)\<bar> \<and> \<bar>rnd (1 / 3)\<bar> < 10 powi 3" by code_simp
  then show ?thesis using print_number_exact [of "rnd (1 / 3)" 3] by simp
qed

section \<open>Comparison\<close>

text \<open>\<open>cJSON_Compare\<close> stops at the end of the shorter array: every array equals the empty one.\<close>

lemma cJSON_Compare_ignores_length:
  "cJSON_Compare (CJ cJSON_Array i d s n xs) (CJ cJSON_Array i' d' s' n' []) cs"
  by simp

end
