(* ===== verification/Params.thy ===== *)
theory Params
  imports Api_Options Udp
begin

text \<open>
  The control connection's messages (\<open>iperf_api.c\<close>): JSON texts framed by a length of four
  bytes (\<open>JSON_write\<close>, \<open>JSON_read\<close>) and the exchange of the test parameters
  (\<open>send_parameters\<close>, \<open>get_parameters\<close>). The debug output and the field \<open>target_bitrate\<close> of the
  JSON report are left out.
\<close>

section \<open>Framing\<close>

definition str_bytes :: "string \<Rightarrow> u8 list" where
  "str_bytes s = map (\<lambda>c. of_nat (of_char c)) s"

definition bytes_str :: "u8 list \<Rightarrow> string" where
  "bytes_str bs = map (\<lambda>b. char_of (unat b)) bs"

definition JSON_write :: "'w kernel \<Rightarrow> int \<Rightarrow> cJSON \<Rightarrow> ('w sys, int) state" where
  "JSON_write K fd json =
     (case cJSON_PrintUnformatted json of
        None \<Rightarrow> ret (-1)
      | Some str \<Rightarrow> do {
          let hsize = (of_nat (length str) :: u32);
          r \<leftarrow> Nwrite K fd (be_bytes 4 (unat hsize));
          if r < 0 then ret (-1)
          else do {
            r \<leftarrow> Nwrite K fd (take (unat hsize) (str_bytes str));
            ret (if r < 0 then -1 else 0)
          }
        })"

text \<open>
  The length is read into an uninitialised variable, and a short read is not noticed. The
  buffer has \<open>hsize + 1\<close> bytes, computed in 32 bits: for the largest length that is zero.
  The first component of the result says whether \<open>Nread\<close> stored behind the end of the buffer.
\<close>

definition JSON_read :: "'w kernel \<Rightarrow> int \<Rightarrow> ('w sys, bool \<times> cJSON option) state" where
  "JSON_read K fd = do {
     (r, nsize) \<leftarrow> Nread K fd 4;
     if 0 \<le> r then do {
       let hsize = (of_nat (be_val (local_buf K 4 nsize)) :: u32);
       ok \<leftarrow> sys_malloc K (unat (hsize + 1));
       if ok then do {
         (rc, str) \<leftarrow> Nread K fd (unat hsize);
         let overrun = unat (hsize + 1) < length str;
         if 0 \<le> rc \<and> word_of_int rc = hsize then ret (overrun, cJSON_Parse (bytes_str str))
         else ret (overrun, None)
       }
       else ret (False, None)
     }
     else ret (False, None)
   }"

section \<open>Sending the parameters\<close>

definition IPERF_VERSION :: string where "IPERF_VERSION = ''3.7''"

definition num_if :: "bool \<Rightarrow> int \<Rightarrow> cJSON option" where
  "num_if b v = (if b then Some (cJSON_CreateNumber (d_of_int v)) else None)"

definition true_if :: "bool \<Rightarrow> cJSON option" where
  "true_if b = (if b then Some cJSON_CreateTrue else None)"

text \<open>
  The members in the order in which the code adds them, \<open>None\<close> where its condition is false. The
  numbers are converted to \<open>double\<close>, the unsigned 64-bit ones with rounding.
\<close>

definition param_list :: "iperf_test \<Rightarrow> (string \<times> cJSON option) list" where
  "param_list t = (let st = settings t in
     [(''tcp'', true_if (prot_id (protocol t) = Ptcp)),
      (''udp'', true_if (prot_id (protocol t) = Pudp)),
      (''sctp'', true_if (prot_id (protocol t) = Psctp)),
      (''omit'', num_if True (omit t)),
      (''server_affinity'', num_if (server_affinity t \<noteq> -1) (server_affinity t)),
      (''time'', num_if True (duration t)),
      (''num'', num_if (bytes st \<noteq> 0) (uint (bytes st))),
      (''blockcount'', num_if (blocks st \<noteq> 0) (uint (blocks st))),
      (''MSS'', num_if (mss st \<noteq> 0) (mss st)),
      (''nodelay'', true_if (no_delay t \<noteq> 0)),
      (''parallel'', num_if True (num_streams t)),
      (''reverse'', true_if (reverse t \<noteq> 0)),
      (''bidirectional'', true_if (bidirectional t \<noteq> 0)),
      (''window'', num_if (socket_bufsize st \<noteq> 0) (socket_bufsize st)),
      (''len'', num_if (blksize st \<noteq> 0) (blksize st)),
      (''bandwidth'', num_if (rate st \<noteq> 0) (uint (rate st))),
      (''fqrate'', num_if (fqrate st \<noteq> 0) (uint (fqrate st))),
      (''pacing_timer'', num_if (pacing_timer st \<noteq> 0) (pacing_timer st)),
      (''burst'', num_if (burst st \<noteq> 0) (burst st)),
      (''TOS'', num_if (tos st \<noteq> 0) (tos st)),
      (''flowlabel'', num_if (flowlabel st \<noteq> 0) (flowlabel st)),
      (''title'', cJSON_CreateString (title t)),
      (''extra_data'', cJSON_CreateString (extra_data t)),
      (''congestion'', cJSON_CreateString (congestion t)),
      (''congestion_used'', cJSON_CreateString (congestion_used t)),
      (''get_server_output'', num_if (get_server_output t \<noteq> 0) (get_server_output t)),
      (''udp_counters_64bit'', num_if (udp_counters_64bit t \<noteq> 0) (udp_counters_64bit t)),
      (''repeating_payload'', num_if (repeating_payload t \<noteq> 0) (repeating_payload t)),
      (''client_version'', cJSON_CreateString (Some IPERF_VERSION))])"

definition add_member :: "string \<times> cJSON option \<Rightarrow> cJSON \<Rightarrow> cJSON" where
  "add_member m j = (case m of (name, None) \<Rightarrow> j | (name, Some item) \<Rightarrow> cJSON_AddItemToObject j name item)"

definition params_json :: "iperf_test \<Rightarrow> cJSON" where
  "params_json t = fold add_member (param_list t) cJSON_CreateObject"

definition send_parameters :: "'w kernel \<Rightarrow> iperf_test \<Rightarrow> ('w sys, int) state" where
  "send_parameters K t = do {
     r \<leftarrow> JSON_write K (ctrl_sck t) (params_json t);
     if r < 0 then fail_with IESENDPARAMS (-1) else ret 0
   }"

section \<open>Receiving the parameters\<close>

definition on_item :: "cJSON \<Rightarrow> string \<Rightarrow> (cJSON \<Rightarrow> iperf_test \<Rightarrow> iperf_test) \<Rightarrow> iperf_test \<Rightarrow> iperf_test" where
  "on_item j name f t = (case cJSON_GetObjectItem j name of None \<Rightarrow> t | Some j_p \<Rightarrow> f j_p t)"

text \<open>Assigning a 64-bit \<open>valueint\<close> to an \<open>int\<close> keeps its low bits.\<close>

abbreviation int_item :: "cJSON \<Rightarrow> int" where
  "int_item j \<equiv> to_int32 (valueint j)"

abbreviation u64_item :: "cJSON \<Rightarrow> u64" where
  "u64_item j \<equiv> word_of_int (valueint j)"

text \<open>\<open>strdup(j_p->valuestring)\<close>: there is no result when the member is not a string.\<close>

definition on_string :: "cJSON \<Rightarrow> string \<Rightarrow> (string \<Rightarrow> iperf_test \<Rightarrow> iperf_test) \<Rightarrow> iperf_test \<Rightarrow> iperf_test option" where
  "on_string j name f t = (case cJSON_GetObjectItem j name of None \<Rightarrow> Some t
     | Some j_p \<Rightarrow> map_option (\<lambda>s. f s t) (valuestring j_p))"

definition apply_numbers :: "cJSON \<Rightarrow> iperf_test \<Rightarrow> iperf_test" where
  "apply_numbers j t =
     (let t = on_item j ''tcp'' (\<lambda>p t. snd (set_protocol Ptcp t)) t;
          t = on_item j ''udp'' (\<lambda>p t. snd (set_protocol Pudp t)) t;
          t = on_item j ''sctp'' (\<lambda>p t. snd (set_protocol Psctp t)) t;
          t = on_item j ''omit'' (\<lambda>p t. t\<lparr>omit := int_item p\<rparr>) t;
          t = on_item j ''server_affinity'' (\<lambda>p t. t\<lparr>server_affinity := int_item p\<rparr>) t;
          t = on_item j ''time'' (\<lambda>p t. t\<lparr>duration := int_item p\<rparr>) t;
          t = on_item j ''num'' (\<lambda>p. upd_settings (bytes_update (\<lambda>_. u64_item p))) t;
          t = on_item j ''blockcount'' (\<lambda>p. upd_settings (blocks_update (\<lambda>_. u64_item p))) t;
          t = on_item j ''MSS'' (\<lambda>p. upd_settings (mss_update (\<lambda>_. int_item p))) t;
          t = on_item j ''nodelay'' (\<lambda>p t. t\<lparr>no_delay := 1\<rparr>) t;
          t = on_item j ''parallel'' (\<lambda>p t. t\<lparr>num_streams := int_item p\<rparr>) t;
          t = on_item j ''reverse'' (\<lambda>p. iperf_set_test_reverse 1) t;
          t = on_item j ''bidirectional'' (\<lambda>p. iperf_set_test_bidirectional 1) t;
          t = on_item j ''window'' (\<lambda>p. upd_settings (socket_bufsize_update (\<lambda>_. int_item p))) t;
          t = on_item j ''len'' (\<lambda>p. upd_settings (blksize_update (\<lambda>_. int_item p))) t;
          t = on_item j ''bandwidth'' (\<lambda>p. upd_settings (rate_update (\<lambda>_. u64_item p))) t;
          t = on_item j ''fqrate'' (\<lambda>p. upd_settings (fqrate_update (\<lambda>_. u64_item p))) t;
          t = on_item j ''pacing_timer'' (\<lambda>p. upd_settings (pacing_timer_update (\<lambda>_. int_item p))) t;
          t = on_item j ''burst'' (\<lambda>p. upd_settings (burst_update (\<lambda>_. int_item p))) t;
          t = on_item j ''TOS'' (\<lambda>p. upd_settings (tos_update (\<lambda>_. int_item p))) t
      in on_item j ''flowlabel'' (\<lambda>p. upd_settings (flowlabel_update (\<lambda>_. int_item p))) t)"

definition apply_strings :: "cJSON \<Rightarrow> iperf_test \<Rightarrow> iperf_test option" where
  "apply_strings j t = do {
     t \<leftarrow> on_string j ''title'' (\<lambda>s t. t\<lparr>title := Some s\<rparr>) t;
     t \<leftarrow> on_string j ''extra_data'' (\<lambda>s t. t\<lparr>extra_data := Some s\<rparr>) t;
     t \<leftarrow> on_string j ''congestion'' (\<lambda>s t. t\<lparr>congestion := Some s\<rparr>) t;
     on_string j ''congestion_used'' (\<lambda>s t. t\<lparr>congestion_used := Some s\<rparr>) t
   }"

definition apply_flags :: "cJSON \<Rightarrow> iperf_test \<Rightarrow> iperf_test" where
  "apply_flags j t =
     (let t = on_item j ''get_server_output'' (\<lambda>p. iperf_set_test_get_server_output 1) t;
          t = on_item j ''udp_counters_64bit'' (\<lambda>p. iperf_set_test_udp_counters_64bit 1) t;
          t = on_item j ''repeating_payload'' (\<lambda>p t. t\<lparr>repeating_payload := 1\<rparr>) t
      in if mode t \<noteq> RECEIVER \<and> prot_id (protocol t) = Ptcp \<and> has_tcpinfo_retransmits \<noteq> 0
         then t\<lparr>sender_has_retransmits := 1\<rparr> else t)"

definition apply_params :: "cJSON \<Rightarrow> iperf_test \<Rightarrow> iperf_test option" where
  "apply_params j t = map_option (apply_flags j) (apply_strings j (apply_numbers j t))"

text \<open>
  \<open>Crash\<close> stands for an access outside of any object, here the overrun in \<open>JSON_read\<close> and the
  null pointer handed to \<open>strdup\<close>, \<open>Exits\<close> for a call of \<open>exit\<close>. Naming a protocol the program lacks sets \<open>i_errno\<close> only.
\<close>

datatype 'a outcome = Crash | Exits | Returns 'a

definition get_parameters :: "'w kernel \<Rightarrow> iperf_test \<Rightarrow> ('w sys, (int \<times> iperf_test) outcome) state" where
  "get_parameters K t = do {
     (overrun, j) \<leftarrow> JSON_read K (ctrl_sck t);
     if overrun then ret Crash
     else (case j of
         None \<Rightarrow> fail_with IERECVPARAMS (Returns (-1, t))
       | Some j \<Rightarrow> do {
           do_if (cJSON_GetObjectItem j ''sctp'' \<noteq> None) (set_i_errno IEPROTOCOL);
           ret (case apply_params j t of None \<Rightarrow> Crash | Some t \<Rightarrow> Returns (0, t))
         })
   }"

end
