(* ===== verification/Params_Props.thy ===== *)
theory Params_Props
  imports Params Json_Props Udp_Props Api_Options_Props
begin

text \<open>
  The control connection: what \<open>JSON_write\<close> puts on a connection that keeps the order of its
  bytes, \<open>JSON_read\<close> takes off it, and the server ends up with the parameters the client was
  configured with.
\<close>

section \<open>Connections\<close>

text \<open>
  \<open>in_order K fd inp\<close>: \<open>inp\<close> are the bytes still to be read from the descriptor; a \<open>read\<close> takes a
  non-empty beginning of them. \<open>takes_all K fd\<close>: the descriptor is blocking and \<open>write\<close> is never
  interrupted, so it always accepts something.
\<close>

definition in_order :: "'w kernel \<Rightarrow> int \<Rightarrow> ('w \<Rightarrow> u8 list) \<Rightarrow> bool" where
  "in_order K fd inp \<longleftrightarrow> (\<forall>n w. 0 < n \<longrightarrow> inp w \<noteq> [] \<longrightarrow>
     (\<exists>k w'. 0 < k \<and> k \<le> n \<and> k \<le> length (inp w) \<and> k_read K fd n w = (Ok (take k (inp w)), w') \<and> inp w' = drop k (inp w)))"

definition takes_all :: "'w kernel \<Rightarrow> int \<Rightarrow> bool" where
  "takes_all K fd \<longleftrightarrow> (\<forall>bs w. bs \<noteq> [] \<longrightarrow> (\<exists>n w'. 0 < n \<and> n \<le> length bs \<and> k_write K fd bs w = (Ok n, w')))"

lemma Nread_loop_stream:
  assumes K: "in_order K fd inp" and "nleft \<le> length (inp (world s))" "nleft \<le> cnt"
  shows "\<exists>w. Nread_loop K fd cnt nleft buf s = ((to_int32 (int cnt), buf @ take nleft (inp (world s))), s\<lparr>world := w\<rparr>)
    \<and> inp w = drop nleft (inp (world s))"
  using assms(2,3)
proof (induction nleft arbitrary: buf s rule: less_induct)
  case (less nleft)
  show ?case
  proof (cases "nleft = 0")
    case True
    then show ?thesis by (subst Nread_loop.simps) (auto intro!: exI [of _ "world s"])
  next
    case False
    then have "inp (world s) \<noteq> []" using less.prems by auto
    then obtain k w' where k: "0 < k" "k \<le> nleft" "k \<le> length (inp (world s))"
        "k_read K fd nleft (world s) = (Ok (take k (inp (world s))), w')" "inp w' = drop k (inp (world s))"
      using K False unfolding in_order_def by blast
    let ?s = "s\<lparr>world := w'\<rparr>"
    have IH: "\<exists>w. Nread_loop K fd cnt (nleft - k) (buf @ take k (inp (world s))) ?s =
        ((to_int32 (int cnt), (buf @ take k (inp (world s))) @ take (nleft - k) (inp (world ?s))), ?s\<lparr>world := w\<rparr>) \<and>
        inp w = drop (nleft - k) (inp (world ?s))"
      using k less.prems by (intro less.IH) auto
    have "take k (inp (world s)) @ take (nleft - k) (drop k (inp (world s))) = take nleft (inp (world s))"
      using k(2) by (metis le_add_diff_inverse take_add)
    moreover have "Nread_loop K fd cnt nleft buf s = Nread_loop K fd cnt (nleft - k) (buf @ take k (inp (world s))) ?s"
      using k False by (subst Nread_loop.simps) (simp add: syscall_def)
    ultimately show ?thesis using IH k by (simp add: k(5))
  qed
qed

lemma Nread_stream:
  assumes "in_order K fd inp" "n \<le> length (inp (world s))" "n < 2147483648"
  shows "\<exists>w. run_state (Nread K fd n) s = ((int n, take n (inp (world s))), s\<lparr>world := w\<rparr>) \<and> inp w = drop n (inp (world s))"
  using Nread_loop_stream [OF assms(1,2) order_refl, of "[]"] assms(3) by (simp add: Nread_def to_int32_len)

lemma Nwrite_loop_all:
  assumes "takes_all K fd" "cnt < 2147483648"
  shows "\<exists>cs w. Nwrite_loop K fd cnt buf s = (int cnt, s\<lparr>world := w, elog := elog s @ map (Wrote fd) cs\<rparr>) \<and> concat cs = buf"
proof (induction "length buf" arbitrary: buf s rule: less_induct)
  case less
  show ?case
  proof (cases "buf = []")
    case True
    then show ?thesis using assms(2) by (subst Nwrite_loop.simps) (auto simp: to_int32_len intro!: exI [of _ "[]"] exI [of _ "world s"])
  next
    case False
    then obtain n w' where n: "0 < n" "n \<le> length buf" "k_write K fd buf (world s) = (Ok n, w')"
      using assms(1) unfolding takes_all_def by blast
    let ?s = "s\<lparr>world := w', elog := elog s @ [Wrote fd (take n buf)]\<rparr>"
    obtain cs w where cs: "Nwrite_loop K fd cnt (drop n buf) ?s = (int cnt, ?s\<lparr>world := w, elog := elog ?s @ map (Wrote fd) cs\<rparr>)"
        "concat cs = drop n buf" using less [of "drop n buf" ?s] n False by auto
    have "Nwrite_loop K fd cnt buf s = Nwrite_loop K fd cnt (drop n buf) ?s"
      using n False by (subst Nwrite_loop.simps) (simp add: syscall_def)
    then show ?thesis using cs by (intro exI [of _ "take n buf # cs"] exI [of _ w]) simp
  qed
qed

lemma Nwrite_all:
  assumes "takes_all K fd" "length buf < 2147483648"
  shows "\<exists>cs w. run_state (Nwrite K fd buf) s = (int (length buf), s\<lparr>world := w, elog := elog s @ map (Wrote fd) cs\<rparr>) \<and> concat cs = buf"
  using Nwrite_loop_all [OF assms] by (simp add: Nwrite_def)

section \<open>Frames\<close>

lemma bytes_str_bytes [simp]: "bytes_str (str_bytes s) = s"
proof -
  have "char_of (unat (of_nat (of_char c) :: u8)) = c" for c
  proof -
    have "of_char c < (256 :: nat)" by simp
    then have "unat (of_nat (of_char c) :: u8) = of_char c" by (simp add: unat_of_nat)
    then show ?thesis by simp
  qed
  then show ?thesis by (simp add: bytes_str_def str_bytes_def map_idI)
qed

lemma length_str_bytes [simp]: "length (str_bytes s) = length s"
  by (simp add: str_bytes_def)

definition frame :: "string \<Rightarrow> u8 list" where
  "frame s = be_bytes 4 (length s) @ str_bytes s"

lemma JSON_write_frame:
  assumes "takes_all K fd" "cJSON_PrintUnformatted j = Some str" "length str < 2147483648"
  shows "\<exists>cs w. run_state (JSON_write K fd j) s = (0, s\<lparr>world := w, elog := elog s @ map (Wrote fd) cs\<rparr>) \<and> concat cs = frame str"
proof -
  have len: "unat (of_nat (length str) :: u32) = length str" using assms(3) by (simp add: unat_of_nat)
  obtain c1 w1 where c1: "run_state (Nwrite K fd (be_bytes 4 (length str))) s = (4, s\<lparr>world := w1, elog := elog s @ map (Wrote fd) c1\<rparr>)"
      "concat c1 = be_bytes 4 (length str)" using Nwrite_all [OF assms(1), of "be_bytes 4 (length str)" s] by auto
  obtain c2 w2 where c2: "run_state (Nwrite K fd (str_bytes str)) (s\<lparr>world := w1, elog := elog s @ map (Wrote fd) c1\<rparr>) =
      (int (length str), s\<lparr>world := w2, elog := elog s @ map (Wrote fd) (c1 @ c2)\<rparr>)" "concat c2 = str_bytes str"
    using Nwrite_all [OF assms(1), of "str_bytes str" "s\<lparr>world := w1, elog := elog s @ map (Wrote fd) c1\<rparr>"] assms(3) by auto
  have "run_state (JSON_write K fd j) s = (0, s\<lparr>world := w2, elog := elog s @ map (Wrote fd) (c1 @ c2)\<rparr>)"
    using c1(1) c2(1) by (simp add: JSON_write_def assms(2) Let_def len)
  moreover have "concat (c1 @ c2) = frame str" by (simp add: c1(2) c2(2) frame_def)
  ultimately show ?thesis by blast
qed

lemma JSON_read_frame:
  assumes K: "in_order K fd inp" and m: "\<And>n w. k_malloc K n w = (True, w)"
    and inp: "inp (world s) = frame str @ rest" "length str < 2147483648"
  shows "\<exists>w. run_state (JSON_read K fd) s = ((False, cJSON_Parse str), s\<lparr>world := w\<rparr>) \<and> inp w = rest"
proof -
  have len: "be_val (be_bytes 4 (length str)) = length str" using inp(2) by (simp add: be_val_bytes)
  obtain w1 where w1: "run_state (Nread K fd 4) s = ((4, be_bytes 4 (length str)), s\<lparr>world := w1\<rparr>)"
      "inp w1 = str_bytes str @ rest" using Nread_stream [OF K, of 4 s] inp by (auto simp: frame_def)
  obtain w2 where w2: "run_state (Nread K fd (length str)) (s\<lparr>world := w1\<rparr>) = ((int (length str), str_bytes str), s\<lparr>world := w2\<rparr>)"
      "inp w2 = rest" using Nread_stream [OF K, of "length str" "s\<lparr>world := w1\<rparr>"] inp(2) w1(2) by auto
  have u: "unat (of_nat (length str) :: u32) = length str" using inp(2) by (simp add: unat_of_nat)
  have "(of_nat (length str) :: u32) + 1 = of_nat (Suc (length str))" by simp
  then have u1: "unat ((of_nat (length str) :: u32) + 1) = length str + 1" using inp(2) by (simp only: unat_of_nat) simp
  show ?thesis using w1(1) w2
    by (intro exI [of _ w2]) (simp add: JSON_read_def len u u1 sys_malloc_def m Let_def)
qed

section \<open>Tables of members\<close>

text \<open>
  An object built from a table of members whose names differ by more than their case: the
  parser on the other side finds each of them.
\<close>

lemma fold_add_member:
  "fold add_member tab (CJ ty vi vd vs nm ch) =
     CJ ty vi vd vs nm (ch @ concat (map (\<lambda>(n, it). case it of None \<Rightarrow> [] | Some j \<Rightarrow> [set_string n j]) tab))"
  by (induction tab arbitrary: ch)
     (auto simp: add_member_def cJSON_AddItemToObject_def cJSON_AddItemToObjectCS_def split: option.splits)

definition keys :: "(string \<times> 'a) list \<Rightarrow> string list" where
  "keys tab = map (map c_tolower \<circ> fst) tab"

lemma jstring_set_string [simp]: "jstring (set_string n j) = Some n"
  by (cases j) simp

lemma set_string_twice [simp]: "set_string n (set_string m j) = set_string n j"
  by (cases j) simp

lemma set_string_sel [simp]: "valueint (set_string n j) = valueint j" "valuestring (set_string n j) = valuestring j"
    "valuedouble (set_string n j) = valuedouble j" "child (set_string n j) = child j" "jtype (set_string n j) = jtype j"
  by (cases j, simp)+

lemma lookup_members:
  assumes "distinct (keys tab)" "(n, it) \<in> set tab"
  shows "cJSON_GetObjectItem (parsed (fold add_member tab cJSON_CreateObject)) n = map_option (\<lambda>j. set_string n (parsed j)) it"
proof -
  let ?ms = "\<lambda>tab. map (\<lambda>j. set_string (the (jstring j)) (parsed j)) (concat (map (\<lambda>(n, it). case it of None \<Rightarrow> [] | Some j \<Rightarrow> [set_string n j]) tab))"
  have absent: "List.find (\<lambda>j. case_insensitive_strcmp n (jstring j)) (?ms tab) = None"
    if "map c_tolower n \<notin> set (keys tab)" for tab
    using that by (induction tab) (auto simp: keys_def case_insensitive_strcmp_def strcaseeq_def split: option.splits)
  have "List.find (\<lambda>j. case_insensitive_strcmp n (jstring j)) (?ms tab) = map_option (\<lambda>j. set_string n (parsed j)) it"
    using assms
  proof (induction tab)
    case (Cons m tab)
    obtain n' it' where m: "m = (n', it')" by force
    show ?case
    proof (cases "n' = n")
      case True
      then have "it' = it" using Cons.prems by (force simp: m keys_def)
      moreover have "map c_tolower n \<notin> set (keys tab)" using Cons.prems(1) by (simp add: m True keys_def)
      ultimately show ?thesis using absent [of tab]
        by (cases it) (simp_all add: m True case_insensitive_strcmp_def strcaseeq_def)
    next
      case False
      then have i: "(n, it) \<in> set tab" using Cons.prems(2) by (auto simp: m)
      then have "map c_tolower n \<in> set (keys tab)" by (force simp: keys_def)
      then have "map c_tolower n \<noteq> map c_tolower n'" using Cons.prems(1) by (simp add: m keys_def) metis
      then show ?thesis using Cons.IH [OF _ i] Cons.prems(1)
        by (cases it') (simp_all add: m keys_def case_insensitive_strcmp_def strcaseeq_def)
    qed
  qed simp
  then show ?thesis
    by (simp add: fold_add_member cJSON_CreateObject_def cJSON_GetObjectItem_def get_object_item_def)
qed

lemma json_ok_members:
  assumes "\<And>n j. (n, Some j) \<in> set tab \<Longrightarrow> json_ok m j \<and> CHR 0x00 \<notin> set n"
  shows "json_ok (Suc m) (fold add_member tab cJSON_CreateObject)"
  using assms by (fastforce simp: fold_add_member cJSON_CreateObject_def list_all_iff c_str_ok_def split: option.splits)

section \<open>The parameters\<close>

lemma params_distinct: "distinct (keys (param_list t))"
proof -
  have "keys (param_list t) = map (map c_tolower)
    [''tcp'', ''udp'', ''sctp'', ''omit'', ''server_affinity'', ''time'', ''num'', ''blockcount'', ''MSS'', ''nodelay'',
     ''parallel'', ''reverse'', ''bidirectional'', ''window'', ''len'', ''bandwidth'', ''fqrate'', ''pacing_timer'',
     ''burst'', ''TOS'', ''flowlabel'', ''title'', ''extra_data'', ''congestion'', ''congestion_used'',
     ''get_server_output'', ''udp_counters_64bit'', ''repeating_payload'', ''client_version'']"
    by (simp only: keys_def param_list_def Let_def list.map fst_conv o_apply)
  also have "distinct \<dots>" by code_simp
  finally show ?thesis .
qed

lemma param_item:
  "(n, it) \<in> set (param_list t) \<Longrightarrow>
     cJSON_GetObjectItem (parsed (params_json t)) n = map_option (\<lambda>j. set_string n (parsed j)) it"
  unfolding params_json_def by (rule lookup_members [OF params_distinct])

lemma parsed_num [simp]: "parsed (cJSON_CreateNumber d) = cJSON_CreateNumber d" "valueint (cJSON_CreateNumber d) = sat_int64 d"
  by (simp_all add: cJSON_CreateNumber_def)

lemma on_param_num:
  assumes "(n, num_if b v) \<in> set (param_list t)"
  shows "on_item (parsed (params_json t)) n f s = (if b then f (set_string n (cJSON_CreateNumber (d_of_int v))) s else s)"
  using param_item [OF assms] by (simp add: on_item_def num_if_def)

lemma on_param_true:
  assumes "(n, true_if b) \<in> set (param_list t)"
  shows "on_item (parsed (params_json t)) n f s = (if b then f (set_string n (parsed cJSON_CreateTrue)) s else s)"
  using param_item [OF assms] by (simp add: on_item_def true_if_def)

lemma on_param_string:
  assumes "(n, cJSON_CreateString v) \<in> set (param_list t)"
  shows "on_string (parsed (params_json t)) n f s = Some (case v of None \<Rightarrow> s | Some x \<Rightarrow> f x s)"
  using param_item [OF assms] by (cases v) (simp_all add: on_string_def cJSON_CreateString_def)

text \<open>A number of at most 53 bits crosses the connection unchanged.\<close>

lemma sat_exact: "\<bar>v\<bar> \<le> 2 ^ 53 \<Longrightarrow> sat_int64 (d_of_int v) = v"
proof -
  assume v: "\<bar>v\<bar> \<le> 2 ^ 53"
  have "(2 :: rat) ^ 53 < d_of_int LLONG_MAX" "d_of_int LLONG_MIN < - (2 ^ 53)" by code_simp+
  moreover have "\<bar>rat_of_int v\<bar> \<le> 2 ^ 53" using v by (metis of_int_abs of_int_le_iff of_int_numeral of_int_power)
  ultimately show ?thesis using d_of_int_id [OF v] by (simp add: sat_int64_def d_to_int_def abs_if split: if_splits)
qed

text \<open>
  \<open>int_range\<close> and \<open>double_range\<close>: what an \<open>int\<close> holds, and the 64-bit numbers a \<open>double\<close> holds. The
  text of a title and so on is a C string of less than eight megabytes.
\<close>

definition int_range :: "int \<Rightarrow> bool" where "int_range v \<longleftrightarrow> - (2 ^ 31) \<le> v \<and> v < 2 ^ 31"

definition double_range :: "u64 \<Rightarrow> bool" where "double_range w \<longleftrightarrow> uint w \<le> 2 ^ 53"

definition opt_c_str :: "string option \<Rightarrow> bool" where
  "opt_c_str s = (case s of None \<Rightarrow> True | Some t \<Rightarrow> CHR 0x00 \<notin> set t \<and> length t < 8388608)"

definition params_sendable :: "iperf_test \<Rightarrow> bool" where
  "params_sendable t \<longleftrightarrow> (let st = settings t in
     list_all int_range [omit t, server_affinity t, duration t, mss st, num_streams t, socket_bufsize st, blksize st,
       pacing_timer st, burst st, tos st, flowlabel st, get_server_output t, udp_counters_64bit t, repeating_payload t] \<and>
     list_all double_range [bytes st, blocks st, rate st, fqrate st] \<and>
     list_all opt_c_str [title t, extra_data t, congestion t, congestion_used t])"

lemma int_item_exact: "int_range v \<Longrightarrow> to_int32 (sat_int64 (d_of_int v)) = v"
  using sat_exact [of v] by (auto simp: int_range_def abs_if split: if_splits)

lemma u64_item_exact: "double_range w \<Longrightarrow> word_of_int (sat_int64 (d_of_int (uint w))) = w"
  by (simp add: double_range_def sat_exact)

text \<open>A setting that is not sent keeps the value the server has.\<close>

definition or_else :: "'a::zero \<Rightarrow> 'a \<Rightarrow> 'a" where "or_else x y = (if x = 0 then y else x)"

definition opt_else :: "'a option \<Rightarrow> 'a option \<Rightarrow> 'a option" where "opt_else x y = (case x of None \<Rightarrow> y | Some _ \<Rightarrow> x)"

definition negotiated_settings :: "iperf_settings \<Rightarrow> iperf_settings \<Rightarrow> iperf_settings" where
  "negotiated_settings c s = s\<lparr>bytes := or_else (bytes c) (bytes s), blocks := or_else (blocks c) (blocks s),
     mss := or_else (mss c) (mss s), socket_bufsize := or_else (socket_bufsize c) (socket_bufsize s),
     blksize := or_else (blksize c) (blksize s), rate := or_else (rate c) (rate s), fqrate := or_else (fqrate c) (fqrate s),
     pacing_timer := or_else (pacing_timer c) (pacing_timer s), burst := or_else (burst c) (burst s),
     tos := or_else (tos c) (tos s), flowlabel := or_else (flowlabel c) (flowlabel s)\<rparr>"

text \<open>The direction of the data at the server: the opposite of the client's.\<close>

definition negotiated_mode :: "iperf_test \<Rightarrow> iperf_mode" where
  "negotiated_mode c = (if bidirectional c \<noteq> 0 then BIDIRECTIONAL else if reverse c \<noteq> 0 then SENDER else RECEIVER)"

definition negotiated :: "iperf_test \<Rightarrow> iperf_test \<Rightarrow> iperf_test \<Rightarrow> bool" where
  "negotiated c s s' \<longleftrightarrow>
     prot_id (protocol s') = prot_id (protocol c) \<and> mode s' = negotiated_mode c \<and>
     settings s' = negotiated_settings (settings c) (settings s) \<and>
     omit s' = omit c \<and> duration s' = duration c \<and> num_streams s' = num_streams c \<and>
     server_affinity s' = (if server_affinity c = -1 then server_affinity s else server_affinity c) \<and>
     title s' = opt_else (title c) (title s) \<and> extra_data s' = opt_else (extra_data c) (extra_data s) \<and>
     congestion s' = opt_else (congestion c) (congestion s) \<and>
     congestion_used s' = opt_else (congestion_used c) (congestion_used s) \<and>
     (no_delay s' \<noteq> 0) = (no_delay c \<noteq> 0 \<or> no_delay s \<noteq> 0) \<and>
     (get_server_output s' \<noteq> 0) = (get_server_output c \<noteq> 0 \<or> get_server_output s \<noteq> 0) \<and>
     (udp_counters_64bit s' \<noteq> 0) = (udp_counters_64bit c \<noteq> 0 \<or> udp_counters_64bit s \<noteq> 0) \<and>
     (repeating_payload s' \<noteq> 0) = (repeating_payload c \<noteq> 0 \<or> repeating_payload s \<noteq> 0) \<and>
     sender_has_retransmits s' = (if negotiated_mode c \<noteq> RECEIVER \<and> prot_id (protocol c) = Ptcp then 1 else 0)"

definition server_ready :: "iperf_test \<Rightarrow> bool" where
  "server_ready s \<longleftrightarrow> role s = CHR ''s'' \<and> mode s = RECEIVER \<and> sender_has_retransmits s = 0 \<and>
     get_protocol Ptcp s \<noteq> None \<and> get_protocol Pudp s \<noteq> None"

text \<open>What each member does on the other side.\<close>

abbreviation sent :: "iperf_test \<Rightarrow> cJSON" where "sent c \<equiv> parsed (params_json c)"

lemma or_else_simps: "v = 0 \<Longrightarrow> or_else v = (\<lambda>x. x)" "v \<noteq> 0 \<Longrightarrow> or_else v = (\<lambda>x. v)"
  by (simp_all add: or_else_def fun_eq_iff)

lemma sent_int_setting:
  assumes "(n, num_if (v \<noteq> 0) v) \<in> set (param_list c)" "int_range v" "\<And>s. U (\<lambda>x. x) s = s"
  shows "on_item (sent c) n (\<lambda>p. upd_settings (U (\<lambda>_. int_item p))) t = upd_settings (U (or_else v)) t"
  using assms by (cases "v = 0") (simp_all add: on_param_num int_item_exact or_else_simps)

lemma sent_u64_setting:
  assumes "(n, num_if (v \<noteq> 0) (uint v)) \<in> set (param_list c)" "double_range v" "\<And>s. U (\<lambda>x. x) s = s"
  shows "on_item (sent c) n (\<lambda>p. upd_settings (U (\<lambda>_. u64_item p))) t = upd_settings (U (or_else v)) t"
  using assms by (cases "v = 0") (simp_all add: on_param_num u64_item_exact or_else_simps)

lemma sent_settings:
  assumes "params_sendable c"
  shows "on_item (sent c) ''num'' (\<lambda>p. upd_settings (bytes_update (\<lambda>_. u64_item p))) t =
      upd_settings (bytes_update (or_else (bytes (settings c)))) t"
    and "on_item (sent c) ''blockcount'' (\<lambda>p. upd_settings (blocks_update (\<lambda>_. u64_item p))) t =
      upd_settings (blocks_update (or_else (blocks (settings c)))) t"
    and "on_item (sent c) ''MSS'' (\<lambda>p. upd_settings (mss_update (\<lambda>_. int_item p))) t =
      upd_settings (mss_update (or_else (mss (settings c)))) t"
    and "on_item (sent c) ''window'' (\<lambda>p. upd_settings (socket_bufsize_update (\<lambda>_. int_item p))) t =
      upd_settings (socket_bufsize_update (or_else (socket_bufsize (settings c)))) t"
    and "on_item (sent c) ''len'' (\<lambda>p. upd_settings (blksize_update (\<lambda>_. int_item p))) t =
      upd_settings (blksize_update (or_else (blksize (settings c)))) t"
    and "on_item (sent c) ''bandwidth'' (\<lambda>p. upd_settings (rate_update (\<lambda>_. u64_item p))) t =
      upd_settings (rate_update (or_else (rate (settings c)))) t"
    and "on_item (sent c) ''fqrate'' (\<lambda>p. upd_settings (fqrate_update (\<lambda>_. u64_item p))) t =
      upd_settings (fqrate_update (or_else (fqrate (settings c)))) t"
    and "on_item (sent c) ''pacing_timer'' (\<lambda>p. upd_settings (pacing_timer_update (\<lambda>_. int_item p))) t =
      upd_settings (pacing_timer_update (or_else (pacing_timer (settings c)))) t"
    and "on_item (sent c) ''burst'' (\<lambda>p. upd_settings (burst_update (\<lambda>_. int_item p))) t =
      upd_settings (burst_update (or_else (burst (settings c)))) t"
    and "on_item (sent c) ''TOS'' (\<lambda>p. upd_settings (tos_update (\<lambda>_. int_item p))) t =
      upd_settings (tos_update (or_else (tos (settings c)))) t"
    and "on_item (sent c) ''flowlabel'' (\<lambda>p. upd_settings (flowlabel_update (\<lambda>_. int_item p))) t =
      upd_settings (flowlabel_update (or_else (flowlabel (settings c)))) t"
  using assms unfolding params_sendable_def Let_def list.pred_inject
  by (intro sent_u64_setting sent_int_setting; simp add: param_list_def Let_def)+

lemma sent_int:
  assumes "(n, num_if b v) \<in> set (param_list c)" "int_range v"
  shows "on_item (sent c) n (\<lambda>p. f (int_item p)) t = (if b then f v t else t)"
  using assms by (simp add: on_param_num int_item_exact)

lemma sent_values:
  assumes "params_sendable c"
  shows "on_item (sent c) ''omit'' (\<lambda>p t. t\<lparr>omit := int_item p\<rparr>) t = t\<lparr>omit := omit c\<rparr>"
    and "on_item (sent c) ''time'' (\<lambda>p t. t\<lparr>duration := int_item p\<rparr>) t = t\<lparr>duration := duration c\<rparr>"
    and "on_item (sent c) ''parallel'' (\<lambda>p t. t\<lparr>num_streams := int_item p\<rparr>) t = t\<lparr>num_streams := num_streams c\<rparr>"
    and "on_item (sent c) ''server_affinity'' (\<lambda>p t. t\<lparr>server_affinity := int_item p\<rparr>) t =
      (if server_affinity c \<noteq> -1 then t\<lparr>server_affinity := server_affinity c\<rparr> else t)"
  using assms sent_int [of "''omit''" True "omit c" c "\<lambda>v t. t\<lparr>omit := v\<rparr>"] sent_int [of "''time''" True "duration c" c "\<lambda>v t. t\<lparr>duration := v\<rparr>"]
    sent_int [of "''parallel''" True "num_streams c" c "\<lambda>v t. t\<lparr>num_streams := v\<rparr>"]
    sent_int [of "''server_affinity''" "server_affinity c \<noteq> -1" "server_affinity c" c "\<lambda>v t. t\<lparr>server_affinity := v\<rparr>"]
  unfolding params_sendable_def Let_def list.pred_inject by (simp_all add: param_list_def Let_def)

lemma sent_flags:
  "on_item (sent c) ''tcp'' f t = (if prot_id (protocol c) = Ptcp then f (set_string ''tcp'' (parsed cJSON_CreateTrue)) t else t)"
  "on_item (sent c) ''udp'' f t = (if prot_id (protocol c) = Pudp then f (set_string ''udp'' (parsed cJSON_CreateTrue)) t else t)"
  "on_item (sent c) ''sctp'' f t = (if prot_id (protocol c) = Psctp then f (set_string ''sctp'' (parsed cJSON_CreateTrue)) t else t)"
  "on_item (sent c) ''nodelay'' f t = (if no_delay c \<noteq> 0 then f (set_string ''nodelay'' (parsed cJSON_CreateTrue)) t else t)"
  "on_item (sent c) ''reverse'' f t = (if reverse c \<noteq> 0 then f (set_string ''reverse'' (parsed cJSON_CreateTrue)) t else t)"
  "on_item (sent c) ''bidirectional'' f t = (if bidirectional c \<noteq> 0 then f (set_string ''bidirectional'' (parsed cJSON_CreateTrue)) t else t)"
  by (rule on_param_true, simp add: param_list_def Let_def)+

lemma sent_counts:
  "on_item (sent c) ''get_server_output'' (\<lambda>_. f) t = (if get_server_output c \<noteq> 0 then f t else t)"
  "on_item (sent c) ''udp_counters_64bit'' (\<lambda>_. f) t = (if udp_counters_64bit c \<noteq> 0 then f t else t)"
  "on_item (sent c) ''repeating_payload'' (\<lambda>_. f) t = (if repeating_payload c \<noteq> 0 then f t else t)"
  using on_param_num [of "''get_server_output''" "get_server_output c \<noteq> 0" "get_server_output c" c "\<lambda>_. f" t]
    on_param_num [of "''udp_counters_64bit''" "udp_counters_64bit c \<noteq> 0" "udp_counters_64bit c" c "\<lambda>_. f" t]
    on_param_num [of "''repeating_payload''" "repeating_payload c \<noteq> 0" "repeating_payload c" c "\<lambda>_. f" t]
  by (simp_all add: param_list_def Let_def)

lemma sent_strings:
  "on_string (sent c) ''title'' f t = Some (case title c of None \<Rightarrow> t | Some x \<Rightarrow> f x t)"
  "on_string (sent c) ''extra_data'' f t = Some (case extra_data c of None \<Rightarrow> t | Some x \<Rightarrow> f x t)"
  "on_string (sent c) ''congestion'' f t = Some (case congestion c of None \<Rightarrow> t | Some x \<Rightarrow> f x t)"
  "on_string (sent c) ''congestion_used'' f t = Some (case congestion_used c of None \<Rightarrow> t | Some x \<Rightarrow> f x t)"
  by (rule on_param_string, simp add: param_list_def Let_def)+

text \<open>The direction and the protocol after the numbers, then the strings and the rest.\<close>

lemma get_protocol_id: "get_protocol i s = Some p \<Longrightarrow> prot_id p = i"
  by (auto simp: get_protocol_def find_Some_iff)

lemma settings_sent:
  "s\<lparr>bytes := or_else (bytes c) (bytes s), blocks := or_else (blocks c) (blocks s), mss := or_else (mss c) (mss s),
     socket_bufsize := or_else (socket_bufsize c) (socket_bufsize s), blksize := or_else (blksize c) (blksize s),
     rate := or_else (rate c) (rate s), fqrate := or_else (fqrate c) (fqrate s),
     pacing_timer := or_else (pacing_timer c) (pacing_timer s), burst := or_else (burst c) (burst s),
     tos := or_else (tos c) (tos s), flowlabel := or_else (flowlabel c) (flowlabel s)\<rparr> = negotiated_settings c s"
  by (simp add: negotiated_settings_def)

lemma set_protocol_sent:
  assumes "prot_id (protocol c) = Ptcp \<or> prot_id (protocol c) = Pudp" "server_ready s"
  shows "\<exists>p. prot_id p = prot_id (protocol c) \<and>
    on_item (sent c) ''sctp'' (\<lambda>p t. snd (set_protocol Psctp t))
      (on_item (sent c) ''udp'' (\<lambda>p t. snd (set_protocol Pudp t))
        (on_item (sent c) ''tcp'' (\<lambda>p t. snd (set_protocol Ptcp t)) s)) = s\<lparr>protocol := p\<rparr>"
proof -
  obtain p where p: "get_protocol (prot_id (protocol c)) s = Some p"
    using assms by (auto simp: server_ready_def)
  have "snd (set_protocol (prot_id (protocol c)) s) = s\<lparr>protocol := p\<rparr>"
    using p assms(2) by (simp add: set_protocol_def get_protocol_def server_ready_def check_sender_has_retransmits_def)
  moreover have "Ptcp \<noteq> Pudp" "Ptcp \<noteq> Psctp" "Pudp \<noteq> Psctp" by (simp_all add: prot_defs)
  ultimately show ?thesis using assms(1) get_protocol_id [OF p] by (intro exI [of _ p]) (auto simp: sent_flags)
qed

lemma apply_numbers_sent:
  assumes c: "params_sendable c" "prot_id (protocol c) = Ptcp \<or> prot_id (protocol c) = Pudp" and s: "server_ready s"
  shows "\<exists>p h. prot_id p = prot_id (protocol c) \<and> apply_numbers (sent c) s =
    s\<lparr>protocol := p, mode := negotiated_mode c, sender_has_retransmits := h,
      settings := negotiated_settings (settings c) (settings s), omit := omit c, duration := duration c,
      num_streams := num_streams c, server_affinity := (if server_affinity c = -1 then server_affinity s else server_affinity c),
      no_delay := (if no_delay c = 0 then no_delay s else 1), reverse := (if reverse c = 0 then reverse s else 1),
      bidirectional := (if bidirectional c = 0 then bidirectional s else 1)\<rparr>
    \<and> h = (if prot_id (protocol c) = Ptcp \<and> reverse c \<noteq> 0 then 1 else 0)"
proof -
  obtain p where p: "prot_id p = prot_id (protocol c)"
    "on_item (sent c) ''sctp'' (\<lambda>p t. snd (set_protocol Psctp t))
      (on_item (sent c) ''udp'' (\<lambda>p t. snd (set_protocol Pudp t))
        (on_item (sent c) ''tcp'' (\<lambda>p t. snd (set_protocol Ptcp t)) s)) = s\<lparr>protocol := p\<rparr>"
    using set_protocol_sent [OF c(2) s] by blast
  have "apply_numbers (sent c) s =
    s\<lparr>protocol := p, mode := negotiated_mode c, sender_has_retransmits := (if prot_id (protocol c) = Ptcp \<and> reverse c \<noteq> 0 then 1 else 0),
      settings := negotiated_settings (settings c) (settings s), omit := omit c, duration := duration c,
      num_streams := num_streams c, server_affinity := (if server_affinity c = -1 then server_affinity s else server_affinity c),
      no_delay := (if no_delay c = 0 then no_delay s else 1), reverse := (if reverse c = 0 then reverse s else 1),
      bidirectional := (if bidirectional c = 0 then bidirectional s else 1)\<rparr>"
    using s p(1) unfolding apply_numbers_def Let_def p(2)
    by (cases "reverse c = 0"; cases "bidirectional c = 0")
       (simp_all add: sent_flags(4-) sent_settings [OF c(1)] sent_values [OF c(1)] server_ready_def negotiated_mode_def
         iperf_set_test_reverse_def iperf_set_test_bidirectional_def check_sender_has_retransmits_def has_tcpinfo_retransmits_def
         settings_sent [symmetric])
  then show ?thesis using p(1) by blast
qed

lemma apply_flags_sent:
  "apply_flags (sent c) t =
     t\<lparr>get_server_output := (if get_server_output c = 0 then get_server_output t else 1),
       udp_counters_64bit := (if udp_counters_64bit c = 0 then udp_counters_64bit t else 1),
       repeating_payload := (if repeating_payload c = 0 then repeating_payload t else 1),
       sender_has_retransmits := (if mode t \<noteq> RECEIVER \<and> prot_id (protocol t) = Ptcp then 1 else sender_has_retransmits t)\<rparr>"
  by (simp add: apply_flags_def sent_counts Let_def iperf_set_test_get_server_output_def
      iperf_set_test_udp_counters_64bit_def has_tcpinfo_retransmits_def)

lemma apply_params_sent:
  assumes c: "params_sendable c" "prot_id (protocol c) = Ptcp \<or> prot_id (protocol c) = Pudp" and s: "server_ready s"
  shows "\<exists>s'. apply_params (sent c) s = Some s' \<and> negotiated c s s'"
proof -
  obtain p h where n: "prot_id p = prot_id (protocol c)" "h = (if prot_id (protocol c) = Ptcp \<and> reverse c \<noteq> 0 then 1 else 0)"
    "apply_numbers (sent c) s =
      s\<lparr>protocol := p, mode := negotiated_mode c, sender_has_retransmits := h,
        settings := negotiated_settings (settings c) (settings s), omit := omit c, duration := duration c,
        num_streams := num_streams c, server_affinity := (if server_affinity c = -1 then server_affinity s else server_affinity c),
        no_delay := (if no_delay c = 0 then no_delay s else 1), reverse := (if reverse c = 0 then reverse s else 1),
        bidirectional := (if bidirectional c = 0 then bidirectional s else 1)\<rparr>" (is "_ = ?s1")
    using apply_numbers_sent [OF assms] by blast
  have str: "apply_strings (sent c) ?s1 = Some (?s1\<lparr>title := opt_else (title c) (title s), extra_data := opt_else (extra_data c) (extra_data s),
      congestion := opt_else (congestion c) (congestion s), congestion_used := opt_else (congestion_used c) (congestion_used s)\<rparr>)"
    (is "_ = Some ?s2")
    by (cases "title c"; cases "extra_data c"; cases "congestion c"; cases "congestion_used c")
       (simp_all add: apply_strings_def sent_strings opt_else_def)
  have "apply_params (sent c) s = Some (apply_flags (sent c) ?s2)" by (simp add: apply_params_def n(3) str)
  moreover have "negotiated c s (apply_flags (sent c) ?s2)"
    using n(1,2) by (simp add: negotiated_def apply_flags_sent negotiated_mode_def)
  ultimately show ?thesis by blast
qed

text \<open>The message can be printed: its numbers fit the buffer of the printer.\<close>

lemma print_number_int: "\<bar>v\<bar> \<le> 2 ^ 64 \<Longrightarrow> print_number (d_of_int v) \<noteq> None"
proof -
  assume v: "\<bar>v\<bar> \<le> 2 ^ 64"
  have le: "\<bar>d_of_int v\<bar> \<le> d_of_int (2 ^ 64)" using d_of_int_mono [of v "2 ^ 64"] d_of_int_mono [of "- (2 ^ 64)" v] v
    by (simp add: d_of_int_def rnd_minus abs_le_iff)
  have top: "d_of_int (2 ^ 64) < 10 powi 20" by code_simp
  have small: "10 powi (- 20) \<le> (1 :: rat)" by code_simp
  have low: "v = 0 \<or> 1 \<le> \<bar>d_of_int v\<bar>"
    using d_of_int_mono [of 1 v] d_of_int_mono [of v "-1"] d_of_int_id [of 1] d_of_int_id [of "-1"]
    by (cases "1 \<le> v"; cases "v \<le> -1") (auto simp: abs_if)
  have "length (show_g P (d_of_int v)) \<le> P + 7" if "0 < P" for P
  proof (rule show_g_length [OF _ _ that])
    show "d_of_int v = 0 \<or> 10 powi (- 20) \<le> \<bar>d_of_int v\<bar> \<and> \<bar>d_of_int v\<bar> < 10 powi 20"
      using low le top small by (auto simp: d_of_int_def intro: order_trans)
  qed simp
  from this [of 15] this [of 17] show ?thesis by (simp add: print_number_def Let_def)
qed

lemma print_set_string [simp]: "print_value fmt dep (set_string n j) = print_value fmt dep j"
  by (cases j) simp

lemma print_string_length: "length (print_string_ptr (Some s)) \<le> 6 * length s + 2"
proof -
  have "length (escape_char c) \<le> 6" for c by (simp add: escape_char_def show_hex2_def)
  then have "length (concat (map escape_char s)) \<le> 6 * length s" by (induction s) (auto intro: add_mono)
  then show ?thesis by (simp add: print_string_ptr_def)
qed

lemma print_object_bounded:
  assumes "\<forall>x \<in> set xs. \<exists>v. print_value False dep x = Some v \<and> length v + length (print_string_ptr (jstring x)) + 2 \<le> B"
  shows "\<exists>s. print_object False dep xs = Some s \<and> length s \<le> length xs * B"
  using assms
proof (induction xs)
  case (Cons x xs)
  then obtain v s where "print_value False dep x = Some v" "length v + length (print_string_ptr (jstring x)) + 2 \<le> B"
    "print_object False dep xs = Some s" "length s \<le> length xs * B" by auto
  then show ?case by (cases "xs = []") (simp_all add: fmt_str_def)
qed simp

lemma print_members:
  assumes "\<And>n j. (n, Some j) \<in> set tab \<Longrightarrow>
    \<exists>v. print_value False 1 j = Some v \<and> length v + length (print_string_ptr (Some n)) + 2 \<le> B"
  shows "\<exists>str. cJSON_PrintUnformatted (fold add_member tab cJSON_CreateObject) = Some str \<and> length str \<le> length tab * B + 2"
proof -
  let ?xs = "concat (map (\<lambda>(n, it). case it of None \<Rightarrow> [] | Some j \<Rightarrow> [set_string n j]) tab)"
  obtain s where s: "print_object False 1 ?xs = Some s" "length s \<le> length ?xs * B"
    using assms print_object_bounded [of ?xs 1 B] by (force split: option.splits)
  have "length ?xs \<le> length tab" by (induction tab) (auto split: option.splits)
  then have "length s \<le> length tab * B" using s(2) by (meson le_trans mult_le_mono1)
  then show ?thesis using s(1) by (simp add: cJSON_PrintUnformatted_def fold_add_member cJSON_CreateObject_def fmt_str_def)
qed

text \<open>The items of the message are scalars that can be printed and read back.\<close>

definition plain_item :: "cJSON option \<Rightarrow> bool" where
  "plain_item it \<longleftrightarrow> (\<forall>j. it = Some j \<longrightarrow> json_ok 999 j \<and> (\<exists>v. print_value False 1 j = Some v \<and> length v \<le> 50331650))"

lemma print_number_length: "print_number d = Some a \<Longrightarrow> length a \<le> 25"
  by (auto simp: print_number_def Let_def split: if_splits)

lemma plain_num: "\<bar>v\<bar> \<le> 2 ^ 64 \<Longrightarrow> plain_item (num_if b v)"
proof -
  assume "\<bar>v\<bar> \<le> 2 ^ 64"
  then obtain a where "print_number (d_of_int v) = Some a" "length a \<le> 25"
    using print_number_int [of v] print_number_length by blast
  then show ?thesis by (simp add: plain_item_def num_if_def cJSON_CreateNumber_def d_of_int_def)
qed

lemma plain_true: "plain_item (true_if b)"
  by (auto simp: plain_item_def true_if_def create_defs)

lemma plain_string: "opt_c_str s \<Longrightarrow> plain_item (cJSON_CreateString s)"
  using print_string_length [of "the s"]
  by (auto simp: plain_item_def create_defs opt_c_str_def c_str_ok_def split: option.splits)

lemma plain_int: "int_range v \<Longrightarrow> plain_item (num_if b v)"
  by (rule plain_num) (auto simp: int_range_def)

lemma plain_u64: "double_range w \<Longrightarrow> plain_item (num_if b (uint w))"
  by (rule plain_num) (simp add: double_range_def)

lemma param_items:
  assumes "params_sendable c"
  shows "list_all (\<lambda>(n, it). CHR 0x00 \<notin> set n \<and> length n \<le> 18 \<and> plain_item it) (param_list c)"
  using assms unfolding params_sendable_def Let_def list.pred_inject
  by (simp add: param_list_def Let_def plain_int plain_u64 plain_true plain_string IPERF_VERSION_def opt_c_str_def)

lemma params_print:
  assumes "params_sendable c"
  shows "json_ok CJSON_NESTING_LIMIT (params_json c)"
    "\<exists>str. cJSON_PrintUnformatted (params_json c) = Some str \<and> length str < 2147483648"
proof -
  have *: "json_ok 999 j \<and> CHR 0x00 \<notin> set n \<and> (\<exists>v. print_value False 1 j = Some v \<and> length v + length (print_string_ptr (Some n)) + 2 \<le> 50331850)"
    if "(n, Some j) \<in> set (param_list c)" for n j
  proof -
    have i: "plain_item (Some j)" "CHR 0x00 \<notin> set n" "length n \<le> 18" using param_items [OF assms] that by (auto simp: list_all_iff)
    then show ?thesis using print_string_length [of n] by (auto simp: plain_item_def)
  qed
  show "json_ok CJSON_NESTING_LIMIT (params_json c)"
    unfolding nesting_limit_Suc params_json_def using * by (intro json_ok_members) blast
  have "length (param_list c) = 29" by (simp add: param_list_def Let_def)
  then show "\<exists>str. cJSON_PrintUnformatted (params_json c) = Some str \<and> length str < 2147483648"
    using print_members [of "param_list c" 50331850] * unfolding params_json_def by force
qed

section \<open>Properties\<close>

text \<open>The bytes a piece of the log sends on a descriptor.\<close>

fun wrote_on :: "int \<Rightarrow> event list \<Rightarrow> u8 list" where
  "wrote_on fd [] = []"
| "wrote_on fd (Wrote d bs # es) = (if d = fd then bs else []) @ wrote_on fd es"
| "wrote_on fd (_ # es) = wrote_on fd es"

lemma wrote_on_map [simp]: "wrote_on fd (map (Wrote fd) cs) = concat cs"
  by (induction cs) simp_all

text \<open>
  (C4) The parameters arrive. On connections that keep the order of their bytes, what the
  client's \<open>send_parameters\<close> writes for a TCP or UDP test lets the server's \<open>get_parameters\<close>
  succeed and leaves it with the negotiated test: the client's protocol, direction mirrored,
  duration, streams and every setting that was sent (64-bit numbers up to \<open>2^53\<close>), the server's
  own value where nothing was sent, and nothing of what follows on the connection consumed.
\<close>

theorem parameters_arrive:
  assumes "params_sendable c" "prot_id (protocol c) = Ptcp \<or> prot_id (protocol c) = Pudp" "server_ready s"
    and "takes_all K (ctrl_sck c)" "in_order K' (ctrl_sck s) inp" "\<And>n w. k_malloc K' n w = (True, w)"
  shows "\<exists>w es. run_state (send_parameters K c) st = (0, st\<lparr>world := w, elog := elog st @ es\<rparr>) \<and>
    (\<forall>st2 rest. inp (world st2) = wrote_on (ctrl_sck c) es @ rest \<longrightarrow>
      (\<exists>s' w'. run_state (get_parameters K' s) st2 = (Returns (0, s'), st2\<lparr>world := w'\<rparr>) \<and>
        negotiated c s s' \<and> inp w' = rest))"
proof -
  obtain str where str: "cJSON_PrintUnformatted (params_json c) = Some str" and len: "length str < 2147483648" using params_print(2) [OF assms(1)] by blast
  obtain cs w where w: "run_state (JSON_write K (ctrl_sck c) (params_json c)) st =
      (0, st\<lparr>world := w, elog := elog st @ map (Wrote (ctrl_sck c)) cs\<rparr>)" "concat cs = frame str"
    using JSON_write_frame [OF assms(4) str len] by blast
  obtain s' where s': "apply_params (sent c) s = Some s'" "negotiated c s s'" using apply_params_sent [OF assms(1-3)] by blast
  have nosctp: "cJSON_GetObjectItem (sent c) ''sctp'' = None"
    using param_item [of "''sctp''" "true_if (prot_id (protocol c) = Psctp)" c] assms(2)
    by (auto simp: param_list_def Let_def true_if_def prot_defs)
  have "\<exists>s' w'. run_state (get_parameters K' s) st2 = (Returns (0, s'), st2\<lparr>world := w'\<rparr>) \<and> negotiated c s s' \<and> inp w' = rest"
    if "inp (world st2) = frame str @ rest" for st2 rest
    using JSON_read_frame [OF assms(5,6) that len] cj.dec_enc [OF params_print(1) [OF assms(1)] str] s' nosctp
    by (auto simp: get_parameters_def)
  then show ?thesis using w
    by (intro exI [of _ w] exI [of _ "map (Wrote (ctrl_sck c)) cs"]) (simp add: send_parameters_def)
qed

definition sample_client :: iperf_test where
  "sample_client = (snd (iperf_defaults True True zero_test))\<lparr>role := CHR ''c'', mode := SENDER, ctrl_sck := 5,
     title := Some ''run 1'', reverse := 1\<rparr>"

definition sample_server :: iperf_test where
  "sample_server = (snd (iperf_defaults True True zero_test))\<lparr>role := CHR ''s'', ctrl_sck := 6\<rparr>"

lemma sample_in_order: "in_order sample_kernel fd (\<lambda>w. w)"
  unfolding in_order_def
proof (intro allI impI)
  fix n :: nat and w :: "u8 list"
  assume "0 < n" "w \<noteq> []"
  then show "\<exists>k w'. 0 < k \<and> k \<le> n \<and> k \<le> length w \<and> k_read sample_kernel fd n w = (Ok (take k w), w') \<and> w' = drop k w"
    by (intro exI [of _ "min (min n 2) (length w)"]) (auto simp: sample_kernel_def min_def)
qed

lemma sample_takes_all: "takes_all sample_kernel fd"
  by (auto simp: takes_all_def sample_kernel_def)

lemmas sample_test_defs = sample_client_def sample_server_def iperf_defaults_def zero_test_def zero_settings_def
  set_protocol_def check_sender_has_retransmits_def get_protocol_def limit_defs prot_defs Let_def

lemma sample_exchange:
  "params_sendable sample_client" "prot_id (protocol sample_client) = Ptcp \<or> prot_id (protocol sample_client) = Pudp"
  "server_ready sample_server"
  by (simp_all add: sample_test_defs params_sendable_def server_ready_def int_range_def double_range_def opt_c_str_def)

theorem parameters_arrive_witness:
  "\<exists>w es. run_state (send_parameters sample_kernel sample_client) (sample_sys []) =
      (0, (sample_sys [])\<lparr>world := w, elog := elog (sample_sys []) @ es\<rparr>) \<and>
    (\<exists>s' st'. run_state (get_parameters sample_kernel sample_server) (sample_sys (wrote_on 5 es)) = (Returns (0, s'), st') \<and>
        negotiated sample_client sample_server s')"
proof -
  have m: "k_malloc sample_kernel n w = (True, w)" for n w by (simp add: sample_kernel_def)
  have fd: "ctrl_sck sample_client = 5" by (simp add: sample_client_def)
  obtain w es where es: "run_state (send_parameters sample_kernel sample_client) (sample_sys []) =
      (0, (sample_sys [])\<lparr>world := w, elog := elog (sample_sys []) @ es\<rparr>)"
    "\<forall>st2 rest. world st2 = wrote_on 5 es @ rest \<longrightarrow>
      (\<exists>s' w'. run_state (get_parameters sample_kernel sample_server) st2 = (Returns (0, s'), st2\<lparr>world := w'\<rparr>) \<and>
        negotiated sample_client sample_server s' \<and> w' = rest)"
    using parameters_arrive [OF sample_exchange sample_takes_all sample_in_order m, of "sample_sys []"] unfolding fd
    by (elim exE conjE) (rule that)
  have "world (sample_sys (wrote_on 5 es)) = wrote_on 5 es @ []" by (simp add: sample_sys_def)
  then show ?thesis using es(1) es(2) [rule_format, of "sample_sys (wrote_on 5 es)" "[]"] by blast
qed

lemma Nread_loop_length:
  assumes "read_bounded K" "nleft \<le> cnt" "length buf = cnt - nleft" "Nread_loop K fd cnt nleft buf s = ((r, out), s')"
  shows "length out \<le> cnt"
  using assms
proof (induction nleft arbitrary: buf s rule: less_induct)
  case (less nleft)
  show ?case
  proof (cases "nleft > 0 \<and> (\<exists>bs. fst (k_read K fd nleft (world s)) = Ok bs \<and> bs \<noteq> [])")
    case True
    then obtain bs w where r: "0 < nleft" "k_read K fd nleft (world s) = (Ok bs, w)" "bs \<noteq> []" by (metis prod.collapse)
    have "length bs \<le> nleft" using read_boundedD [OF less.prems(1) r(2)] .
    moreover have "Nread_loop K fd cnt nleft buf s = Nread_loop K fd cnt (nleft - length bs) (buf @ bs) (s\<lparr>world := w\<rparr>)"
      using r by (subst Nread_loop.simps) (simp add: syscall_def)
    ultimately show ?thesis using less.IH [of "nleft - length bs" "buf @ bs" "s\<lparr>world := w\<rparr>"] less.prems r by simp
  next
    case False
    then show ?thesis using less.prems
      by (subst (asm) Nread_loop.simps) (auto simp: syscall_def split: if_splits prod.splits sysret.splits)
  qed
qed

lemma Nread_length: "read_bounded K \<Longrightarrow> run_state (Nread K fd n) s = ((r, out), s') \<Longrightarrow> length out \<le> n"
  using Nread_loop_length [of K n n "[]" fd s r out s'] by (simp add: Nread_def)


text \<open>A peer that announces the largest length and sends a byte: the byte lands behind the empty buffer.\<close>

lemma sample_Nread:
  "run_state (Nread sample_kernel fd 4) (sample_sys (a # b # c # d # r)) = ((4, [a, b, c, d]), sample_sys r)"
  "run_state (Nread sample_kernel fd 4294967295) (sample_sys [x]) = ((1, [x]), sample_sys [])"
  "run_state (Nread sample_kernel fd 2) (sample_sys [x, y]) = ((2, [x, y]), sample_sys [])"
  by (simp_all add: Nread_def Nread_loop.simps syscall_def sample_kernel_def sample_sys_def)

lemma JSON_read_overruns:
  "run_state (JSON_read sample_kernel fd) (sample_sys [255, 255, 255, 255, 7]) = ((True, None), sample_sys [])"
proof -
  have "(of_nat (be_val [255, 255, 255, 255]) :: u32) = - 1" by (simp add: be_val_def)
  moreover have "unat (- 1 :: u32) = 4294967295" by (simp add: unat_word_ariths(4) unsigned_minus_1_eq_mask mask_eq_exp_minus_1)
  moreover have "run_state (sys_malloc sample_kernel n) s = (True, s)" for n and s :: "u8 list sys"
    by (simp add: sys_malloc_def sample_kernel_def)
  ultimately show ?thesis by (simp add: JSON_read_def sample_Nread Let_def)
qed


text \<open>
  A member \<open>title\<close>, \<open>extra_data\<close>, \<open>congestion\<close> or \<open>congestion_used\<close> that is not a string ends in
  \<open>strdup(NULL)\<close>: any peer can stop the server this way.
\<close>

lemma get_parameters_crashes_iff:
  assumes "run_state (JSON_read K (ctrl_sck t)) s = ((False, Some j), s')"
  shows "fst (run_state (get_parameters K t) s) = Crash \<longleftrightarrow>
    (\<exists>name \<in> {''title'', ''extra_data'', ''congestion'', ''congestion_used''}.
       \<exists>p. cJSON_GetObjectItem j name = Some p \<and> valuestring p = None)"
proof -
  have n: "on_string j name f u = None \<longleftrightarrow> (\<exists>p. cJSON_GetObjectItem j name = Some p \<and> valuestring p = None)" for name f u
    by (auto simp: on_string_def split: option.splits)
  have "apply_params j t = None \<longleftrightarrow> (\<exists>name \<in> {''title'', ''extra_data'', ''congestion'', ''congestion_used''}.
       \<exists>p. cJSON_GetObjectItem j name = Some p \<and> valuestring p = None)"
    unfolding apply_params_def apply_strings_def by (simp add: Option.bind_eq_None_conv n)
  then show ?thesis using assms by (auto simp: get_parameters_def sys_run split: option.splits)
qed

end
