(* ===== verification/Results.thy ===== *)
theory Results
  imports Params
begin

text \<open>
  The exchange of the results at the end of a test (\<open>send_results\<close>, \<open>get_results\<close> and
  \<open>iperf_exchange_results\<close> of \<open>iperf_api.c\<close>). The debug output is left out.
\<close>

section \<open>Sending the results\<close>

definition num :: "rat \<Rightarrow> cJSON option" where "num d = Some (cJSON_CreateNumber d)"

text \<open>
  A reference to an item is a copy of it without its name; as it is only printed, sharing the
  children makes no difference.
\<close>

fun create_reference :: "cJSON \<Rightarrow> cJSON" where
  "create_reference (CJ ty vi vd vs nm ch) = CJ ty vi vd vs None ch"

definition stream_list :: "iperf_test \<Rightarrow> iperf_stream \<Rightarrow> (string \<times> cJSON option) list" where
  "stream_list t sp = (let res = stream_result sp;
       bytes_transferred = (if sender sp \<noteq> 0 then bytes_sent res - bytes_sent_omit res else bytes_received res);
       retransmits = (if sender sp \<noteq> 0 \<and> sender_has_retransmits t \<noteq> 0 then stream_retrans res else -1);
       begins = iperf_time_in_secs (snd (iperf_time_diff (start_time res) (start_time res)));
       ends = iperf_time_in_secs (snd (iperf_time_diff (start_time res) (end_time res)))
     in [(''id'', num (d_of_int (stream_id sp))),
         (''bytes'', num (d_of_int (uint bytes_transferred))),
         (''retransmits'', num (d_of_int retransmits)),
         (''jitter'', num (jitter sp)),
         (''errors'', num (d_of_int (cnt_error sp))),
         (''packets'', num (d_of_int (packet_count sp))),
         (''start_time'', num begins),
         (''end_time'', num ends)])"

definition stream_json :: "iperf_test \<Rightarrow> iperf_stream \<Rightarrow> cJSON" where
  "stream_json t sp = fold add_member (stream_list t sp) cJSON_CreateObject"

definition streams_json :: "iperf_test \<Rightarrow> cJSON" where
  "streams_json t = fold (\<lambda>sp arr. cJSON_AddItemToArray arr (Some (stream_json t sp))) (streams t) cJSON_CreateArray"

text \<open>Whether the server's own output goes along, and in which form.\<close>

definition sends_output :: "iperf_test \<Rightarrow> bool" where
  "sends_output t \<longleftrightarrow> role t = CHR ''s'' \<and> get_server_output t \<noteq> 0"

definition results_list :: "iperf_test \<Rightarrow> (string \<times> cJSON option) list" where
  "results_list t = (let (cpu_total, cpu_user, cpu_system) = cpu_util t in
     [(''cpu_util_total'', num cpu_total),
      (''cpu_util_user'', num cpu_user),
      (''cpu_util_system'', num cpu_system),
      (''sender_has_retransmits'', num (d_of_int (if mode t = RECEIVER then -1 else sender_has_retransmits t))),
      (''congestion_used'', cJSON_CreateString (congestion_used t)),
      (''server_output_json'', if sends_output t \<and> json_output t \<noteq> 0 then map_option create_reference (json_top t) else None),
      (''server_output_text'', if sends_output t \<and> json_output t = 0 then cJSON_CreateString (Some (concat (server_output_list t))) else None),
      (''streams'', Some (streams_json t))])"

definition results_json :: "iperf_test \<Rightarrow> cJSON" where
  "results_json t = fold add_member (results_list t) cJSON_CreateObject"

text \<open>
  The text of the output is put together in a buffer whose allocation is not checked, and the
  reference is made of a report that has to exist.
\<close>

definition send_results :: "'w kernel \<Rightarrow> iperf_test \<Rightarrow> ('w sys, int outcome) state" where
  "send_results K t = do {
     ok \<leftarrow> (if sends_output t \<and> json_output t = 0 then sys_malloc K (length (concat (server_output_list t)) + 1) else ret True);
     if \<not> ok \<or> (sends_output t \<and> json_output t \<noteq> 0 \<and> json_top t = None) then ret Crash
     else do {
       r \<leftarrow> JSON_write K (ctrl_sck t) (results_json t);
       if r < 0 then fail_with IESENDRESULTS (Returns (-1)) else ret (Returns 0)
     }
   }"

section \<open>Receiving the results\<close>

text \<open>The first stream with the given id is updated; \<open>None\<close> when there is none.\<close>

fun upd_stream :: "int \<Rightarrow> (iperf_stream \<Rightarrow> iperf_stream) \<Rightarrow> iperf_stream list \<Rightarrow> iperf_stream list option" where
  "upd_stream sid f [] = None"
| "upd_stream sid f (sp # sps) = (if stream_id sp = sid then Some (f sp # sps) else map_option ((#) sp) (upd_stream sid f sps))"

text \<open>What the peer says about a stream, seen from the end that sends and from the one that receives.\<close>

definition peer_time :: "cJSON \<Rightarrow> rat" where
  "peer_time j = (case (cJSON_GetObjectItem j ''start_time'', cJSON_GetObjectItem j ''end_time'') of
      (Some a, Some b) \<Rightarrow> dsub (valuedouble b) (valuedouble a)
    | _ \<Rightarrow> 0)"

definition take_stream_result ::
  "cJSON \<Rightarrow> cJSON \<Rightarrow> cJSON \<Rightarrow> cJSON \<Rightarrow> cJSON \<Rightarrow> cJSON \<Rightarrow> iperf_stream \<Rightarrow> iperf_stream" where
  "take_stream_result j j_bytes j_retransmits j_jitter j_errors j_packets sp =
     (if sender sp \<noteq> 0 then
        sp\<lparr>jitter := valuedouble j_jitter, cnt_error := int_item j_errors, peer_packet_count := int_item j_packets,
           stream_result := (stream_result sp)\<lparr>bytes_received := u64_item j_bytes, receiver_time := peer_time j\<rparr>\<rparr>
      else
        sp\<lparr>peer_packet_count := int_item j_packets,
           stream_result := (stream_result sp)\<lparr>bytes_sent := u64_item j_bytes, stream_retrans := int_item j_retransmits,
             sender_time := peer_time j\<rparr>\<rparr>)"

text \<open>One element of the array: the error it leads to, if any, and the test.\<close>

definition get_stream_result :: "cJSON \<Rightarrow> iperf_test \<Rightarrow> int option \<times> iperf_test" where
  "get_stream_result j t =
     (case (cJSON_GetObjectItem j ''id'', cJSON_GetObjectItem j ''bytes'', cJSON_GetObjectItem j ''retransmits'',
            cJSON_GetObjectItem j ''jitter'', cJSON_GetObjectItem j ''errors'', cJSON_GetObjectItem j ''packets'') of
        (Some j_id, Some j_bytes, Some j_retransmits, Some j_jitter, Some j_errors, Some j_packets) \<Rightarrow>
          (case upd_stream (int_item j_id) (take_stream_result j j_bytes j_retransmits j_jitter j_errors j_packets) (streams t) of
             None \<Rightarrow> (Some IESTREAMID, t)
           | Some sps \<Rightarrow> (None, t\<lparr>streams := sps\<rparr>))
      | _ \<Rightarrow> (Some IERECVRESULTS, t))"

text \<open>The loop over the array; the last error is the one that is reported.\<close>

fun get_stream_results :: "cJSON list \<Rightarrow> int option \<Rightarrow> iperf_test \<Rightarrow> int option \<times> iperf_test" where
  "get_stream_results [] e t = (e, t)"
| "get_stream_results (j # js) e t =
     (case get_stream_result j t of (e', t') \<Rightarrow> get_stream_results js (case e' of None \<Rightarrow> e | Some _ \<Rightarrow> e') t')"

definition get_cpu_results :: "cJSON \<Rightarrow> iperf_test \<Rightarrow> iperf_test option" where
  "get_cpu_results j t =
     (case (cJSON_GetObjectItem j ''cpu_util_total'', cJSON_GetObjectItem j ''cpu_util_user'',
            cJSON_GetObjectItem j ''cpu_util_system'', cJSON_GetObjectItem j ''sender_has_retransmits'') of
        (Some cpu_total, Some cpu_user, Some cpu_system, Some j_shr) \<Rightarrow>
          (let t = t\<lparr>remote_cpu_util := (valuedouble cpu_total, valuedouble cpu_user, valuedouble cpu_system)\<rparr>
           in Some (case mode t of
                RECEIVER \<Rightarrow> t\<lparr>sender_has_retransmits := int_item j_shr, other_side_has_retransmits := 0\<rparr>
              | BIDIRECTIONAL \<Rightarrow> t\<lparr>other_side_has_retransmits := int_item j_shr\<rparr>
              | SENDER \<Rightarrow> t))
      | _ \<Rightarrow> None)"

text \<open>The server's output, at a client that asked for it; \<open>strdup(NULL)\<close> has no result.\<close>

definition get_output :: "cJSON \<Rightarrow> iperf_test \<Rightarrow> (cJSON \<times> iperf_test) option" where
  "get_output j t =
     (if role t = CHR ''c'' \<and> get_server_output t \<noteq> 0 then
        (case cJSON_DetachItemFromObject j ''server_output_json'' of
           (Some item, j') \<Rightarrow> Some (j', t\<lparr>json_server_output := Some item\<rparr>)
         | (None, _) \<Rightarrow> map_option (\<lambda>t. (j, t)) (on_string j ''server_output_text'' (\<lambda>s t. t\<lparr>server_output_text := Some s\<rparr>) t))
      else Some (j, t))"

text \<open>The error to report, if any, and the test; \<open>None\<close> for a null pointer handed to \<open>strdup\<close>.\<close>

definition apply_results :: "cJSON \<Rightarrow> iperf_test \<Rightarrow> (int option \<times> iperf_test) option" where
  "apply_results j t = do {
     (e, j, t) \<leftarrow>
       (case get_cpu_results j t of
          None \<Rightarrow> Some (Some IERECVRESULTS, j, t)
        | Some t \<Rightarrow>
            (case cJSON_GetObjectItem j ''streams'' of
               None \<Rightarrow> Some (Some IERECVRESULTS, j, t)
             | Some j_streams \<Rightarrow>
                 (let (e, t) = get_stream_results (take (nat (cJSON_GetArraySize j_streams)) (child j_streams)) None t
                  in map_option (\<lambda>(j, t). (e, j, t)) (get_output j t))));
     t \<leftarrow> on_string j ''congestion_used'' (\<lambda>s t. t\<lparr>remote_congestion_used := Some s\<rparr>) t;
     Some (e, t)
   }"

definition get_results :: "'w kernel \<Rightarrow> iperf_test \<Rightarrow> ('w sys, (int \<times> iperf_test) outcome) state" where
  "get_results K t = do {
     (overrun, j) \<leftarrow> JSON_read K (ctrl_sck t);
     if overrun then ret Crash
     else (case j of
         None \<Rightarrow> fail_with IERECVRESULTS (Returns (-1, t))
       | Some j \<Rightarrow>
           (case apply_results j t of
              None \<Rightarrow> ret Crash
            | Some (Some e, t) \<Rightarrow> fail_with e (Returns (-1, t))
            | Some (None, t) \<Rightarrow> ret (Returns (0, t))))
   }"

section \<open>The exchange\<close>

text \<open>The client sends first.\<close>

definition iperf_exchange_results :: "'w kernel \<Rightarrow> iperf_test \<Rightarrow> ('w sys, (int \<times> iperf_test) outcome) state" where
  "iperf_exchange_results K t =
     (if role t = CHR ''c'' then do {
        r \<leftarrow> send_results K t;
        (case r of
           Crash \<Rightarrow> ret Crash | Exits \<Rightarrow> ret Exits
         | Returns v \<Rightarrow> if v < 0 then ret (Returns (-1, t))
             else do {
               g \<leftarrow> get_results K t;
               ret (case g of Crash \<Rightarrow> Crash | Exits \<Rightarrow> Exits | Returns (v, t) \<Rightarrow> Returns (if v < 0 then -1 else 0, t))
             })
      }
      else do {
        g \<leftarrow> get_results K t;
        (case g of
           Crash \<Rightarrow> ret Crash | Exits \<Rightarrow> ret Exits
         | Returns (v, t) \<Rightarrow> if v < 0 then ret (Returns (-1, t))
             else do {
               r \<leftarrow> send_results K t;
               ret (case r of Crash \<Rightarrow> Crash | Exits \<Rightarrow> Exits | Returns v \<Rightarrow> Returns (if v < 0 then -1 else 0, t))
             })
      })"

end
