(* ===== verification/Results_Props.thy ===== *)
theory Results_Props
  imports Results Params_Props
begin

text \<open>
  The results arrive: what each end counted of a stream ends up in the other end's record of
  the same stream.
\<close>

section \<open>The message\<close>

lemma stream_keys: "distinct (keys (stream_list t sp))"
proof -
  have "keys (stream_list t sp) = map (map c_tolower) [''id'', ''bytes'', ''retransmits'', ''jitter'', ''errors'', ''packets'', ''start_time'', ''end_time'']"
    by (simp only: keys_def stream_list_def Let_def list.map fst_conv o_apply)
  also have "distinct \<dots>" by code_simp
  finally show ?thesis .
qed

lemma results_keys: "distinct (keys (results_list t))"
proof -
  have "keys (results_list t) = map (map c_tolower) [''cpu_util_total'', ''cpu_util_user'', ''cpu_util_system'',
      ''sender_has_retransmits'', ''congestion_used'', ''server_output_json'', ''server_output_text'', ''streams'']"
    by (cases "cpu_util t") (simp only: keys_def results_list_def Let_def list.map fst_conv o_apply prod.case)
  also have "distinct \<dots>" by code_simp
  finally show ?thesis .
qed

lemma stream_item: "(n, num d) \<in> set (stream_list t sp) \<Longrightarrow>
    cJSON_GetObjectItem (parsed (stream_json t sp)) n = Some (set_string n (cJSON_CreateNumber d))"
  using lookup_members [OF stream_keys, of n "num d" t sp] by (simp add: stream_json_def num_def)

lemma results_item: "(n, it) \<in> set (results_list t) \<Longrightarrow>
    cJSON_GetObjectItem (parsed (results_json t)) n = map_option (\<lambda>j. set_string n (parsed j)) it"
  unfolding results_json_def by (rule lookup_members [OF results_keys])

lemma streams_json_eq: "streams_json t = CJ cJSON_Array 0 0 None None (map (stream_json t) (streams t))"
proof -
  have "fold (\<lambda>sp arr. cJSON_AddItemToArray arr (Some (stream_json t sp))) sps (CJ cJSON_Array 0 0 None None xs) =
      CJ cJSON_Array 0 0 None None (xs @ map (stream_json t) sps)" for sps xs
    by (induction sps arbitrary: xs) simp_all
  from this [of "streams t" "[]"] show ?thesis by (simp add: streams_json_def cJSON_CreateArray_def)
qed

section \<open>What a stream is told\<close>

definition transferred :: "iperf_stream \<Rightarrow> u64" where
  "transferred sp = (if sender sp \<noteq> 0 then bytes_sent (stream_result sp) - bytes_sent_omit (stream_result sp)
     else bytes_received (stream_result sp))"

definition retransmitted :: "iperf_test \<Rightarrow> iperf_stream \<Rightarrow> int" where
  "retransmitted t sp = (if sender sp \<noteq> 0 \<and> sender_has_retransmits t \<noteq> 0 then stream_retrans (stream_result sp) else -1)"

definition elapsed :: "iperf_stream \<Rightarrow> rat" where
  "elapsed sp = iperf_time_in_secs (snd (iperf_time_diff (start_time (stream_result sp)) (end_time (stream_result sp))))"

definition told :: "iperf_test \<Rightarrow> iperf_stream \<Rightarrow> iperf_stream \<Rightarrow> iperf_stream" where
  "told p sp r =
     (if sender r \<noteq> 0 then
        r\<lparr>jitter := jitter sp, cnt_error := cnt_error sp, peer_packet_count := packet_count sp,
          stream_result := (stream_result r)\<lparr>bytes_received := transferred sp, receiver_time := elapsed sp\<rparr>\<rparr>
      else
        r\<lparr>peer_packet_count := packet_count sp,
          stream_result := (stream_result r)\<lparr>bytes_sent := transferred sp, stream_retrans := retransmitted p sp, sender_time := elapsed sp\<rparr>\<rparr>)"

definition stream_sendable :: "iperf_test \<Rightarrow> iperf_stream \<Rightarrow> bool" where
  "stream_sendable p sp \<longleftrightarrow> list_all int_range [stream_id sp, retransmitted p sp, cnt_error sp, packet_count sp] \<and>
     double_range (transferred sp) \<and> rnd (jitter sp) = jitter sp"

lemma elapsed_double: "rnd (elapsed sp) = elapsed sp"
  by (simp add: elapsed_def iperf_time_in_secs_def dadd_def)

lemma same_time_secs: "iperf_time_in_secs (snd (iperf_time_diff t t)) = 0"
  by (simp add: diff_same iperf_time_in_secs_def dadd_def ddiv_def d_of_int_def)

lemma stream_items:
  assumes "stream_sendable p sp"
  shows "get_stream_result (parsed (stream_json p sp)) q =
    (case upd_stream (stream_id sp) (told p sp) (streams q) of None \<Rightarrow> (Some IESTREAMID, q) | Some sps \<Rightarrow> (None, q\<lparr>streams := sps\<rparr>))"
proof -
  let ?j = "parsed (stream_json p sp)"
  have i: "cJSON_GetObjectItem ?j ''id'' = Some (set_string ''id'' (cJSON_CreateNumber (d_of_int (stream_id sp))))"
    "cJSON_GetObjectItem ?j ''bytes'' = Some (set_string ''bytes'' (cJSON_CreateNumber (d_of_int (uint (transferred sp)))))"
    "cJSON_GetObjectItem ?j ''retransmits'' = Some (set_string ''retransmits'' (cJSON_CreateNumber (d_of_int (retransmitted p sp))))"
    "cJSON_GetObjectItem ?j ''jitter'' = Some (set_string ''jitter'' (cJSON_CreateNumber (jitter sp)))"
    "cJSON_GetObjectItem ?j ''errors'' = Some (set_string ''errors'' (cJSON_CreateNumber (d_of_int (cnt_error sp))))"
    "cJSON_GetObjectItem ?j ''packets'' = Some (set_string ''packets'' (cJSON_CreateNumber (d_of_int (packet_count sp))))"
    "cJSON_GetObjectItem ?j ''start_time'' = Some (set_string ''start_time'' (cJSON_CreateNumber 0))"
    "cJSON_GetObjectItem ?j ''end_time'' = Some (set_string ''end_time'' (cJSON_CreateNumber (elapsed sp)))"
    by (rule stream_item, simp add: stream_list_def Let_def transferred_def retransmitted_def elapsed_def same_time_secs)+
  have d: "valuedouble (cJSON_CreateNumber x) = x" for x by (simp add: cJSON_CreateNumber_def)
  have t: "peer_time ?j = elapsed sp" by (simp add: peer_time_def i d dsub_def elapsed_double)
  have "take_stream_result ?j (set_string ''bytes'' (cJSON_CreateNumber (d_of_int (uint (transferred sp)))))
      (set_string ''retransmits'' (cJSON_CreateNumber (d_of_int (retransmitted p sp)))) (set_string ''jitter'' (cJSON_CreateNumber (jitter sp)))
      (set_string ''errors'' (cJSON_CreateNumber (d_of_int (cnt_error sp)))) (set_string ''packets'' (cJSON_CreateNumber (d_of_int (packet_count sp)))) = told p sp"
    using assms by (auto simp: fun_eq_iff take_stream_result_def told_def t d stream_sendable_def int_item_exact u64_item_exact)
  then show ?thesis using assms by (simp add: get_stream_result_def i stream_sendable_def int_item_exact)
qed

abbreviation ids :: "iperf_stream list \<Rightarrow> int list" where "ids sps \<equiv> map stream_id sps"

lemma stream_id_told [simp]: "stream_id (told p sp r) = stream_id r"
  by (simp add: told_def)

lemma upd_stream_distinct:
  "distinct (ids qs) \<Longrightarrow> i \<in> set (ids qs) \<Longrightarrow> upd_stream i f qs = Some (map (\<lambda>r. if stream_id r = i then f r else r) qs)"
proof (induction qs)
  case (Cons a qs)
  have "map (\<lambda>r. if stream_id r = stream_id a then f r else r) qs = qs"
    using Cons.prems(1) by (intro map_idI) (auto simp: image_iff)
  then show ?case using Cons by auto
qed simp

text \<open>All streams after the message of a peer with the streams \<open>ps\<close>.\<close>

definition all_told :: "iperf_test \<Rightarrow> iperf_stream list \<Rightarrow> iperf_stream list \<Rightarrow> iperf_stream list" where
  "all_told p ps qs = map (\<lambda>r. case List.find (\<lambda>sp. stream_id sp = stream_id r) ps of None \<Rightarrow> r | Some sp \<Rightarrow> told p sp r) qs"

lemma get_stream_results_told:
  assumes "distinct (ids ps)" "distinct (ids (streams q))" "set (ids ps) \<subseteq> set (ids (streams q))" "list_all (stream_sendable p) ps"
  shows "get_stream_results (map (\<lambda>sp. parsed (stream_json p sp)) ps) None q = (None, q\<lparr>streams := all_told p ps (streams q)\<rparr>)"
  using assms
proof (induction ps arbitrary: q)
  case Nil
  show ?case by (simp add: all_told_def)
next
  case (Cons sp ps)
  define qs where "qs = map (\<lambda>r. if stream_id r = stream_id sp then told p sp r else r) (streams q)"
  have ids: "ids qs = ids (streams q)" by (simp add: qs_def)
  have "get_stream_results (map (\<lambda>sp. parsed (stream_json p sp)) ps) None (q\<lparr>streams := qs\<rparr>) =
      (None, q\<lparr>streams := all_told p ps qs\<rparr>)"
    using Cons.IH [of "q\<lparr>streams := qs\<rparr>"] Cons.prems ids by (simp del: list.set_map set_map)
  moreover have "all_told p ps qs = all_told p (sp # ps) (streams q)"
  proof -
    have "List.find (\<lambda>s. stream_id s = stream_id sp) ps = None" using Cons.prems(1)
      by (simp add: find_None_iff image_iff) metis
    then show ?thesis by (auto simp: all_told_def qs_def)
  qed
  moreover have "stream_id sp \<in> set (ids (streams q))" using Cons.prems(3) by simp
  ultimately show ?case using Cons.prems(2,4) by (simp add: stream_items upd_stream_distinct qs_def)
qed

section \<open>The whole message\<close>

definition results_sendable :: "iperf_test \<Rightarrow> bool" where
  "results_sendable p \<longleftrightarrow> (case cpu_util p of (a, b, c) \<Rightarrow> rnd a = a \<and> rnd b = b \<and> rnd c = c) \<and>
     int_range (sender_has_retransmits p) \<and> opt_c_str (congestion_used p) \<and> CHR 0x00 \<notin> set (concat (server_output_list p)) \<and>
     (sends_output p \<longrightarrow> json_output p = 0) \<and>
     list_all (stream_sendable p) (streams p) \<and> length (streams p) < 2147483648"

text \<open>What the other end has afterwards.\<close>

definition exchanged :: "iperf_test \<Rightarrow> iperf_test \<Rightarrow> iperf_test \<Rightarrow> bool" where
  "exchanged p q q' \<longleftrightarrow> streams q' = all_told p (streams p) (streams q) \<and> remote_cpu_util q' = cpu_util p \<and>
     sender_has_retransmits q' = (if mode q = RECEIVER then (if mode p = RECEIVER then -1 else sender_has_retransmits p)
       else sender_has_retransmits q) \<and>
     remote_congestion_used q' = opt_else (congestion_used p) (remote_congestion_used q) \<and>
     server_output_text q' = (if role q = CHR ''c'' \<and> get_server_output q \<noteq> 0 \<and> sends_output p
       then Some (concat (server_output_list p)) else server_output_text q)"

lemma cpu_results:
  assumes "results_sendable p"
  shows "\<exists>o'. get_cpu_results (parsed (results_json p)) q =
    Some (q\<lparr>remote_cpu_util := cpu_util p, other_side_has_retransmits := o',
      sender_has_retransmits := (if mode q = RECEIVER then (if mode p = RECEIVER then -1 else sender_has_retransmits p)
       else sender_has_retransmits q)\<rparr>)"
proof -
  obtain a b c where cpu: "cpu_util p = (a, b, c)" by (cases "cpu_util p")
  let ?j = "parsed (results_json p)" and ?h = "if mode p = RECEIVER then -1 else sender_has_retransmits p"
  have i: "cJSON_GetObjectItem ?j ''cpu_util_total'' = Some (set_string ''cpu_util_total'' (cJSON_CreateNumber a))"
    "cJSON_GetObjectItem ?j ''cpu_util_user'' = Some (set_string ''cpu_util_user'' (cJSON_CreateNumber b))"
    "cJSON_GetObjectItem ?j ''cpu_util_system'' = Some (set_string ''cpu_util_system'' (cJSON_CreateNumber c))"
    "cJSON_GetObjectItem ?j ''sender_has_retransmits'' = Some (set_string ''sender_has_retransmits'' (cJSON_CreateNumber (d_of_int ?h)))"
    using results_item [of "''cpu_util_total''" "num a" p] results_item [of "''cpu_util_user''" "num b" p]
      results_item [of "''cpu_util_system''" "num c" p] results_item [of "''sender_has_retransmits''" "num (d_of_int ?h)" p]
    by (simp_all add: results_list_def cpu Let_def num_def)
  have d: "valuedouble (cJSON_CreateNumber x) = x" for x by (simp add: cJSON_CreateNumber_def)
  have h: "to_int32 (sat_int64 (d_of_int ?h)) = ?h"
    using assms by (intro int_item_exact) (auto simp: results_sendable_def int_range_def)
  show ?thesis
    by (intro exI [of _ "case mode q of RECEIVER \<Rightarrow> 0 | BIDIRECTIONAL \<Rightarrow> ?h | SENDER \<Rightarrow> other_side_has_retransmits q"], cases "mode q")
       (simp_all only: get_cpu_results_def i Let_def option.case prod.case set_string_sel d h cpu parsed_num iperf_mode.case iperf_test.simps
          test_config.simps, simp_all)
qed

lemma detach_none: "cJSON_GetObjectItem j n = None \<Longrightarrow> fst (cJSON_DetachItemFromObject j n) = None"
  by (cases j) (simp add: cJSON_GetObjectItem_def)

lemma apply_results_sent:
  assumes p: "results_sendable p" and ids: "distinct (ids (streams p))" "distinct (ids (streams q))" "set (ids (streams p)) \<subseteq> set (ids (streams q))"
  shows "\<exists>q'. apply_results (parsed (results_json p)) q = Some (None, q') \<and> exchanged p q q'"
proof -
  let ?j = "parsed (results_json p)"
  obtain o' where "get_cpu_results ?j q = Some (q\<lparr>remote_cpu_util := cpu_util p, other_side_has_retransmits := o',
      sender_has_retransmits := (if mode q = RECEIVER then (if mode p = RECEIVER then -1 else sender_has_retransmits p)
       else sender_has_retransmits q)\<rparr>)" (is "_ = Some ?q1") using cpu_results [OF p] by blast
  then obtain q1 where q1: "get_cpu_results ?j q = Some q1" "q1 = ?q1" by simp
  have strs: "cJSON_GetObjectItem ?j ''streams'' = Some (set_string ''streams'' (parsed (streams_json p)))"
    using results_item [of "''streams''" "Some (streams_json p)" p] by (cases "cpu_util p") (simp add: results_list_def Let_def)
  have ch: "take (nat (cJSON_GetArraySize (set_string ''streams'' (parsed (streams_json p))))) (child (parsed (streams_json p))) =
      map (\<lambda>sp. parsed (stream_json p sp)) (streams p)"
    using p by (simp add: streams_json_eq cJSON_GetArraySize_def to_int32_len results_sendable_def o_def)
  define q2 where "q2 = q1\<lparr>streams := all_told p (streams p) (streams q)\<rparr>"
  have told: "get_stream_results (map (\<lambda>sp. parsed (stream_json p sp)) (streams p)) None q1 = (None, q2)"
    using get_stream_results_told [of "streams p" q1 p] ids p by (simp add: q1(2) q2_def results_sendable_def)
  have out: "cJSON_GetObjectItem ?j ''server_output_json'' = None"
      "cJSON_GetObjectItem ?j ''server_output_text'' = (if sends_output p then
         Some (CJ cJSON_String 0 0 (Some (concat (server_output_list p))) (Some ''server_output_text'') []) else None)"
    using results_item [of "''server_output_json''" None p] p
      results_item [of "''server_output_text''" "if sends_output p \<and> json_output p = 0 then cJSON_CreateString (Some (concat (server_output_list p))) else None" p]
    by (cases "cpu_util p"; auto simp: results_list_def Let_def results_sendable_def cJSON_CreateString_def)+
  define q3 where "q3 = (if role q = CHR ''c'' \<and> get_server_output q \<noteq> 0 \<and> sends_output p
    then q2\<lparr>server_output_text := Some (concat (server_output_list p))\<rparr> else q2)"
  have "get_output ?j q2 = Some (?j, q3)"
    using detach_none [OF out(1)] by (auto simp: get_output_def on_string_def out(2) q3_def q2_def q1(2) split: prod.splits)
  moreover have "cJSON_GetObjectItem ?j ''congestion_used'' = map_option (\<lambda>s. CJ cJSON_String 0 0 (Some s) (Some ''congestion_used'') []) (congestion_used p)"
    using results_item [of "''congestion_used''" "cJSON_CreateString (congestion_used p)" p]
    by (cases "cpu_util p"; cases "congestion_used p") (simp_all add: results_list_def Let_def cJSON_CreateString_def)
  then have "on_string ?j ''congestion_used'' (\<lambda>s t. t\<lparr>remote_congestion_used := Some s\<rparr>) q3 =
      Some (q3\<lparr>remote_congestion_used := opt_else (congestion_used p) (remote_congestion_used q)\<rparr>)"
    by (cases "congestion_used p") (simp_all add: on_string_def opt_else_def q3_def q2_def q1(2))
  ultimately have "apply_results ?j q = Some (None, q3\<lparr>remote_congestion_used := opt_else (congestion_used p) (remote_congestion_used q)\<rparr>)"
    by (simp add: apply_results_def q1(1) strs ch told)
  moreover have "exchanged p q (q3\<lparr>remote_congestion_used := opt_else (congestion_used p) (remote_congestion_used q)\<rparr>)"
    by (simp add: exchanged_def q3_def q2_def q1(2))
  ultimately show ?thesis by blast
qed

lemma results_json_ok:
  assumes "results_sendable p"
  shows "json_ok CJSON_NESTING_LIMIT (results_json p)"
proof -
  have st: "json_ok 998 (stream_json p sp)" if "stream_sendable p sp" for sp
  proof -
    have "json_ok (Suc 997) (stream_json p sp)" unfolding stream_json_def
      by (rule json_ok_members) (use that in \<open>auto simp: stream_list_def Let_def num_def cJSON_CreateNumber_def d_of_int_def
        iperf_time_in_secs_def dadd_def stream_sendable_def\<close>)
    then show ?thesis by simp
  qed
  obtain a b c where cpu: "cpu_util p = (a, b, c)" by (cases "cpu_util p")
  have "json_ok 999 (streams_json p)"
  proof -
    have "json_ok (Suc 998) (streams_json p)" using assms st
      by (auto simp only: streams_json_eq json_ok.simps jtype.case nat.case list_all_iff set_map results_sendable_def)
    then show ?thesis by simp
  qed
  then show ?thesis unfolding nesting_limit_Suc results_json_def using assms
    by (intro json_ok_members) (auto simp: results_list_def cpu Let_def num_def cJSON_CreateNumber_def cJSON_CreateString_def d_of_int_def
      results_sendable_def opt_c_str_def c_str_ok_def split: option.splits if_splits)
qed

section \<open>Properties\<close>

text \<open>
  (C2) The results arrive. What an end's \<open>send_results\<close> writes successfully lets the other end's
  \<open>get_results\<close>, on a connection that keeps the order of its bytes, succeed whenever the ids of
  the streams match: every stream of the receiver is told the bytes, packets, errors, jitter,
  retransmissions and times the peer counted for the stream of the same id, each in the fields
  that belong to the peer's direction, and the test the processor load, the congestion
  algorithm and the server's output.
\<close>

theorem results_arrive:
  assumes "results_sendable p" "distinct (ids (streams p))" "distinct (ids (streams q))" "set (ids (streams p)) \<subseteq> set (ids (streams q))"
    and "takes_all K (ctrl_sck p)" "\<And>n w. k_malloc K n w = (True, w)" "in_order K (ctrl_sck q) inp"
    and "cJSON_PrintUnformatted (results_json p) = Some str" "length str < 2147483648"
  shows "\<exists>w es. run_state (send_results K p) st = (Returns 0, st\<lparr>world := w, elog := elog st @ es\<rparr>) \<and>
    (\<forall>st2 rest. inp (world st2) = wrote_on (ctrl_sck p) es @ rest \<longrightarrow>
      (\<exists>q' w'. run_state (get_results K q) st2 = (Returns (0, q'), st2\<lparr>world := w'\<rparr>) \<and> exchanged p q q' \<and> inp w' = rest))"
proof -
  have m: "run_state (sys_malloc K n) st = (True, st)" for n using assms(6) by (simp add: sys_malloc_def)
  obtain cs w where w: "run_state (JSON_write K (ctrl_sck p) (results_json p)) st =
      (0, st\<lparr>world := w, elog := elog st @ map (Wrote (ctrl_sck p)) cs\<rparr>)" "concat cs = frame str"
    using JSON_write_frame [OF assms(5,8,9)] by blast
  obtain q' where q': "apply_results (parsed (results_json p)) q = Some (None, q')" "exchanged p q q'"
    using apply_results_sent [OF assms(1-4)] by blast
  have "\<exists>q' w'. run_state (get_results K q) st2 = (Returns (0, q'), st2\<lparr>world := w'\<rparr>) \<and> exchanged p q q' \<and> inp w' = rest"
    if "inp (world st2) = frame str @ rest" for st2 rest
    using JSON_read_frame [OF assms(7,6) that assms(9)] cj.dec_enc [OF results_json_ok [OF assms(1)] assms(8)] q'
    by (auto simp: get_results_def)
  moreover have "run_state (send_results K p) st = (Returns 0, st\<lparr>world := w, elog := elog st @ map (Wrote (ctrl_sck p)) cs\<rparr>)"
    using assms(1) w(1) m by (auto simp: send_results_def results_sendable_def)
  ultimately show ?thesis using w(2)
    by (intro exI [of _ w] exI [of _ "map (Wrote (ctrl_sck p)) cs"]) simp
qed

definition sample_peer :: iperf_test where
  "sample_peer = sample_server\<lparr>streams := [sample_stream\<lparr>sender := 0, packet_count := 3, stream_result := (stream_result sample_stream)\<lparr>bytes_received := 7\<rparr>\<rparr>]\<rparr>"

lemmas sample_peer_defs = sample_peer_def sample_test_defs sample_stream_def zero_result_def

theorem results_arrive_witness:
  "\<exists>w es q' st'. run_state (send_results sample_kernel sample_peer) (sample_sys []) =
      (Returns 0, (sample_sys [])\<lparr>world := w, elog := elog (sample_sys []) @ es\<rparr>) \<and>
    run_state (get_results sample_kernel (sample_client\<lparr>streams := [sample_stream]\<rparr>)) (sample_sys (wrote_on 6 es)) = (Returns (0, q'), st') \<and>
    bytes_received (stream_result (hd (streams q'))) = 7 \<and> peer_packet_count (hd (streams q')) = 3"
proof -
  have ok: "results_sendable sample_peer"
    by (simp add: results_sendable_def sample_peer_defs stream_sendable_def int_range_def double_range_def opt_c_str_def
        retransmitted_def transferred_def sends_output_def)
  have n: "print_number 0 = Some ''0''" "print_number 7 = Some ''7''" "print_number 3 = Some ''3''" "print_number 1 = Some ''1''"
    "print_number (- 1) = Some ''-1''" by code_simp+
  have d: "d_of_int 0 = 0" "d_of_int 7 = 7" "d_of_int 3 = 3" "d_of_int 1 = 1" "d_of_int (- 1) = - 1" by code_simp+
  obtain str where str: "cJSON_PrintUnformatted (results_json sample_peer) = Some str" "length str < 2147483648"
    by (simp add: cJSON_PrintUnformatted_def results_json_def results_list_def sample_peer_defs streams_json_eq stream_json_def stream_list_def
        sends_output_def num_def cJSON_CreateNumber_def cJSON_CreateString_def cJSON_CreateObject_def fold_add_member add_member_def d n
        same_time_secs fmt_str_def print_string_ptr_def cJSON_AddItemToObject_def cJSON_AddItemToObjectCS_def escape_char_def)
  let ?q = "sample_client\<lparr>streams := [sample_stream]\<rparr>"
  have i: "distinct (ids (streams sample_peer))" "distinct (ids (streams ?q))" "set (ids (streams sample_peer)) \<subseteq> set (ids (streams ?q))"
    by (simp_all add: sample_peer_defs)
  have m: "k_malloc sample_kernel k w = (True, w)" for k w by (simp add: sample_kernel_def)
  have fd: "ctrl_sck sample_peer = 6" by (simp add: sample_peer_defs)
  obtain w es where es: "run_state (send_results sample_kernel sample_peer) (sample_sys []) =
      (Returns 0, (sample_sys [])\<lparr>world := w, elog := elog (sample_sys []) @ es\<rparr>)"
    "\<forall>st2 rest. world st2 = wrote_on 6 es @ rest \<longrightarrow>
      (\<exists>q' w'. run_state (get_results sample_kernel ?q) st2 = (Returns (0, q'), st2\<lparr>world := w'\<rparr>) \<and> exchanged sample_peer ?q q' \<and> w' = rest)"
    using results_arrive [OF ok i sample_takes_all m sample_in_order str, of "sample_sys []"] unfolding fd
    by (elim exE conjE) (rule that)
  have "world (sample_sys (wrote_on 6 es)) = wrote_on 6 es @ []" by (simp add: sample_sys_def)
  then obtain q' st' where q': "run_state (get_results sample_kernel ?q) (sample_sys (wrote_on 6 es)) = (Returns (0, q'), st')" "exchanged sample_peer ?q q'"
    using es(2) [rule_format, of "sample_sys (wrote_on 6 es)" "[]"] by blast
  have "streams q' = [told sample_peer (hd (streams sample_peer)) sample_stream]"
    using q'(2) by (simp add: exchanged_def all_told_def sample_peer_defs)
  then have "bytes_received (stream_result (hd (streams q'))) = 7" "peer_packet_count (hd (streams q')) = 3"
    by (simp_all add: told_def transferred_def sample_peer_defs)
  then show ?thesis using es(1) q'(1) by blast
qed

end
