(* ===== verification/Streams.thy ===== *)
theory Streams
  imports Results Tcp
begin

text \<open>
  Streams: their creation (\<open>iperf_new_stream\<close>, \<open>iperf_init_stream\<close>, \<open>iperf_add_stream\<close> of
  \<open>iperf_api.c\<close>), the helpers of \<open>iperf_util.c\<close> it uses, and the statistics of an interval
  (\<open>iperf_stats_callback\<close>, \<open>iperf_reset_stats\<close>, \<open>tcp_info.c\<close>). Allocations succeed where the code does not check them;
  debug output is left out.
\<close>

section \<open>Filling buffers\<close>

text \<open>\<open>readentropy\<close>: \<open>None\<close> stands for the exit of the program when \<open>/dev/urandom\<close> cannot be read.\<close>

definition readentropy :: "'w kernel \<Rightarrow> nat \<Rightarrow> ('w sys, u8 list option) state" where
  "readentropy K outsize =
     (if outsize = 0 then ret (Some [])
      else State (\<lambda>s. case k_random K outsize (world s) of
        (Some bs, w) \<Rightarrow> (if length bs = outsize then Some bs else None, s\<lparr>world := w\<rparr>)
      | (None, w) \<Rightarrow> (None, s\<lparr>world := w\<rparr>)))"

text \<open>The loop of \<open>fill_with_repeating_pattern\<close>, with what is left to fill and its counter.\<close>

fun fill_loop :: "nat \<Rightarrow> int \<Rightarrow> u8 list" where
  "fill_loop 0 counter = []"
| "fill_loop (Suc n) counter = word_of_int (48 + counter) # fill_loop n (if 9 \<le> counter then 0 else counter + 1)"

definition fill_with_repeating_pattern :: "nat \<Rightarrow> u8 list" where
  "fill_with_repeating_pattern outsize = fill_loop outsize 0"

definition rndchars :: string where "rndchars = ''abcdefghijklmnopqrstuvwxyz234567''"

text \<open>The cookie up to its terminating zero.\<close>

definition make_cookie :: "'w kernel \<Rightarrow> ('w sys, u8 list option) state" where
  "make_cookie K = do {
     e \<leftarrow> readentropy K COOKIE_SIZE;
     ret (map_option (\<lambda>out. map (\<lambda>b. of_nat (of_char (rndchars ! (unat b mod length rndchars)))) (take (COOKIE_SIZE - 1) out)) e)
   }"

section \<open>A new stream\<close>

definition empty_result :: iperf_stream_result where
  "empty_result = \<lparr>bytes_received = 0, bytes_sent = 0, bytes_received_this_interval = 0,
     bytes_sent_this_interval = 0, bytes_sent_omit = 0, stream_prev_total_retrans = 0, stream_retrans = 0,
     stream_prev_total_sacks = 0, stream_sacks = 0, stream_max_rtt = 0, stream_min_rtt = 0, stream_sum_rtt = 0,
     stream_count_rtt = 0, stream_max_snd_cwnd = 0, start_time = \<lparr>secs = 0, usecs = 0\<rparr>,
     end_time = \<lparr>secs = 0, usecs = 0\<rparr>, start_time_fixed = \<lparr>secs = 0, usecs = 0\<rparr>, sender_time = 0,
     receiver_time = 0, interval_results = []\<rparr>"

definition empty_stream :: "nat \<Rightarrow> iperf_stream" where
  "empty_stream a = \<lparr>stream_addr = a, local_port = 0, remote_port = 0, socket = 0, stream_id = 0, sender = 0,
     stream_result = empty_result, send_timer = None, green_light = 0, buffer_fd = 0, buffer = [],
     diskfile_fd = 0, diskfile_left = 0, packet_count = 0, peer_packet_count = 0,
     omitted_packet_count = 0, jitter = 0, prev_transit = 0, outoforder_packets = 0,
     omitted_outoforder_packets = 0, cnt_error = 0, omitted_cnt_error = 0, target = 0, local_addr = None,
     remote_addr = None, rcv = No_fn, snd_fn = No_fn, rcv2 = No_fn, snd2 = No_fn\<rparr>"

text \<open>The members \<open>send\<close> and \<open>recv\<close> of the protocols, as \<open>iperf_defaults\<close> sets them.\<close>

definition prot_send :: "protocol \<Rightarrow> stream_fn" where
  "prot_send p = (if prot_id p = Ptcp then Tcp_send else if prot_id p = Pudp then Udp_send else No_fn)"

definition prot_recv :: "protocol \<Rightarrow> stream_fn" where
  "prot_recv p = (if prot_id p = Ptcp then Tcp_recv else if prot_id p = Pudp then Udp_recv else No_fn)"

definition iperf_init_stream :: "'w kernel \<Rightarrow> iperf_test \<Rightarrow> iperf_stream \<Rightarrow> ('w sys, int \<times> iperf_stream) state" where
  "iperf_init_stream K t sp = do {
     l \<leftarrow> syscall (k_getsockname K (socket sp));
     (case l of None \<Rightarrow> fail_with IEINITSTREAM (-1, sp)
      | Some la \<Rightarrow> do {
          let sp = sp\<lparr>local_addr := Some la\<rparr>;
          p \<leftarrow> syscall (k_getpeername K (socket sp));
          (case p of None \<Rightarrow> fail_with IEINITSTREAM (-1, sp)
           | Some ra \<Rightarrow> do {
               let sp = sp\<lparr>remote_addr := Some ra\<rparr>;
               let opt = tos (settings t);
               if opt \<noteq> 0 then do {
                 d \<leftarrow> getsockdomain K (socket sp);
                 if d = AF_INET6 then do {
                   r \<leftarrow> syscall (k_setsockopt K (socket sp) IPV6_TCLASS opt);
                   if r = None then fail_with IESETCOS (-1, sp) else ret (0, sp)
                 }
                 else do {
                   r \<leftarrow> syscall (k_setsockopt K (socket sp) IP_TOS opt);
                   if r = None then fail_with IESETTOS (-1, sp) else ret (0, sp)
                 }
               }
               else ret (0, sp)
             })
        })
   }"

text \<open>The new stream goes to the end; the first has id 1, the second 3, and so on.\<close>

definition iperf_add_stream :: "iperf_stream \<Rightarrow> iperf_test \<Rightarrow> iperf_stream \<times> iperf_test" where
  "iperf_add_stream sp t =
     (if streams t = [] then
        (let sp = sp\<lparr>stream_id := 1\<rparr> in (sp, t\<lparr>streams := [sp]\<rparr>))
      else
        (let sp = sp\<lparr>stream_id := 2 + int (length (streams t))\<rparr> in (sp, t\<lparr>streams := streams t @ [sp]\<rparr>)))"

definition stream_template :: "'w kernel \<Rightarrow> iperf_test \<Rightarrow> string" where
  "stream_template K t = take 1023
     (case tmp_template t of Some s \<Rightarrow> s
      | None \<Rightarrow>
          (case k_getenv K ''TMPDIR'' of Some d \<Rightarrow> d
           | None \<Rightarrow> (case k_getenv K ''TEMP'' of Some d \<Rightarrow> d
           | None \<Rightarrow> (case k_getenv K ''TMP'' of Some d \<Rightarrow> d
           | None \<Rightarrow> ''/tmp''))) @ ''/iperf3.XXXXXX'')"

definition sys_open :: "('w \<Rightarrow> int sysret \<times> 'w) \<Rightarrow> ('w sys, int option) state" where
  "sys_open f = do {
     r \<leftarrow> syscall f;
     (case r of None \<Rightarrow> ret None | Some fd \<Rightarrow> do { log_event (Opened fd); ret (Some fd) })
   }"

text \<open>
  The buffer: a temporary file, unlinked at once, and a private mapping of it. The failures
  after \<open>mkstemp\<close> leave its descriptor open.
\<close>

definition new_buffer :: "'w kernel \<Rightarrow> iperf_test \<Rightarrow> ('w sys, (int \<times> u8 list) option) state" where
  "new_buffer K t = do {
     m \<leftarrow> syscall (k_mkstemp K (stream_template K t));
     (case m of None \<Rightarrow> fail_with IECREATESTREAM None
      | Some (fd, name) \<Rightarrow> do {
          log_event (Opened fd);
          u \<leftarrow> syscall (k_unlink K name);
          if u = None then fail_with IECREATESTREAM None
          else do {
            f \<leftarrow> syscall (k_ftruncate K fd (blksize (settings t)));
            if f = None then fail_with IECREATESTREAM None
            else do {
              b \<leftarrow> syscall (k_mmap K (c_size_t (blksize (settings t))) fd);
              (case b of None \<Rightarrow> fail_with IECREATESTREAM None | Some buf \<Rightarrow> ret (Some (fd, buf)))
            }
          }
        })
   }"

text \<open>The functions that move the data, with the file of the option \<open>-F\<close> in between if there is one.\<close>

definition new_fns :: "'w kernel \<Rightarrow> iperf_test \<Rightarrow> iperf_stream \<Rightarrow> ('w sys, iperf_stream option) state" where
  "new_fns K t sp = do {
     let sp = sp\<lparr>snd_fn := prot_send (protocol t), rcv := prot_recv (protocol t)\<rparr>;
     (case diskfile_name t of
        None \<Rightarrow> ret (Some (sp\<lparr>diskfile_fd := -1\<rparr>))
      | Some name \<Rightarrow> do {
          fd \<leftarrow> sys_open (k_open K name (sender sp = 0));
          (case fd of
             None \<Rightarrow> do { set_i_errno IEFILE; syscall (k_munmap K); ret None }
           | Some fd \<Rightarrow> ret (Some (sp\<lparr>diskfile_fd := fd, snd2 := snd_fn sp, snd_fn := Diskfile_send, rcv2 := rcv sp, rcv := Diskfile_recv\<rparr>)))
        })
   }"

definition init_buffer :: "'w kernel \<Rightarrow> iperf_test \<Rightarrow> ('w sys, u8 list option) state" where
  "init_buffer K t =
     (let n = c_size_t (blksize (settings t)) in
      if repeating_payload t \<noteq> 0 then ret (Some (fill_with_repeating_pattern n)) else readentropy K n)"

text \<open>\<open>a\<close> is the address \<open>malloc\<close> returns for the stream; the size of an object does not matter here.\<close>

definition iperf_new_stream ::
  "'w kernel \<Rightarrow> nat \<Rightarrow> int \<Rightarrow> int \<Rightarrow> iperf_test \<Rightarrow> ('w sys, (iperf_stream option \<times> iperf_test) outcome) state" where
  "iperf_new_stream K a s snder t = do {
     ok1 \<leftarrow> sys_malloc K 1;
     ok2 \<leftarrow> (if ok1 then sys_malloc K 1 else ret False);
     if \<not> ok2 then fail_with IECREATESTREAM (Returns (None, t))
     else do {
       b \<leftarrow> new_buffer K t;
       (case b of None \<Rightarrow> ret (Returns (None, t))
        | Some (fd, buf) \<Rightarrow> do {
            let sp = (empty_stream a)\<lparr>sender := snder, buffer_fd := fd, buffer := buf, socket := s\<rparr>;
            f \<leftarrow> new_fns K t sp;
            (case f of None \<Rightarrow> ret (Returns (None, t))
             | Some sp \<Rightarrow> do {
                 e \<leftarrow> init_buffer K t;
                 (case e of None \<Rightarrow> ret Exits
                  | Some bs \<Rightarrow> do {
                      (r, sp) \<leftarrow> iperf_init_stream K t (sp\<lparr>buffer := bs\<rparr>);
                      if r < 0 then do { sys_close K fd; syscall (k_munmap K); ret (Returns (None, t)) }
                      else (case iperf_add_stream sp t of (sp, t) \<Rightarrow> ret (Returns (Some sp, t)))
                    })
               })
          })
     }
   }"

section \<open>Statistics of an interval\<close>

definition has_tcpinfo :: int where "has_tcpinfo = 1"

text \<open>When \<open>getsockopt\<close> fails the structure keeps what it had.\<close>

definition save_tcpinfo :: "'w kernel \<Rightarrow> iperf_stream \<Rightarrow> iperf_interval_results \<Rightarrow> ('w sys, iperf_interval_results) state" where
  "save_tcpinfo K sp irp = do {
     r \<leftarrow> syscall (k_tcpinfo K (socket sp));
     ret (case r of None \<Rightarrow> irp | Some ti \<Rightarrow> irp\<lparr>tcpInfo := ti\<rparr>)
   }"

definition get_total_retransmits :: "iperf_interval_results \<Rightarrow> int" where
  "get_total_retransmits irp = uint (tcpi_total_retrans (tcpInfo irp))"

text \<open>The product is computed in 32 bits.\<close>

definition get_snd_cwnd :: "iperf_interval_results \<Rightarrow> int" where
  "get_snd_cwnd irp = uint (tcpi_snd_cwnd (tcpInfo irp) * tcpi_snd_mss (tcpInfo irp))"

definition get_rtt :: "iperf_interval_results \<Rightarrow> int" where "get_rtt irp = uint (tcpi_rtt (tcpInfo irp))"
definition get_rttvar :: "iperf_interval_results \<Rightarrow> int" where "get_rttvar irp = uint (tcpi_rttvar (tcpInfo irp))"
definition get_pmtu :: "iperf_interval_results \<Rightarrow> int" where "get_pmtu irp = uint (tcpi_pmtu (tcpInfo irp))"

definition add_to_interval_list :: "iperf_stream_result \<Rightarrow> iperf_interval_results \<Rightarrow> iperf_stream_result" where
  "add_to_interval_list rp new = rp\<lparr>interval_results := interval_results rp @ [new]\<rparr>"

text \<open>\<open>iperf_time_now(&t)\<close> on a time that already has a value.\<close>

definition sys_time_into :: "'w kernel \<Rightarrow> iperf_time \<Rightarrow> ('w sys, int \<times> iperf_time) state" where
  "sys_time_into K t0 = State (\<lambda>s. case k_clock K (world s) of (clk, w) \<Rightarrow> (iperf_time_now clk t0, s\<lparr>world := w\<rparr>))"

definition tcp_stats :: "iperf_interval_results \<Rightarrow> iperf_stream_result \<Rightarrow> iperf_interval_results \<times> iperf_stream_result" where
  "tcp_stats temp rp =
     (let total_retrans = get_total_retransmits temp;
          temp = temp\<lparr>interval_retrans := to_int32 (total_retrans - stream_prev_total_retrans rp)\<rparr>;
          rp = rp\<lparr>stream_retrans := to_int32 (stream_retrans rp + interval_retrans temp),
                  stream_prev_total_retrans := to_int32 total_retrans\<rparr>;
          temp = temp\<lparr>snd_cwnd := to_int32 (get_snd_cwnd temp)\<rparr>;
          rp = rp\<lparr>stream_max_snd_cwnd := (if stream_max_snd_cwnd rp < snd_cwnd temp then snd_cwnd temp else stream_max_snd_cwnd rp)\<rparr>;
          temp = temp\<lparr>rtt := to_int32 (get_rtt temp)\<rparr>;
          rp = rp\<lparr>stream_max_rtt := (if stream_max_rtt rp < rtt temp then rtt temp else stream_max_rtt rp)\<rparr>;
          rp = rp\<lparr>stream_min_rtt := (if stream_min_rtt rp = 0 \<or> rtt temp < stream_min_rtt rp then rtt temp else stream_min_rtt rp)\<rparr>;
          rp = rp\<lparr>stream_sum_rtt := to_int32 (stream_sum_rtt rp + rtt temp), stream_count_rtt := to_int32 (stream_count_rtt rp + 1)\<rparr>
      in (temp\<lparr>rttvar := to_int32 (get_rttvar temp), pmtu := to_int32 (get_pmtu temp)\<rparr>, rp))"

definition udp_stats :: "iperf_interval_results option \<Rightarrow> iperf_stream \<Rightarrow> iperf_interval_results \<Rightarrow> iperf_interval_results" where
  "udp_stats irp sp temp =
     (let temp =
        (case irp of
           None \<Rightarrow> temp\<lparr>interval_packet_count := packet_count sp, interval_outoforder_packets := outoforder_packets sp,
             interval_cnt_error := cnt_error sp\<rparr>
         | Some irp \<Rightarrow> temp\<lparr>interval_packet_count := to_int32 (packet_count sp - ir_packet_count irp),
             interval_outoforder_packets := to_int32 (outoforder_packets sp - ir_outoforder_packets irp),
             interval_cnt_error := to_int32 (cnt_error sp - ir_cnt_error irp)\<rparr>)
      in temp\<lparr>ir_packet_count := packet_count sp, ir_jitter := jitter sp, ir_outoforder_packets := outoforder_packets sp,
           ir_cnt_error := cnt_error sp\<rparr>)"

text \<open>
  The body of the loop. \<open>temp\<close> is one local structure for all streams: what a stream does not
  set is left from the stream before.
\<close>

definition stats_stream ::
  "'w kernel \<Rightarrow> iperf_test \<Rightarrow> iperf_interval_results \<Rightarrow> iperf_stream \<Rightarrow> ('w sys, iperf_interval_results \<times> iperf_stream) state" where
  "stats_stream K t temp sp = do {
     let rp = stream_result sp;
     let temp = temp\<lparr>bytes_transferred := (if sender sp \<noteq> 0 then bytes_sent_this_interval rp else bytes_received_this_interval rp)\<rparr>;
     let irp = (if interval_results rp = [] then None else Some (last (interval_results rp)));
     let begins = (if irp \<noteq> None then end_time rp else start_time rp);
     (_, now) \<leftarrow> sys_time_into K (end_time rp);
     let rp = rp\<lparr>end_time := now\<rparr>;
     let temp = temp\<lparr>interval_start_time := begins, interval_end_time := now,
       interval_duration := iperf_time_in_secs (snd (iperf_time_diff begins now))\<rparr>;
     (temp, rp) \<leftarrow>
       (if prot_id (protocol t) = Ptcp then
          (if has_tcpinfo \<noteq> 0 then do {
             temp \<leftarrow> save_tcpinfo K sp temp;
             ret (if sender_has_retransmits t = 1 then tcp_stats temp rp else (temp, rp))
           }
           else ret (temp, rp))
        else ret (udp_stats irp sp temp, rp));
     ret (temp, sp\<lparr>stream_result := (add_to_interval_list rp temp)\<lparr>bytes_sent_this_interval := 0, bytes_received_this_interval := 0\<rparr>\<rparr>)
   }"

fun stats_streams :: "'w kernel \<Rightarrow> iperf_test \<Rightarrow> iperf_interval_results \<Rightarrow> iperf_stream list \<Rightarrow> ('w sys, iperf_stream list) state" where
  "stats_streams K t temp [] = ret []"
| "stats_streams K t temp (sp # sps) = do {
     (temp, sp) \<leftarrow> stats_stream K t temp sp;
     sps \<leftarrow> stats_streams K t temp sps;
     ret (sp # sps)
   }"

text \<open>\<open>temp0\<close> is what the uninitialised local holds.\<close>

definition iperf_stats_callback :: "'w kernel \<Rightarrow> iperf_interval_results \<Rightarrow> iperf_test \<Rightarrow> ('w sys, iperf_test) state" where
  "iperf_stats_callback K temp0 t = do {
     sps \<leftarrow> stats_streams K t (temp0\<lparr>omitted := omitting t\<rparr>) (streams t);
     ret (t\<lparr>streams := sps\<rparr>)
   }"

text \<open>The end of the omitted time: everything counted so far is taken out again.\<close>

definition reset_stream :: "'w kernel \<Rightarrow> iperf_interval_results \<Rightarrow> iperf_test \<Rightarrow> iperf_time \<Rightarrow> iperf_stream \<Rightarrow> ('w sys, iperf_stream) state" where
  "reset_stream K ir0 t now sp = do {
     let sp = sp\<lparr>omitted_packet_count := packet_count sp, omitted_cnt_error := cnt_error sp,
       omitted_outoforder_packets := outoforder_packets sp, jitter := 0\<rparr>;
     let rp = (stream_result sp)\<lparr>bytes_sent_omit := bytes_sent (stream_result sp), bytes_received := 0,
       bytes_sent_this_interval := 0, bytes_received_this_interval := 0\<rparr>;
     rp \<leftarrow> (if sender_has_retransmits t = 1 then do {
              ir \<leftarrow> save_tcpinfo K sp ir0;
              ret (rp\<lparr>stream_prev_total_retrans := to_int32 (get_total_retransmits ir)\<rparr>)
            }
            else ret rp);
     ret (sp\<lparr>stream_result := rp\<lparr>stream_retrans := 0, start_time := now\<rparr>\<rparr>)
   }"

fun reset_streams :: "'w kernel \<Rightarrow> iperf_interval_results \<Rightarrow> iperf_test \<Rightarrow> iperf_time \<Rightarrow> iperf_stream list \<Rightarrow> ('w sys, iperf_stream list) state" where
  "reset_streams K ir0 t now [] = ret []"
| "reset_streams K ir0 t now (sp # sps) = do {
     sp \<leftarrow> reset_stream K ir0 t now sp;
     sps \<leftarrow> reset_streams K ir0 t now sps;
     ret (sp # sps)
   }"

definition iperf_reset_stats :: "'w kernel \<Rightarrow> iperf_interval_results \<Rightarrow> iperf_test \<Rightarrow> ('w sys, iperf_test) state" where
  "iperf_reset_stats K ir0 t = do {
     let t = t\<lparr>test_bytes_sent := 0, test_blocks_sent := 0\<rparr>;
     (_, now) \<leftarrow> sys_time_now K;
     sps \<leftarrow> reset_streams K ir0 t now (streams t);
     ret (t\<lparr>streams := sps\<rparr>)
   }"

end
