(* ===== verification/Data.thy ===== *)
theory Data
  imports Streams
begin

text \<open>
  Moving the data (\<open>iperf_api.c\<close>): the functions a stream sends and receives with, among them
  the two of the option \<open>-F\<close>, the pacing of the sender (\<open>iperf_check_throttle\<close>), and the loops
  over the streams (\<open>iperf_send\<close>, \<open>iperf_recv\<close>). A stream is named by its place in the list.
\<close>

section \<open>State messages\<close>

text \<open>The state is sent as one signed byte.\<close>

definition state_byte :: "int \<Rightarrow> u8" where "state_byte st = word_of_int st"

definition iperf_set_send_state :: "'w kernel \<Rightarrow> int \<Rightarrow> iperf_test \<Rightarrow> ('w sys, int \<times> iperf_test) state" where
  "iperf_set_send_state K st t = do {
     let t = t\<lparr>state := st\<rparr>;
     r \<leftarrow> Nwrite K (ctrl_sck t) [state_byte st];
     if r < 0 then fail_with IESENDMESSAGE (-1, t) else ret (0, t)
   }"

section \<open>The functions of a stream\<close>

text \<open>
  The functions of the protocols. \<open>iperf_new_stream\<close> stores no other pointer in \<open>snd2\<close> and \<open>rcv2\<close>
  and, without \<open>-F\<close>, in \<open>snd\<close> and \<open>rcv\<close>; the last equation, which no call reaches, makes the
  function total.
\<close>

fun call_prot :: "'w kernel \<Rightarrow> stream_fn \<Rightarrow> iperf_test \<Rightarrow> iperf_stream \<Rightarrow> ('w sys, int \<times> iperf_stream) state" where
  "call_prot K Tcp_send t sp = iperf_tcp_send K t sp"
| "call_prot K Tcp_recv t sp = iperf_tcp_recv K t sp"
| "call_prot K Udp_send t sp = iperf_udp_send K t sp"
| "call_prot K Udp_recv t sp = iperf_udp_recv K t sp"
| "call_prot K _ t sp = ret (NET_HARDERROR, sp)"

text \<open>
  The next part of the file is read to the beginning of the buffer, also when the end of the
  last part is still there, and what was not sent is moved to the beginning.
\<close>

definition diskfile_fill :: "'w kernel \<Rightarrow> iperf_test \<Rightarrow> iperf_stream \<Rightarrow> ('w sys, iperf_test \<times> iperf_stream) state" where
  "diskfile_fill K t sp =
     (if diskfile_left sp < blksize (settings t) \<and> test_done t = 0 then do {
        r \<leftarrow> syscall (k_read K (diskfile_fd sp) (c_size_t (blksize (settings t) - diskfile_left sp)));
        (case r of None \<Rightarrow> ret (t, sp)
         | Some bs \<Rightarrow>
             ret (if bs = [] \<and> diskfile_left sp = 0 then t\<lparr>test_done := 1\<rparr> else t,
                  sp\<lparr>buffer := bs @ drop (length bs) (buffer sp)\<rparr>))
      }
      else ret (t, sp))"

definition diskfile_send :: "'w kernel \<Rightarrow> iperf_test \<Rightarrow> iperf_stream \<Rightarrow> ('w sys, int \<times> iperf_test \<times> iperf_stream) state" where
  "diskfile_send K t sp = do {
     (t, sp) \<leftarrow> diskfile_fill K t sp;
     (r, sp) \<leftarrow> call_prot K (snd2 sp) t sp;
     if r < 0 then ret (r, t, sp)
     else do {
       let left = blksize (settings t) - r;
       let sp = sp\<lparr>diskfile_left := left\<rparr>;
       ret (r, t,
         if left \<noteq> 0 \<and> left < blksize (settings t)
         then sp\<lparr>buffer := take (nat left) (drop (nat r) (buffer sp)) @ drop (nat left) (buffer sp)\<rparr>
         else sp)
     }
   }"

definition diskfile_recv :: "'w kernel \<Rightarrow> iperf_test \<Rightarrow> iperf_stream \<Rightarrow> ('w sys, int \<times> iperf_test \<times> iperf_stream) state" where
  "diskfile_recv K t sp = do {
     (r, sp) \<leftarrow> call_prot K (rcv2 sp) t sp;
     do_if (0 < r) (do {
       w \<leftarrow> syscall (k_write K (diskfile_fd sp) (take (nat r) (buffer sp)));
       (case w of None \<Rightarrow> ret () | Some n \<Rightarrow> log_event (Wrote (diskfile_fd sp) (take n (buffer sp))));
       syscall (k_fsync K (diskfile_fd sp));
       ret ()
     });
     ret (r, t, sp)
   }"

definition call_fn :: "'w kernel \<Rightarrow> stream_fn \<Rightarrow> iperf_test \<Rightarrow> iperf_stream \<Rightarrow> ('w sys, int \<times> iperf_test \<times> iperf_stream) state" where
  "call_fn K f t sp =
     (case f of
        Diskfile_send \<Rightarrow> diskfile_send K t sp
      | Diskfile_recv \<Rightarrow> diskfile_recv K t sp
      | _ \<Rightarrow> do { (r, sp) \<leftarrow> call_prot K f t sp; ret (r, t, sp) })"

text \<open>A call on the stream at place \<open>i\<close> of the list.\<close>

definition call_stream :: "'w kernel \<Rightarrow> (iperf_stream \<Rightarrow> stream_fn) \<Rightarrow> nat \<Rightarrow> iperf_test \<Rightarrow> ('w sys, int \<times> iperf_test) state" where
  "call_stream K f i t = do {
     let sp = streams t ! i;
     (r, t, sp) \<leftarrow> call_fn K (f sp) t sp;
     ret (r, t\<lparr>streams := (streams t)[i := sp]\<rparr>)
   }"

section \<open>Pacing\<close>

text \<open>
  \<open>bytes_sent * 8 / seconds\<close> converted to \<open>uint64_t\<close>: the product in 64 bits, the quotient in
  double precision. When no time has passed, or the quotient does not fit, the conversion is
  undefined in C and its result a parameter.
\<close>

definition bits_per_second :: "'w kernel \<Rightarrow> u64 \<Rightarrow> rat \<Rightarrow> u64" where
  "bits_per_second K sent seconds =
     (if seconds = 0 then k_cast K
      else case d_to_u64 (ddiv (d_of_int (uint (sent * 8))) seconds) of None \<Rightarrow> k_cast K | Some b \<Rightarrow> b)"

definition iperf_check_throttle :: "'w kernel \<Rightarrow> nat \<Rightarrow> iperf_time \<Rightarrow> iperf_test \<Rightarrow> iperf_test" where
  "iperf_check_throttle K i now t =
     (if test_done t \<noteq> 0 then t
      else
        (let sp = streams t ! i;
             seconds = iperf_time_in_secs (snd (iperf_time_diff (start_time_fixed (stream_result sp)) now))
         in if bits_per_second K (bytes_sent (stream_result sp)) seconds < rate (settings t)
            then t\<lparr>streams := (streams t)[i := sp\<lparr>green_light := 1\<rparr>], write_set := FD_SET (socket sp) (write_set t)\<rparr>
            else t\<lparr>streams := (streams t)[i := sp\<lparr>green_light := 0\<rparr>], write_set := FD_CLR (socket sp) (write_set t)\<rparr>))"

section \<open>Sending\<close>

text \<open>How the loop over the streams ends: with the value of \<open>streams_active\<close>, or by an error.\<close>

datatype pass = Passed bool iperf_test | Failed int iperf_test

definition count_sent :: "int \<Rightarrow> iperf_test \<Rightarrow> iperf_test" where
  "count_sent r t = t\<lparr>test_bytes_sent := test_bytes_sent t + word_of_int r, test_blocks_sent := test_blocks_sent t + 1\<rparr>"

definition reached_limit :: "int \<Rightarrow> iperf_test \<Rightarrow> bool" where
  "reached_limit rounds t \<longleftrightarrow> 1 < rounds \<and>
     (bytes (settings t) \<noteq> 0 \<and> bytes (settings t) \<le> test_bytes_sent t \<or>
      blocks (settings t) \<noteq> 0 \<and> blocks (settings t) \<le> test_blocks_sent t)"

fun send_streams ::
  "'w kernel \<Rightarrow> int \<Rightarrow> iperf_time \<Rightarrow> int list option \<Rightarrow> nat list \<Rightarrow> bool \<Rightarrow> iperf_test \<Rightarrow> ('w sys, pass) state" where
  "send_streams K rounds now ws [] active t = ret (Passed active t)"
| "send_streams K rounds now ws (i # is) active t =
     (let sp = streams t ! i in
      if green_light sp \<noteq> 0 \<and> sender sp \<noteq> 0 \<and> (case ws of None \<Rightarrow> True | Some s \<Rightarrow> FD_ISSET (socket sp) s) then do {
        (r, t) \<leftarrow> call_stream K snd_fn i t;
        if r < 0 then (if r = NET_SOFTERROR then ret (Passed active t) else fail_with IESTREAMWRITE (Failed r t))
        else do {
          let t = count_sent r t;
          let t = (if rate (settings t) \<noteq> 0 \<and> burst (settings t) = 0 then iperf_check_throttle K i now t else t);
          if reached_limit rounds t then ret (Passed True t)
          else send_streams K rounds now ws is True t
        }
      }
      else send_streams K rounds now ws is active t)"

text \<open>The loop \<open>for (; multisend > 0; --multisend)\<close>; \<open>now\<close> keeps its value when the time is not taken.\<close>

fun send_rounds :: "'w kernel \<Rightarrow> nat \<Rightarrow> iperf_time \<Rightarrow> int list option \<Rightarrow> iperf_test \<Rightarrow> ('w sys, int \<times> iperf_test) state" where
  "send_rounds K 0 now ws t = ret (0, t)"
| "send_rounds K (Suc n) now ws t = do {
     now \<leftarrow> (if rate (settings t) \<noteq> 0 \<and> burst (settings t) = 0 then do { (_, now) \<leftarrow> sys_time_into K now; ret now } else ret now);
     p \<leftarrow> send_streams K (int (Suc n)) now ws [0..<length (streams t)] False t;
     (case p of
        Failed r t \<Rightarrow> ret (r, t)
      | Passed active t \<Rightarrow> if active then send_rounds K n now ws t else ret (0, t))
   }"

definition multisend_rounds :: "iperf_test \<Rightarrow> int" where
  "multisend_rounds t = (if burst (settings t) \<noteq> 0 then burst (settings t) else if rate (settings t) = 0 then multisend t else 1)"

definition iperf_send :: "'w kernel \<Rightarrow> int list option \<Rightarrow> iperf_test \<Rightarrow> ('w sys, int \<times> int list option \<times> iperf_test) state" where
  "iperf_send K ws t = do {
     (r, t) \<leftarrow> send_rounds K (nat (multisend_rounds t)) (k_uninit K) ws t;
     if r < 0 then ret (r, ws, t)
     else do {
       t \<leftarrow> (if burst (settings t) \<noteq> 0 then do {
               (_, now) \<leftarrow> sys_time_now K;
               ret (fold (\<lambda>i. iperf_check_throttle K i now) [0..<length (streams t)] t)
             }
             else ret t);
       ret (0, map_option (\<lambda>s. fold (\<lambda>sp s. FD_CLR (socket sp) s) (streams t) s) ws, t)
     }
   }"

section \<open>Receiving\<close>

definition count_received :: "int \<Rightarrow> iperf_test \<Rightarrow> iperf_test" where
  "count_received r t = t\<lparr>test_bytes_received := test_bytes_received t + word_of_int r, test_blocks_received := test_blocks_received t + 1\<rparr>"

fun recv_streams :: "'w kernel \<Rightarrow> nat list \<Rightarrow> int list \<Rightarrow> iperf_test \<Rightarrow> ('w sys, int \<times> int list \<times> iperf_test) state" where
  "recv_streams K [] rs t = ret (0, rs, t)"
| "recv_streams K (i # is) rs t =
     (let sp = streams t ! i in
      if FD_ISSET (socket sp) rs \<and> sender sp = 0 then do {
        (r, t) \<leftarrow> call_stream K rcv i t;
        if r < 0 then fail_with IESTREAMREAD (r, rs, t)
        else recv_streams K is (FD_CLR (socket sp) rs) (count_received r t)
      }
      else recv_streams K is rs t)"

definition iperf_recv :: "'w kernel \<Rightarrow> int list \<Rightarrow> iperf_test \<Rightarrow> ('w sys, int \<times> int list \<times> iperf_test) state" where
  "iperf_recv K rs t = recv_streams K [0..<length (streams t)] rs t"

section \<open>The start of the test\<close>

definition iperf_init_test :: "'w kernel \<Rightarrow> iperf_test \<Rightarrow> ('w sys, int \<times> iperf_test) state" where
  "iperf_init_test K t =
     (if prot_id (protocol t) = Pudp \<and> iperf_udp_init t < 0 then ret (-1, t)
      else do {
        (r, now) \<leftarrow> sys_time_now K;
        if r < 0 then fail_with IEINITTEST (-1, t)
        else ret (0, t\<lparr>streams := map (\<lambda>sp. sp\<lparr>stream_result := (stream_result sp)\<lparr>start_time := now, start_time_fixed := now\<rparr>\<rparr>) (streams t)\<rparr>)
      })"

text \<open>
  \<open>iperf_exchange_parameters\<close>; the listening function of the protocol is \<open>iperf_tcp_listen\<close> or
  \<open>iperf_udp_listen\<close>. An error of the server is sent to the client as \<open>SERVER_ERROR\<close> and the two
  error numbers.
\<close>

definition prot_listen :: "'w kernel \<Rightarrow> iperf_test \<Rightarrow> ('w sys, int \<times> iperf_test) state" where
  "prot_listen K t = (if prot_id (protocol t) = Ptcp then iperf_tcp_listen K t
     else do { r \<leftarrow> iperf_udp_listen K t; ret (r, t) })"

definition net_int :: "int \<Rightarrow> u8 list" where "net_int i = be_bytes 4 (unat (word_of_int i :: u32))"

definition send_server_error :: "'w kernel \<Rightarrow> iperf_test \<Rightarrow> ('w sys, int \<times> iperf_test) state" where
  "send_server_error K t = do {
     (r, t) \<leftarrow> iperf_set_send_state K SERVER_ERROR t;
     if r \<noteq> 0 then ret (-1, t)
     else do {
       err \<leftarrow> gets i_errno;
       w \<leftarrow> Nwrite K (ctrl_sck t) (net_int err);
       if w < 0 then fail_with IECTRLWRITE (-1, t)
       else do {
         err \<leftarrow> gets errno;
         w \<leftarrow> Nwrite K (ctrl_sck t) (net_int err);
         if w < 0 then fail_with IECTRLWRITE (-1, t) else ret (-1, t)
       }
     }
   }"

definition iperf_exchange_parameters :: "'w kernel \<Rightarrow> iperf_test \<Rightarrow> ('w sys, (int \<times> iperf_test) outcome) state" where
  "iperf_exchange_parameters K t =
     (if role t = CHR ''c'' then do {
        r \<leftarrow> send_parameters K t;
        ret (Returns (if r < 0 then -1 else 0, t))
      }
      else do {
        g \<leftarrow> get_parameters K t;
        (case g of
           Crash \<Rightarrow> ret Crash | Exits \<Rightarrow> ret Exits
         | Returns (r, t) \<Rightarrow>
             if r < 0 then ret (Returns (-1, t))
             else do {
               (s, t) \<leftarrow> prot_listen K t;
               if s < 0 then do { x \<leftarrow> send_server_error K t; ret (Returns x) }
               else do {
                 let t = t\<lparr>read_set := FD_SET s (read_set t), max_fd := max s (max_fd t), prot_listener := s\<rparr>;
                 (r, t) \<leftarrow> iperf_set_send_state K CREATE_STREAMS t;
                 ret (Returns (if r \<noteq> 0 then -1 else 0, t))
               }
             })
      })"

end
