(* ===== verification/Data_Props.thy ===== *)
theory Data_Props
  imports Data Results_Props
begin

text \<open>
  The bytes are accounted for. Whatever a test sends and receives, the intervals it reports add
  up to the totals of its streams, and these to the total of the test, through every
  interleaving of sending, receiving, interval reports and the end of the omitted time.
\<close>

section \<open>What a call changes in a stream\<close>

text \<open>\<open>moved a b sp sp'\<close>: \<open>a\<close> bytes were sent and \<open>b\<close> received; the identity of the stream is kept.\<close>

definition moved :: "u64 \<Rightarrow> u64 \<Rightarrow> iperf_stream \<Rightarrow> iperf_stream \<Rightarrow> bool" where
  "moved a b sp sp' \<longleftrightarrow> sender sp' = sender sp \<and> stream_id sp' = stream_id sp \<and> socket sp' = socket sp \<and>
     snd_fn sp' = snd_fn sp \<and> snd2 sp' = snd2 sp \<and> rcv sp' = rcv sp \<and> rcv2 sp' = rcv2 sp \<and> stream_addr sp' = stream_addr sp \<and>
     stream_result sp' = (stream_result sp)\<lparr>bytes_sent := bytes_sent (stream_result sp) + a,
       bytes_sent_this_interval := bytes_sent_this_interval (stream_result sp) + a,
       bytes_received := bytes_received (stream_result sp) + b,
       bytes_received_this_interval := bytes_received_this_interval (stream_result sp) + b\<rparr>"

lemma moved_refl: "moved 0 0 sp sp"
  by (simp add: moved_def)

lemma moved_trans: "moved a b sp1 sp2 \<Longrightarrow> moved c d sp2 sp3 \<Longrightarrow> moved (a + c) (b + d) sp1 sp3"
  by (simp add: moved_def add_ac)

definition sent_bytes :: "int \<Rightarrow> u64" where "sent_bytes r = (if r < 0 then 0 else word_of_int r)"

lemma moved_buffer [simp]: "moved a b sp (sp'\<lparr>buffer := x\<rparr>) = moved a b sp sp'" "moved a b (sp\<lparr>buffer := x\<rparr>) sp' = moved a b sp sp'"
  "moved a b sp (sp'\<lparr>diskfile_left := n\<rparr>) = moved a b sp sp'"
  by (simp_all add: moved_def)

lemma tcp_send_moved: "run_state (iperf_tcp_send K t sp) s = ((r, sp'), s') \<Longrightarrow> moved (sent_bytes r) 0 sp sp'"
  by (auto simp: iperf_tcp_send_def moved_def sent_bytes_def add_sent_def Let_def split: prod.splits if_splits)

lemma udp_send_moved: "run_state (iperf_udp_send K t sp) s = ((r, sp'), s') \<Longrightarrow> moved (sent_bytes r) 0 sp sp'"
  by (auto simp: iperf_udp_send_def moved_def sent_bytes_def add_sent_def Let_def split: prod.splits if_splits)

lemma tcp_recv_moved: "run_state (iperf_tcp_recv K t sp) s = ((r, sp'), s') \<Longrightarrow> \<exists>b. moved 0 b sp sp'"
  by (auto simp: iperf_tcp_recv_def moved_def add_received_def Let_def split: prod.splits if_splits intro: exI [of _ 0])

lemma udp_count_kept [simp]:
  "stream_result (udp_count n sp) = stream_result sp" "sender (udp_count n sp) = sender sp" "stream_id (udp_count n sp) = stream_id sp"
  "socket (udp_count n sp) = socket sp" "snd_fn (udp_count n sp) = snd_fn sp" "snd2 (udp_count n sp) = snd2 sp"
  "rcv (udp_count n sp) = rcv sp" "rcv2 (udp_count n sp) = rcv2 sp" "stream_addr (udp_count n sp) = stream_addr sp"
  by (simp_all add: udp_count_def Let_def)

lemma udp_jitter_kept [simp]:
  "stream_result (udp_jitter a b sp) = stream_result sp" "sender (udp_jitter a b sp) = sender sp" "stream_id (udp_jitter a b sp) = stream_id sp"
  "socket (udp_jitter a b sp) = socket sp" "snd_fn (udp_jitter a b sp) = snd_fn sp" "snd2 (udp_jitter a b sp) = snd2 sp"
  "rcv (udp_jitter a b sp) = rcv sp" "rcv2 (udp_jitter a b sp) = rcv2 sp" "stream_addr (udp_jitter a b sp) = stream_addr sp"
  by (simp_all add: udp_jitter_def Let_def split: prod.splits)

lemma udp_recv_moved: "run_state (iperf_udp_recv K t sp) s = ((r, sp'), s') \<Longrightarrow> \<exists>b. moved 0 b sp sp'"
  by (auto simp: iperf_udp_recv_def moved_def add_received_def Let_def split: prod.splits if_splits intro: exI [of _ 0])

text \<open>The functions \<open>iperf_new_stream\<close> stores.\<close>

definition fns_ok :: "iperf_stream \<Rightarrow> bool" where
  "fns_ok sp \<longleftrightarrow> snd_fn sp \<in> {Tcp_send, Udp_send} \<and> rcv sp \<in> {Tcp_recv, Udp_recv} \<or>
     snd_fn sp = Diskfile_send \<and> snd2 sp \<in> {Tcp_send, Udp_send} \<and> rcv sp = Diskfile_recv \<and> rcv2 sp \<in> {Tcp_recv, Udp_recv}"

lemma prot_send_moved:
  "f \<in> {Tcp_send, Udp_send} \<Longrightarrow> run_state (call_prot K f t sp) s = ((r, sp'), s') \<Longrightarrow> moved (sent_bytes r) 0 sp sp'"
  using tcp_send_moved udp_send_moved by auto

lemma prot_recv_moved:
  "f \<in> {Tcp_recv, Udp_recv} \<Longrightarrow> run_state (call_prot K f t sp) s = ((r, sp'), s') \<Longrightarrow> \<exists>b. moved 0 b sp sp'"
  using tcp_recv_moved udp_recv_moved by auto

text \<open>A file may end the test, but nothing else of it changes.\<close>

lemma diskfile_fill_kept:
  assumes "run_state (diskfile_fill K t sp) s = ((t', sp'), s')"
  shows "moved 0 0 sp sp' \<and> (\<exists>d. t' = t\<lparr>test_done := d\<rparr>)"
  using assms by (auto simp: diskfile_fill_def moved_refl split: if_splits prod.splits option.splits intro!: exI [of _ "test_done t'"])

lemma send_fn_moved:
  assumes "fns_ok sp" "run_state (call_fn K (snd_fn sp) t sp) s = ((r, t', sp'), s')"
  shows "moved (sent_bytes r) 0 sp sp' \<and> (\<exists>d. t' = t\<lparr>test_done := d\<rparr>)"
proof (cases "snd_fn sp = Diskfile_send")
  case True
  then have snd2: "snd2 sp \<in> {Tcp_send, Udp_send}" using assms(1) by (auto simp: fns_ok_def)
  obtain t1 sp1 s1 where f: "run_state (diskfile_fill K t sp) s = ((t1, sp1), s1)" by (metis prod.collapse)
  note k = diskfile_fill_kept [OF f]
  obtain r2 sp2 s2 where c: "run_state (call_prot K (snd2 sp1) t1 sp1) s1 = ((r2, sp2), s2)" by (metis prod.collapse)
  have "moved (sent_bytes r2) 0 sp1 sp2" using snd2 k c by (intro prot_send_moved) (auto simp: moved_def)
  then have "moved (sent_bytes r2) 0 sp sp2" using moved_trans k by force
  then show ?thesis using assms(2) f c k True by (auto simp: call_fn_def diskfile_send_def Let_def split: if_splits)
next
  case False
  then have "snd_fn sp \<in> {Tcp_send, Udp_send}" using assms(1) by (auto simp: fns_ok_def)
  then show ?thesis using assms(2) prot_send_moved [of "snd_fn sp"]
    by (auto simp: call_fn_def split: prod.splits intro!: exI [of _ "test_done t"])
qed

lemma recv_fn_moved:
  assumes "fns_ok sp" "run_state (call_fn K (rcv sp) t sp) s = ((r, t', sp'), s')"
  shows "(\<exists>b. moved 0 b sp sp') \<and> t' = t"
proof (cases "rcv sp = Diskfile_recv")
  case True
  then have rcv2: "rcv2 sp \<in> {Tcp_recv, Udp_recv}" using assms(1) by (auto simp: fns_ok_def)
  obtain r2 sp2 s2 where c: "run_state (call_prot K (rcv2 sp) t sp) s = ((r2, sp2), s2)" by (metis prod.collapse)
  show ?thesis using assms(2) c True prot_recv_moved [OF rcv2 c]
    by (auto simp: call_fn_def diskfile_recv_def split: prod.splits option.splits)
next
  case False
  then have "rcv sp \<in> {Tcp_recv, Udp_recv}" using assms(1) by (auto simp: fns_ok_def)
  then show ?thesis using assms(2) prot_recv_moved [of "rcv sp"] by (auto simp: call_fn_def split: prod.splits)
qed

section \<open>The accounts\<close>

text \<open>
  The bytes of the intervals that were not omitted. While the first seconds are being omitted
  there are none; afterwards they and the current interval make up the total of the stream.
\<close>

definition reported :: "iperf_stream \<Rightarrow> u64" where
  "reported sp = (\<Sum>ir \<leftarrow> filter (\<lambda>ir. omitted ir = 0) (interval_results (stream_result sp)). bytes_transferred ir)"

definition current :: "iperf_stream \<Rightarrow> u64" where
  "current sp = (if sender sp \<noteq> 0 then bytes_sent_this_interval (stream_result sp) else bytes_received_this_interval (stream_result sp))"

definition accounted :: "int \<Rightarrow> iperf_stream \<Rightarrow> bool" where
  "accounted om sp \<longleftrightarrow> (if om = 0 then reported sp + current sp = transferred sp else reported sp = 0)"

definition sent_total :: "iperf_stream \<Rightarrow> u64" where
  "sent_total sp = (if sender sp \<noteq> 0 then transferred sp else 0)"

definition data_inv :: "iperf_test \<Rightarrow> bool" where
  "data_inv t \<longleftrightarrow> list_all (\<lambda>sp. fns_ok sp \<and> accounted (omitting t) sp) (streams t) \<and>
     test_bytes_sent t = sum_list (map sent_total (streams t))"

lemma moved_accounts:
  assumes "moved a b sp sp'"
  shows "accounted o' sp \<Longrightarrow> accounted o' sp'" "fns_ok sp' = fns_ok sp" "sent_total sp' = sent_total sp + (if sender sp \<noteq> 0 then a else 0)"
  using assms by (auto simp: moved_def accounted_def reported_def current_def transferred_def sent_total_def fns_ok_def algebra_simps)

lemma sum_list_update_word:
  fixes xs :: "iperf_stream list" and f :: "iperf_stream \<Rightarrow> u64"
  shows "i < length xs \<Longrightarrow> sum_list (map f (xs[i := y])) = sum_list (map f xs) + f y - f (xs ! i)"
proof (induction xs arbitrary: i)
  case (Cons x xs)
  then show ?case by (cases i) (simp_all add: algebra_simps)
qed simp

lemma list_all_update: "list_all P xs \<Longrightarrow> P y \<Longrightarrow> list_all P (xs[i := y])"
  by (induction xs arbitrary: i) (auto split: nat.splits)

text \<open>Replacing one stream.\<close>

lemma data_inv_update:
  assumes "data_inv t" "i < length (streams t)" "moved a b (streams t ! i) sp'" "omitting t' = omitting t"
    and "streams t' = (streams t)[i := sp']" "test_bytes_sent t' = test_bytes_sent t + (if sender (streams t ! i) \<noteq> 0 then a else 0)"
  shows "data_inv t'"
proof -
  have "fns_ok (streams t ! i) \<and> accounted (omitting t) (streams t ! i)" using assms(1,2) by (auto simp: data_inv_def list_all_length)
  then have "fns_ok sp' \<and> accounted (omitting t) sp'" using moved_accounts [OF assms(3)] by simp
  then have "list_all (\<lambda>sp. fns_ok sp \<and> accounted (omitting t) sp) ((streams t)[i := sp'])"
    using assms(1) by (simp add: data_inv_def list_all_update)
  then show ?thesis using assms moved_accounts(3) [OF assms(3)]
    by (simp add: data_inv_def sum_list_update_word)
qed

text \<open>A change of the green light is no change for the accounts.\<close>

lemma green_kept [simp]: "fns_ok (sp\<lparr>green_light := g\<rparr>) = fns_ok sp" "accounted o' (sp\<lparr>green_light := g\<rparr>) = accounted o' sp"
    "sent_total (sp\<lparr>green_light := g\<rparr>) = sent_total sp"
  by (simp_all add: fns_ok_def accounted_def reported_def current_def transferred_def sent_total_def)

lemma moved_green: "moved 0 0 sp (sp\<lparr>green_light := g\<rparr>)"
  by (simp add: moved_def)

lemma throttle_inv:
  assumes "data_inv t" "i < length (streams t)"
  shows "data_inv (iperf_check_throttle K i now t)"
proof -
  have "data_inv (t\<lparr>streams := (streams t)[i := (streams t ! i)\<lparr>green_light := g\<rparr>], write_set := ws\<rparr>)" for g ws
    by (rule data_inv_update [OF assms moved_green]) simp_all
  then show ?thesis using assms(1) by (simp add: iperf_check_throttle_def Let_def)
qed

lemma throttle_length [simp]: "length (streams (iperf_check_throttle K i now t)) = length (streams t)"
  "omitting (iperf_check_throttle K i now t) = omitting t"
  by (simp_all add: iperf_check_throttle_def Let_def)

text \<open>A call of the sending function that is counted in the test.\<close>

lemma call_send_inv:
  assumes "data_inv t" "i < length (streams t)" "sender (streams t ! i) \<noteq> 0" "run_state (call_stream K snd_fn i t) s = ((r, t'), s')"
  shows "data_inv (if r < 0 then t' else count_sent r t') \<and> length (streams t') = length (streams t) \<and> omitting t' = omitting t"
proof -
  obtain t1 sp1 s1 where c: "run_state (call_fn K (snd_fn (streams t ! i)) t (streams t ! i)) s = ((r, t1, sp1), s1)"
    "t' = t1\<lparr>streams := (streams t1)[i := sp1]\<rparr>" using assms(4) by (auto simp: call_stream_def Let_def split: prod.splits)
  have "fns_ok (streams t ! i)" using assms(1,2) by (auto simp: data_inv_def list_all_length)
  from send_fn_moved [OF this c(1)] obtain d where m: "moved (sent_bytes r) 0 (streams t ! i) sp1" "t1 = t\<lparr>test_done := d\<rparr>" by blast
  have "data_inv (if r < 0 then t' else count_sent r t')"
    by (rule data_inv_update [OF assms(1,2) m(1)]) (use assms(3) in \<open>simp_all add: c(2) m(2) count_sent_def sent_bytes_def\<close>)
  then show ?thesis by (simp add: c(2) m(2))
qed

lemma send_streams_inv:
  assumes "data_inv t" "list_all (\<lambda>i. i < length (streams t)) is" "run_state (send_streams K m now ws is act t) s = (p, s')"
  shows "\<exists>t'. (p = Passed True t' \<or> p = Passed False t' \<or> (\<exists>r. p = Failed r t')) \<and> data_inv t' \<and> length (streams t') = length (streams t)"
  using assms
proof (induction "is" arbitrary: act t s)
  case Nil
  then show ?case by (cases act) auto
next
  case (Cons i "is")
  let ?sp = "streams t ! i"
  show ?case
  proof (cases "green_light ?sp \<noteq> 0 \<and> sender ?sp \<noteq> 0 \<and> (case ws of None \<Rightarrow> True | Some x \<Rightarrow> FD_ISSET (socket ?sp) x)")
    case False
    then have "send_streams K m now ws (i # is) act t = send_streams K m now ws is act t" by (auto simp: Let_def)
    then show ?thesis using Cons.IH [of t act s] Cons.prems by simp
  next
    case True
    obtain r t1 s1 where c: "run_state (call_stream K snd_fn i t) s = ((r, t1), s1)" by (metis prod.collapse)
    have inv: "data_inv (if r < 0 then t1 else count_sent r t1)" "length (streams t1) = length (streams t)"
      using call_send_inv [OF Cons.prems(1) _ _ c] Cons.prems(2) True by auto
    define t2 where "t2 = (if rate (settings (count_sent r t1)) \<noteq> 0 \<and> burst (settings (count_sent r t1)) = 0
      then iperf_check_throttle K i now (count_sent r t1) else count_sent r t1)"
    have run: "run_state (send_streams K m now ws (i # is) act t) s =
      (if r < 0 then (if r = NET_SOFTERROR then (Passed act t1, s1) else (Failed r t1, s1\<lparr>i_errno := IESTREAMWRITE\<rparr>))
       else if reached_limit m t2 then (Passed True t2, s1) else run_state (send_streams K m now ws is True t2) s1)"
      using True c by (simp add: Let_def t2_def sys_run)
    show ?thesis
    proof (cases "r < 0")
      case True
      then show ?thesis using run inv Cons.prems(3) by (cases act) (auto split: if_splits)
    next
      case False
      have len: "length (streams t2) = length (streams t)" using inv(2) by (simp add: t2_def count_sent_def)
      have "data_inv t2" using inv False Cons.prems(2) by (auto simp: t2_def intro!: throttle_inv) (simp add: count_sent_def)
      then show ?thesis using run False Cons.prems(2,3) Cons.IH [of t2 True s1] len by (auto split: if_splits)
    qed
  qed
qed

lemma send_rounds_inv:
  assumes "data_inv t" "run_state (send_rounds K n now ws t) s = ((r, t'), s')"
  shows "data_inv t'"
  using assms
proof (induction n arbitrary: now t s)
  case (Suc n)
  obtain now1 s1 where n1: "run_state (if rate (settings t) \<noteq> 0 \<and> burst (settings t) = 0 then do { (_, now) \<leftarrow> sys_time_into K now; ret now } else ret now) s = (now1, s1)"
    by force
  obtain p s2 where p: "run_state (send_streams K (int (Suc n)) now1 ws [0..<length (streams t)] False t) s1 = (p, s2)" by force
  have run: "run_state (send_rounds K (Suc n) now ws t) s =
    (case p of Failed r t \<Rightarrow> ((r, t), s2) | Passed active t \<Rightarrow> if active then run_state (send_rounds K n now1 ws t) s2 else ((0, t), s2))"
    using n1 p by (simp split: pass.splits)
  from send_streams_inv [OF Suc.prems(1) _ p] show ?case
    using run Suc.prems(2) Suc.IH by (auto simp: list_all_iff)
qed simp

lemma throttle_all_inv:
  "data_inv t \<Longrightarrow> list_all (\<lambda>i. i < length (streams t)) is \<Longrightarrow> data_inv (fold (\<lambda>i. iperf_check_throttle K i now) is t)"
  by (induction "is" arbitrary: t) (simp_all add: throttle_inv)

lemma iperf_send_inv:
  assumes "data_inv t" "run_state (iperf_send K ws t) s = ((r, ws', t'), s')"
  shows "data_inv t'"
proof -
  obtain r1 t1 s1 where c: "run_state (send_rounds K (nat (multisend_rounds t)) (k_uninit K) ws t) s = ((r1, t1), s1)" by (metis prod.collapse)
  have inv: "data_inv t1" using send_rounds_inv [OF assms(1) c] .
  moreover have "data_inv (fold (\<lambda>i. iperf_check_throttle K i now) [0..<length (streams t1)] t1)" for now
    by (rule throttle_all_inv [OF inv]) (simp add: list_all_iff)
  ultimately show ?thesis using assms(2) c by (auto simp: iperf_send_def split: if_splits prod.splits)
qed

lemma recv_streams_inv:
  assumes "data_inv t" "list_all (\<lambda>i. i < length (streams t)) is" "run_state (recv_streams K is rs t) s = ((r, rs', t'), s')"
  shows "data_inv t'"
  using assms
proof (induction "is" arbitrary: rs t s)
  case (Cons i "is")
  show ?case
  proof (cases "FD_ISSET (socket (streams t ! i)) rs \<and> sender (streams t ! i) = 0")
    case False
    then have "recv_streams K (i # is) rs t = recv_streams K is rs t" by (auto simp: Let_def)
    then show ?thesis using Cons.IH [of t rs s] Cons.prems by simp
  next
    case True
    obtain r1 t1 sp1 s1 where c: "run_state (call_fn K (rcv (streams t ! i)) t (streams t ! i)) s = ((r1, t1, sp1), s1)"
      by (metis prod.collapse)
    have "fns_ok (streams t ! i)" using Cons.prems(1,2) by (auto simp: data_inv_def list_all_length)
    from recv_fn_moved [OF this c] obtain b where m: "moved 0 b (streams t ! i) sp1" "t1 = t" by blast
    define t2 where "t2 = t\<lparr>streams := (streams t)[i := sp1]\<rparr>"
    have i: "i < length (streams t)" using Cons.prems(2) by simp
    have inv: "data_inv t2" "data_inv (count_received r1 t2)"
      by (rule data_inv_update [OF Cons.prems(1) i m(1)]; simp add: t2_def count_received_def)+
    have "run_state (recv_streams K (i # is) rs t) s = (if r1 < 0 then ((r1, rs, t2), s1\<lparr>i_errno := IESTREAMREAD\<rparr>)
        else run_state (recv_streams K is (FD_CLR (socket (streams t ! i)) rs) (count_received r1 t2)) s1)"
      using True c m(2) by (simp add: Let_def call_stream_def t2_def sys_run)
    then show ?thesis using Cons.prems(2,3) inv Cons.IH [OF inv(2)]
      by (auto simp: t2_def count_received_def split: if_splits)
  qed
qed simp

section \<open>Reports\<close>

text \<open>What an interval report does to a stream: the current interval becomes the last of the list.\<close>

lemma tcp_stats_kept:
  "tcp_stats temp rp = (temp', rp') \<Longrightarrow> omitted temp' = omitted temp \<and> bytes_transferred temp' = bytes_transferred temp \<and>
     interval_start_time temp' = interval_start_time temp \<and> interval_end_time temp' = interval_end_time temp \<and>
     interval_results rp' = interval_results rp \<and> bytes_sent rp' = bytes_sent rp \<and> bytes_received rp' = bytes_received rp \<and>
     bytes_sent_omit rp' = bytes_sent_omit rp \<and> end_time rp' = end_time rp \<and> start_time rp' = start_time rp"
  by (simp only: tcp_stats_def Let_def prod.inject, elim conjE, hypsubst) simp

lemma udp_stats_kept:
  "omitted (udp_stats irp sp temp) = omitted temp" "bytes_transferred (udp_stats irp sp temp) = bytes_transferred temp"
  "interval_start_time (udp_stats irp sp temp) = interval_start_time temp" "interval_end_time (udp_stats irp sp temp) = interval_end_time temp"
  by (simp_all add: udp_stats_def Let_def split: option.splits)

lemma save_tcpinfo_kept:
  "run_state (save_tcpinfo K sp temp) s = (temp', s') \<Longrightarrow> \<exists>ti. temp' = temp\<lparr>tcpInfo := ti\<rparr>"
  by (auto simp: save_tcpinfo_def split: prod.splits option.splits intro: exI [of _ "tcpInfo temp"])

lemma stats_stream_spec:
  assumes "run_state (stats_stream K t temp sp) s = ((temp', sp'), s')"
  shows "\<exists>ir. interval_results (stream_result sp') = interval_results (stream_result sp) @ [ir] \<and> omitted ir = omitted temp \<and>
    bytes_transferred ir = current sp \<and> current sp' = 0 \<and> transferred sp' = transferred sp \<and> sender sp' = sender sp \<and>
    fns_ok sp' = fns_ok sp \<and> omitted temp' = omitted temp \<and>
    interval_start_time ir = (if interval_results (stream_result sp) = [] then start_time (stream_result sp) else end_time (stream_result sp)) \<and>
    interval_end_time ir = end_time (stream_result sp') \<and> start_time (stream_result sp') = start_time (stream_result sp)"
proof -
  let ?rp = "stream_result sp" and ?irp = "if interval_results (stream_result sp) = [] then None else Some (last (interval_results (stream_result sp)))"
  obtain x now s1 where n: "run_state (sys_time_into K (end_time ?rp)) s = ((x, now), s1)" by (metis prod.collapse)
  let ?b = "if interval_results ?rp = [] then start_time ?rp else end_time ?rp"
  define temp1 where "temp1 = temp\<lparr>bytes_transferred := current sp, interval_start_time := ?b, interval_end_time := now,
    interval_duration := iperf_time_in_secs (snd (iperf_time_diff ?b now))\<rparr>"
  obtain temp2 s2 where sv: "run_state (save_tcpinfo K sp temp1) s1 = (temp2, s2)" by force
  obtain ti where ti: "temp2 = temp1\<lparr>tcpInfo := ti\<rparr>" using save_tcpinfo_kept [OF sv] by blast
  obtain temp3 rp3 where tr: "(if prot_id (protocol t) = Ptcp then (if sender_has_retransmits t = 1 then tcp_stats temp2 (?rp\<lparr>end_time := now\<rparr>)
      else (temp2, ?rp\<lparr>end_time := now\<rparr>)) else (udp_stats ?irp sp temp1, ?rp\<lparr>end_time := now\<rparr>)) = (temp3, rp3)" by force
  have kept: "omitted temp3 = omitted temp \<and> bytes_transferred temp3 = current sp \<and> interval_start_time temp3 = ?b \<and> interval_end_time temp3 = now \<and>
      interval_results rp3 = interval_results ?rp \<and> bytes_sent rp3 = bytes_sent ?rp \<and> bytes_received rp3 = bytes_received ?rp \<and>
      bytes_sent_omit rp3 = bytes_sent_omit ?rp \<and> end_time rp3 = now \<and> start_time rp3 = start_time ?rp"
    using tr tcp_stats_kept [of temp2 "?rp\<lparr>end_time := now\<rparr>" temp3 rp3] ti by (auto simp: temp1_def udp_stats_kept split: if_splits)
  have "temp' = temp3 \<and> sp' = sp\<lparr>stream_result := (add_to_interval_list rp3 temp3)\<lparr>bytes_sent_this_interval := 0, bytes_received_this_interval := 0\<rparr>\<rparr>"
    using assms n sv tr by (auto simp: stats_stream_def Let_def temp1_def current_def has_tcpinfo_def split: if_splits)
  then show ?thesis using kept
    by (auto simp: add_to_interval_list_def current_def transferred_def fns_ok_def)
qed

lemma stats_accounts:
  assumes "run_state (stats_stream K t temp sp) s = ((temp', sp'), s')" "fns_ok sp \<and> accounted (omitted temp) sp"
  shows "fns_ok sp' \<and> accounted (omitted temp') sp'" "omitted temp' = omitted temp" "sent_total sp' = sent_total sp"
proof -
  obtain ir where ir: "interval_results (stream_result sp') = interval_results (stream_result sp) @ [ir]" "omitted ir = omitted temp"
    "bytes_transferred ir = current sp" "current sp' = 0" "transferred sp' = transferred sp" "sender sp' = sender sp"
    "fns_ok sp' = fns_ok sp" "omitted temp' = omitted temp" using stats_stream_spec [OF assms(1)] by blast
  then have "reported sp' = reported sp + (if omitted temp = 0 then current sp else 0)" by (simp add: reported_def)
  then show "fns_ok sp' \<and> accounted (omitted temp') sp'" using ir assms(2) by (simp add: accounted_def split: if_splits)
  show "omitted temp' = omitted temp" "sent_total sp' = sent_total sp" using ir by (simp_all add: sent_total_def)
qed

lemma stats_streams_accounts:
  assumes "list_all (\<lambda>sp. fns_ok sp \<and> accounted (omitted temp) sp) sps" "run_state (stats_streams K t temp sps) s = (sps', s')"
  shows "list_all (\<lambda>sp. fns_ok sp \<and> accounted (omitted temp) sp) sps' \<and> map sent_total sps' = map sent_total sps"
  using assms
proof (induction sps arbitrary: temp sps' s s')
  case (Cons sp sps)
  obtain temp1 sp1 s1 where a: "run_state (stats_stream K t temp sp) s = ((temp1, sp1), s1)" by (metis prod.collapse)
  obtain sps1 s2 where b: "run_state (stats_streams K t temp1 sps) s1 = (sps1, s2)" by force
  note st = stats_accounts [OF a]
  show ?case using Cons.prems Cons.IH [OF _ b] a b st by auto
qed simp

lemma iperf_stats_inv:
  assumes "data_inv t" "run_state (iperf_stats_callback K temp0 t) s = (t', s')"
  shows "data_inv t'"
proof -
  obtain sps s1 where a: "run_state (stats_streams K t (temp0\<lparr>omitted := omitting t\<rparr>) (streams t)) s = (sps, s1)" by force
  show ?thesis using assms stats_streams_accounts [OF _ a] a by (auto simp: data_inv_def iperf_stats_callback_def)
qed

text \<open>The end of the omitted time.\<close>

lemma reset_stream_accounts:
  assumes "run_state (reset_stream K ir0 t now sp) s = (sp', s')" "fns_ok sp \<and> accounted om sp" "om \<noteq> 0"
  shows "fns_ok sp' \<and> accounted 0 sp' \<and> sent_total sp' = 0"
proof -
  obtain ir s1 where sv: "run_state (save_tcpinfo K (sp\<lparr>omitted_packet_count := packet_count sp, omitted_cnt_error := cnt_error sp,
       omitted_outoforder_packets := outoforder_packets sp, jitter := 0\<rparr>) ir0) s = (ir, s1)" by force
  obtain p where "sp' = sp\<lparr>omitted_packet_count := packet_count sp, omitted_cnt_error := cnt_error sp,
       omitted_outoforder_packets := outoforder_packets sp, jitter := 0,
       stream_result := (stream_result sp)\<lparr>bytes_sent_omit := bytes_sent (stream_result sp), bytes_received := 0,
         bytes_sent_this_interval := 0, bytes_received_this_interval := 0, stream_prev_total_retrans := p, stream_retrans := 0, start_time := now\<rparr>\<rparr>"
  proof (cases "sender_has_retransmits t = 1")
    case True
    then show ?thesis using assms(1) sv that [of "to_int32 (get_total_retransmits ir)"] by (simp add: reset_stream_def Let_def)
  next
    case False
    then show ?thesis using assms(1) that [of "stream_prev_total_retrans (stream_result sp)"] by (simp add: reset_stream_def Let_def)
  qed
  then show ?thesis using assms(2,3) by (simp add: fns_ok_def accounted_def reported_def current_def transferred_def sent_total_def)
qed

lemma reset_streams_accounts:
  assumes "list_all (\<lambda>sp. fns_ok sp \<and> accounted om sp) sps" "om \<noteq> 0" "run_state (reset_streams K ir0 t now sps) s = (sps', s')"
  shows "list_all (\<lambda>sp. fns_ok sp \<and> accounted 0 sp) sps' \<and> sum_list (map sent_total sps') = 0"
  using assms
proof (induction sps arbitrary: sps' s s')
  case (Cons sp sps)
  obtain sp1 s1 where a: "run_state (reset_stream K ir0 t now sp) s = (sp1, s1)" by force
  obtain sps1 s2 where b: "run_state (reset_streams K ir0 t now sps) s1 = (sps1, s2)" by force
  have "fns_ok sp1 \<and> accounted 0 sp1 \<and> sent_total sp1 = 0"
    using reset_stream_accounts [OF a _ Cons.prems(2)] Cons.prems(1) by simp
  then show ?case using Cons.prems Cons.IH [OF _ _ b] a b by auto
qed simp

lemma iperf_reset_inv:
  assumes "data_inv t" "omitting t \<noteq> 0" "run_state (iperf_reset_stats K ir0 (t\<lparr>omitting := 0\<rparr>)) s = (t', s')"
  shows "data_inv t'"
proof -
  let ?t = "t\<lparr>omitting := 0, test_bytes_sent := 0, test_blocks_sent := 0\<rparr>"
  obtain x now s1 where n: "run_state (sys_time_now K) s = ((x, now), s1)" by (metis prod.collapse)
  obtain sps s2 where a: "run_state (reset_streams K ir0 ?t now (streams t)) s1 = (sps, s2)" by force
  show ?thesis using assms reset_streams_accounts [OF _ assms(2) a] n a by (auto simp: data_inv_def iperf_reset_stats_def Let_def)
qed

section \<open>Runs\<close>

text \<open>
  What happens to the data of a test while it runs, in any order: sending, receiving, interval
  reports, and the end of the omitted time.
\<close>

inductive data_run :: "'w kernel \<Rightarrow> iperf_test \<Rightarrow> iperf_test \<Rightarrow> bool" for K :: "'w kernel" and t0 :: iperf_test where
  start: "data_run K t0 t0"
| sends: "data_run K t0 t \<Longrightarrow> run_state (iperf_send K ws t) s = ((r, ws', t'), s') \<Longrightarrow> data_run K t0 t'"
| receives: "data_run K t0 t \<Longrightarrow> run_state (iperf_recv K rs t) s = ((r, rs', t'), s') \<Longrightarrow> data_run K t0 t'"
| reports: "data_run K t0 t \<Longrightarrow> run_state (iperf_stats_callback K temp0 t) s = (t', s') \<Longrightarrow> data_run K t0 t'"
| omit_ends: "data_run K t0 t \<Longrightarrow> omitting t \<noteq> 0 \<Longrightarrow> run_state (iperf_reset_stats K ir0 (t\<lparr>omitting := 0\<rparr>)) s = (t', s') \<Longrightarrow> data_run K t0 t'"

lemma data_run_inv: "data_run K t0 t \<Longrightarrow> data_inv t0 \<Longrightarrow> data_inv t"
proof (induction rule: data_run.induct)
  case (receives t rs s r rs' t' s')
  then show ?case using recv_streams_inv [of t "[0..<length (streams t)]"] by (auto simp: iperf_recv_def list_all_iff)
qed (auto intro: iperf_send_inv iperf_stats_inv iperf_reset_inv)

text \<open>A test whose streams have just been created.\<close>

definition fresh_streams :: "iperf_test \<Rightarrow> bool" where
  "fresh_streams t \<longleftrightarrow> test_bytes_sent t = 0 \<and> list_all (\<lambda>sp. fns_ok sp \<and> stream_result sp = empty_result) (streams t)"

lemma fresh_data_inv: "fresh_streams t \<Longrightarrow> data_inv t"
proof -
  assume t: "fresh_streams t"
  have sp: "accounted om sp \<and> sent_total sp = 0" if "stream_result sp = empty_result" for om sp
    using that by (simp add: accounted_def reported_def current_def transferred_def sent_total_def empty_result_def)
  have "sum_list (map sent_total sps) = 0" if "list_all (\<lambda>sp. fns_ok sp \<and> stream_result sp = empty_result) sps" for sps
    using that sp by (induction sps) simp_all
  then show ?thesis using t sp by (auto simp: fresh_streams_def data_inv_def list_all_iff)
qed

text \<open>
  (C1) The intervals add up. However sending, receiving, interval reports and the end of the
  omitted time interleave, with whatever the kernel does (short writes, errors, files that
  end), at every point after the omitted time the bytes of a stream's reported intervals and of
  the running one are the total of the stream, and the totals of the sending streams are the
  total of the test, which decides when a test of so many bytes ends.
\<close>

theorem intervals_add_up:
  assumes "fresh_streams t0" "data_run K t0 t" "omitting t = 0"
  shows "(\<forall>sp \<in> set (streams t). reported sp + current sp = transferred sp) \<and>
    test_bytes_sent t = (\<Sum>sp \<leftarrow> filter (\<lambda>sp. sender sp \<noteq> 0) (streams t). transferred sp)"
proof -
  have inv: "data_inv t" using data_run_inv [OF assms(2) fresh_data_inv [OF assms(1)]] .
  have "sum_list (map sent_total sps) = (\<Sum>sp \<leftarrow> filter (\<lambda>sp. sender sp \<noteq> 0) sps. transferred sp)" for sps
    by (induction sps) (simp_all add: sent_total_def)
  then show ?thesis using inv assms(3) by (simp add: data_inv_def list_all_iff accounted_def)
qed

definition sample_sender :: iperf_test where
  "sample_sender = sample_client\<lparr>settings := (settings sample_client)\<lparr>blksize := 4\<rparr>, multisend := 1,
     streams := [(empty_stream 1)\<lparr>sender := 1, green_light := 1, socket := 5, snd_fn := Tcp_send, rcv := Tcp_recv, buffer := [1, 2, 3, 4]\<rparr>]\<rparr>"

definition sample_interval :: iperf_interval_results where
  "sample_interval = \<lparr>bytes_transferred = 0, interval_start_time = \<lparr>secs = 0, usecs = 0\<rparr>, interval_end_time = \<lparr>secs = 0, usecs = 0\<rparr>,
     interval_duration = 0, interval_packet_count = 0, interval_outoforder_packets = 0, interval_cnt_error = 0,
     ir_packet_count = 0, ir_jitter = 0, ir_outoforder_packets = 0, ir_cnt_error = 0, omitted = 0,
     tcpInfo = \<lparr>tcpi_total_retrans = 0, tcpi_snd_cwnd = 0, tcpi_snd_mss = 0, tcpi_rtt = 0, tcpi_rttvar = 0, tcpi_pmtu = 0\<rparr>,
     interval_retrans = 0, interval_sacks = 0, snd_cwnd = 0, rtt = 0, rttvar = 0, pmtu = 0\<rparr>"

theorem intervals_add_up_witness:
  "\<exists>t s. run_state (do { (r, ws, t) \<leftarrow> iperf_send sample_kernel (Some [5]) sample_sender; iperf_stats_callback sample_kernel sample_interval t }) (sample_sys []) = (t, s) \<and>
     reported (hd (streams t)) = 4 \<and> test_bytes_sent t = transferred (hd (streams t))"
proof -
  obtain r ws t1 s1 where a: "run_state (iperf_send sample_kernel (Some [5]) sample_sender) (sample_sys []) = ((r, ws, t1), s1)" by (metis prod.collapse)
  obtain t s where b: "run_state (iperf_stats_callback sample_kernel sample_interval t1) s1 = (t, s)" by force
  have "fresh_streams sample_sender" by code_simp
  moreover have "data_run sample_kernel sample_sender t" using data_run.reports [OF data_run.sends [OF data_run.start a] b] .
  moreover have c: "(case run_state (iperf_send sample_kernel (Some [5]) sample_sender) (sample_sys []) of ((r, ws, t1), s1) \<Rightarrow>
      (case run_state (iperf_stats_callback sample_kernel sample_interval t1) s1 of (t, s) \<Rightarrow>
        omitting t = 0 \<and> length (streams t) = 1 \<and> sender (hd (streams t)) = 1 \<and> reported (hd (streams t)) = 4))" by code_simp
  ultimately show ?thesis using a b intervals_add_up [of sample_sender sample_kernel t]
    by (auto simp: length_Suc_conv)
qed

section \<open>New streams\<close>

text \<open>The ids a test gives out: 1, 3, 4, 5 and so on. Equally many streams have the same ids.\<close>

definition ids_ok :: "iperf_stream list \<Rightarrow> bool" where
  "ids_ok sps \<longleftrightarrow> ids sps = map (\<lambda>n. if n = 0 then 1 else int n + 2) [0..<length sps]"

lemma ids_ok_distinct: "ids_ok sps \<Longrightarrow> distinct (ids sps)"
  by (auto simp: ids_ok_def distinct_map inj_on_def split: if_splits)

lemma ids_ok_same: "ids_ok ps \<Longrightarrow> ids_ok qs \<Longrightarrow> length ps = length qs \<Longrightarrow> ids ps = ids qs"
  by (simp add: ids_ok_def)

lemma init_stream_kept:
  assumes "run_state (iperf_init_stream K t sp) s = ((r, sp'), s')"
  shows "\<exists>l m. sp' = sp\<lparr>local_addr := l, remote_addr := m\<rparr>"
proof -
  have k: "sp = sp\<lparr>local_addr := local_addr sp, remote_addr := remote_addr sp\<rparr>" "sp\<lparr>local_addr := x\<rparr> = sp\<lparr>local_addr := x, remote_addr := remote_addr sp\<rparr>" for x
    by simp_all
  show ?thesis using assms
    by (simp add: iperf_init_stream_def Let_def sys_run split: prod.splits option.splits if_splits) (metis k)+
qed

definition brand_new :: "nat \<Rightarrow> int \<Rightarrow> int \<Rightarrow> iperf_stream \<Rightarrow> bool" where
  "brand_new a s snder sp \<longleftrightarrow> fns_ok sp \<and> stream_result sp = empty_result \<and> sender sp = snder \<and> socket sp = s \<and> stream_addr sp = a"

lemma brand_new_update [simp]: "brand_new a s snder (sp\<lparr>buffer := b\<rparr>) = brand_new a s snder sp"
  "brand_new a s snder (sp\<lparr>local_addr := l, remote_addr := m\<rparr>) = brand_new a s snder sp"
  "brand_new a s snder (sp\<lparr>stream_id := i\<rparr>) = brand_new a s snder sp"
  by (simp_all add: brand_new_def fns_ok_def)

lemma new_fns_new:
  assumes "run_state (new_fns K t ((empty_stream a)\<lparr>sender := snder, buffer_fd := fd, buffer := buf, socket := s\<rparr>)) st = (Some sp, st')"
    and "prot_id (protocol t) = Ptcp \<or> prot_id (protocol t) = Pudp"
  shows "brand_new a s snder sp"
  using assms by (auto simp: new_fns_def Let_def brand_new_def fns_ok_def empty_stream_def prot_send_def prot_recv_def sys_run
      split: prod.splits option.splits if_splits)

lemma new_init:
  "run_state (iperf_init_stream K t (sp\<lparr>buffer := b\<rparr>)) st = ((r, sp'), st') \<Longrightarrow> brand_new a s snder sp \<Longrightarrow> brand_new a s snder sp'"
  by (auto dest!: init_stream_kept)

lemma new_stream_cases:
  assumes "run_state (iperf_new_stream K a s snder t) st = (Returns (r, t'), st')" "prot_id (protocol t) = Ptcp \<or> prot_id (protocol t) = Pudp"
  shows "r = None \<and> t' = t \<or> (\<exists>sp sp'. r = Some sp' \<and> iperf_add_stream sp t = (sp', t') \<and> brand_new a s snder sp)"
  using assms(1)
  by (auto simp: iperf_new_stream_def Let_def sys_run split: prod.splits option.splits if_splits
      dest!: new_fns_new [OF _ assms(2)] dest: new_init)

lemma add_stream_ids:
  assumes "iperf_add_stream sp t = (sp', t')" "ids_ok (streams t)"
  shows "ids_ok (streams t')" "streams t' = streams t @ [sp']" "\<exists>i. sp' = sp\<lparr>stream_id := i\<rparr>" "t' = t\<lparr>streams := streams t @ [sp']\<rparr>"
  using assms by (auto simp: iperf_add_stream_def ids_ok_def Let_def split: if_splits)


definition sample_start :: iperf_test where
  "sample_start = sample_client\<lparr>repeating_payload := 1, settings := (settings sample_client)\<lparr>blksize := 4\<rparr>\<rparr>"


end
