(* ===== verification/Prog.thy ===== *)
theory Prog
  imports Data
begin

text \<open>
  The state of the whole program, and what client and server share: the test with its timers
  (\<open>timer.c\<close> with the program's procedures), the processor load (\<open>cpu_util\<close> of \<open>iperf_util.c\<close>),
  the state changes of the final report, freeing streams and resetting a test (\<open>iperf_api.c\<close>).
  A function of the program takes the state and returns its result and the new state;
  \<open>None\<close> means that it does not return: an access outside of every object, a call of \<open>exit\<close>, or a
  loop without end. Output, and the system calls made only for it, are left out; the reports
  themselves are in \<open>Report\<close>.
\<close>

section \<open>The state\<close>

text \<open>
  The procedures a timer can have. Their client data is the address of a stream for
  \<open>send_timer_proc\<close>; for the others it is the one test of the program, and not used.
\<close>

datatype tproc = send_timer_proc
  | test_timer_proc | client_stats_timer_proc | client_reporter_timer_proc | client_omit_timer_proc
  | server_timer_proc | server_stats_timer_proc | server_reporter_timer_proc | server_omit_timer_proc

text \<open>
  \<open>cpu_last\<close> are the static variables of \<open>cpu_util\<close>: the time, \<open>clock\<close>, and the user and system
  times. \<open>heap_top\<close> is the address of the next object: addresses are not used again.
\<close>

record 'w prog =
  psys :: "'w sys"
  test :: iperf_test
  tm :: "(tproc, nat) tmem"
  cpu_last :: "iperf_time \<times> int \<times> int \<times> int"
  heap_top :: nat

text \<open>
  What C leaves open: the content of an uninitialised interval result, the quotient of a
  division by zero in \<open>cpu_util\<close>, and the content of the uninitialised local \<open>flag\<close> of
  \<open>iperf_run_server\<close>.
\<close>

record junk =
  j_interval :: iperf_interval_results
  j_quotient :: rat
  j_flag :: int

text \<open>Running a function of the layers below on the part of the state it works on.\<close>

definition on_sys :: "('w sys, 'a) state \<Rightarrow> 'w prog \<Rightarrow> 'a \<times> 'w prog" where
  "on_sys m p = (case run_state m (psys p) of (x, s) \<Rightarrow> (x, p\<lparr>psys := s\<rparr>))"

definition do_sys :: "('w sys, 'a) state \<Rightarrow> 'w prog \<Rightarrow> 'w prog" where
  "do_sys m p = snd (on_sys m p)"

definition set_err :: "int \<Rightarrow> 'w prog \<Rightarrow> 'w prog" where
  "set_err e p = do_sys (set_i_errno e) p"

definition upd :: "(iperf_test \<Rightarrow> iperf_test) \<Rightarrow> 'w prog \<Rightarrow> 'w prog" where
  "upd f p = p\<lparr>test := f (test p)\<rparr>"

definition on_test :: "(iperf_test \<Rightarrow> ('w sys, 'a \<times> iperf_test) state) \<Rightarrow> 'w prog \<Rightarrow> 'a \<times> 'w prog" where
  "on_test f p = (case run_state (f (test p)) (psys p) of ((x, t), s) \<Rightarrow> (x, p\<lparr>test := t, psys := s\<rparr>))"

definition do_test :: "(iperf_test \<Rightarrow> ('w sys, iperf_test) state) \<Rightarrow> 'w prog \<Rightarrow> 'w prog" where
  "do_test f p = (case run_state (f (test p)) (psys p) of (t, s) \<Rightarrow> p\<lparr>test := t, psys := s\<rparr>)"

definition on_outcome :: "(iperf_test \<Rightarrow> ('w sys, ('a \<times> iperf_test) outcome) state) \<Rightarrow> 'w prog \<Rightarrow> ('a \<times> 'w prog) option" where
  "on_outcome f p = (case run_state (f (test p)) (psys p) of
      (Returns (x, t), s) \<Rightarrow> Some (x, p\<lparr>test := t, psys := s\<rparr>)
    | _ \<Rightarrow> None)"

text \<open>\<open>i_errno = e; return -1;\<close>\<close>

definition err :: "int \<Rightarrow> 'w prog \<Rightarrow> (int \<times> 'w prog) option" where
  "err e p = Some (-1, set_err e p)"

text \<open>Steps that end with an error as soon as one of them returns a negative number.\<close>

definition and_then :: "(int \<times> 'w prog) option \<Rightarrow> ('w prog \<Rightarrow> (int \<times> 'w prog) option) \<Rightarrow> (int \<times> 'w prog) option" where
  "and_then x f = do { (r, p) \<leftarrow> x; if r < 0 then Some (-1, p) else f p }"

section \<open>Timers\<close>

text \<open>A null \<open>nowP\<close> makes the package read the clock.\<close>

definition create_timer :: "'w kernel \<Rightarrow> iperf_time option \<Rightarrow> tproc \<Rightarrow> nat \<Rightarrow> int \<Rightarrow> int \<Rightarrow> 'w prog \<Rightarrow> (ptr \<times> 'w prog) option" where
  "create_timer K nowP proc cd us per p =
     (let (now, p) = (case nowP of Some now \<Rightarrow> (now, p) | None \<Rightarrow> (case on_sys (sys_time_now K) p of ((_, now), p) \<Rightarrow> (now, p)));
          (ok, p) = (if free_timers (tm p) = None then on_sys (sys_malloc K 1) p else (True, p))
      in do {
        (t, m) \<leftarrow> tmr_create (Some now) (0, 0, 0) now (if ok then Some (heap_top p) else None) proc cd (word_of_int us) per (tm p);
        Some (t, p\<lparr>tm := m, heap_top := heap_top p + 1\<rparr>)
      })"

definition cancel_timer :: "ptr \<Rightarrow> 'w prog \<Rightarrow> 'w prog option" where
  "cancel_timer t p = (case t of None \<Rightarrow> Some p | Some a \<Rightarrow> do { m \<leftarrow> tmr_cancel a (tm p); Some (p\<lparr>tm := m\<rparr>) })"

definition reset_timer :: "iperf_time \<Rightarrow> ptr \<Rightarrow> 'w prog \<Rightarrow> 'w prog option" where
  "reset_timer now t p = (case t of None \<Rightarrow> Some p
     | Some a \<Rightarrow> do { m \<leftarrow> tmr_reset (Some now) (0, 0, 0) now a (tm p); Some (p\<lparr>tm := m\<rparr>) })"

section \<open>Processor load\<close>

definition cpu_start :: "'w kernel \<Rightarrow> 'w prog \<Rightarrow> 'w prog" where
  "cpu_start K p =
     (let ((_, now), p) = on_sys (sys_time_into K (fst (cpu_last p))) p;
          (c, p) = on_sys (State (\<lambda>s. case k_cpu K (world s) of (c, w) \<Rightarrow> (c, s\<lparr>world := w\<rparr>))) p
      in p\<lparr>cpu_last := (now, c)\<rparr>)"

definition percent :: "junk \<Rightarrow> rat \<Rightarrow> rat \<Rightarrow> rat" where
  "percent J x timediff = (if timediff = 0 then j_quotient J else dmul (ddiv x timediff) 100)"

definition cpu_read :: "'w kernel \<Rightarrow> junk \<Rightarrow> 'w prog \<Rightarrow> 'w prog" where
  "cpu_read K J p =
     (let ((_, now), p) = on_sys (sys_time_now K) p;
          ((c, u, s), p) = on_sys (State (\<lambda>s. case k_cpu K (world s) of (c, w) \<Rightarrow> (c, s\<lparr>world := w\<rparr>))) p;
          (before, c0, u0, s0) = cpu_last p;
          timediff = d_of_int (uint (iperf_time_in_usecs (snd (iperf_time_diff now before))));
          userdiff = dsub (d_of_int u) (d_of_int u0);
          systemdiff = dsub (d_of_int s) (d_of_int s0);
          clockdiff = ddiv (dmul (d_of_int (c - c0)) 1000000) 1000000
      in upd (\<lambda>t. t\<lparr>cpu_util := (percent J clockdiff timediff, percent J userdiff timediff, percent J systemdiff timediff)\<rparr>) p)"

section \<open>Reports\<close>

text \<open>
  The variables the final report sets (\<open>iperf_print_results\<close>): the times of the first stream and
  the server's output, which it prints and forgets.
\<close>

definition report_times :: "iperf_stream \<Rightarrow> iperf_stream" where
  "report_times sp =
     (let rp = stream_result sp;
          ends = iperf_time_in_secs (snd (iperf_time_diff (start_time rp) (end_time rp)))
      in sp\<lparr>stream_result :=
           (if sender sp \<noteq> 0 then rp\<lparr>sender_time := ends, receiver_time := (if receiver_time rp = 0 then ends else receiver_time rp)\<rparr>
            else rp\<lparr>receiver_time := ends, sender_time := (if sender_time rp = 0 then ends else sender_time rp)\<rparr>)\<rparr>)"

definition iperf_print_results :: "iperf_test \<Rightarrow> iperf_test" where
  "iperf_print_results t =
     (let t = (case streams t of [] \<Rightarrow> t | sp # sps \<Rightarrow> t\<lparr>streams := report_times sp # sps\<rparr>)
      in if role t = CHR ''c'' \<and> get_server_output t \<noteq> 0 \<and> json_output t = 0
         then t\<lparr>json_server_output := None, server_output_text := None\<rparr> else t)"

definition iperf_reporter_callback :: "iperf_test \<Rightarrow> iperf_test" where
  "iperf_reporter_callback t = (if state t = TEST_END \<or> state t = DISPLAY_RESULTS then iperf_print_results t else t)"

definition stats :: "'w kernel \<Rightarrow> junk \<Rightarrow> 'w prog \<Rightarrow> 'w prog" where
  "stats K J p = do_test (iperf_stats_callback K (j_interval J)) p"

text \<open>
  A line of text, given as what the format expands to. The client hands it, behind the title of
  the test, to the Java side in a buffer of 1024 bytes without looking whether it fits; the
  \<open>if\<close> that once printed the title now guards only \<open>va_start\<close>, so that without a title the list
  of arguments is used uninitialised and a null pointer is printed as a string. The server
  also keeps the line when the client has asked for the output. \<open>None\<close> is undefined behaviour.
\<close>

definition line_buffer :: "string \<Rightarrow> string" where "line_buffer s = take 1023 s"

definition iperf_printf :: "iperf_test \<Rightarrow> string \<Rightarrow> (string \<times> iperf_test) option" where
  "iperf_printf t text =
     (if role t = CHR ''c'' then
        (case title t of None \<Rightarrow> None
         | Some s \<Rightarrow>
             (let finalLine = s @ '':  '' @ line_buffer text
              in if length finalLine < 1024 then Some (finalLine, t) else None))
      else if role t = CHR ''s'' then
        Some (line_buffer text, if get_server_output t \<noteq> 0 then t\<lparr>server_output_list := server_output_list t @ [line_buffer text]\<rparr> else t)
      else Some ([], t))"

section \<open>Streams and tests\<close>

definition iperf_free_stream :: "'w kernel \<Rightarrow> iperf_stream \<Rightarrow> 'w prog \<Rightarrow> 'w prog option" where
  "iperf_free_stream K sp p =
     (let p = do_sys (syscall (k_munmap K)) p;
          p = do_sys (sys_close K (buffer_fd sp)) p;
          p = (if 0 \<le> diskfile_fd sp then do_sys (sys_close K (diskfile_fd sp)) p else p)
      in cancel_timer (send_timer sp) p)"

text \<open>The loop that takes streams off the list; the server's timer closes their sockets, too.\<close>

fun free_streams :: "'w kernel \<Rightarrow> bool \<Rightarrow> iperf_stream list \<Rightarrow> 'w prog \<Rightarrow> 'w prog option" where
  "free_streams K closing [] p = Some (upd (\<lambda>t. t\<lparr>streams := []\<rparr>) p)"
| "free_streams K closing (sp # sps) p = do {
     p \<leftarrow> Some (upd (\<lambda>t. t\<lparr>streams := sps\<rparr>) p);
     p \<leftarrow> Some (if closing then do_sys (sys_close K (socket sp)) p else p);
     p \<leftarrow> iperf_free_stream K sp p;
     free_streams K closing sps p
   }"

text \<open>\<open>if (test->x != NULL) { tmr_cancel(test->x); test->x = NULL; }\<close> for each of the timers.\<close>

definition drop_timer :: "(iperf_test \<Rightarrow> ptr) \<Rightarrow> (iperf_test \<Rightarrow> iperf_test) \<Rightarrow> 'w prog \<Rightarrow> 'w prog option" where
  "drop_timer get clear p = do { p \<leftarrow> cancel_timer (get (test p)) p; Some (upd clear p) }"

definition drop_omit_timer :: "'w prog \<Rightarrow> 'w prog option" where
  "drop_omit_timer = drop_timer omit_timer (\<lambda>t. t\<lparr>omit_timer := None\<rparr>)"

definition drop_test_timer :: "'w prog \<Rightarrow> 'w prog option" where
  "drop_test_timer = drop_timer test_timer (\<lambda>t. t\<lparr>test_timer := None\<rparr>)"

definition drop_stats_timer :: "'w prog \<Rightarrow> 'w prog option" where
  "drop_stats_timer = drop_timer stats_timer (\<lambda>t. t\<lparr>stats_timer := None\<rparr>)"

definition drop_reporter_timer :: "'w prog \<Rightarrow> 'w prog option" where
  "drop_reporter_timer = drop_timer reporter_timer (\<lambda>t. t\<lparr>reporter_timer := None\<rparr>)"

definition reset_fields :: "iperf_test \<Rightarrow> iperf_test" where
  "reset_fields t =
     (let t = t\<lparr>test_done := 0, streams := [], remote_congestion_used := None, role := CHR ''s'', mode := RECEIVER, sender_has_retransmits := 0\<rparr>;
          t = snd (set_protocol Ptcp t)
      in t\<lparr>omit := OMIT_DEFAULT, duration := DURATION, server_affinity := -1, state := 0, ctrl_sck := -1, prot_listener := -1,
           test_bytes_sent := 0, test_blocks_sent := 0, test_bytes_received := 0, test_blocks_received := 0,
           other_side_has_retransmits := 0, reverse := 0, bidirectional := 0, no_delay := 0, read_set := [], write_set := [],
           num_streams := 1,
           settings := (settings t)\<lparr>socket_bufsize := 0, blksize := DEFAULT_TCP_BLKSIZE, rate := 0, burst := 0, mss := 0, tos := 0\<rparr>,
           cookie := [], multisend := 10, udp_counters_64bit := 0, title := None, extra_data := None, server_output_list := []\<rparr>)"

definition iperf_reset_test :: "'w kernel \<Rightarrow> 'w prog \<Rightarrow> 'w prog option" where
  "iperf_reset_test K p = do {
     p \<leftarrow> free_streams K False (streams (test p)) p;
     p \<leftarrow> drop_omit_timer p;
     p \<leftarrow> drop_test_timer p;
     p \<leftarrow> drop_stats_timer p;
     p \<leftarrow> drop_reporter_timer p;
     Some (set_err IENONE (upd reset_fields p))
   }"

section \<open>Pacing timers\<close>

definition stream_place :: "nat \<Rightarrow> iperf_test \<Rightarrow> nat option" where
  "stream_place a t = List.find (\<lambda>i. stream_addr (streams t ! i) = a) [0..<length (streams t)]"

definition SEC_TO_US :: int where "SEC_TO_US = 1000000"

definition us_of :: "rat \<Rightarrow> int" where "us_of interval = d_to_int (dmul interval (of_int SEC_TO_US))"

fun send_timers :: "'w kernel \<Rightarrow> nat list \<Rightarrow> 'w prog \<Rightarrow> (int \<times> 'w prog) option" where
  "send_timers K [] p = Some (0, p)"
| "send_timers K (i # is) p = do {
     p \<leftarrow> Some (upd (\<lambda>t. t\<lparr>streams := (streams t)[i := (streams t ! i)\<lparr>green_light := 1\<rparr>]\<rparr>) p);
     if rate (settings (test p)) \<noteq> 0 then do {
       (tmr, p) \<leftarrow> create_timer K None send_timer_proc (stream_addr (streams (test p) ! i)) (pacing_timer (settings (test p))) 1 p;
       p \<leftarrow> Some (upd (\<lambda>t. t\<lparr>streams := (streams t)[i := (streams t ! i)\<lparr>send_timer := tmr\<rparr>]\<rparr>) p);
       if tmr = None then err IEINITTEST p else send_timers K is p
     }
     else send_timers K is p
   }"

definition iperf_create_send_timers :: "'w kernel \<Rightarrow> 'w prog \<Rightarrow> (int \<times> 'w prog) option" where
  "iperf_create_send_timers K p =
     (case on_sys (sys_time_now K) p of ((r, _), p) \<Rightarrow>
        if r < 0 then err IEINITTEST p else send_timers K [0..<length (streams (test p))] p)"

section \<open>Timer procedures\<close>

text \<open>The two ends differ in what happens when the time is over; the rest is the same code twice.\<close>

definition stats_proc :: "'w kernel \<Rightarrow> junk \<Rightarrow> 'w prog \<Rightarrow> 'w prog" where
  "stats_proc K J p = (if test_done (test p) \<noteq> 0 then p else stats K J p)"

definition reporter_proc :: "'w prog \<Rightarrow> 'w prog" where
  "reporter_proc p = (if test_done (test p) \<noteq> 0 then p else upd iperf_reporter_callback p)"

definition omit_proc :: "'w kernel \<Rightarrow> junk \<Rightarrow> iperf_time \<Rightarrow> 'w prog \<Rightarrow> 'w prog option" where
  "omit_proc K J now p = do {
     p \<leftarrow> Some (upd (\<lambda>t. t\<lparr>omit_timer := None, omitting := 0\<rparr>) p);
     p \<leftarrow> Some (do_test (iperf_reset_stats K (j_interval J)) p);
     p \<leftarrow> reset_timer now (stats_timer (test p)) p;
     reset_timer now (reporter_timer (test p)) p
   }"

definition server_end_proc :: "'w kernel \<Rightarrow> 'w prog \<Rightarrow> 'w prog option" where
  "server_end_proc K p = do {
     p \<leftarrow> Some (upd (\<lambda>t. t\<lparr>test_timer := None\<rparr>) p);
     if test_done (test p) \<noteq> 0 then Some p
     else do {
       p \<leftarrow> Some (upd (\<lambda>t. t\<lparr>test_done := 1\<rparr>) p);
       p \<leftarrow> free_streams K True (streams (test p)) p;
       Some (do_sys (sys_close K (ctrl_sck (test p))) p)
     }
   }"

fun timer_call :: "'w kernel \<Rightarrow> junk \<Rightarrow> tproc \<Rightarrow> nat \<Rightarrow> iperf_time \<Rightarrow> 'w prog \<Rightarrow> 'w prog option" where
  "timer_call K J send_timer_proc a now p =
     (case stream_place a (test p) of None \<Rightarrow> None | Some i \<Rightarrow> Some (upd (iperf_check_throttle K i now) p))"
| "timer_call K J test_timer_proc a now p = Some (upd (\<lambda>t. t\<lparr>test_timer := None, test_done := 1\<rparr>) p)"
| "timer_call K J client_stats_timer_proc a now p = Some (stats_proc K J p)"
| "timer_call K J client_reporter_timer_proc a now p = Some (reporter_proc p)"
| "timer_call K J client_omit_timer_proc a now p = omit_proc K J now p"
| "timer_call K J server_timer_proc a now p = server_end_proc K p"
| "timer_call K J server_stats_timer_proc a now p = Some (stats_proc K J p)"
| "timer_call K J server_reporter_timer_proc a now p = Some (reporter_proc p)"
| "timer_call K J server_omit_timer_proc a now p = omit_proc K J now p"

text \<open>\<open>tmr_run(&now)\<close> with these procedures; they work on the memory of the timers, too.\<close>

definition run_timers :: "'w kernel \<Rightarrow> junk \<Rightarrow> iperf_time \<Rightarrow> 'w prog \<Rightarrow> 'w prog option" where
  "run_timers K J now p = do {
     (p, m) \<leftarrow> tmr_run (\<lambda>proc a now (p, m). map_option (\<lambda>p. (p, tm p)) (timer_call K J proc a now (p\<lparr>tm := m\<rparr>)))
       (Some now) (0, 0, 0) now (p, tm p);
     Some (p\<lparr>tm := m\<rparr>)
   }"

text \<open>
  Creating one timer and keeping it, and the timers of a test: its end, the interval statistics
  and the interval reports.
\<close>

definition start_timer ::
  "'w kernel \<Rightarrow> iperf_time \<Rightarrow> tproc \<Rightarrow> int \<Rightarrow> int \<Rightarrow> (ptr \<Rightarrow> iperf_test \<Rightarrow> iperf_test) \<Rightarrow> 'w prog \<Rightarrow> (int \<times> 'w prog) option" where
  "start_timer K now proc us per keep p = do {
     (a, p) \<leftarrow> create_timer K (Some now) proc 0 us per p;
     p \<leftarrow> Some (upd (keep a) p);
     if a = None then err IEINITTEST p else Some (0, p)
   }"

definition create_timers :: "'w kernel \<Rightarrow> tproc \<Rightarrow> tproc \<Rightarrow> tproc \<Rightarrow> int \<Rightarrow> 'w prog \<Rightarrow> (int \<times> 'w prog) option" where
  "create_timers K end_proc st_proc rep_proc grace p =
     (case on_sys (sys_time_now K) p of ((r, now), p) \<Rightarrow>
        if r < 0 then err IEINITTEST p
        else
          (let p = upd (\<lambda>t. t\<lparr>test_timer := None, stats_timer := None, reporter_timer := None\<rparr>) p; t = test p in
           and_then (if duration t \<noteq> 0 then
               start_timer K now end_proc (to_int32 (duration t + omit t + grace) * SEC_TO_US) 0 (\<lambda>a t. t\<lparr>test_timer := a\<rparr>)
                 (upd (\<lambda>t. t\<lparr>test_done := 0\<rparr>) p)
             else Some (0, p)) (\<lambda>p.
           and_then (if stats_interval t \<noteq> 0 then
               start_timer K now st_proc (us_of (stats_interval t)) 1 (\<lambda>a t. t\<lparr>stats_timer := a\<rparr>) p
             else Some (0, p)) (\<lambda>p.
           if reporter_interval t \<noteq> 0 then
             start_timer K now rep_proc (us_of (reporter_interval t)) 1 (\<lambda>a t. t\<lparr>reporter_timer := a\<rparr>) p
           else Some (0, p)))))"

definition create_omit_timer :: "'w kernel \<Rightarrow> tproc \<Rightarrow> 'w prog \<Rightarrow> (int \<times> 'w prog) option" where
  "create_omit_timer K proc p =
     (if omit (test p) = 0 then Some (0, upd (\<lambda>t. t\<lparr>omit_timer := None, omitting := 0\<rparr>) p)
      else
        (case on_sys (sys_time_now K) p of ((r, now), p) \<Rightarrow>
           if r < 0 then err IEINITTEST p
           else start_timer K now proc (omit (test p) * SEC_TO_US) 0 (\<lambda>a t. t\<lparr>omit_timer := a\<rparr>) (upd (\<lambda>t. t\<lparr>omitting := 1\<rparr>) p)))"

text \<open>
  Waiting for something to happen: \<open>tmr_timeout\<close>, then \<open>select\<close> on copies of the two sets. \<open>now\<close> is a
  local of the caller; the result is that of \<open>select\<close>, with the sets and the timeout afterwards.
\<close>

definition wait_select ::
  "'w kernel \<Rightarrow> iperf_time \<Rightarrow> 'w prog \<Rightarrow> ((int \<times> int list \<times> int list \<times> (int \<times> int) option) \<times> iperf_time \<times> 'w prog) option" where
  "wait_select K now p =
     (case on_sys (sys_time_into K now) p of ((_, now), p) \<Rightarrow> do {
        timeout \<leftarrow> tmr_timeout (Some now) (0, 0, 0) now (tm p);
        let (r, p) = on_sys (sys_select K (max_fd (test p) + 1) (read_set (test p)) (write_set (test p)) timeout) p
        in Some (r, now, p)
      })"

text \<open>Errors of the setup the build configuration cannot avoid: there is no support for processor affinity.\<close>

definition iperf_setaffinity :: "'w prog \<Rightarrow> (int \<times> 'w prog) option" where
  "iperf_setaffinity p = err IEAFFINITY p"

definition iperf_clearaffinity :: "'w prog \<Rightarrow> (int \<times> 'w prog) option" where
  "iperf_clearaffinity p = err IEAFFINITY p"

definition iperf_open_logfile :: "'w kernel \<Rightarrow> string \<Rightarrow> 'w prog \<Rightarrow> (int \<times> 'w prog) option" where
  "iperf_open_logfile K name p =
     (case on_sys (sys_open (k_open K name True)) p of
        (None, p) \<Rightarrow> err IELOGFILE p
      | (Some _, p) \<Rightarrow> Some (0, p))"

text \<open>The report in JSON is created empty here; what is added to it later is output.\<close>

definition iperf_json_start :: "iperf_test \<Rightarrow> iperf_test" where
  "iperf_json_start t = t\<lparr>json_top := Some
     (cJSON_AddItemToObject
        (cJSON_AddItemToObject
           (cJSON_AddItemToObject cJSON_CreateObject ''start'' (cJSON_AddItemToObject cJSON_CreateObject ''connected'' cJSON_CreateArray))
           ''intervals'' cJSON_CreateArray)
        ''end'' cJSON_CreateObject)\<rparr>"

definition iperf_json_finish :: "iperf_test \<Rightarrow> int \<times> iperf_test" where
  "iperf_json_finish t =
     (case json_top t of None \<Rightarrow> (-1, t)
      | Some j \<Rightarrow>
          (let j = fold add_member [(''title'', cJSON_CreateString (title t)), (''extra_data'', cJSON_CreateString (extra_data t)),
                 (''server_output_json'', json_server_output t), (''server_output_text'', cJSON_CreateString (server_output_text t))] j
           in case cJSON_Print j of None \<Rightarrow> (-1, t\<lparr>json_top := Some j\<rparr>)
              | Some _ \<Rightarrow> (0, t\<lparr>json_top := None, json_server_output := None\<rparr>)))"

section \<open>Steps of both ends\<close>

text \<open>\<open>iperf_new_stream\<close> with the address of the new object.\<close>

definition new_stream :: "'w kernel \<Rightarrow> int \<Rightarrow> int \<Rightarrow> 'w prog \<Rightarrow> (iperf_stream option \<times> 'w prog) option" where
  "new_stream K s snder p = on_outcome (iperf_new_stream K (heap_top p) s snder) (p\<lparr>heap_top := heap_top p + 1\<rparr>)"

text \<open>The descriptor of a new stream is watched for what the stream does.\<close>

definition watch :: "int \<Rightarrow> bool \<Rightarrow> iperf_test \<Rightarrow> iperf_test" where
  "watch s snder t =
     (let t = (if snder then t\<lparr>write_set := FD_SET s (write_set t)\<rparr> else t\<lparr>read_set := FD_SET s (read_set t)\<rparr>)
      in t\<lparr>max_fd := max s (max_fd t)\<rparr>)"

text \<open>The state the report is made in, put back afterwards.\<close>

definition final_report :: "'w kernel \<Rightarrow> junk \<Rightarrow> 'w prog \<Rightarrow> 'w prog" where
  "final_report K J p =
     (let oldstate = state (test p)
      in upd (\<lambda>t. (iperf_reporter_callback (t\<lparr>state := DISPLAY_RESULTS\<rparr>))\<lparr>state := oldstate\<rparr>) (cpu_read K J p))"

text \<open>\<open>iperf_send\<close> and \<open>iperf_recv\<close> on the ready descriptors.\<close>

definition send_ready :: "'w kernel \<Rightarrow> int list \<Rightarrow> 'w prog \<Rightarrow> int \<times> 'w prog" where
  "send_ready K ws p = (case run_state (iperf_send K (Some ws) (test p)) (psys p) of ((r, _, t), s) \<Rightarrow> (r, p\<lparr>test := t, psys := s\<rparr>))"

definition recv_ready :: "'w kernel \<Rightarrow> int list \<Rightarrow> 'w prog \<Rightarrow> int \<times> 'w prog" where
  "recv_ready K rs p = (case run_state (iperf_recv K rs (test p)) (psys p) of ((r, _, t), s) \<Rightarrow> (r, p\<lparr>test := t, psys := s\<rparr>))"

text \<open>What both ends do first: the log file, the affinity, the report in JSON.\<close>

definition open_log :: "'w kernel \<Rightarrow> 'w prog \<Rightarrow> (int \<times> 'w prog) option" where
  "open_log K p = (case logfile (test p) of None \<Rightarrow> Some (0, p) | Some name \<Rightarrow> iperf_open_logfile K name p)"

definition set_affinity :: "'w prog \<Rightarrow> (int \<times> 'w prog) option" where
  "set_affinity p = (if affinity (test p) \<noteq> -1 then iperf_setaffinity p else Some (0, p))"

definition start_json :: "'w prog \<Rightarrow> 'w prog" where
  "start_json p = (if json_output (test p) \<noteq> 0 then upd iperf_json_start p else p)"

definition finish_json :: "'w prog \<Rightarrow> int \<times> 'w prog" where
  "finish_json p =
     (if json_output (test p) \<noteq> 0 then (case iperf_json_finish (test p) of (r, t) \<Rightarrow> (if r < 0 then -1 else 0, p\<lparr>test := t\<rparr>))
      else (0, p))"

end
