(* ===== verification/Prog_Props.thy ===== *)
theory Prog_Props
  imports Prog Timer_Props Data_Props Params_Props
begin

text \<open>
  The state both ends share: timers that are owned by the test and its streams, what a reset
  releases and what it forgets of the last client, the line buffer, and the use of a freed stream
  by the server's last timer.
\<close>

section \<open>Running parts of the state\<close>

named_theorems prog_run \<open>projections of the state of the program\<close>

lemma do_sys_eq: "do_sys m p = p\<lparr>psys := snd (run_state m (psys p))\<rparr>"
  by (simp add: do_sys_def on_sys_def split: prod.split)

lemma do_sys_parts [prog_run]:
  "test (do_sys m p) = test p" "tm (do_sys m p) = tm p" "heap_top (do_sys m p) = heap_top p"
  "psys (do_sys m p) = snd (run_state m (psys p))"
  by (simp_all add: do_sys_eq)

lemma upd_parts [prog_run]:
  "test (upd f p) = f (test p)" "tm (upd f p) = tm p" "heap_top (upd f p) = heap_top p" "psys (upd f p) = psys p"
  by (simp_all add: upd_def)

lemma set_err_parts [prog_run]:
  "test (set_err e p) = test p" "tm (set_err e p) = tm p" "heap_top (set_err e p) = heap_top p"
  "psys (set_err e p) = (psys p)\<lparr>i_errno := e\<rparr>"
  by (simp_all add: set_err_def prog_run sys_run)

lemma close_log [prog_run]: "elog (snd (run_state (sys_close K fd) s)) = elog s @ [Closed fd]"
  using close_elog [of K fd s] by (cases "run_state (sys_close K fd) s") auto

lemma call_log [prog_run]: "elog (snd (run_state (syscall f) s)) = elog s"
  using syscall_elog [of f s] by (cases "run_state (syscall f) s") auto

section \<open>Timers of the program\<close>

text \<open>The pending timers in order and the free objects; no object lies behind \<open>heap_top\<close>.\<close>

definition pending :: "'w prog \<Rightarrow> addr list \<Rightarrow> addr list \<Rightarrow> bool" where
  "pending p xs fs \<longleftrightarrow> timer_rep (tm p) xs fs \<and> timers_sorted (tm p) xs \<and> (\<forall>a \<ge> heap_top p. theap (tm p) a = None)"

lemma pending_cong: "tm p' = tm p \<Longrightarrow> heap_top p' = heap_top p \<Longrightarrow> pending p' xs fs = pending p xs fs"
  by (simp add: pending_def)

lemma cancel_timer_pending:
  assumes p: "pending p xs fs" and a: "a \<in> set xs"
  shows "\<exists>m. cancel_timer (Some a) p = Some (p\<lparr>tm := m\<rparr>) \<and> pending (p\<lparr>tm := m\<rparr>) (remove1 a xs) (a # fs)"
proof -
  obtain as bs where xs: "xs = as @ a # bs" and as: "a \<notin> set as" using split_list_first [OF a] by blast
  have rep: "timer_rep (tm p) (as @ a # bs) fs" using p xs by (simp add: pending_def)
  obtain m where m: "tmr_cancel a (tm p) = Some m" "timer_rep m (as @ bs) (a # fs)" "same_objs (tm p) m"
    using tmr_cancel_rep [OF rep] by blast
  have "map (tkey m) (as @ bs) = map (tkey (tm p)) (as @ bs)"
    using same_objs_tkey [OF m(3)] timer_rep_dom [OF rep] by auto
  moreover have "sorted (map (tkey (tm p)) (as @ bs))"
    using p xs by (simp add: pending_def timers_sorted_def sorted_append)
  ultimately have "timers_sorted m (as @ bs)" unfolding timers_sorted_def by metis
  moreover have "theap m b = None" if "heap_top p \<le> b" for b
    using p that m(3) by (simp add: pending_def same_objs_def same_data_None)
  ultimately show ?thesis
    using m as by (auto simp: cancel_timer_def pending_def xs remove1_append)
qed

definition opt_list :: "'a option \<Rightarrow> 'a list" where "opt_list x = (case x of None \<Rightarrow> [] | Some a \<Rightarrow> [a])"

lemma opt_list_simps [simp]: "opt_list None = []" "opt_list (Some a) = [a]"
  by (simp_all add: opt_list_def)

lemma set_opt_list [simp]: "a \<in> set (opt_list x) \<longleftrightarrow> x = Some a"
  by (auto simp: opt_list_def split: option.split)

lemma cancel_timer_opt:
  assumes p: "pending p xs fs" and t: "set (opt_list t) \<subseteq> set xs"
  shows "\<exists>m. cancel_timer t p = Some (p\<lparr>tm := m\<rparr>) \<and> pending (p\<lparr>tm := m\<rparr>) (filter (\<lambda>a. t \<noteq> Some a) xs) (opt_list t @ fs)"
proof (cases t)
  case None
  then show ?thesis using p by (auto simp: cancel_timer_def intro!: exI [of _ "tm p"])
next
  case (Some a)
  have "distinct xs" using p by (simp add: pending_def timer_rep_def)
  then have "remove1 a xs = filter (\<lambda>b. Some a \<noteq> Some b) xs"
    by (auto simp: distinct_remove1_removeAll removeAll_filter_not_eq)
  then show ?thesis using cancel_timer_pending [OF p, of a] t Some by simp
qed

section \<open>Freeing streams\<close>

definition freed :: "bool \<Rightarrow> iperf_stream \<Rightarrow> event list" where
  "freed closing sp = (if closing then [Closed (socket sp)] else []) @ [Closed (buffer_fd sp)] @
     (if 0 \<le> diskfile_fd sp then [Closed (diskfile_fd sp)] else [])"

lemma freed_split: "freed closing sp = (if closing then [Closed (socket sp)] else []) @ freed False sp"
  by (simp add: freed_def)

definition send_timer_list :: "iperf_stream list \<Rightarrow> addr list" where
  "send_timer_list sps = concat (map (\<lambda>sp. opt_list (send_timer sp)) sps)"

lemma send_timer_list_simps [simp]:
  "send_timer_list [] = []" "send_timer_list (sp # sps) = opt_list (send_timer sp) @ send_timer_list sps"
  by (simp_all add: send_timer_list_def)

lemma free_stream_pending:
  assumes p: "pending p xs fs" and t: "set (opt_list (send_timer sp)) \<subseteq> set xs"
  shows "\<exists>p'. iperf_free_stream K sp p = Some p' \<and> pending p' (filter (\<lambda>a. send_timer sp \<noteq> Some a) xs) (opt_list (send_timer sp) @ fs) \<and>
    test p' = test p \<and> elog (psys p') = elog (psys p) @ freed False sp"
proof -
  define q where "q = (let p = do_sys (syscall (k_munmap K)) p;
          p = do_sys (sys_close K (buffer_fd sp)) p
      in if 0 \<le> diskfile_fd sp then do_sys (sys_close K (diskfile_fd sp)) p else p)"
  have q: "tm q = tm p" "heap_top q = heap_top p" "test q = test p" "elog (psys q) = elog (psys p) @ freed False sp"
    by (simp_all add: q_def Let_def prog_run freed_def)
  then have "pending q xs fs" using p by (simp add: pending_def)
  then obtain m where "cancel_timer (send_timer sp) q = Some (q\<lparr>tm := m\<rparr>)"
      "pending (q\<lparr>tm := m\<rparr>) (filter (\<lambda>a. send_timer sp \<noteq> Some a) xs) (opt_list (send_timer sp) @ fs)"
    using cancel_timer_opt t by blast
  moreover have "iperf_free_stream K sp p = cancel_timer (send_timer sp) q"
    by (simp add: iperf_free_stream_def q_def Let_def)
  ultimately show ?thesis using q by simp
qed

lemma free_stream_cancels:
  assumes "tmr_cancel b (tm p) = Some m" "send_timer sp = Some b"
  shows "\<exists>p'. iperf_free_stream K sp p = Some p' \<and> tm p' = m \<and> test p' = test p"
  using assms by (cases "0 \<le> diskfile_fd sp") (auto simp: iperf_free_stream_def cancel_timer_def prog_run Let_def)

lemma free_streams_pending:
  assumes "pending p xs fs" "set (send_timer_list sps) \<subseteq> set xs" "distinct (send_timer_list sps)"
  shows "\<exists>p' gs. free_streams K closing sps p = Some p' \<and> pending p' (filter (\<lambda>a. a \<notin> set (send_timer_list sps)) xs) gs \<and>
    test p' = (test p)\<lparr>streams := []\<rparr> \<and> elog (psys p') = elog (psys p) @ concat (map (freed closing) sps)"
  using assms
proof (induction sps arbitrary: p xs fs)
  case Nil
  then show ?case by (auto simp: prog_run pending_def)
next
  case (Cons sp sps)
  define q where "q = upd (\<lambda>t. t\<lparr>streams := sps\<rparr>) p"
  define q' where "q' = (if closing then do_sys (sys_close K (socket sp)) q else q)"
  have q': "tm q' = tm p" "heap_top q' = heap_top p" "test q' = (test p)\<lparr>streams := sps\<rparr>"
    "elog (psys q') = elog (psys p) @ (if closing then [Closed (socket sp)] else [])"
    by (simp_all add: q'_def q_def prog_run)
  then have "pending q' xs fs" using Cons.prems by (simp add: pending_def)
  then obtain r where r: "iperf_free_stream K sp q' = Some r"
      "pending r (filter (\<lambda>a. send_timer sp \<noteq> Some a) xs) (opt_list (send_timer sp) @ fs)"
      "test r = test q'" "elog (psys r) = elog (psys q') @ freed False sp"
    using free_stream_pending [of q' xs fs sp K] Cons.prems by auto
  have "set (send_timer_list sps) \<subseteq> set (filter (\<lambda>a. send_timer sp \<noteq> Some a) xs)" "distinct (send_timer_list sps)"
    using Cons.prems by (auto simp: opt_list_def split: option.splits)
  then obtain p' gs where p': "free_streams K closing sps r = Some p'"
      "pending p' (filter (\<lambda>a. a \<notin> set (send_timer_list sps)) (filter (\<lambda>a. send_timer sp \<noteq> Some a) xs)) gs"
      "test p' = (test r)\<lparr>streams := []\<rparr>" "elog (psys p') = elog (psys r) @ concat (map (freed closing) sps)"
    using Cons.IH [OF r(2)] by blast
  have "free_streams K closing (sp # sps) p = free_streams K closing sps r"
    using r(1) by (simp add: q_def [symmetric] q'_def [symmetric])
  moreover have "filter (\<lambda>a. a \<notin> set (send_timer_list sps)) (filter (\<lambda>a. send_timer sp \<noteq> Some a) xs) =
      filter (\<lambda>a. a \<notin> set (send_timer_list (sp # sps))) xs"
    by (simp add: conj_commute)
  ultimately show ?case using p' r q' by (auto simp: freed_split [of closing sp])
qed

section \<open>Resetting\<close>

text \<open>The timers a test owns: its own four and one for every paced stream.\<close>

definition own_timers :: "iperf_test \<Rightarrow> addr list" where
  "own_timers t = opt_list (omit_timer t) @ opt_list (test_timer t) @ opt_list (stats_timer t) @ opt_list (reporter_timer t) @
     send_timer_list (streams t)"

definition timers_owned :: "'w prog \<Rightarrow> bool" where
  "timers_owned p \<longleftrightarrow> (\<exists>xs fs. pending p xs fs \<and> distinct (own_timers (test p)) \<and> set xs = set (own_timers (test p)))"

lemma drop_timer_pending:
  assumes p: "pending p xs fs" and g: "get (test p) = g" and t: "\<And>a. g = Some a \<Longrightarrow> a \<in> set xs"
  shows "\<exists>p' gs. drop_timer get clear p = Some p' \<and> pending p' (filter (\<lambda>a. g \<noteq> Some a) xs) gs \<and>
    test p' = clear (test p) \<and> psys p' = psys p"
proof -
  have "set (opt_list g) \<subseteq> set xs" using t by auto
  then obtain m where "cancel_timer g p = Some (p\<lparr>tm := m\<rparr>)"
      "pending (p\<lparr>tm := m\<rparr>) (filter (\<lambda>a. g \<noteq> Some a) xs) (opt_list g @ fs)"
    using cancel_timer_opt [OF p] by blast
  then show ?thesis using g by (auto simp: drop_timer_def prog_run pending_def)
qed

text \<open>Taking one timer away leaves the others owned.\<close>

lemma drop_timer_owned:
  assumes p: "timers_owned p" and own: "own_timers (test p) = as @ opt_list (get (test p)) @ bs"
    and clear: "own_timers (clear (test p)) = as @ bs"
  shows "\<exists>p'. drop_timer get clear p = Some p' \<and> timers_owned p' \<and> test p' = clear (test p) \<and> psys p' = psys p"
proof -
  obtain xs fs where xs: "pending p xs fs" "distinct (own_timers (test p))" "set xs = set (own_timers (test p))"
    using p by (auto simp: timers_owned_def)
  have "a \<in> set xs" if "get (test p) = Some a" for a using that xs(3) own by simp
  then obtain p' gs where p': "drop_timer get clear p = Some p'" "pending p' (filter (\<lambda>a. get (test p) \<noteq> Some a) xs) gs"
      "test p' = clear (test p)" "psys p' = psys p"
    using drop_timer_pending [OF xs(1) refl] by blast
  have "set (filter (\<lambda>a. get (test p) \<noteq> Some a) xs) = set (as @ bs)" "distinct (as @ bs)"
    using xs(2,3) own by (auto simp: opt_list_def split: option.splits)
  then have "timers_owned p'" using p' clear by (auto simp: timers_owned_def)
  then show ?thesis using p' by blast
qed

lemma drop_omit_owned:
  "timers_owned p \<Longrightarrow> \<exists>p'. drop_omit_timer p = Some p' \<and> timers_owned p' \<and> test p' = (test p)\<lparr>omit_timer := None\<rparr> \<and> psys p' = psys p"
  unfolding drop_omit_timer_def by (rule drop_timer_owned [where as = "[]"]) (simp_all add: own_timers_def)

lemma drop_test_owned:
  "timers_owned p \<Longrightarrow> \<exists>p'. drop_test_timer p = Some p' \<and> timers_owned p' \<and> test p' = (test p)\<lparr>test_timer := None\<rparr> \<and> psys p' = psys p"
  unfolding drop_test_timer_def by (rule drop_timer_owned [where as = "opt_list (omit_timer (test p))"]) (simp_all add: own_timers_def)

lemma drop_stats_owned:
  "timers_owned p \<Longrightarrow> \<exists>p'. drop_stats_timer p = Some p' \<and> timers_owned p' \<and> test p' = (test p)\<lparr>stats_timer := None\<rparr> \<and> psys p' = psys p"
  unfolding drop_stats_timer_def
  by (rule drop_timer_owned [where as = "opt_list (omit_timer (test p)) @ opt_list (test_timer (test p))"]) (simp_all add: own_timers_def)

lemma drop_reporter_owned:
  "timers_owned p \<Longrightarrow> \<exists>p'. drop_reporter_timer p = Some p' \<and> timers_owned p' \<and> test p' = (test p)\<lparr>reporter_timer := None\<rparr> \<and> psys p' = psys p"
  unfolding drop_reporter_timer_def
  by (rule drop_timer_owned [where as = "opt_list (omit_timer (test p)) @ opt_list (test_timer (test p)) @ opt_list (stats_timer (test p))"])
     (simp_all add: own_timers_def)

lemma free_streams_owned:
  assumes "timers_owned p"
  shows "\<exists>p'. free_streams K closing (streams (test p)) p = Some p' \<and> timers_owned p' \<and> test p' = (test p)\<lparr>streams := []\<rparr> \<and>
    elog (psys p') = elog (psys p) @ concat (map (freed closing) (streams (test p)))"
proof -
  let ?sts = "send_timer_list (streams (test p))"
  obtain xs fs where xs: "pending p xs fs" "distinct (own_timers (test p))" "set xs = set (own_timers (test p))"
    using assms by (auto simp: timers_owned_def)
  have "set ?sts \<subseteq> set xs" "distinct ?sts" using xs(2,3) by (auto simp: own_timers_def)
  then obtain p' gs where p': "free_streams K closing (streams (test p)) p = Some p'" "pending p' (filter (\<lambda>a. a \<notin> set ?sts) xs) gs"
      "test p' = (test p)\<lparr>streams := []\<rparr>" "elog (psys p') = elog (psys p) @ concat (map (freed closing) (streams (test p)))"
    using free_streams_pending [OF xs(1)] by blast
  have "set (filter (\<lambda>a. a \<notin> set ?sts) xs) = set (own_timers (test p'))" "distinct (own_timers (test p'))"
    using xs(2,3) by (auto simp: own_timers_def p'(3))
  then show ?thesis using p' by (auto simp: timers_owned_def)
qed

lemma owned_none: "timers_owned p \<Longrightarrow> own_timers (test p) = [] \<Longrightarrow> \<exists>gs. pending p [] gs"
  by (auto simp: timers_owned_def)

lemma iperf_reset_test_owned:
  assumes "timers_owned p"
  shows "\<exists>p' gs. iperf_reset_test K p = Some p' \<and> pending p' [] gs \<and>
    test p' = reset_fields ((test p)\<lparr>omit_timer := None, test_timer := None, stats_timer := None, reporter_timer := None\<rparr>) \<and>
    elog (psys p') = elog (psys p) @ concat (map (freed False) (streams (test p))) \<and> i_errno (psys p') = IENONE"
proof -
  obtain p1 where p1: "free_streams K False (streams (test p)) p = Some p1" "timers_owned p1" "test p1 = (test p)\<lparr>streams := []\<rparr>"
      "elog (psys p1) = elog (psys p) @ concat (map (freed False) (streams (test p)))" using free_streams_owned [OF assms] by blast
  obtain p2 where p2: "drop_omit_timer p1 = Some p2" "timers_owned p2" "test p2 = (test p1)\<lparr>omit_timer := None\<rparr>" "psys p2 = psys p1"
    using drop_omit_owned [OF p1(2)] by blast
  obtain p3 where p3: "drop_test_timer p2 = Some p3" "timers_owned p3" "test p3 = (test p2)\<lparr>test_timer := None\<rparr>" "psys p3 = psys p2"
    using drop_test_owned [OF p2(2)] by blast
  obtain p4 where p4: "drop_stats_timer p3 = Some p4" "timers_owned p4" "test p4 = (test p3)\<lparr>stats_timer := None\<rparr>" "psys p4 = psys p3"
    using drop_stats_owned [OF p3(2)] by blast
  obtain p5 where p5: "drop_reporter_timer p4 = Some p5" "timers_owned p5" "test p5 = (test p4)\<lparr>reporter_timer := None\<rparr>" "psys p5 = psys p4"
    using drop_reporter_owned [OF p4(2)] by blast
  note t5 = p5(3) [unfolded p4(3) p3(3) p2(3) p1(3)]
  obtain gs where "pending p5 [] gs" using owned_none [OF p5(2)] by (auto simp: t5 own_timers_def)
  moreover have "iperf_reset_test K p = Some (set_err IENONE (upd reset_fields p5))"
    using p1(1) p2(1) p3(1) p4(1) p5(1) by (simp add: iperf_reset_test_def)
  moreover have "reset_fields (test p5) = reset_fields ((test p)\<lparr>omit_timer := None, test_timer := None, stats_timer := None, reporter_timer := None\<rparr>)"
    by (simp add: t5 reset_fields_def)
  ultimately show ?thesis using p1(4) p2(4) p3(4) p4(4) p5(4)
    by (intro exI [of _ "set_err IENONE (upd reset_fields p5)"] exI [of _ gs]) (simp add: pending_def prog_run)
qed

section \<open>What a reset forgets\<close>

text \<open>
  What is left of a test by \<open>reset_fields\<close> when the nine settings it does not touch, but a client
  can set, are blanked.
\<close>

definition forgotten :: "iperf_test \<Rightarrow> iperf_test" where
  "forgotten t = (reset_fields t)\<lparr>
     settings := (settings (reset_fields t))\<lparr>bytes := 0, blocks := 0, fqrate := 0, pacing_timer := 0, flowlabel := 0\<rparr>,
     congestion := None, congestion_used := None, get_server_output := 0, repeating_payload := 0\<rparr>"

text \<open>\<open>forgets P t t'\<close>: the step from \<open>t\<close> to \<open>t'\<close> is undone by a reset, \<open>P\<close> being the entry for TCP.\<close>

definition forgets :: "protocol \<Rightarrow> iperf_test \<Rightarrow> iperf_test \<Rightarrow> bool" where
  "forgets P t t' \<longleftrightarrow> (get_protocol Ptcp t = Some P \<longrightarrow> forgotten t' = forgotten t \<and> get_protocol Ptcp t' = Some P)"

lemma forgets_refl [simp]: "forgets P t t"
  by (simp add: forgets_def)

lemma forgets_trans: "forgets P t t' \<Longrightarrow> forgets P t' t'' \<Longrightarrow> forgets P t t''"
  by (simp add: forgets_def)

lemma reset_fields_tcp:
  "get_protocol Ptcp t = Some P \<Longrightarrow> reset_fields t =
     t\<lparr>test_done := 0, streams := [], remote_congestion_used := None, role := CHR ''s'', mode := RECEIVER,
       sender_has_retransmits := 0, protocol := P, omit := OMIT_DEFAULT, duration := DURATION, server_affinity := -1,
       state := 0, ctrl_sck := -1, prot_listener := -1,
       test_bytes_sent := 0, test_blocks_sent := 0, test_bytes_received := 0, test_blocks_received := 0,
       other_side_has_retransmits := 0, reverse := 0, bidirectional := 0, no_delay := 0, read_set := [], write_set := [],
       num_streams := 1,
       settings := (settings t)\<lparr>socket_bufsize := 0, blksize := DEFAULT_TCP_BLKSIZE, rate := 0, burst := 0, mss := 0, tos := 0\<rparr>,
       cookie := [], multisend := 10, udp_counters_64bit := 0, title := None, extra_data := None, server_output_list := []\<rparr>"
  by (simp add: reset_fields_def set_protocol_def get_protocol_def check_sender_has_retransmits_def Let_def)

lemma forgetsI:
  assumes "protocols t' = protocols t"
    "\<And>P. get_protocol Ptcp t = Some P \<Longrightarrow> get_protocol Ptcp t' = Some P \<Longrightarrow> forgotten t' = forgotten t"
  shows "forgets P t t'"
  using assms by (simp add: forgets_def get_protocol_def)

lemma forgets_check: "forgets P t (check_sender_has_retransmits t)"
  by (rule forgetsI) (auto simp: check_sender_has_retransmits_def forgotten_def reset_fields_tcp)

lemma forgets_steps:
  "forgets P t (t\<lparr>omit := i\<rparr>)" "forgets P t (t\<lparr>server_affinity := i\<rparr>)" "forgets P t (t\<lparr>duration := i\<rparr>)"
  "forgets P t (t\<lparr>settings := (settings t)\<lparr>bytes := w\<rparr>\<rparr>)" "forgets P t (t\<lparr>settings := (settings t)\<lparr>blocks := w\<rparr>\<rparr>)"
  "forgets P t (t\<lparr>settings := (settings t)\<lparr>mss := i\<rparr>\<rparr>)" "forgets P t (t\<lparr>no_delay := i\<rparr>)"
  "forgets P t (t\<lparr>num_streams := i\<rparr>)" "forgets P t (t\<lparr>settings := (settings t)\<lparr>socket_bufsize := i\<rparr>\<rparr>)"
  "forgets P t (t\<lparr>settings := (settings t)\<lparr>blksize := i\<rparr>\<rparr>)" "forgets P t (t\<lparr>settings := (settings t)\<lparr>rate := w\<rparr>\<rparr>)"
  "forgets P t (t\<lparr>settings := (settings t)\<lparr>fqrate := w\<rparr>\<rparr>)" "forgets P t (t\<lparr>settings := (settings t)\<lparr>pacing_timer := i\<rparr>\<rparr>)"
  "forgets P t (t\<lparr>settings := (settings t)\<lparr>burst := i\<rparr>\<rparr>)" "forgets P t (t\<lparr>settings := (settings t)\<lparr>tos := i\<rparr>\<rparr>)"
  "forgets P t (t\<lparr>settings := (settings t)\<lparr>flowlabel := i\<rparr>\<rparr>)" "forgets P t (t\<lparr>mode := md\<rparr>)"
  "forgets P t (t\<lparr>reverse := i\<rparr>)" "forgets P t (t\<lparr>bidirectional := i\<rparr>)" "forgets P t (t\<lparr>protocol := pr\<rparr>)"
  "forgets P t (t\<lparr>title := s\<rparr>)" "forgets P t (t\<lparr>extra_data := s\<rparr>)" "forgets P t (t\<lparr>congestion := s\<rparr>)"
  "forgets P t (t\<lparr>congestion_used := s\<rparr>)" "forgets P t (t\<lparr>get_server_output := i\<rparr>)"
  "forgets P t (t\<lparr>udp_counters_64bit := i\<rparr>)" "forgets P t (t\<lparr>repeating_payload := i\<rparr>)"
  "forgets P t (t\<lparr>sender_has_retransmits := i\<rparr>)"
  by (rule forgetsI, simp, simp add: forgotten_def reset_fields_tcp)+

lemma forgets_set_protocol: "forgets P t (snd (set_protocol pid t))"
  by (auto simp: set_protocol_def intro: forgets_trans [OF forgets_steps(20) forgets_check] split: option.split)

lemma forgets_reverse: "forgets P t (iperf_set_test_reverse v t)"
  unfolding iperf_set_test_reverse_def Let_def
  by (rule forgets_trans [OF _ forgets_check]) (auto intro: forgets_trans [OF forgets_steps(18) forgets_steps(17)] forgets_steps)

lemma forgets_bidirectional: "forgets P t (iperf_set_test_bidirectional v t)"
  unfolding iperf_set_test_bidirectional_def Let_def
  by (auto intro: forgets_trans [OF forgets_steps(19) forgets_steps(17)] forgets_trans [OF forgets_steps(19) forgets_reverse] forgets_steps)

lemma forgets_on_item: "forgets P t t1 \<Longrightarrow> (\<And>j. forgets P t1 (f j t1)) \<Longrightarrow> forgets P t (on_item j n f t1)"
  by (auto simp: on_item_def intro: forgets_trans split: option.split)

lemma forgets_on_string: "on_string j n f t = Some t' \<Longrightarrow> (\<And>s. forgets P t (f s t)) \<Longrightarrow> forgets P t t'"
  by (auto simp: on_string_def split: option.splits)

lemmas forgets_all = forgets_steps forgets_set_protocol forgets_reverse forgets_bidirectional

lemma forgets_apply_numbers: "forgets P t (apply_numbers j t)"
  unfolding apply_numbers_def Let_def by (intro forgets_on_item forgets_refl) (rule forgets_all)+

lemma forgets_apply_strings:
  assumes "apply_strings j t = Some t'" shows "forgets P t t'"
proof -
  obtain t1 t2 t3 where "on_string j ''title'' (\<lambda>s t. t\<lparr>title := Some s\<rparr>) t = Some t1"
    "on_string j ''extra_data'' (\<lambda>s t. t\<lparr>extra_data := Some s\<rparr>) t1 = Some t2"
    "on_string j ''congestion'' (\<lambda>s t. t\<lparr>congestion := Some s\<rparr>) t2 = Some t3"
    "on_string j ''congestion_used'' (\<lambda>s t. t\<lparr>congestion_used := Some s\<rparr>) t3 = Some t'"
    using assms by (auto simp: apply_strings_def bind_eq_Some_conv)
  from this(1) [THEN forgets_on_string, OF forgets_steps(21)] this(2) [THEN forgets_on_string, OF forgets_steps(22)]
    this(3) [THEN forgets_on_string, OF forgets_steps(23)] this(4) [THEN forgets_on_string, OF forgets_steps(24)]
  show ?thesis by (simp add: forgets_def)
qed

lemma forgets_apply_flags: "forgets P t (apply_flags j t)"
proof -
  let ?t = "on_item j ''repeating_payload'' (\<lambda>p t. t\<lparr>repeating_payload := 1\<rparr>)
    (on_item j ''udp_counters_64bit'' (\<lambda>p. iperf_set_test_udp_counters_64bit 1)
      (on_item j ''get_server_output'' (\<lambda>p. iperf_set_test_get_server_output 1) t))"
  have "forgets P t ?t"
    unfolding iperf_set_test_udp_counters_64bit_def iperf_set_test_get_server_output_def
    by (intro forgets_on_item forgets_refl) (rule forgets_all)+
  then show ?thesis unfolding apply_flags_def Let_def by (auto intro: forgets_trans forgets_steps)
qed

lemma forgets_apply_params:
  assumes "apply_params j t = Some t'" shows "forgets P t t'"
proof -
  obtain t1 where t1: "apply_strings j (apply_numbers j t) = Some t1" "t' = apply_flags j t1"
    using assms by (auto simp: apply_params_def)
  show ?thesis unfolding t1(2)
    by (rule forgets_trans [OF forgets_trans [OF forgets_apply_numbers forgets_apply_strings [OF t1(1)]] forgets_apply_flags])
qed

text \<open>The other way round: the settings that were blanked are all that is left.\<close>

lemma forgotten_eq:
  assumes "forgotten t' = forgotten t"
  shows "reset_fields t' = (reset_fields t)\<lparr>
     settings := (settings (reset_fields t))\<lparr>bytes := bytes (settings (reset_fields t')), blocks := blocks (settings (reset_fields t')),
       fqrate := fqrate (settings (reset_fields t')), pacing_timer := pacing_timer (settings (reset_fields t')),
       flowlabel := flowlabel (settings (reset_fields t'))\<rparr>,
     congestion := congestion (reset_fields t'), congestion_used := congestion_used (reset_fields t'),
     get_server_output := get_server_output (reset_fields t'), repeating_payload := repeating_payload (reset_fields t')\<rparr>"
proof -
  define r r' where "r = reset_fields t" and "r' = reset_fields t'"
  define f where "f = (\<lambda>x :: iperf_test. x\<lparr>
     settings := (settings x)\<lparr>bytes := bytes (settings r'), blocks := blocks (settings r'),
       fqrate := fqrate (settings r'), pacing_timer := pacing_timer (settings r'), flowlabel := flowlabel (settings r')\<rparr>,
     congestion := congestion r', congestion_used := congestion_used r',
     get_server_output := get_server_output r', repeating_payload := repeating_payload r'\<rparr>)"
  have "f (forgotten t') = r'" by (simp add: f_def forgotten_def r'_def [symmetric])
  moreover have "f (forgotten t) = f r" by (simp add: f_def forgotten_def r_def [symmetric])
  ultimately have "r' = f r" using assms by simp
  then show ?thesis by (simp add: f_def r_def r'_def)
qed

lemma reset_fields_keeps:
  assumes "get_protocol Ptcp t = Some P"
  shows "bytes (settings (reset_fields t)) = bytes (settings t)" "blocks (settings (reset_fields t)) = blocks (settings t)"
    "fqrate (settings (reset_fields t)) = fqrate (settings t)" "pacing_timer (settings (reset_fields t)) = pacing_timer (settings t)"
    "flowlabel (settings (reset_fields t)) = flowlabel (settings t)" "congestion (reset_fields t) = congestion t"
    "congestion_used (reset_fields t) = congestion_used t" "get_server_output (reset_fields t) = get_server_output t"
    "repeating_payload (reset_fields t) = repeating_payload t"
  by (simp_all add: reset_fields_tcp [OF assms])

section \<open>A server with one paced stream\<close>

definition sample_timers :: "(tproc, nat) tmem" where
  "sample_timers = \<lparr>theap = [1 \<mapsto> \<lparr>timer_proc = server_timer_proc, client_data = 0, t_usecs = 50000000, periodic = 0,
        t_time = \<lparr>secs = 60, usecs = 0\<rparr>, t_prev = None, t_next = Some 2\<rparr>,
      2 \<mapsto> \<lparr>timer_proc = send_timer_proc, client_data = 7, t_usecs = 1000, periodic = 1,
        t_time = \<lparr>secs = 60, usecs = 500\<rparr>, t_prev = Some 1, t_next = None\<rparr>],
     timers = Some 1, free_timers = None\<rparr>"

definition sample_paced :: iperf_stream where
  "sample_paced = (empty_stream 7)\<lparr>socket := 8, buffer_fd := 9, diskfile_fd := -1, sender := 1, send_timer := Some 2\<rparr>"

definition sample_prog :: "u8 list prog" where
  "sample_prog = \<lparr>psys = sample_sys [], test = sample_server\<lparr>streams := [sample_paced], test_timer := Some 1\<rparr>, tm = sample_timers,
     cpu_last = (\<lparr>secs = 0, usecs = 0\<rparr>, 0, 0, 0), heap_top = 10\<rparr>"

definition sample_junk :: junk where
  "sample_junk = \<lparr>j_interval = sample_interval, j_quotient = 0, j_flag = 0\<rparr>"

lemma sample_timers_rep: "timer_rep sample_timers [1, 2] []" "timers_sorted sample_timers [1, 2]"
  by (simp_all add: sample_timers_def timer_rep_def timers_sorted_def tkey_def time_at_def time_ok_def time_us_def)

lemma sample_prog_owned: "timers_owned sample_prog"
proof -
  have "pending sample_prog [1, 2] []"
    using sample_timers_rep by (simp add: pending_def sample_prog_def) (simp add: sample_timers_def)
  moreover have "own_timers (test sample_prog) = [1, 2]"
    by (simp add: sample_prog_def own_timers_def sample_paced_def sample_test_defs)
  ultimately have "pending sample_prog [1, 2] [] \<and> distinct (own_timers (test sample_prog)) \<and> set [1, 2] = set (own_timers (test sample_prog))"
    by simp
  then show ?thesis unfolding timers_owned_def by blast
qed

section \<open>Properties\<close>

text \<open>
  The end of a test on the server. When the pending timers are those the test and its
  streams own, \<open>iperf_reset_test\<close> returns; no timer is pending any more, every stream is gone,
  and of the descriptors of a stream those of its buffer and its file have been closed, in order,
  and nothing else, in particular not its socket.
\<close>

theorem iperf_reset_test_releases:
  assumes "timers_owned p"
  shows "\<exists>p' gs. iperf_reset_test K p = Some p' \<and> pending p' [] gs \<and> own_timers (test p') = [] \<and> streams (test p') = [] \<and>
    i_errno (psys p') = IENONE \<and> elog (psys p') = elog (psys p) @ concat (map (freed False) (streams (test p)))"
  using iperf_reset_test_owned [OF assms, of K]
  by (auto simp: own_timers_def reset_fields_def set_protocol_def check_sender_has_retransmits_def Let_def split: option.split)

theorem iperf_reset_test_releases_witness:
  "\<exists>p' gs. iperf_reset_test sample_kernel sample_prog = Some p' \<and> pending p' [] gs \<and> streams (test p') = [] \<and>
     elog (psys p') = [Closed 9]"
proof -
  obtain p' gs where "iperf_reset_test sample_kernel sample_prog = Some p'" "pending p' [] gs" "streams (test p') = []"
      "elog (psys p') = elog (psys sample_prog) @ concat (map (freed False) (streams (test sample_prog)))"
    using iperf_reset_test_releases [OF sample_prog_owned, of sample_kernel] by blast
  then show ?thesis by (auto simp: sample_prog_def sample_sys_def sample_paced_def freed_def)
qed

text \<open>
  (C12) One client does not reach the next one through the server, up to nine settings. Whatever
  parameters a client sends, resetting the test afterwards gives what resetting it without them
  gives, except for the numbers of bytes and blocks, the two pacing settings, the flow label, the
  congestion algorithms and the flags for the server's output and the payload: these keep the
  values of the old client.
\<close>

theorem iperf_reset_test_isolates:
  assumes "get_protocol Ptcp t = Some P" "apply_params j t = Some t'"
  shows "reset_fields t' = (reset_fields t)\<lparr>
     settings := (settings (reset_fields t))\<lparr>bytes := bytes (settings t'), blocks := blocks (settings t'),
       fqrate := fqrate (settings t'), pacing_timer := pacing_timer (settings t'), flowlabel := flowlabel (settings t')\<rparr>,
     congestion := congestion t', congestion_used := congestion_used t',
     get_server_output := get_server_output t', repeating_payload := repeating_payload t'\<rparr>"
proof -
  have *: "forgotten t' = forgotten t" "get_protocol Ptcp t' = Some P"
    using forgets_apply_params [OF assms(2), of P] assms(1) by (auto simp: forgets_def)
  from forgotten_eq [OF *(1), unfolded reset_fields_keeps [OF *(2)]] show ?thesis .
qed

theorem iperf_reset_test_isolates_witness:
  "\<exists>t'. apply_params (cJSON_AddItemToObject cJSON_CreateObject ''num'' (cJSON_CreateNumber 5)) sample_server = Some t' \<and>
     bytes (settings (reset_fields t')) = 5 \<and> duration (reset_fields t') = duration (reset_fields sample_server)"
proof -
  let ?j = "cJSON_AddItemToObject cJSON_CreateObject ''num'' (cJSON_CreateNumber 5)"
  have tcp: "get_protocol Ptcp sample_server = Some \<lparr>prot_id = Ptcp, prot_name = ''TCP''\<rparr>"
    by (simp add: sample_test_defs)
  have "map_option (\<lambda>t. bytes (settings t)) (apply_params ?j sample_server) = Some 5" by code_simp
  then obtain t' where t': "apply_params ?j sample_server = Some t'" "bytes (settings t') = 5" by auto
  from iperf_reset_test_isolates [OF tcp t'(1)] t' show ?thesis by simp
qed

text \<open>
  The client's line buffer. \<open>iperf_printf\<close> is defined exactly when the test is no client's, or
  has a title that leaves room for the line, cut at 1023 characters, in 1024 bytes: without a
  title, or with a long one, it is not.
\<close>

theorem iperf_printf_defined:
  "iperf_printf t text \<noteq> None \<longleftrightarrow>
     role t \<noteq> CHR ''c'' \<or> (\<exists>s. title t = Some s \<and> length s + 3 + min 1023 (length text) < 1024)"
  by (auto simp: iperf_printf_def line_buffer_def min_def Let_def split: option.splits)

text \<open>
  (C38) A server that sends at a limited rate when its last timer expires uses a freed stream. If
  the pacing timer of the only stream is due behind the timer of the test, \<open>tmr_run\<close> has already
  taken it as the successor when \<open>server_timer_proc\<close> frees the stream, and calls
  \<open>send_timer_proc\<close> with the freed stream: there is no result.
\<close>

theorem server_timeout_uses_freed_stream:
  assumes rep: "timer_rep (tm p) (a # b # rs) fs" and ok: "time_ok now"
    and due: "tkey (tm p) a \<le> time_us now" "tkey (tm p) b \<le> time_us now"
    and ra: "theap (tm p) a = Some ra" "timer_proc ra = server_timer_proc" "periodic ra = 0"
    and rb: "theap (tm p) b = Some rb" "timer_proc rb = send_timer_proc" "client_data rb = stream_addr sp"
    and st: "streams (test p) = [sp]" "send_timer sp = Some b" "test_done (test p) = 0"
  shows "run_timers K J now p = None"
proof -
  define call where "call = (\<lambda>proc a now (p, m). map_option (\<lambda>p. (p, tm p)) (timer_call K J proc a now (p\<lparr>tm := m\<rparr>)))"
  obtain m1 where m1: "tmr_cancel b (tm p) = Some m1" using tmr_cancel_rep [of "tm p" "[a]" b rs fs] rep by auto
  define q where "q = upd (\<lambda>t. t\<lparr>test_done := 1\<rparr>) (upd (\<lambda>t. t\<lparr>test_timer := None\<rparr>) p)"
  obtain p1 where p1: "free_streams K True [sp] q = Some p1" "tm p1 = m1" "streams (test p1) = []"
    using free_stream_cancels [of b "do_sys (sys_close K (socket sp)) (upd (\<lambda>t. t\<lparr>streams := []\<rparr>) q)" m1 sp K] m1 st(2)
    by (auto simp: prog_run q_def)
  define p' where "p' = do_sys (sys_close K (ctrl_sck (test p1))) p1"
  have "timer_call K J server_timer_proc (client_data ra) now p = Some p'"
    using p1(1) st unfolding q_def p'_def by (simp add: server_end_proc_def prog_run del: free_streams.simps)
  then have p': "timer_call K J server_timer_proc (client_data ra) now p = Some p'" "tm p' = m1" "streams (test p') = []"
    using p1 by (simp_all add: p'_def prog_run)
  have "tmr_run_loop call now (Some a) (p, tm p) = None"
  proof (rule run_loop_stale_next [where ds = "[]", simplified, OF rep ok due _ ra(1) rb(1) m1])
    show "\<not> per_at (tm p) a" using ra by (simp add: per_at_def)
    show "call (timer_proc ra) (client_data ra) now (p, tm p) = Some (p', m1)"
      using p' ra(2) by (simp add: call_def)
    show "\<forall>m2. call (timer_proc rb) (client_data rb) now (p', m2) = None"
      using p'(3) rb(2) by (simp add: call_def stream_place_def)
  qed
  moreover have "timers (tm p) = Some a" using rep by (simp add: timer_rep_def)
  ultimately show ?thesis by (simp add: run_timers_def tmr_run_def getnow_def call_def)
qed

theorem server_timeout_uses_freed_stream_witness:
  "run_timers sample_kernel sample_junk \<lparr>secs = 60, usecs = 800\<rparr> sample_prog = None"
proof (rule server_timeout_uses_freed_stream [where a = 1 and b = 2 and rs = "[]" and fs = "[]" and sp = sample_paced and
    ra = "the (theap sample_timers 1)" and rb = "the (theap sample_timers 2)"])
  show "timer_rep (tm sample_prog) [1, 2] []" using sample_timers_rep by (simp add: sample_prog_def)
qed (simp_all add: sample_prog_def sample_timers_def sample_paced_def empty_stream_def sample_test_defs
    time_ok_def tkey_def time_at_def time_us_def)

end
