(* ===== verification/Client.thy ===== *)
theory Client
  imports Prog
begin

text \<open>
  The client (\<open>iperf_client_api.c\<close>): connecting to the server, creating the streams, the messages
  of the server, and the loop that runs the test. Every function of the source is a definition;
  the loop is \<open>client_iter\<close>, its body, and \<open>client_loop\<close>.
\<close>

section \<open>Streams\<close>

text \<open>The members \<open>connect\<close> of the protocols; there is no third one in this configuration.\<close>

definition prot_connect :: "'w kernel \<Rightarrow> iperf_test \<Rightarrow> ('w sys, int \<times> iperf_test) state" where
  "prot_connect K t = (if prot_id (protocol t) = Ptcp then do { s \<leftarrow> iperf_tcp_connect K t; ret (s, t) }
     else iperf_udp_connect K t)"

fun create_streams :: "'w kernel \<Rightarrow> int \<Rightarrow> int \<Rightarrow> nat list \<Rightarrow> 'w prog \<Rightarrow> (int \<times> 'w prog) option" where
  "create_streams K orig_bind_port snder [] p = Some (0, p)"
| "create_streams K orig_bind_port snder (i # is) p = do {
     p \<leftarrow> Some (upd (\<lambda>t. t\<lparr>bind_port := (if orig_bind_port \<noteq> 0 then orig_bind_port + int i else orig_bind_port)\<rparr>) p);
     (s, p) \<leftarrow> Some (on_test (prot_connect K) p);
     if s < 0 then Some (-1, p)
     else do {
       (sp, p) \<leftarrow> new_stream K s snder (upd (watch s (snder \<noteq> 0)) p);
       (case sp of None \<Rightarrow> Some (-1, p) | Some sp \<Rightarrow> create_streams K orig_bind_port snder is p)
     }
   }"

definition iperf_create_streams :: "'w kernel \<Rightarrow> int \<Rightarrow> 'w prog \<Rightarrow> (int \<times> 'w prog) option" where
  "iperf_create_streams K snder p = create_streams K (bind_port (test p)) snder [0..<nat (num_streams (test p))] p"

section \<open>Timers\<close>

definition create_client_timers :: "'w kernel \<Rightarrow> 'w prog \<Rightarrow> (int \<times> 'w prog) option" where
  "create_client_timers K = create_timers K test_timer_proc client_stats_timer_proc client_reporter_timer_proc 0"

definition create_client_omit_timer :: "'w kernel \<Rightarrow> 'w prog \<Rightarrow> (int \<times> 'w prog) option" where
  "create_client_omit_timer K = create_omit_timer K client_omit_timer_proc"

section \<open>Messages of the server\<close>

definition close_streams :: "'w kernel \<Rightarrow> 'w prog \<Rightarrow> 'w prog" where
  "close_streams K p = fold (\<lambda>sp. do_sys (sys_close K (socket sp))) (streams (test p)) p"

definition iperf_client_end :: "'w kernel \<Rightarrow> 'w prog \<Rightarrow> int \<times> 'w prog" where
  "iperf_client_end K p =
     (let p = upd iperf_reporter_callback (close_streams K p);
          (r, p) = on_test (iperf_set_send_state K IPERF_DONE) p
      in if r \<noteq> 0 then (-1, p)
         else (0, if ctrl_sck (test p) \<noteq> 0 then do_sys (sys_close K (ctrl_sck (test p))) p else p))"

text \<open>The number a peer sent in network byte order, in the buffer of an \<open>int32_t\<close>.\<close>

definition ntohl_int :: "u8 list \<Rightarrow> int" where
  "ntohl_int bs = sint (word_of_int (int (be_val bs)) :: u32)"

text \<open>
  The two numbers of \<open>SERVER_ERROR\<close> are read into the same variable, which keeps what it had
  where the connection ends early.
\<close>

definition read_server_error :: "'w kernel \<Rightarrow> 'w prog \<Rightarrow> int \<times> 'w prog" where
  "read_server_error K p =
     (let ((r, bs), p) = on_sys (Nread K (ctrl_sck (test p)) 4) p
      in if r < 0 then (-1, set_err IECTRLREAD p)
         else (let e1 = local_buf K 4 bs;
                   p = set_err (ntohl_int e1) p;
                   ((r, bs), p) = on_sys (Nread K (ctrl_sck (test p)) 4) p
               in if r < 0 then (-1, set_err IECTRLREAD p)
                  else (-1, do_sys (set_errno (ntohl_int (bs @ drop (length bs) e1))) p)))"

definition test_start :: "'w kernel \<Rightarrow> 'w prog \<Rightarrow> (int \<times> 'w prog) option" where
  "test_start K p =
     and_then (Some (on_test (iperf_init_test K) p)) (\<lambda>p.
     and_then (create_client_timers K p) (\<lambda>p.
     and_then (create_client_omit_timer K p) (\<lambda>p.
     if mode (test p) \<noteq> RECEIVER then and_then (iperf_create_send_timers K p) (\<lambda>p. Some (0, p)) else Some (0, p))))"

definition client_streams :: "'w kernel \<Rightarrow> 'w prog \<Rightarrow> (int \<times> 'w prog) option" where
  "client_streams K p =
     (case mode (test p) of
        BIDIRECTIONAL \<Rightarrow> and_then (iperf_create_streams K 1 p) (\<lambda>p. and_then (iperf_create_streams K 0 p) (\<lambda>p. Some (0, p)))
      | SENDER \<Rightarrow> and_then (iperf_create_streams K 1 p) (\<lambda>p. Some (0, p))
      | RECEIVER \<Rightarrow> and_then (iperf_create_streams K 0 p) (\<lambda>p. Some (0, p)))"

text \<open>The message is one signed byte, read without \<open>Nread\<close> straight into the state.\<close>

definition iperf_handle_message_client :: "'w kernel \<Rightarrow> junk \<Rightarrow> 'w prog \<Rightarrow> (int \<times> 'w prog) option" where
  "iperf_handle_message_client K J p =
     (case on_sys (syscall (k_read K (ctrl_sck (test p)) 1)) p of
        (None, p) \<Rightarrow> err IERECVMESSAGE p
      | (Some [], p) \<Rightarrow> err IECTRLCLOSE p
      | (Some (b # _), p) \<Rightarrow>
          (let st = sint b; p = upd (\<lambda>t. t\<lparr>state := st\<rparr>) p in
           if st = PARAM_EXCHANGE then and_then (on_outcome (iperf_exchange_parameters K) p) (\<lambda>p. Some (0, p))
           else if st = CREATE_STREAMS then client_streams K p
           else if st = TEST_START then test_start K p
           else if st = TEST_RUNNING then Some (0, p)
           else if st = EXCHANGE_RESULTS then and_then (on_outcome (iperf_exchange_results K) p) (\<lambda>p. Some (0, p))
           else if st = DISPLAY_RESULTS then Some (0, snd (iperf_client_end K p))
           else if st = IPERF_DONE then Some (0, p)
           else if st = SERVER_TERMINATE then Some (-1, final_report K J (set_err IESERVERTERM p))
           else if st = ACCESS_DENIED then err IEACCESSDENIED p
           else if st = SERVER_ERROR then Some (read_server_error K p)
           else err IEMESSAGE p))"

section \<open>Connecting\<close>

definition SERVER_CONNECTION_TIMEOUT :: int where "SERVER_CONNECTION_TIMEOUT = 10000"

definition control_mss :: "'w kernel \<Rightarrow> 'w prog \<Rightarrow> 'w prog" where
  "control_mss K p =
     (case on_sys (syscall (k_getsockopt K (ctrl_sck (test p)) TCP_MAXSEG)) p of
        (None, p) \<Rightarrow> upd (\<lambda>t. t\<lparr>ctrl_sck_mss := 0\<rparr>) p
      | (Some opt, p) \<Rightarrow> upd (\<lambda>t. t\<lparr>ctrl_sck_mss := (if 0 < opt \<and> opt \<le> MAX_UDP_BLOCKSIZE then opt else 0)\<rparr>) p)"

definition default_udp_blksize :: "iperf_test \<Rightarrow> iperf_test" where
  "default_udp_blksize t =
     (if prot_id (protocol t) = Pudp \<and> blksize (settings t) = 0
      then t\<lparr>settings := (settings t)\<lparr>blksize := (if ctrl_sck_mss t \<noteq> 0 then ctrl_sck_mss t else DEFAULT_UDP_BLKSIZE)\<rparr>\<rparr>
      else t)"

definition iperf_connect :: "'w kernel \<Rightarrow> 'w prog \<Rightarrow> (int \<times> 'w prog) option" where
  "iperf_connect K p = do {
     p \<leftarrow> Some (upd (\<lambda>t. t\<lparr>read_set := [], write_set := []\<rparr>) p);
     let (c, p) = on_sys (make_cookie K) p;
     c \<leftarrow> c;
     p \<leftarrow> Some (upd (\<lambda>t. t\<lparr>cookie := c\<rparr>) p);
     p \<leftarrow> Some (if ctrl_sck (test p) < 0 then
         (case on_sys (netdial K (domain (settings (test p))) Ptcp (bind_address (test p)) 0 (server_hostname (test p))
             (server_port (test p)) SERVER_CONNECTION_TIMEOUT) p of
            (s, p) \<Rightarrow> upd (\<lambda>t. t\<lparr>ctrl_sck := s\<rparr>) p)
       else p);
     if ctrl_sck (test p) < 0 then err IECONNECT p
     else do {
       let (r, p) = on_sys (Nwrite K (ctrl_sck (test p)) (cookie_wire (cookie (test p)))) p;
       if r < 0 then err IESENDCOOKIE p
       else do {
         p \<leftarrow> Some (upd (watch (ctrl_sck (test p)) False) p);
         p \<leftarrow> Some (control_mss K p);
         Some (0, upd default_udp_blksize p)
       }
     }
   }"

section \<open>The test\<close>

definition client_move :: "'w kernel \<Rightarrow> int list \<Rightarrow> int list \<Rightarrow> 'w prog \<Rightarrow> (int \<times> 'w prog) option" where
  "client_move K rs ws p =
     (case mode (test p) of
        BIDIRECTIONAL \<Rightarrow> and_then (Some (send_ready K ws p)) (\<lambda>p. Some (recv_ready K rs p))
      | SENDER \<Rightarrow> Some (send_ready K ws p)
      | RECEIVER \<Rightarrow> Some (recv_ready K rs p))"

definition set_blocking :: "'w kernel \<Rightarrow> bool \<Rightarrow> 'w prog \<Rightarrow> 'w prog" where
  "set_blocking K nonblocking p =
     (if prot_id (protocol (test p)) \<noteq> Pudp
      then fold (\<lambda>sp. do_sys (setnonblocking K (socket sp) nonblocking)) (streams (test p)) p else p)"

definition client_finished :: "iperf_test \<Rightarrow> bool" where
  "client_finished t \<longleftrightarrow> omitting t = 0 \<and>
     (duration t \<noteq> 0 \<and> test_done t \<noteq> 0 \<or>
      bytes (settings t) \<noteq> 0 \<and> bytes (settings t) \<le> test_bytes_sent t \<or>
      blocks (settings t) \<noteq> 0 \<and> blocks (settings t) \<le> test_blocks_sent t)"

definition client_finish :: "'w kernel \<Rightarrow> junk \<Rightarrow> 'w prog \<Rightarrow> (int \<times> 'w prog) option" where
  "client_finish K J p =
     (let p = upd (\<lambda>t. t\<lparr>test_done := 1\<rparr>) (set_blocking K False p);
          p = stats K J (cpu_read K J p);
          (r, p) = on_test (iperf_set_send_state K TEST_END) p
      in Some (if r \<noteq> 0 then -1 else 0, p))"

text \<open>A pass of the loop while the test is running.\<close>

definition client_running ::
  "'w kernel \<Rightarrow> junk \<Rightarrow> bool \<Rightarrow> iperf_time \<Rightarrow> int list \<Rightarrow> int list \<Rightarrow> 'w prog \<Rightarrow> ((int \<times> iperf_time) \<times> 'w prog) option" where
  "client_running K J startup now rs ws p = do {
     (r, p) \<leftarrow> client_move K rs ws (if startup then set_blocking K True p else p);
     if r < 0 then Some ((-1, now), p)
     else do {
       let ((_, now), p) = on_sys (sys_time_into K now) p;
       p \<leftarrow> run_timers K J now p;
       (r, p) \<leftarrow> (if client_finished (test p) then client_finish K J p else Some (0, p));
       Some ((r, now), p)
     }
   }"

text \<open>A pass ends the function (\<open>Inl\<close>) or goes on with the locals \<open>startup\<close> and \<open>now\<close> (\<open>Inr\<close>).\<close>

definition client_iter ::
  "'w kernel \<Rightarrow> junk \<Rightarrow> bool \<times> iperf_time \<Rightarrow> 'w prog \<Rightarrow> ((int + bool \<times> iperf_time) \<times> 'w prog) option" where
  "client_iter K J l p = (case l of (startup, now) \<Rightarrow> do {
     ((result, rs, ws, _), now, p) \<leftarrow> wait_select K now p;
     if result < 0 \<and> errno (psys p) \<noteq> EINTR then Some (Inl (-1), set_err IESELECT p)
     else do {
       (r, rs, p) \<leftarrow> (if 0 < result \<and> FD_ISSET (ctrl_sck (test p)) rs then do {
           (r, p) \<leftarrow> iperf_handle_message_client K J p;
           Some (r, FD_CLR (ctrl_sck (test p)) rs, p)
         } else Some (0, rs, p));
       if r < 0 then Some (Inl (-1), p)
       else if state (test p) = TEST_RUNNING then do {
         ((r, now), p) \<leftarrow> client_running K J startup now rs ws p;
         Some (if r < 0 then Inl (-1) else Inr (False, now), p)
       }
       else if mode (test p) = RECEIVER \<and> state (test p) = TEST_END then
         (case recv_ready K rs p of (r, p) \<Rightarrow> Some (if r < 0 then Inl (-1) else Inr (startup, now), p))
       else Some (Inr (startup, now), p)
     }
   })"

partial_function (option) client_loop ::
  "'w kernel \<Rightarrow> junk \<Rightarrow> bool \<times> iperf_time \<Rightarrow> 'w prog \<Rightarrow> (int \<times> 'w prog) option" where
  "client_loop K J l p =
     (if state (test p) = IPERF_DONE then Some (0, p)
      else do {
        (x, p) \<leftarrow> client_iter K J l p;
        (case x of Inl r \<Rightarrow> Some (r, p) | Inr l \<Rightarrow> client_loop K J l p)
      })"

definition iperf_run_client :: "'w kernel \<Rightarrow> junk \<Rightarrow> 'w prog \<Rightarrow> (int \<times> 'w prog) option" where
  "iperf_run_client K J p =
     and_then (open_log K (set_err IENONE p)) (\<lambda>p.
     and_then (set_affinity p) (\<lambda>p.
     and_then (iperf_connect K (start_json p)) (\<lambda>p.
     and_then (client_loop K J (True, k_uninit K) (cpu_start K p)) (\<lambda>p.
     Some (finish_json p)))))"

end
