(* ===== verification/Server.thy ===== *)
theory Server
  imports Prog
begin

text \<open>
  The server (\<open>iperf_server_api.c\<close>): listening, accepting a client, its messages, and the loop that
  runs one test; \<open>is_closed\<close> of \<open>iperf_util.c\<close>. Every function of the source is a definition; the
  loop is \<open>server_iter\<close>, its body, and \<open>server_loop\<close>.
\<close>

section \<open>Listening and accepting\<close>

text \<open>
  The jump to \<open>retry\<close> happens at most once: it is taken only for the families \<open>AF_INET6\<close> and
  \<open>AF_UNSPEC\<close> and sets \<open>AF_INET\<close>.
\<close>

definition listen_once :: "'w kernel \<Rightarrow> 'w prog \<Rightarrow> 'w prog" where
  "listen_once K p =
     (case on_sys (netannounce K (domain (settings (test p))) Ptcp (bind_address (test p)) (server_port (test p))) p of
        (s, p) \<Rightarrow> upd (\<lambda>t. t\<lparr>listener := s\<rparr>) p)"

definition may_retry :: "'w prog \<Rightarrow> bool" where
  "may_retry p \<longleftrightarrow> listener (test p) < 0 \<and> errno (psys p) = EAFNOSUPPORT \<and>
     (domain (settings (test p)) = AF_INET6 \<or> domain (settings (test p)) = AF_UNSPEC)"

function listen_retry :: "'w kernel \<Rightarrow> 'w prog \<Rightarrow> 'w prog" where
  "listen_retry K p =
     (let p = listen_once K p
      in if may_retry p then listen_retry K (upd (\<lambda>t. t\<lparr>settings := (settings t)\<lparr>domain := AF_INET\<rparr>\<rparr>) p) else p)"
  by pat_completeness auto
termination
  by (relation "measure (\<lambda>(K, p). if domain (settings (test p)) = AF_INET then 0 else 1)")
     (auto simp: may_retry_def listen_once_def on_sys_def upd_def sock_defs split: prod.splits)

declare listen_retry.simps [simp del]

definition iperf_server_listen :: "'w kernel \<Rightarrow> 'w prog \<Rightarrow> (int \<times> 'w prog) option" where
  "iperf_server_listen K p =
     (let p = listen_retry K p
      in if listener (test p) < 0 then err IELISTEN p
         else Some (0, upd (\<lambda>t. watch (listener t) False (t\<lparr>read_set := [], write_set := []\<rparr>)) p))"

text \<open>A client that is not alone gets \<open>ACCESS_DENIED\<close> and is disconnected.\<close>

definition accept_first :: "'w kernel \<Rightarrow> int \<Rightarrow> 'w prog \<Rightarrow> (int \<times> 'w prog) option" where
  "accept_first K s p =
     (case on_sys (Nread K s COOKIE_SIZE) (upd (\<lambda>t. t\<lparr>ctrl_sck := s\<rparr>) p) of ((r, bs), p) \<Rightarrow> do {
        p \<leftarrow> Some (upd (\<lambda>t. t\<lparr>cookie := c_str (bs @ drop (length bs) (cookie_wire (cookie t)))\<rparr>) p);
        if r < 0 then err IERECVCOOKIE p
        else do {
          p \<leftarrow> Some (upd (watch s False) p);
          (r, p) \<leftarrow> Some (on_test (iperf_set_send_state K PARAM_EXCHANGE) p);
          if r \<noteq> 0 then Some (-1, p)
          else and_then (on_outcome (iperf_exchange_parameters K) p) (\<lambda>p.
            if server_affinity (test p) \<noteq> -1 then iperf_setaffinity p else Some (0, p))
        }
      })"

definition deny :: "'w kernel \<Rightarrow> int \<Rightarrow> 'w prog \<Rightarrow> (int \<times> 'w prog) option" where
  "deny K s p =
     (case on_sys (Nwrite K s [state_byte ACCESS_DENIED]) p of (r, p) \<Rightarrow>
        if r < 0 then err IESENDMESSAGE p else Some (0, do_sys (sys_close K s) p))"

definition iperf_accept :: "'w kernel \<Rightarrow> 'w prog \<Rightarrow> (int \<times> 'w prog) option" where
  "iperf_accept K p =
     (case on_sys (sys_open (k_accept K (listener (test p)))) p of
        (None, p) \<Rightarrow> err IEACCEPT p
      | (Some s, p) \<Rightarrow> if ctrl_sck (test p) = -1 then accept_first K s p else deny K s p)"

section \<open>Messages of the client\<close>

text \<open>The end of the streams: out of both sets, and closed.\<close>

definition end_stream :: "'w kernel \<Rightarrow> iperf_stream \<Rightarrow> 'w prog \<Rightarrow> 'w prog" where
  "end_stream K sp p = do_sys (sys_close K (socket sp))
     (upd (\<lambda>t. t\<lparr>read_set := FD_CLR (socket sp) (read_set t), write_set := FD_CLR (socket sp) (write_set t)\<rparr>) p)"

definition end_streams :: "'w kernel \<Rightarrow> 'w prog \<Rightarrow> 'w prog" where
  "end_streams K p = fold (end_stream K) (streams (test p)) p"

definition server_test_end :: "'w kernel \<Rightarrow> junk \<Rightarrow> 'w prog \<Rightarrow> (int \<times> 'w prog) option" where
  "server_test_end K J p = do {
     p \<leftarrow> Some (upd (\<lambda>t. t\<lparr>test_done := 1\<rparr>) p);
     p \<leftarrow> Some (end_streams K (stats K J (cpu_read K J p)));
     p \<leftarrow> Some (upd iperf_reporter_callback p);
     (r, p) \<leftarrow> Some (on_test (iperf_set_send_state K EXCHANGE_RESULTS) p);
     if r \<noteq> 0 then Some (-1, p)
     else and_then (on_outcome (iperf_exchange_results K) p) (\<lambda>p. do {
       (r, p) \<leftarrow> Some (on_test (iperf_set_send_state K DISPLAY_RESULTS) p);
       Some (if r \<noteq> 0 then -1 else 0, p)
     })
   }"

definition iperf_handle_message_server :: "'w kernel \<Rightarrow> junk \<Rightarrow> 'w prog \<Rightarrow> (int \<times> 'w prog) option" where
  "iperf_handle_message_server K J p =
     (case on_sys (Nread K (ctrl_sck (test p)) 1) p of ((rval, bs), p) \<Rightarrow>
        if rval = 0 then Some (0, upd (\<lambda>t. t\<lparr>state := IPERF_DONE\<rparr>) (set_err IECTRLCLOSE p))
        else if rval < 0 then err IERECVMESSAGE p
        else
          (let st = sint (hd bs); p = upd (\<lambda>t. t\<lparr>state := st\<rparr>) p in
           if st = TEST_START then Some (0, p)
           else if st = TEST_END then server_test_end K J p
           else if st = IPERF_DONE then Some (0, p)
           else if st = CLIENT_TERMINATE then
             Some (0, upd (\<lambda>t. t\<lparr>state := IPERF_DONE\<rparr>) (end_streams K (final_report K J (set_err IECLIENTTERM p))))
           else err IEMESSAGE p))"

section \<open>Timers\<close>

text \<open>The server waits longer than the client, \<open>max_rtt\<close> for each of the state transitions.\<close>

definition create_server_timers :: "'w kernel \<Rightarrow> 'w prog \<Rightarrow> (int \<times> 'w prog) option" where
  "create_server_timers K =
     (let max_rtt = 4; state_transitions = 10
      in create_timers K server_timer_proc server_stats_timer_proc server_reporter_timer_proc (max_rtt * state_transitions))"

definition create_server_omit_timer :: "'w kernel \<Rightarrow> 'w prog \<Rightarrow> (int \<times> 'w prog) option" where
  "create_server_omit_timer K = create_omit_timer K server_omit_timer_proc"

definition cleanup_server :: "'w kernel \<Rightarrow> 'w prog \<Rightarrow> 'w prog option" where
  "cleanup_server K p = do {
     p \<leftarrow> Some (if ctrl_sck (test p) \<noteq> 0 then do_sys (sys_close K (ctrl_sck (test p))) p else p);
     p \<leftarrow> Some (if listener (test p) \<noteq> 0 then do_sys (sys_close K (listener (test p))) p else p);
     p \<leftarrow> drop_stats_timer p;
     p \<leftarrow> drop_reporter_timer p;
     p \<leftarrow> drop_omit_timer p;
     p \<leftarrow> Some (upd (\<lambda>t. t\<lparr>congestion_used := None\<rparr>) p);
     drop_test_timer p
   }"

section \<open>The test\<close>

definition is_closed :: "'w kernel \<Rightarrow> int \<Rightarrow> 'w prog \<Rightarrow> bool \<times> 'w prog" where
  "is_closed K fd p =
     (case on_sys (sys_select K (fd + 1) [fd] [] (Some (0, 0))) p of
        ((r, _), p) \<Rightarrow> (r < 0 \<and> errno (psys p) = EBADF, p))"

text \<open>The locals of \<open>iperf_run_server\<close>; \<open>flag\<close> starts with whatever was on the stack.\<close>

record server_locals =
  flag :: int
  streams_to_send :: int
  streams_to_rec :: int
  send_streams_accepted :: int
  rec_streams_accepted :: int
  s_now :: iperf_time

definition first_locals :: "'w kernel \<Rightarrow> junk \<Rightarrow> server_locals" where
  "first_locals K J = \<lparr>flag = j_flag J, streams_to_send = 0, streams_to_rec = 0, send_streams_accepted = 0,
     rec_streams_accepted = 0, s_now = k_uninit K\<rparr>"

definition count_streams :: "iperf_test \<Rightarrow> server_locals \<Rightarrow> server_locals" where
  "count_streams t l =
     (case mode t of
        BIDIRECTIONAL \<Rightarrow> l\<lparr>streams_to_send := num_streams t, streams_to_rec := num_streams t\<rparr>
      | RECEIVER \<Rightarrow> l\<lparr>streams_to_rec := num_streams t, streams_to_send := 0\<rparr>
      | SENDER \<Rightarrow> l\<lparr>streams_to_send := num_streams t, streams_to_rec := 0\<rparr>)"

text \<open>The members \<open>accept\<close> of the protocols.\<close>

definition prot_accept :: "'w kernel \<Rightarrow> iperf_test \<Rightarrow> ('w sys, int \<times> iperf_test) state" where
  "prot_accept K t = (if prot_id (protocol t) = Ptcp then do { s \<leftarrow> iperf_tcp_accept K t; ret (s, t) }
     else iperf_udp_accept K t)"

text \<open>Streams that receive are accepted first; \<open>flag\<close> is left as it is when there are enough of both.\<close>

definition next_direction :: "server_locals \<Rightarrow> server_locals" where
  "next_direction l =
     (if rec_streams_accepted l \<noteq> streams_to_rec l then l\<lparr>flag := 0, rec_streams_accepted := rec_streams_accepted l + 1\<rparr>
      else if send_streams_accepted l \<noteq> streams_to_send l then l\<lparr>flag := 1, send_streams_accepted := send_streams_accepted l + 1\<rparr>
      else l)"

definition accept_stream :: "'w kernel \<Rightarrow> server_locals \<Rightarrow> 'w prog \<Rightarrow> ((int \<times> server_locals) \<times> 'w prog) option" where
  "accept_stream K l p =
     (case on_test (prot_accept K) p of (s, p) \<Rightarrow>
        if s < 0 then Some ((-1, l), p)
        else
          (case is_closed K s p of (gone, p) \<Rightarrow>
             if gone then Some ((0, l), p)
             else
               (let l = next_direction l in
                if flag l = -1 then Some ((0, l), p)
                else do {
                  (sp, p) \<leftarrow> new_stream K s (flag l) p;
                  (case sp of None \<Rightarrow> Some ((-1, l), p)
                   | Some sp \<Rightarrow> do {
                       p \<leftarrow> Some (upd (watch s (sender sp \<noteq> 0)) p);
                       p \<leftarrow> Some (if prot_id (protocol (test p)) \<noteq> Pudp \<or> sender sp = 0
                                then do_sys (setnonblocking K s True) p else p);
                       Some ((0, l\<lparr>flag := -1\<rparr>), p)
                     })
                })))"

definition all_accepted :: "server_locals \<Rightarrow> bool" where
  "all_accepted l \<longleftrightarrow> rec_streams_accepted l = streams_to_rec l \<and> send_streams_accepted l = streams_to_send l"

text \<open>The listening socket is opened again when it was opened with the options of this test.\<close>

definition restore_listener :: "'w kernel \<Rightarrow> 'w prog \<Rightarrow> (int \<times> 'w prog) option" where
  "restore_listener K p =
     (let t = test p in
      if prot_id (protocol t) \<noteq> Ptcp then
        Some (0, do_sys (sys_close K (prot_listener t)) (upd (\<lambda>t. t\<lparr>read_set := FD_CLR (prot_listener t) (read_set t)\<rparr>) p))
      else if no_delay t \<noteq> 0 \<or> mss (settings t) \<noteq> 0 \<or> socket_bufsize (settings t) \<noteq> 0 then do {
        p \<leftarrow> Some (do_sys (sys_close K (listener t)) (upd (\<lambda>t. t\<lparr>read_set := FD_CLR (listener t) (read_set t)\<rparr>) p));
        p \<leftarrow> Some (upd (\<lambda>t. t\<lparr>listener := 0\<rparr>) p);
        (s, p) \<leftarrow> Some (on_sys (netannounce K (domain (settings t)) Ptcp (bind_address t) (server_port t)) p);
        if s < 0 then Some (-1, p) else Some (0, upd (\<lambda>t. watch s False (t\<lparr>listener := s\<rparr>)) p)
      }
      else Some (0, p))"

definition send_state :: "'w kernel \<Rightarrow> int \<Rightarrow> 'w prog \<Rightarrow> (int \<times> 'w prog) option" where
  "send_state K st p = (case on_test (iperf_set_send_state K st) p of (r, p) \<Rightarrow> Some (if r \<noteq> 0 then -1 else 0, p))"

text \<open>The result \<open>-2\<close> asks for \<open>IELISTEN\<close>, which is set behind the clean-up.\<close>

definition start_test :: "'w kernel \<Rightarrow> 'w prog \<Rightarrow> (int \<times> 'w prog) option" where
  "start_test K p = do {
     (r, p) \<leftarrow> restore_listener K p;
     if r < 0 then Some (-2, p)
     else
       and_then (send_state K TEST_START (upd (\<lambda>t. t\<lparr>prot_listener := -1\<rparr>) p)) (\<lambda>p.
       and_then (Some (on_test (iperf_init_test K) p)) (\<lambda>p.
       and_then (create_server_timers K p) (\<lambda>p.
       and_then (create_server_omit_timer K p) (\<lambda>p.
       and_then (if mode (test p) \<noteq> RECEIVER then iperf_create_send_timers K p else Some (0, p)) (\<lambda>p.
       send_state K TEST_RUNNING p)))))
   }"

text \<open>
  With UDP the accepted socket was the listening one, and it is the new one that is taken out of
  the ready descriptors.
\<close>

definition server_create ::
  "'w kernel \<Rightarrow> int list \<Rightarrow> server_locals \<Rightarrow> 'w prog \<Rightarrow> ((int \<times> int list \<times> server_locals) \<times> 'w prog) option" where
  "server_create K rs l p = do {
     ((r, rs, l), p) \<leftarrow> (if FD_ISSET (prot_listener (test p)) rs then do {
         ((r, l), p) \<leftarrow> accept_stream K l p;
         Some ((r, FD_CLR (prot_listener (test p)) rs, l), p)
       }
       else Some ((0, rs, l), p));
     if r < 0 then Some ((-1, rs, l), p)
     else if all_accepted l then do { (r, p) \<leftarrow> start_test K p; Some ((r, rs, l), p) }
     else Some ((0, rs, l), p)
   }"

definition server_move :: "'w kernel \<Rightarrow> int list \<Rightarrow> int list \<Rightarrow> 'w prog \<Rightarrow> (int \<times> 'w prog) option" where
  "server_move K rs ws p =
     (case mode (test p) of
        BIDIRECTIONAL \<Rightarrow> and_then (Some (recv_ready K rs p)) (\<lambda>p. Some (send_ready K ws p))
      | SENDER \<Rightarrow> Some (send_ready K ws p)
      | RECEIVER \<Rightarrow> Some (recv_ready K rs p))"

text \<open>What is done about ready descriptors; a negative result ends the test.\<close>

definition server_listener ::
  "'w kernel \<Rightarrow> int list \<Rightarrow> server_locals \<Rightarrow> 'w prog \<Rightarrow> ((int \<times> int list \<times> server_locals) \<times> 'w prog) option" where
  "server_listener K rs l p =
     (if FD_ISSET (listener (test p)) rs \<and> state (test p) \<noteq> CREATE_STREAMS then do {
        (r, p) \<leftarrow> iperf_accept K p;
        if r < 0 then Some ((-1, rs, l), p)
        else Some ((0, FD_CLR (listener (test p)) rs, count_streams (test p) l), p)
      }
      else Some ((0, rs, l), p))"

definition server_control ::
  "'w kernel \<Rightarrow> junk \<Rightarrow> int list \<Rightarrow> 'w prog \<Rightarrow> ((int \<times> int list) \<times> 'w prog) option" where
  "server_control K J rs p =
     (if FD_ISSET (ctrl_sck (test p)) rs then do {
        (r, p) \<leftarrow> iperf_handle_message_server K J p;
        if r < 0 then Some ((-1, rs), p) else Some ((0, FD_CLR (ctrl_sck (test p)) rs), p)
      }
      else Some ((0, rs), p))"

definition server_act ::
  "'w kernel \<Rightarrow> junk \<Rightarrow> int list \<Rightarrow> int list \<Rightarrow> server_locals \<Rightarrow> 'w prog \<Rightarrow> ((int \<times> server_locals) \<times> 'w prog) option" where
  "server_act K J rs ws l p = do {
     ((r, rs, l), p) \<leftarrow> server_listener K rs l p;
     if r < 0 then Some ((-1, l), p)
     else do {
       ((r, rs), p) \<leftarrow> server_control K J rs p;
       if r < 0 then Some ((-1, l), p)
       else do {
         ((r, rs, l), p) \<leftarrow> (if state (test p) = CREATE_STREAMS then server_create K rs l p else Some ((0, rs, l), p));
         if r < 0 then Some ((r, l), p)
         else if state (test p) = TEST_RUNNING then do {
           (r, p) \<leftarrow> server_move K rs ws p;
           Some ((if r < 0 then -1 else 0, l), p)
         }
         else Some ((0, l), p)
       }
     }
   }"

text \<open>The error exit: \<open>cleanup_server(test); return -1;\<close>\<close>

definition give_up :: "'w kernel \<Rightarrow> 'w prog \<Rightarrow> ((int + server_locals) \<times> 'w prog) option" where
  "give_up K p = do { p \<leftarrow> cleanup_server K p; Some (Inl (-1), p) }"

definition server_iter ::
  "'w kernel \<Rightarrow> junk \<Rightarrow> server_locals \<Rightarrow> 'w prog \<Rightarrow> ((int + server_locals) \<times> 'w prog) option" where
  "server_iter K J l p = do {
     ((result, rs, ws, timeout), nw, p) \<leftarrow> wait_select K (s_now l) p;
     let l = l\<lparr>s_now := nw\<rparr>;
     if result < 0 \<and> errno (psys p) \<noteq> EINTR then do {
       (x, p) \<leftarrow> give_up K p; Some (x, set_err IESELECT p)
     }
     else do {
       ((r, l), p) \<leftarrow> (if 0 < result then server_act K J rs ws l p else Some ((0, l), p));
       if r = -2 then do { (x, p) \<leftarrow> give_up K p; Some (x, set_err IELISTEN p) }
       else if r < 0 then give_up K p
       else if result = 0 \<or> timeout = Some (0, 0) then do {
         let ((_, nw), p) = on_sys (sys_time_into K (s_now l)) p;
         p \<leftarrow> run_timers K J nw p;
         Some (Inr (l\<lparr>s_now := nw\<rparr>), p)
       }
       else Some (Inr l, p)
     }
   }"

partial_function (option) server_loop ::
  "'w kernel \<Rightarrow> junk \<Rightarrow> server_locals \<Rightarrow> 'w prog \<Rightarrow> (int \<times> 'w prog) option" where
  "server_loop K J l p =
     (if state (test p) = IPERF_DONE then Some (0, p)
      else do {
        (x, p) \<leftarrow> server_iter K J l p;
        (case x of Inl r \<Rightarrow> Some (r, p) | Inr l \<Rightarrow> server_loop K J l p)
      })"

definition server_finish :: "'w kernel \<Rightarrow> 'w prog \<Rightarrow> (int \<times> 'w prog) option" where
  "server_finish K p = do {
     p \<leftarrow> cleanup_server K p;
     (r, p) \<leftarrow> Some (finish_json p);
     if r < 0 then Some (-1, p)
     else if server_affinity (test p) \<noteq> -1 then iperf_clearaffinity p else Some (0, p)
   }"

definition fails_with :: "int \<Rightarrow> (int \<times> 'w prog) option \<Rightarrow> ('w prog \<Rightarrow> (int \<times> 'w prog) option) \<Rightarrow> (int \<times> 'w prog) option" where
  "fails_with rc x f = do { (r, p) \<leftarrow> x; if r < 0 then Some (rc, p) else f p }"

definition iperf_run_server :: "'w kernel \<Rightarrow> junk \<Rightarrow> 'w prog \<Rightarrow> (int \<times> 'w prog) option" where
  "iperf_run_server K J p =
     fails_with (-1) (open_log K p) (\<lambda>p.
     fails_with (-2) (set_affinity p) (\<lambda>p.
     fails_with (-2) (iperf_server_listen K (start_json p)) (\<lambda>p.
     fails_with (-1) (server_loop K J (first_locals K J) (upd (\<lambda>t. t\<lparr>state := IPERF_START\<rparr>) (cpu_start K p))) (\<lambda>p.
     server_finish K p))))"

end
