(* ===== verification/Iperf_Main.thy ===== *)
theory Iperf_Main
  imports Client Server
begin

text \<open>
  The program around client and server: \<open>main\<close> and \<open>run\<close> of \<open>main.c\<close>, the exit on an error
  (\<open>iperf_error.c\<close>), the signal handler, the process id file and the end of a test (\<open>iperf_api.c\<close>).
\<close>

section \<open>The process id file\<close>

text \<open>
  The buffer of eight bytes is not initialised and not terminated; \<open>atoi\<close> reads what is in it. The
  descriptor the file was read with stays open. \<open>None\<close> is the exit when the process of an
  existing file is alive.
\<close>

definition pid_alive :: "'w kernel \<Rightarrow> string \<Rightarrow> 'w prog \<Rightarrow> bool \<times> 'w prog" where
  "pid_alive K name p =
     (case on_sys (sys_open (k_open K name False)) p of
        (None, p) \<Rightarrow> (False, p)
      | (Some fd, p) \<Rightarrow>
          (case on_sys (syscall (k_read K fd 7)) p of
             (None, p) \<Rightarrow> (False, p)
           | (Some bs, p) \<Rightarrow>
               (let pid = atoi (bytes_str (c_str (local_buf K 8 bs))) in
                if 0 < pid then (case on_sys (syscall (k_kill K pid)) p of (r, p) \<Rightarrow> (r \<noteq> None, p)) else (False, p))))"

definition write_pid :: "'w kernel \<Rightarrow> string \<Rightarrow> 'w prog \<Rightarrow> int \<times> 'w prog" where
  "write_pid K name p =
     (case on_sys (sys_open (k_open K name True)) p of
        (None, p) \<Rightarrow> (-1, p)
      | (Some fd, p) \<Rightarrow>
          (case on_sys (syscall (k_write K fd (str_bytes (take 7 (show_int (k_pid K))) @ [0]))) p of
             (None, p) \<Rightarrow> (-1, p)
           | (Some _, p) \<Rightarrow>
               (case on_sys (syscall (k_close K fd)) p of
                  (None, p) \<Rightarrow> (-1, p)
                | (Some _, p) \<Rightarrow> (0, do_sys (log_event (Closed fd)) p))))"

definition iperf_delete_pidfile :: "'w kernel \<Rightarrow> 'w prog \<Rightarrow> int \<times> 'w prog" where
  "iperf_delete_pidfile K p =
     (case pidfile (test p) of None \<Rightarrow> (0, p)
      | Some name \<Rightarrow> (case on_sys (syscall (k_unlink K name)) p of (r, p) \<Rightarrow> (if r = None then -1 else 0, p)))"

section \<open>Exit\<close>

text \<open>A function that may call \<open>exit\<close>: with the state at that moment, or returning.\<close>

datatype 'w ending = Exited "'w prog" | Returned int "'w prog"

definition iperf_errexit :: "'w kernel \<Rightarrow> string \<Rightarrow> 'w prog \<Rightarrow> 'w prog" where
  "iperf_errexit K msg p =
     (let t = test p;
          t = (case json_top t of
                 Some j \<Rightarrow> if json_output t \<noteq> 0
                   then snd (iperf_json_finish (t\<lparr>json_top := Some (add_member (''error'', cJSON_CreateString (Some msg)) j)\<rparr>)) else t
               | None \<Rightarrow> t)
      in snd (iperf_delete_pidfile K (p\<lparr>test := t\<rparr>)))"

definition iperf_create_pidfile :: "'w kernel \<Rightarrow> 'w prog \<Rightarrow> 'w ending" where
  "iperf_create_pidfile K p =
     (case pidfile (test p) of None \<Rightarrow> Returned 0 p
      | Some name \<Rightarrow>
          (case pid_alive K name p of (alive, p) \<Rightarrow>
             if alive then
               Exited (iperf_errexit K ''Another instance of iperf3 appears to be running'' (upd (\<lambda>t. t\<lparr>pidfile := None\<rparr>) p))
             else (case write_pid K name p of (r, p) \<Rightarrow> Returned r p)))"

text \<open>A termination signal; \<open>msg\<close> is the text of \<open>iperf_strerror\<close>.\<close>

definition iperf_got_sigend :: "'w kernel \<Rightarrow> junk \<Rightarrow> string \<Rightarrow> 'w prog \<Rightarrow> 'w prog" where
  "iperf_got_sigend K J msg p =
     (let c = (role (test p) = CHR ''c'');
          p = (if c \<or> role (test p) = CHR ''s'' \<and> state (test p) = TEST_RUNNING
               then upd (\<lambda>t. iperf_reporter_callback (t\<lparr>state := DISPLAY_RESULTS\<rparr>))
                      (stats K J (cpu_read K J (upd (\<lambda>t. t\<lparr>test_done := 1\<rparr>) p)))
               else p);
          p = (if 0 \<le> ctrl_sck (test p)
               then (let st = (if c then CLIENT_TERMINATE else SERVER_TERMINATE);
                         p = upd (\<lambda>t. t\<lparr>state := st\<rparr>) p
                     in do_sys (Nwrite K (ctrl_sck (test p)) [state_byte st]) p)
               else p)
      in iperf_errexit K msg (set_err (if c then IECLIENTTERM else IESERVERTERM) p))"

section \<open>The end of a test\<close>

text \<open>The test itself is freed at the end, so its pointers are not set.\<close>

definition iperf_free_test :: "'w kernel \<Rightarrow> 'w prog \<Rightarrow> 'w prog option" where
  "iperf_free_test K p = do {
     p \<leftarrow> free_streams K False (streams (test p)) p;
     p \<leftarrow> cancel_timer (omit_timer (test p)) p;
     p \<leftarrow> cancel_timer (test_timer (test p)) p;
     p \<leftarrow> cancel_timer (stats_timer (test p)) p;
     p \<leftarrow> cancel_timer (reporter_timer (test p)) p;
     Some (set_err IENONE (upd (\<lambda>t. t\<lparr>protocols := [], server_output_text := None, server_output_list := [], xbind_addrs := []\<rparr>) p))
   }"

section \<open>The program\<close>

text \<open>
  The server runs one test after the other. \<open>J n\<close> is what C leaves open in the \<open>n\<close>-th of them, and
  \<open>msg\<close> stands for the texts of the error messages.
\<close>

partial_function (option) server_rounds ::
  "'w kernel \<Rightarrow> (nat \<Rightarrow> junk) \<Rightarrow> string \<Rightarrow> nat \<Rightarrow> 'w prog \<Rightarrow> 'w ending option" where
  "server_rounds K J msg n p = do {
     (rc, p) \<leftarrow> iperf_run_server K (J n) p;
     if rc < -1 then Some (Exited (iperf_errexit K msg p))
     else do {
       p \<leftarrow> iperf_reset_test K p;
       if one_off (test p) \<noteq> 0 \<and> \<not> (rc < 0 \<and> i_errno (psys p) = IEAUTHTEST)
       then Some (Returned 0 (snd (iperf_delete_pidfile K p)))
       else server_rounds K J msg (Suc n) p
     }
   }"

definition run_as_server :: "'w kernel \<Rightarrow> (nat \<Rightarrow> junk) \<Rightarrow> string \<Rightarrow> 'w prog \<Rightarrow> 'w ending option" where
  "run_as_server K J msg p =
     (case (if daemon (test p) \<noteq> 0 then on_sys (syscall (k_daemon K)) p else (Some (), p)) of
        (None, p) \<Rightarrow> Some (Exited (iperf_errexit K msg (set_err IEDAEMON p)))
      | (Some _, p) \<Rightarrow>
          (case iperf_create_pidfile K p of
             Exited p \<Rightarrow> Some (Exited p)
           | Returned r p \<Rightarrow> if r < 0 then Some (Exited (iperf_errexit K msg (set_err IEPIDFILE p))) else server_rounds K J msg 0 p))"

text \<open>\<open>run\<close> without a signal; a test that is neither client nor server prints the usage.\<close>

definition run :: "'w kernel \<Rightarrow> (nat \<Rightarrow> junk) \<Rightarrow> string \<Rightarrow> 'w prog \<Rightarrow> 'w ending option" where
  "run K J msg p =
     (if role (test p) = CHR ''s'' then run_as_server K J msg p
      else if role (test p) = CHR ''c'' then do {
        (r, p) \<leftarrow> iperf_run_client K (J 0) p;
        Some (if r < 0 then Exited (iperf_errexit K msg p) else Returned 0 p)
      }
      else Some (Returned 0 p))"

text \<open>
  \<open>main\<close>: the options are what \<open>getopt_long\<close> returns. The exits before the test runs leave the
  state as it was; the result of \<open>iperf_defaults\<close> is not looked at.
\<close>

definition main :: "'w kernel \<Rightarrow> (nat \<Rightarrow> junk) \<Rightarrow> string \<Rightarrow> (opt \<times> string) list \<Rightarrow> 'w prog \<Rightarrow> 'w ending option" where
  "main K J msg opts p =
     (let (m1, p) = on_sys (sys_malloc K 1) p;
          (m2, p) = (if m1 then on_sys (sys_malloc K 1) p else (False, p))
      in case iperf_new_test m1 m2 of
           None \<Rightarrow> Some (Exited (set_err IENEWTEST p))
         | Some t \<Rightarrow>
             (let (m3, p) = on_sys (sys_malloc K 1) p;
                  (m4, p) = (if m3 then on_sys (sys_malloc K 1) p else (False, p))
              in case iperf_parse_arguments opts (i_errno (psys p)) (snd (iperf_defaults m3 m4 t)) of
                   Go s \<Rightarrow> do {
                     e \<leftarrow> run K J msg (set_err (p_errno s) (p\<lparr>test := p_test s\<rparr>));
                     (case e of
                        Exited p \<Rightarrow> Some (Exited p)
                      | Returned r p \<Rightarrow> if r < 0 then Some (Exited (iperf_errexit K msg p))
                          else do { p \<leftarrow> iperf_free_test K p; Some (Returned 0 p) })
                   }
                 | Err s \<Rightarrow> Some (Exited (set_err (p_errno s) (p\<lparr>test := p_test s\<rparr>)))
                 | Exit _ \<Rightarrow> Some (Exited p)
                 | Undef \<Rightarrow> None))"

end
