(* ===== verification/Frame.thy ===== *)
theory Frame
  imports Prog_Props Iperf_Main
begin

text \<open>
  What the operations of a running test leave alone. \<open>calm t t'\<close>: going from \<open>t\<close> to \<open>t'\<close> keeps the
  state of the protocol, the descriptors of the connections and the largest descriptor, adds no
  stream, and watches no descriptor that is not a stream's; \<open>tame\<close> keeps the streams, too.
  Sending, receiving, statistics, reports and the timers are calm; both loops rest on that.
\<close>

section \<open>The relations\<close>

definition ident :: "iperf_stream \<Rightarrow> nat \<times> int \<times> int" where
  "ident sp = (stream_addr sp, socket sp, sender sp)"

definition calm :: "iperf_test \<Rightarrow> iperf_test \<Rightarrow> bool" where
  "calm t t' \<longleftrightarrow> state t' = state t \<and> ctrl_sck t' = ctrl_sck t \<and> listener t' = listener t \<and> prot_listener t' = prot_listener t \<and>
     max_fd t' = max_fd t \<and> read_set t' = read_set t \<and> mode t' = mode t \<and> num_streams t' = num_streams t \<and> role t' = role t \<and>
     set (map ident (streams t')) \<subseteq> set (map ident (streams t)) \<and>
     set (write_set t') \<subseteq> set (write_set t) \<union> set (map socket (streams t))"

definition tame :: "iperf_test \<Rightarrow> iperf_test \<Rightarrow> bool" where
  "tame t t' \<longleftrightarrow> calm t t' \<and> map ident (streams t') = map ident (streams t)"

lemma ident_socket: "map ident xs = map ident ys \<Longrightarrow> map socket xs = map socket ys"
proof -
  assume "map ident xs = map ident ys"
  then have "map (fst \<circ> snd) (map ident xs) = map (fst \<circ> snd) (map ident ys)" by simp
  then show ?thesis by (simp add: ident_def comp_def)
qed

lemma ident_sender: "map ident xs = map ident ys \<Longrightarrow> map sender xs = map sender ys"
proof -
  assume "map ident xs = map ident ys"
  then have "map (snd \<circ> snd) (map ident xs) = map (snd \<circ> snd) (map ident ys)" by simp
  then show ?thesis by (simp add: ident_def comp_def)
qed

lemma socket_ident: "set (map ident xs) \<subseteq> set (map ident ys) \<Longrightarrow> set (map socket xs) \<subseteq> set (map socket ys)"
  by (force simp: ident_def)

lemma calm_refl [simp]: "calm t t"
  by (auto simp: calm_def)

lemma tame_refl [simp]: "tame t t"
  by (simp add: tame_def)

lemma calm_trans:
  assumes "calm t t'" "calm t' t''" shows "calm t t''"
proof -
  have "set (map socket (streams t')) \<subseteq> set (map socket (streams t))"
    using assms(1) by (intro socket_ident) (simp add: calm_def)
  then have "set (write_set t'') \<subseteq> set (write_set t) \<union> set (map socket (streams t))"
    using assms unfolding calm_def by blast
  moreover have "set (map ident (streams t'')) \<subseteq> set (map ident (streams t))"
    using assms unfolding calm_def by blast
  ultimately show ?thesis using assms unfolding calm_def by simp
qed

lemma tame_trans: "tame t t' \<Longrightarrow> tame t' t'' \<Longrightarrow> tame t t''"
  unfolding tame_def using calm_trans by metis

lemma tame_calm: "tame t t' \<Longrightarrow> calm t t'"
  by (simp add: tame_def)

lemma map_ident_update: "ident y = ident (xs ! i) \<Longrightarrow> map ident (xs[i := y]) = map ident xs"
  by (cases "i < length xs") (simp_all add: map_update list_update_same_conv list_update_beyond)

text \<open>Fields that do not matter.\<close>

lemma tame_fields [simp]:
  "tame t (t\<lparr>test_done := d\<rparr>)" "tame t (t\<lparr>omitting := i\<rparr>)" "tame t (t\<lparr>omit_timer := a\<rparr>)" "tame t (t\<lparr>test_timer := a\<rparr>)"
  "tame t (t\<lparr>stats_timer := a\<rparr>)" "tame t (t\<lparr>reporter_timer := a\<rparr>)" "tame t (t\<lparr>cpu_util := c\<rparr>)"
  "tame t (t\<lparr>test_bytes_sent := w, test_blocks_sent := w'\<rparr>)" "tame t (t\<lparr>test_bytes_received := w, test_blocks_received := w'\<rparr>)"
  "tame t (t\<lparr>json_server_output := j, server_output_text := x\<rparr>)" "tame t (t\<lparr>settings := s\<rparr>)" "tame t (t\<lparr>bind_port := i\<rparr>)"
  by (auto simp: tame_def calm_def)

lemma tame_streams: "map ident sps = map ident (streams t) \<Longrightarrow> tame t (t\<lparr>streams := sps\<rparr>)"
  unfolding tame_def calm_def using arg_cong [of _ _ set] by fastforce

lemma tame_stream: "ident sp = ident (streams t ! i) \<Longrightarrow> tame t (t\<lparr>streams := (streams t)[i := sp]\<rparr>)"
  by (rule tame_streams) (rule map_ident_update)

section \<open>Sending and receiving\<close>

lemma moved_ident: "moved a b sp sp' \<Longrightarrow> ident sp' = ident sp"
  by (simp add: moved_def ident_def)

lemma call_prot_ident: "run_state (call_prot K f t sp) s = ((r, sp'), s') \<Longrightarrow> ident sp' = ident sp"
  by (cases f) (auto dest: tcp_send_moved udp_send_moved tcp_recv_moved udp_recv_moved moved_ident)

lemma call_fn_frame:
  assumes "run_state (call_fn K f t sp) s = ((r, t', sp'), s')"
  shows "ident sp' = ident sp \<and> (\<exists>d. t' = t\<lparr>test_done := d\<rparr>)"
proof (cases "f = Diskfile_send")
  case True
  obtain t1 sp1 s1 where f: "run_state (diskfile_fill K t sp) s = ((t1, sp1), s1)" by (metis prod.collapse)
  obtain r2 sp2 s2 where c: "run_state (call_prot K (snd2 sp1) t1 sp1) s1 = ((r2, sp2), s2)" by (metis prod.collapse)
  have "ident sp2 = ident sp" using call_prot_ident [OF c] moved_ident [of 0 0 sp sp1] diskfile_fill_kept [OF f] by simp
  moreover have "t' = t1 \<and> ident sp' = ident sp2"
    using assms f c True by (auto simp: call_fn_def diskfile_send_def Let_def ident_def split: if_splits)
  ultimately show ?thesis using diskfile_fill_kept [OF f] by auto
next
  case False
  show ?thesis
  proof (cases "f = Diskfile_recv")
    case True
    obtain r2 sp2 s2 where c: "run_state (call_prot K (rcv2 sp) t sp) s = ((r2, sp2), s2)" by (metis prod.collapse)
    have "t' = t \<and> sp' = sp2" using assms c True by (auto simp: call_fn_def diskfile_recv_def split: prod.splits)
    then show ?thesis using call_prot_ident [OF c] by (auto intro: exI [of _ "test_done t"])
  next
    case other: False
    then have "\<exists>sp2. run_state (call_prot K f t sp) s = ((r, sp2), s') \<and> t' = t \<and> sp' = sp2"
      using assms False by (auto simp: call_fn_def split: prod.splits stream_fn.splits)
    then show ?thesis using call_prot_ident by (auto intro: exI [of _ "test_done t"])
  qed
qed

lemma call_stream_tame:
  assumes "run_state (call_stream K f i t) s = ((r, t'), s')"
  shows "tame t t'"
proof -
  obtain t1 sp1 where c: "run_state (call_fn K (f (streams t ! i)) t (streams t ! i)) s = ((r, t1, sp1), s')"
    "t' = t1\<lparr>streams := (streams t1)[i := sp1]\<rparr>" using assms by (auto simp: call_stream_def Let_def split: prod.splits)
  obtain d where d: "ident sp1 = ident (streams t ! i)" "t1 = t\<lparr>test_done := d\<rparr>" using call_fn_frame [OF c(1)] by blast
  show ?thesis unfolding c(2) d(2) by (rule tame_trans [OF tame_fields(1) tame_stream]) (simp add: d(1))
qed

lemma throttle_tame:
  assumes "i < length (streams t)"
  shows "tame t (iperf_check_throttle K i now t)"
proof -
  have "tame t (t\<lparr>streams := (streams t)[i := (streams t ! i)\<lparr>green_light := g\<rparr>], write_set := ws\<rparr>)"
    if "ws = FD_SET (socket (streams t ! i)) (write_set t) \<or> ws = FD_CLR (socket (streams t ! i)) (write_set t)" for g ws
    using tame_stream [of "(streams t ! i)\<lparr>green_light := g\<rparr>" t i] that assms nth_mem [OF assms]
    by (auto simp: tame_def calm_def ident_def FD_SET_def FD_CLR_def)
  then show ?thesis by (simp add: iperf_check_throttle_def Let_def)
qed

lemma count_tame [simp]: "tame t (count_sent r t)" "tame t (count_received r t)"
  by (simp_all add: count_sent_def count_received_def)

lemma tame_length: "tame t t' \<Longrightarrow> length (streams t') = length (streams t)"
  unfolding tame_def using map_eq_imp_length_eq by blast

lemma send_streams_tame:
  assumes "\<forall>i \<in> set is. i < length (streams t)" "run_state (send_streams K m now ws is act t) s = (x, s')"
  shows "\<exists>t'. (x = Passed True t' \<or> x = Passed False t' \<or> (\<exists>r. x = Failed r t')) \<and> tame t t'"
  using assms
proof (induction "is" arbitrary: act t s)
  case Nil
  then show ?case by (cases act) auto
next
  case (Cons i "is")
  let ?sp = "streams t ! i"
  show ?case
  proof (cases "green_light ?sp \<noteq> 0 \<and> sender ?sp \<noteq> 0 \<and> (case ws of None \<Rightarrow> True | Some s \<Rightarrow> FD_ISSET (socket ?sp) s)")
    case False
    then show ?thesis using Cons by (simp add: Let_def split: if_splits)
  next
    case True
    obtain r t1 s1 where c: "run_state (call_stream K snd_fn i t) s = ((r, t1), s1)" by (metis prod.collapse)
    have t1: "tame t t1" by (rule call_stream_tame [OF c])
    define t2 where "t2 = count_sent r t1"
    define t3 where "t3 = (if rate (settings t2) \<noteq> 0 \<and> burst (settings t2) = 0 then iperf_check_throttle K i now t2 else t2)"
    have t2: "tame t t2" using tame_trans [OF t1] by (simp add: t2_def)
    then have "i < length (streams t2)" using Cons.prems(1) tame_length by fastforce
    from tame_trans [OF t2 throttle_tame [OF this, of K now]] t2 have t3: "tame t t3" by (simp add: t3_def)
    have eq: "run_state (send_streams K m now ws (i # is) act t) s =
       (if r < 0 then if r = NET_SOFTERROR then (Passed act t1, s1) else (Failed r t1, s1\<lparr>i_errno := IESTREAMWRITE\<rparr>)
        else if reached_limit m t3 then (Passed True t3, s1) else run_state (send_streams K m now ws is True t3) s1)"
      using True c by (simp add: t2_def t3_def Let_def sys_run)
    show ?thesis
    proof (cases "r < 0 \<or> reached_limit m t3")
      case True
      then show ?thesis using Cons.prems(2) t1 t3 unfolding eq by (cases act) (auto split: if_splits)
    next
      case False
      then have run: "run_state (send_streams K m now ws is True t3) s1 = (x, s')" using Cons.prems(2) unfolding eq by simp
      have "\<forall>i \<in> set is. i < length (streams t3)" using Cons.prems(1) tame_length [OF t3] by simp
      from Cons.IH [OF this run] obtain t' where "x = Passed True t' \<or> x = Passed False t' \<or> (\<exists>r. x = Failed r t')" "tame t3 t'"
        by (elim exE conjE)
      then show ?thesis using tame_trans [OF t3] by auto
    qed
  qed
qed

lemma send_rounds_tame:
  assumes "run_state (send_rounds K n now ws t) s = ((r, t'), s')"
  shows "tame t t'"
  using assms
proof (induction n arbitrary: now t s)
  case (Suc n)
  obtain now1 s1 where n1: "run_state (if rate (settings t) \<noteq> 0 \<and> burst (settings t) = 0 then do { (_, now) \<leftarrow> sys_time_into K now; ret now } else ret now) s = (now1, s1)"
    by force
  obtain x s2 where x: "run_state (send_streams K (int (Suc n)) now1 ws [0..<length (streams t)] False t) s1 = (x, s2)" by force
  obtain t1 where t1: "x = Passed True t1 \<or> x = Passed False t1 \<or> (\<exists>r. x = Failed r t1)" "tame t t1"
    using send_streams_tame [OF _ x] by auto
  have "run_state (send_rounds K (Suc n) now ws t) s = run_state (case x of
        Failed r t \<Rightarrow> ret (r, t)
      | Passed active t \<Rightarrow> if active then send_rounds K n now1 ws t else ret (0, t)) s2"
    using n1 x by (simp only: send_rounds.simps State_Monad.run_state_bind prod.case)
  then show ?case using Suc t1 tame_trans [OF t1(2)] by auto
qed simp

lemma throttle_all_tame:
  "\<forall>i \<in> set is. i < length (streams t) \<Longrightarrow> tame t (fold (\<lambda>i. iperf_check_throttle K i now) is t)"
proof (induction "is" arbitrary: t)
  case (Cons i "is")
  have t1: "tame t (iperf_check_throttle K i now t)" by (rule throttle_tame) (simp add: Cons.prems)
  have "tame (iperf_check_throttle K i now t) (fold (\<lambda>i. iperf_check_throttle K i now) is (iperf_check_throttle K i now t))"
    by (rule Cons.IH) (simp add: Cons.prems)
  from tame_trans [OF t1 this] show ?case by simp
qed simp

lemma iperf_send_tame:
  assumes "run_state (iperf_send K ws t) s = ((r, ws', t'), s')"
  shows "tame t t'"
proof -
  obtain r1 t1 s1 where c: "run_state (send_rounds K (nat (multisend_rounds t)) (k_uninit K) ws t) s = ((r1, t1), s1)" by (metis prod.collapse)
  have t1: "tame t t1" by (rule send_rounds_tame [OF c])
  have "tame t (fold (\<lambda>i. iperf_check_throttle K i now) [0..<length (streams t1)] t1)" for now
    by (rule tame_trans [OF t1 throttle_all_tame]) simp
  then show ?thesis using assms c t1 by (auto simp: iperf_send_def split: if_splits prod.splits)
qed

lemma recv_streams_tame:
  assumes "run_state (recv_streams K is rs t) s = ((r, rs', t'), s')"
  shows "tame t t'"
  using assms
proof (induction "is" arbitrary: rs t s)
  case (Cons i "is")
  obtain r1 t1 s1 where c: "run_state (call_stream K rcv i t) s = ((r1, t1), s1)" by (metis prod.collapse)
  have t1: "tame t t1" by (rule call_stream_tame [OF c])
  have t2: "tame t (count_received r1 t1)" by (rule tame_trans [OF t1]) simp
  show ?case using Cons.prems c t1 Cons.IH tame_trans [OF t2 Cons.IH]
    by (auto simp: Let_def sys_run split: if_splits)
qed simp

lemma iperf_recv_tame: "run_state (iperf_recv K rs t) s = ((r, rs', t'), s') \<Longrightarrow> tame t t'"
  unfolding iperf_recv_def by (rule recv_streams_tame)

section \<open>Statistics and reports\<close>

lemma stats_stream_ident: "run_state (stats_stream K t temp sp) s = ((temp', sp'), s') \<Longrightarrow> ident sp' = ident sp"
  by (auto simp: stats_stream_def Let_def ident_def split: prod.splits if_splits)

lemma stats_streams_ident:
  "run_state (stats_streams K t temp sps) s = (sps', s') \<Longrightarrow> map ident sps' = map ident sps"
proof (induction sps arbitrary: temp s sps')
  case (Cons sp sps)
  obtain temp1 sp1 s1 where a: "run_state (stats_stream K t temp sp) s = ((temp1, sp1), s1)" by (metis prod.collapse)
  obtain sps1 s2 where b: "run_state (stats_streams K t temp1 sps) s1 = (sps1, s2)" by force
  show ?case using Cons.prems a b stats_stream_ident [OF a] Cons.IH [of temp1 s1 sps1] by auto
qed simp

lemma iperf_stats_tame: "run_state (iperf_stats_callback K temp0 t) s = (t', s') \<Longrightarrow> tame t t'"
  by (auto simp: iperf_stats_callback_def split: prod.splits dest!: stats_streams_ident intro: tame_streams)

lemma reset_stream_ident: "run_state (reset_stream K ir0 t now sp) s = (sp', s') \<Longrightarrow> ident sp' = ident sp"
  by (auto simp: reset_stream_def Let_def ident_def split: prod.splits if_splits)

lemma reset_streams_ident:
  "run_state (reset_streams K ir0 t now sps) s = (sps', s') \<Longrightarrow> map ident sps' = map ident sps"
proof (induction sps arbitrary: s sps')
  case (Cons sp sps)
  obtain sp1 s1 where a: "run_state (reset_stream K ir0 t now sp) s = (sp1, s1)" by force
  obtain sps1 s2 where b: "run_state (reset_streams K ir0 t now sps) s1 = (sps1, s2)" by force
  show ?case using Cons.prems a b reset_stream_ident [OF a] Cons.IH [of s1 sps1] by auto
qed simp

lemma iperf_reset_stats_tame:
  assumes "run_state (iperf_reset_stats K ir0 t) s = (t', s')"
  shows "tame t t'"
proof -
  let ?t = "t\<lparr>test_bytes_sent := 0, test_blocks_sent := 0\<rparr>"
  obtain x now s1 where n: "run_state (sys_time_now K) s = ((x, now), s1)" by (metis prod.collapse)
  obtain sps s2 where a: "run_state (reset_streams K ir0 ?t now (streams t)) s1 = (sps, s2)" by force
  have "t' = ?t\<lparr>streams := sps\<rparr>" using assms n a by (simp add: iperf_reset_stats_def Let_def)
  moreover have "tame ?t (?t\<lparr>streams := sps\<rparr>)" using reset_streams_ident [OF a] by (intro tame_streams) simp
  ultimately show ?thesis using tame_trans [OF tame_fields(8)] by metis
qed

lemma iperf_init_test_tame: "run_state (iperf_init_test K t) s = ((r, t'), s') \<Longrightarrow> tame t t'"
  by (auto simp: iperf_init_test_def sys_run ident_def intro!: tame_streams split: if_splits prod.splits)

lemma report_times_ident: "ident (report_times sp) = ident sp"
  by (simp add: report_times_def Let_def ident_def)

lemma iperf_print_results_tame: "tame t (iperf_print_results t)"
proof (cases "streams t")
  case Nil
  then show ?thesis using tame_fields(10) [of t] by (simp add: iperf_print_results_def Let_def)
next
  case (Cons sp sps)
  let ?t = "t\<lparr>streams := report_times sp # sps\<rparr>"
  have "tame t ?t" by (rule tame_streams) (simp add: Cons report_times_ident)
  then show ?thesis using Cons tame_trans [OF _ tame_fields(10), of t ?t] by (simp add: iperf_print_results_def Let_def)
qed

lemma iperf_reporter_tame: "tame t (iperf_reporter_callback t)"
  by (simp add: iperf_reporter_callback_def iperf_print_results_tame)

lemma on_sys_test [prog_run]: "on_sys m p = (x, p') \<Longrightarrow> test p' = test p"
  by (auto simp: on_sys_def split: prod.splits)

lemma on_sys_parts:
  assumes "on_sys m p = (x, p')"
  shows "test p' = test p" "tm p' = tm p" "heap_top p' = heap_top p" "run_state m (psys p) = (x, psys p')"
  using assms by (auto simp: on_sys_def split: prod.splits)

lemma cpu_read_tame: "tame (test p) (test (cpu_read K J p))"
  by (auto simp: cpu_read_def prog_run Let_def dest!: on_sys_parts(1) split: prod.splits)

lemma cpu_start_test: "test (cpu_start K p) = test p"
  by (auto simp: cpu_start_def Let_def dest!: on_sys_parts(1) split: prod.splits)

lemma stats_tame: "tame (test p) (test (stats K J p))"
  by (auto simp: stats_def do_test_def dest: iperf_stats_tame split: prod.splits)

section \<open>Timers\<close>

lemma create_timer_test:
  assumes "create_timer K nowP pr cd us per p = Some (a, p')"
  shows "test p' = test p"
proof -
  obtain now p1 where n: "(case nowP of Some now \<Rightarrow> (now, p) | None \<Rightarrow> (case on_sys (sys_time_now K) p of ((_, now), p) \<Rightarrow> (now, p))) = (now, p1)"
    by force
  obtain ok p2 where m: "(if free_timers (tm p1) = None then on_sys (sys_malloc K 1) p1 else (True, p1)) = (ok, p2)" by force
  have "test p1 = test p" using n by (auto split: option.splits prod.splits dest: on_sys_parts(1))
  moreover have "test p2 = test p1" using m by (auto split: if_splits dest: on_sys_parts(1))
  ultimately show ?thesis using assms by (auto simp: create_timer_def n m bind_eq_Some_conv)
qed

lemma cancel_timer_test: "cancel_timer a p = Some p' \<Longrightarrow> test p' = test p"
  by (auto simp: cancel_timer_def bind_eq_Some_conv split: option.splits)

lemma reset_timer_test: "reset_timer now a p = Some p' \<Longrightarrow> test p' = test p"
  by (auto simp: reset_timer_def bind_eq_Some_conv split: option.splits)

lemma err_eq: "err e p = Some (r, p') \<longleftrightarrow> r = -1 \<and> p' = set_err e p"
  by (auto simp: err_def)

lemma tame_upd: "(\<And>t. tame t (f t)) \<Longrightarrow> tame (test p) (test (upd f p))"
  by (simp add: prog_run)

lemma send_timers_tame:
  assumes "send_timers K is p = Some (r, p')"
  shows "tame (test p) (test p')"
  using assms
proof (induction "is" arbitrary: p)
  case (Cons i "is")
  define p1 where "p1 = upd (\<lambda>t. t\<lparr>streams := (streams t)[i := (streams t ! i)\<lparr>green_light := 1\<rparr>]\<rparr>) p"
  have p1: "tame (test p) (test p1)" by (simp add: p1_def prog_run tame_stream ident_def)
  show ?case
  proof (cases "rate (settings (test p1)) = 0")
    case True
    then have "send_timers K is p1 = Some (r, p')" using Cons.prems by (simp add: p1_def prog_run)
    then show ?thesis using Cons.IH tame_trans [OF p1] by blast
  next
    case False
    then obtain a p2 where p2: "create_timer K None send_timer_proc (stream_addr (streams (test p1) ! i)) (pacing_timer (settings (test p1))) 1 p1 = Some (a, p2)"
      using Cons.prems by (auto simp: p1_def [symmetric] bind_eq_Some_conv)
    define p3 where "p3 = upd (\<lambda>t. t\<lparr>streams := (streams t)[i := (streams t ! i)\<lparr>send_timer := a\<rparr>]\<rparr>) p2"
    have p3: "tame (test p) (test p3)"
      using tame_trans [OF p1] by (simp add: p3_def prog_run create_timer_test [OF p2] tame_stream ident_def)
    have "(if a = None then err IEINITTEST p3 else send_timers K is p3) = Some (r, p')"
      using Cons.prems False p2 unfolding p3_def by (simp add: p1_def [symmetric] split del: if_split)
    then show ?thesis using p3 Cons.IH tame_trans [OF p3] by (auto simp: err_eq prog_run split: if_splits)
  qed
qed simp

lemma iperf_create_send_timers_tame: "iperf_create_send_timers K p = Some (r, p') \<Longrightarrow> tame (test p) (test p')"
  by (auto simp: iperf_create_send_timers_def err_eq prog_run split: prod.splits if_splits dest!: send_timers_tame on_sys_parts(1))

lemma and_then_eq_Some:
  "and_then x f = Some (r, p') \<longleftrightarrow> (\<exists>r1 p1. x = Some (r1, p1) \<and> (if r1 < 0 then r = -1 \<and> p' = p1 else f p1 = Some (r, p')))"
  by (cases x) (auto simp: and_then_def split: prod.splits if_splits)

text \<open>A sequence of steps is tame when every step is.\<close>

lemma and_then_tame:
  assumes "and_then x f = Some (r, p')" "\<And>r p1. x = Some (r, p1) \<Longrightarrow> tame t (test p1)"
    "\<And>p1. tame t (test p1) \<Longrightarrow> f p1 = Some (r, p') \<Longrightarrow> tame t (test p')"
  shows "tame t (test p')"
  using assms by (auto simp: and_then_eq_Some split: if_splits)

lemma start_timer_tame:
  assumes "start_timer K now pr us per keep p = Some (r, p')" "\<And>a t. tame t (keep a t)" "tame t (test p)"
  shows "tame t (test p')"
proof -
  obtain a p1 where p1: "create_timer K (Some now) pr 0 us per p = Some (a, p1)"
      "(if a = None then err IEINITTEST (upd (keep a) p1) else Some (0, upd (keep a) p1)) = Some (r, p')"
    using assms(1) by (auto simp: start_timer_def bind_eq_Some_conv split del: if_split)
  from p1(2) have "test p' = keep a (test p1)" by (auto simp: err_eq prog_run split: if_splits)
  then show ?thesis using tame_trans [OF assms(3,2)] create_timer_test [OF p1(1)] by simp
qed

lemma create_omit_timer_tame:
  assumes "create_omit_timer K pr p = Some (r, p')"
  shows "tame (test p) (test p')"
proof (cases "omit (test p) = 0")
  case True
  then show ?thesis using assms tame_trans [OF tame_fields(3) tame_fields(2)] by (auto simp: create_omit_timer_def prog_run)
next
  case False
  obtain x now p1 where n: "on_sys (sys_time_now K) p = ((x, now), p1)" by (metis prod.collapse)
  note p1 = on_sys_parts(1) [OF n]
  have "tame (test p) (test p')"
    if "start_timer K now pr us 0 (\<lambda>a t. t\<lparr>omit_timer := a\<rparr>) (upd (\<lambda>t. t\<lparr>omitting := 1\<rparr>) p1) = Some (r, p')" for us
    by (rule start_timer_tame [OF that]) (simp_all add: prog_run p1)
  then show ?thesis using assms n p1 False by (auto simp: create_omit_timer_def err_eq prog_run split: if_splits)
qed

lemma create_timers_tame:
  assumes "create_timers K e st rp grace p = Some (r, p')"
  shows "tame (test p) (test p')"
proof -
  obtain x now p1 where n: "on_sys (sys_time_now K) p = ((x, now), p1)" by (metis prod.collapse)
  note t1 = on_sys_parts(1) [OF n]
  define p2 where "p2 = upd (\<lambda>t. t\<lparr>test_timer := None, stats_timer := None, reporter_timer := None\<rparr>) p1"
  have p2: "tame (test p) (test p2)"
    unfolding p2_def upd_parts t1 by (rule tame_trans [OF tame_trans [OF tame_fields(4) tame_fields(5)] tame_fields(6)])
  show ?thesis
  proof (cases "x < 0")
    case True
    then show ?thesis using assms n t1 by (auto simp: create_timers_def err_eq prog_run)
  next
    case False
    note run = assms [unfolded create_timers_def n prod.case if_not_P [OF False] p2_def [symmetric] Let_def]
    show ?thesis
      by (rule and_then_tame [OF run])
         (auto elim!: and_then_tame start_timer_tame simp: prog_run p2 tame_trans [OF p2] split: if_splits)
  qed
qed

text \<open>What every procedure keeps, a pass of \<open>tmr_run\<close> keeps.\<close>

lemma tmr_run_loop_keeps:
  fixes call :: "'p \<Rightarrow> 'd \<Rightarrow> iperf_time \<Rightarrow> 's \<times> ('p, 'd) tmem \<Rightarrow> ('s \<times> ('p, 'd) tmem) option"
  assumes call: "\<And>pr cd now sm sm'. call pr cd now sm = Some sm' \<Longrightarrow> R (fst sm) (fst sm')"
    and R: "\<And>x. R x x" "\<And>x y z. R x y \<Longrightarrow> R y z \<Longrightarrow> R x z"
    and run: "tmr_run_loop call now t sm = Some sm'"
  shows "R (fst sm) (fst sm')"
proof -
  have "call = call \<longrightarrow> R (fst sm) (fst sm')"
  proof (rule tmr_run_loop.raw_induct [where P = "\<lambda>c now t sm sm'. c = call \<longrightarrow> R (fst sm) (fst sm')", OF _ run])
    fix f :: "('p \<Rightarrow> 'd \<Rightarrow> iperf_time \<Rightarrow> 's \<times> ('p, 'd) tmem \<Rightarrow> ('s \<times> ('p, 'd) tmem) option) \<Rightarrow> _" and c now t sm sm'
    assume IH: "\<And>c now t sm sm'. f c now t sm = Some sm' \<Longrightarrow> c = call \<longrightarrow> R (fst sm) (fst sm')"
      and body: "(case t of None \<Rightarrow> Some sm
        | Some a \<Rightarrow> do {
            r \<leftarrow> load (snd sm) t;
            if 0 < iperf_time_compare (t_time r) now then Some sm
            else do {
              sm' \<leftarrow> c (timer_proc r) (client_data r) now sm;
              r' \<leftarrow> load (snd sm') t;
              m \<leftarrow> (if periodic r' \<noteq> 0 then do {
                     m \<leftarrow> store t (\<lambda>r. r\<lparr>t_time := iperf_time_add_usecs (t_time r) (t_usecs r)\<rparr>) (snd sm');
                     list_resort a m
                   }
                   else tmr_cancel a (snd sm'));
              f c now (t_next r) (fst sm', m)
            }
          }) = Some sm'"
    show "c = call \<longrightarrow> R (fst sm) (fst sm')"
    proof (cases t)
      case None
      then show ?thesis using body R(1) by simp
    next
      case (Some a)
      obtain r where r: "load (snd sm) (Some a) = Some r" using body Some by (cases "load (snd sm) (Some a)") simp_all
      show ?thesis
      proof (cases "0 < iperf_time_compare (t_time r) now")
        case True
        then show ?thesis using body Some r R(1) by simp
      next
        case False
        then obtain sm1 m where "c (timer_proc r) (client_data r) now sm = Some sm1" "f c now (t_next r) (fst sm1, m) = Some sm'"
          using body Some r by (auto simp: bind_eq_Some_conv)
        then show ?thesis using IH [of c now "t_next r" "(fst sm1, m)" sm']
          call [of "timer_proc r" "client_data r" now sm sm1] R(2) [of "fst sm" "fst sm1" "fst sm'"] by auto
      qed
    qed
  qed
  then show ?thesis by simp
qed

lemma free_streams_calm:
  "free_streams K closing sps p = Some p' \<Longrightarrow> set (map ident sps) \<subseteq> set (map ident (streams (test p))) \<Longrightarrow> calm (test p) (test p')"
proof (induction sps arbitrary: p)
  case Nil
  then show ?case by (auto simp: prog_run calm_def)
next
  case (Cons sp sps)
  define q where "q = upd (\<lambda>t. t\<lparr>streams := sps\<rparr>) p"
  define q' where "q' = (if closing then do_sys (sys_close K (socket sp)) q else q)"
  obtain r where r: "iperf_free_stream K sp q' = Some r" "free_streams K closing sps r = Some p'"
    using Cons.prems(1) unfolding q'_def q_def by (auto simp: bind_eq_Some_conv)
  have tr: "test r = test q'"
    using r(1) by (auto simp: iperf_free_stream_def Let_def prog_run dest!: cancel_timer_test split: if_splits)
  have q': "test q' = (test p)\<lparr>streams := sps\<rparr>" by (simp add: q'_def q_def prog_run)
  have "calm (test p) (test q')" using Cons.prems(2) unfolding q' by (auto simp: calm_def)
  moreover have "calm (test r) (test p')" by (rule Cons.IH [OF r(2)]) (simp add: tr q')
  ultimately show ?case using calm_trans tr by simp
qed

lemma stats_proc_tame: "tame (test p) (test (stats_proc K J p))"
  by (simp add: stats_proc_def stats_tame)

lemma reporter_proc_tame: "tame (test p) (test (reporter_proc p))"
  by (simp add: reporter_proc_def prog_run iperf_reporter_tame)

lemma omit_proc_tame:
  assumes "omit_proc K J now p = Some p'"
  shows "tame (test p) (test p')"
proof -
  define p1 where "p1 = upd (\<lambda>t. t\<lparr>omit_timer := None, omitting := 0\<rparr>) p"
  define p2 where "p2 = do_test (iperf_reset_stats K (j_interval J)) p1"
  have p1: "tame (test p) (test p1)" unfolding p1_def upd_parts by (rule tame_trans [OF tame_fields(3) tame_fields(2)])
  have p2: "tame (test p1) (test p2)" by (auto simp: p2_def do_test_def dest: iperf_reset_stats_tame split: prod.splits)
  have "test p' = test p2"
    using assms by (auto simp: omit_proc_def p1_def [symmetric] p2_def [symmetric] bind_eq_Some_conv dest!: reset_timer_test)
  then show ?thesis using tame_trans [OF p1 p2] by simp
qed

lemma server_end_proc_calm:
  assumes "server_end_proc K p = Some p'"
  shows "calm (test p) (test p')"
proof (cases "test_done (test p) = 0")
  case False
  then show ?thesis using assms tame_calm [OF tame_fields(4)] by (auto simp: server_end_proc_def prog_run)
next
  case True
  define q where "q = upd (\<lambda>t. t\<lparr>test_done := 1\<rparr>) (upd (\<lambda>t. t\<lparr>test_timer := None\<rparr>) p)"
  obtain p1 where p1: "free_streams K True (streams (test q)) q = Some p1" "p' = do_sys (sys_close K (ctrl_sck (test p1))) p1"
    using assms True by (auto simp: server_end_proc_def q_def prog_run bind_eq_Some_conv)
  have "calm (test p) (test q)" unfolding q_def upd_parts by (rule tame_calm [OF tame_trans [OF tame_fields(4) tame_fields(1)]])
  moreover have "calm (test q) (test p1)" by (rule free_streams_calm [OF p1(1)]) simp
  ultimately show ?thesis using calm_trans p1(2) by (simp add: prog_run)
qed

lemma stream_place_less: "stream_place a t = Some i \<Longrightarrow> i < length (streams t)"
  by (auto simp: stream_place_def find_Some_iff)

lemma timer_call_calm: "timer_call K J pr a now p = Some p' \<Longrightarrow> calm (test p) (test p')"
  by (cases pr) (auto simp: prog_run
      intro: omit_proc_tame [THEN tame_calm] stats_proc_tame [THEN tame_calm] reporter_proc_tame [THEN tame_calm]
        server_end_proc_calm throttle_tame [OF stream_place_less, THEN tame_calm]
        tame_trans [OF tame_fields(4) tame_fields(1), THEN tame_calm]
      split: option.splits)

lemma run_timers_calm:
  assumes "run_timers K J now p = Some p'"
  shows "calm (test p) (test p')"
proof -
  define call where "call = (\<lambda>proc a now (p, m). map_option (\<lambda>p. (p, tm p)) (timer_call K J proc a now (p\<lparr>tm := m\<rparr>)))"
  obtain q m where q: "tmr_run call (Some now) (0, 0, 0) now (p, tm p) = Some (q, m)" "p' = q\<lparr>tm := m\<rparr>"
    using assms by (auto simp: run_timers_def call_def bind_eq_Some_conv)
  have "calm (test (fst sm)) (test (fst sm'))" if "call pr cd now sm = Some sm'" for pr cd now sm sm'
    using that timer_call_calm [of K J pr cd now "(fst sm)\<lparr>tm := snd sm\<rparr>"] by (auto simp: call_def split: prod.splits)
  from tmr_run_loop_keeps [where R = "\<lambda>x y. calm (test x) (test y)", OF this _ _ q(1) [unfolded tmr_run_def]]
  show ?thesis using q(2) calm_trans by auto
qed

end
