(* ===== verification/Watch_Props.thy ===== *)
theory Watch_Props
  imports Frame
begin

text \<open>
  The descriptors the program watches. \<open>select\<close> is called with \<open>max_fd + 1\<close>, so every descriptor in
  one of the two sets has to be at most \<open>max_fd\<close>. This holds throughout the loops of the client
  and of the server.
\<close>

section \<open>The invariant\<close>

definition fds :: "iperf_test \<Rightarrow> int set" where
  "fds t = set (read_set t) \<union> set (write_set t) \<union> set (map socket (streams t))"

definition fd_ok :: "iperf_test \<Rightarrow> bool" where
  "fd_ok t \<longleftrightarrow> (\<forall>fd \<in> fds t. fd \<le> max_fd t)"

text \<open>A step that keeps it: new descriptors are at most the new \<open>max_fd\<close>.\<close>

definition fd_step :: "iperf_test \<Rightarrow> iperf_test \<Rightarrow> bool" where
  "fd_step t t' \<longleftrightarrow> max_fd t \<le> max_fd t' \<and> (\<forall>fd \<in> fds t'. fd \<in> fds t \<or> fd \<le> max_fd t')"

lemma fd_step_ok: "fd_step t t' \<Longrightarrow> fd_ok t \<Longrightarrow> fd_ok t'"
  unfolding fd_step_def fd_ok_def by (meson order_trans)

lemma fd_step_refl [simp]: "fd_step t t"
  by (simp add: fd_step_def)

lemma fd_step_trans: "fd_step t t' \<Longrightarrow> fd_step t' t'' \<Longrightarrow> fd_step t t''"
  unfolding fd_step_def by (meson order_trans)

lemma fd_step_subset: "max_fd t' = max_fd t \<Longrightarrow> fds t' \<subseteq> fds t \<Longrightarrow> fd_step t t'"
  by (auto simp: fd_step_def)

lemma calm_fd_step:
  assumes "calm t t'" shows "fd_step t t'"
proof (rule fd_step_subset)
  have "set (map socket (streams t')) \<subseteq> set (map socket (streams t))"
    using assms by (intro socket_ident) (simp add: calm_def)
  then show "fds t' \<subseteq> fds t" using assms unfolding calm_def fds_def by auto
qed (use assms in \<open>simp add: calm_def\<close>)

lemma tame_fd_step: "tame t t' \<Longrightarrow> fd_step t t'"
  by (rule calm_fd_step [OF tame_calm])

lemma fd_step_watch [simp]: "fd_step t (watch s b t)"
  by (auto simp: fd_step_def fds_def watch_def Let_def FD_SET_def)

lemma fd_step_fields [simp]:
  "fd_step t (t\<lparr>state := st\<rparr>)" "fd_step t (t\<lparr>ctrl_sck := s\<rparr>)" "fd_step t (t\<lparr>listener := s\<rparr>)" "fd_step t (t\<lparr>prot_listener := s\<rparr>)"
  "fd_step t (t\<lparr>cookie := c\<rparr>)" "fd_step t (t\<lparr>read_set := FD_CLR s (read_set t)\<rparr>)" "fd_step t (t\<lparr>write_set := FD_CLR s (write_set t)\<rparr>)"
  "fd_step t (t\<lparr>read_set := [], write_set := []\<rparr>)" "fd_step t (t\<lparr>ctrl_sck_mss := m\<rparr>)" "fd_step t (t\<lparr>congestion_used := x\<rparr>)"
  by (auto simp: fd_step_def fds_def FD_CLR_def)

text \<open>Steps in sequence.\<close>

lemma fd_step_upd: "fd_step t (test p) \<Longrightarrow> (\<And>t. fd_step t (f t)) \<Longrightarrow> fd_step t (test (upd f p))"
  using fd_step_trans by (simp add: prog_run)

lemma and_then_fd_step:
  assumes "and_then x f = Some (r, p')" "\<And>r p1. x = Some (r, p1) \<Longrightarrow> fd_step t (test p1)"
    "\<And>p1. fd_step t (test p1) \<Longrightarrow> f p1 = Some (r, p') \<Longrightarrow> fd_step t (test p')"
  shows "fd_step t (test p')"
  using assms by (auto simp: and_then_eq_Some split: if_splits)

lemma on_test_fd_step:
  assumes "on_test f p = (r, p')" "\<And>s r t' s'. run_state (f (test p)) s = ((r, t'), s') \<Longrightarrow> fd_step (test p) t'"
  shows "fd_step (test p) (test p')"
  using assms by (auto simp: on_test_def split: prod.splits)

lemma on_outcome_fd_step:
  assumes "on_outcome f p = Some (r, p')" "\<And>s r t' s'. run_state (f (test p)) s = (Returns (r, t'), s') \<Longrightarrow> fd_step (test p) t'"
  shows "fd_step (test p) (test p')"
  using assms by (auto simp: on_outcome_def split: prod.splits outcome.splits)

section \<open>Messages\<close>

lemma set_send_state_eq: "run_state (iperf_set_send_state K st t) s = ((r, t'), s') \<Longrightarrow> t' = t\<lparr>state := st\<rparr>"
  by (auto simp: iperf_set_send_state_def Let_def sys_run split: prod.splits if_splits)

text \<open>The parameters of a client are configuration.\<close>

lemma more_on_item: "(\<And>j t. test_config.more (f j t) = test_config.more t) \<Longrightarrow> test_config.more (on_item j n f t) = test_config.more t"
  by (simp add: on_item_def split: option.split)

lemma more_on_string:
  "on_string j n f t = Some t' \<Longrightarrow> (\<And>s. test_config.more (f s t) = test_config.more t) \<Longrightarrow> test_config.more t' = test_config.more t"
  by (auto simp: on_string_def split: option.splits)

lemma more_setters:
  "test_config.more (snd (set_protocol i t)) = test_config.more t"
  "test_config.more (iperf_set_test_reverse v t) = test_config.more t"
  "test_config.more (iperf_set_test_bidirectional v t) = test_config.more t"
  "test_config.more (iperf_set_test_get_server_output v t) = test_config.more t"
  "test_config.more (iperf_set_test_udp_counters_64bit v t) = test_config.more t"
  by (simp_all add: set_protocol_def check_sender_has_retransmits_def iperf_set_test_reverse_def iperf_set_test_bidirectional_def
      iperf_set_test_get_server_output_def iperf_set_test_udp_counters_64bit_def Let_def split: option.split)

lemma more_apply_params:
  assumes "apply_params j t = Some t'"
  shows "test_config.more t' = test_config.more t"
proof -
  have "test_config.more (apply_numbers j t) = test_config.more t"
    by (simp add: apply_numbers_def Let_def more_on_item more_setters)
  moreover have "test_config.more t2 = test_config.more t1" if "apply_strings j t1 = Some t2" for t1 t2
    using that by (auto simp: apply_strings_def bind_eq_Some_conv dest!: more_on_string)
  moreover have "test_config.more (apply_flags j t1) = test_config.more t1" for t1
    by (simp add: apply_flags_def Let_def more_on_item more_setters)
  ultimately show ?thesis using assms by (auto simp: apply_params_def)
qed

lemma more_runtime:
  assumes "test_config.more t' = test_config.more t"
  shows "state t' = state t" "ctrl_sck t' = ctrl_sck t" "listener t' = listener t" "prot_listener t' = prot_listener t" "max_fd t' = max_fd t"
    "read_set t' = read_set t" "write_set t' = write_set t" "streams t' = streams t" "test_done t' = test_done t"
  using assms by (cases t; cases t'; simp)+

lemma get_parameters_more:
  "run_state (get_parameters K t) s = (Returns (r, t'), s') \<Longrightarrow> test_config.more t' = test_config.more t"
  by (auto simp: get_parameters_def sys_run split: prod.splits if_splits option.splits dest: more_apply_params)

text \<open>What every result of a monadic function satisfies.\<close>

definition yields :: "('s, 'a) state \<Rightarrow> ('a \<Rightarrow> bool) \<Rightarrow> bool" where
  "yields m Q \<longleftrightarrow> (\<forall>s x s'. run_state m s = (x, s') \<longrightarrow> Q x)"

lemma yieldsD: "yields m Q \<Longrightarrow> run_state m s = (x, s') \<Longrightarrow> Q x"
  by (auto simp: yields_def)

lemma yields_ret: "Q x \<Longrightarrow> yields (ret x) Q"
  by (auto simp: yields_def)

lemma yields_fail: "Q x \<Longrightarrow> yields (fail_with e x) Q"
  by (auto simp: yields_def sys_run)

lemma yields_bind: "(\<And>x. yields (f x) Q) \<Longrightarrow> yields (State_Monad.bind m f) Q"
  by (auto simp: yields_def split: prod.splits)

lemma yields_if: "(b \<Longrightarrow> yields m Q) \<Longrightarrow> (\<not> b \<Longrightarrow> yields n Q) \<Longrightarrow> yields (if b then m else n) Q"
  by simp

lemma yields_option: "(x = None \<Longrightarrow> yields m Q) \<Longrightarrow> (\<And>y. x = Some y \<Longrightarrow> yields (f y) Q) \<Longrightarrow> yields (case x of None \<Rightarrow> m | Some y \<Rightarrow> f y) Q"
  by (cases x) simp_all

lemma yields_pair: "(\<And>a b. x = (a, b) \<Longrightarrow> yields (f a b) Q) \<Longrightarrow> yields (case x of (a, b) \<Rightarrow> f a b) Q"
  by (cases x) simp

lemmas yields_intros = yields_ret yields_fail yields_bind yields_if yields_option yields_pair

lemma tcp_relisten_eq:
  assumes "run_state (tcp_relisten K t) s = ((r, t'), s')"
  shows "\<exists>l. t' = t\<lparr>read_set := FD_CLR (listener t) (read_set t), listener := l\<rparr>"
proof -
  define Q where "Q = (\<lambda>(r :: int, t'). \<exists>l. t' = t\<lparr>read_set := FD_CLR (listener t) (read_set t), listener := l\<rparr>)"
  have Q: "Q (r, t\<lparr>read_set := FD_CLR (listener t) (read_set t)\<rparr>)" "Q (r, t\<lparr>read_set := FD_CLR (listener t) (read_set t), listener := l\<rparr>)" for r l
    unfolding Q_def by (auto intro: exI [of _ "listener t"])
  have "yields (tcp_relisten K t) Q"
    unfolding tcp_relisten_def Let_def by (intro yields_intros Q)
  from yieldsD [OF this assms] show ?thesis by (simp add: Q_def)
qed

lemma prot_listen_eq:
  assumes "run_state (prot_listen K t) s = ((r, t'), s')"
  shows "t' = t \<or> (\<exists>l. t' = t\<lparr>read_set := FD_CLR (listener t) (read_set t), listener := l\<rparr>)"
proof -
  obtain x t1 s1 where x: "run_state (tcp_relisten K t) s = ((x, t1), s1)" by (metis prod.collapse)
  show ?thesis using assms x tcp_relisten_eq [OF x]
    by (auto simp: prot_listen_def iperf_tcp_listen_def split: prod.splits if_splits)
qed

lemma send_server_error_eq: "run_state (send_server_error K t) s = ((r, t'), s') \<Longrightarrow> r = -1 \<and> t' = t\<lparr>state := SERVER_ERROR\<rparr>"
  by (auto simp: send_server_error_def sys_run split: prod.splits if_splits dest: set_send_state_eq)

text \<open>The listening socket of the streams is watched.\<close>

lemma exchange_parameters_runtime:
  assumes "run_state (iperf_exchange_parameters K t) s = (Returns (r, t'), s')"
  shows "fd_step t t' \<and> ctrl_sck t' = ctrl_sck t \<and> map ident (streams t') = map ident (streams t) \<and> test_done t' = test_done t \<and>
    (if role t = CHR ''c'' then t' = t else 0 \<le> r \<longrightarrow> state t' = CREATE_STREAMS)"
proof (cases "role t = CHR ''c''")
  case True
  then show ?thesis using assms by (auto simp: iperf_exchange_parameters_def split: prod.splits)
next
  case False
  obtain g s1 where g: "run_state (get_parameters K t) s = (g, s1)" by force
  then obtain v t1 where v: "g = Returns (v, t1)" using assms False
    by (cases g) (auto simp: iperf_exchange_parameters_def)
  have more: "test_config.more t1 = test_config.more t" using get_parameters_more g v by blast
  note t1 = more_runtime [OF more]
  have st1: "fd_step t t1" using t1 by (intro fd_step_subset) (simp_all add: fds_def)
  show ?thesis
  proof (cases "v < 0")
    case True
    then show ?thesis using assms False g v st1 t1 by (auto simp: iperf_exchange_parameters_def)
  next
    case ok: False
    obtain l t2 s2 where l: "run_state (prot_listen K t1) s1 = ((l, t2), s2)" by (metis prod.collapse)
    have t2: "fd_step t1 t2" "ctrl_sck t2 = ctrl_sck t1" "streams t2 = streams t1" "test_done t2 = test_done t1"
      using prot_listen_eq [OF l] by (auto simp: fd_step_def fds_def FD_CLR_def)
    show ?thesis
    proof (cases "l < 0")
      case True
      then have "r = -1 \<and> t' = t2\<lparr>state := SERVER_ERROR\<rparr>"
        using assms False ok g v l by (auto simp: iperf_exchange_parameters_def split: prod.splits dest!: send_server_error_eq)
      then show ?thesis using t1 t2 fd_step_trans [OF st1 fd_step_trans [OF t2(1) fd_step_fields(1)]] False by auto
    next
      case False
      let ?t = "t2\<lparr>read_set := FD_SET l (read_set t2), max_fd := max l (max_fd t2), prot_listener := l\<rparr>"
      have "fd_step t2 ?t" by (auto simp: fd_step_def fds_def FD_SET_def)
      moreover have "t' = ?t\<lparr>state := CREATE_STREAMS\<rparr>"
        using assms \<open>role t \<noteq> CHR ''c''\<close> False ok g v l
        by (auto simp: iperf_exchange_parameters_def Let_def split: prod.splits dest!: set_send_state_eq)
      moreover have "state t' = CREATE_STREAMS" using calculation(2) by simp
      ultimately show ?thesis using t1 t2 fd_step_trans [OF st1 fd_step_trans [OF t2(1) fd_step_trans [OF _ fd_step_fields(1)]]]
        \<open>role t \<noteq> CHR ''c''\<close> by auto
    qed
  qed
qed

section \<open>Streams\<close>

lemma yields_bind_post: "yields m P \<Longrightarrow> (\<And>x. P x \<Longrightarrow> yields (f x) Q) \<Longrightarrow> yields (State_Monad.bind m f) Q"
  by (auto simp: yields_def split: prod.splits) blast

lemma iperf_init_stream_ident: "yields (iperf_init_stream K t sp) (\<lambda>(r, sp'). ident sp' = ident sp)"
  unfolding iperf_init_stream_def Let_def by (intro yields_intros) (simp_all add: ident_def)

lemma new_fns_ident: "yields (new_fns K t sp) (\<lambda>x. \<forall>sp'. x = Some sp' \<longrightarrow> ident sp' = ident sp)"
  unfolding new_fns_def Let_def by (intro yields_intros) (simp_all add: ident_def)

lemma add_stream_eq: "iperf_add_stream sp t = (sp', t') \<Longrightarrow> ident sp' = ident sp \<and> t' = t\<lparr>streams := streams t @ [sp']\<rparr>"
  by (auto simp: iperf_add_stream_def Let_def ident_def split: if_splits)

lemma iperf_new_stream_ident:
  assumes "run_state (iperf_new_stream K a s snder t) st = (Returns (r, t'), st')"
  shows "case r of None \<Rightarrow> t' = t | Some sp \<Rightarrow> ident sp = (a, s, snder) \<and> t' = t\<lparr>streams := streams t @ [sp]\<rparr>"
  using assms
  by (auto simp: iperf_new_stream_def Let_def sys_run split: prod.splits option.splits if_splits
      dest!: yieldsD [OF new_fns_ident] yieldsD [OF iperf_init_stream_ident] add_stream_eq)
     (simp_all add: ident_def empty_stream_def)

text \<open>A new stream at the level of the program.\<close>

lemma new_stream_test:
  assumes "new_stream K s snder p = Some (r, p')"
  shows "case r of None \<Rightarrow> test p' = test p
    | Some sp \<Rightarrow> socket sp = s \<and> sender sp = snder \<and> test p' = (test p)\<lparr>streams := streams (test p) @ [sp]\<rparr>"
  using assms by (auto simp: new_stream_def on_outcome_def ident_def split: prod.splits outcome.splits option.splits dest!: iperf_new_stream_ident)

text \<open>Accepting and connecting a stream.\<close>

definition same_settings :: "iperf_test \<Rightarrow> iperf_test \<Rightarrow> bool" where
  "same_settings t t' \<longleftrightarrow> (\<exists>x. t' = t\<lparr>settings := x\<rparr>)"

lemma same_settings_intros [simp]: "same_settings t t" "same_settings t (t\<lparr>settings := x\<rparr>)"
proof -
  have "t = t\<lparr>settings := settings t\<rparr>" by simp
  then show "same_settings t t" unfolding same_settings_def by blast
qed (auto simp: same_settings_def)

lemma udp_size_buffers_settings: "yields (udp_size_buffers K t s) (\<lambda>(r, t'). same_settings t t')"
  unfolding udp_size_buffers_def Let_def by (intro yields_intros) simp_all

lemma udp_connect_settings: "yields (iperf_udp_connect K t) (\<lambda>(r, t'). same_settings t t')"
proof -
  have tail: "yields (do {
       (rc, t) \<leftarrow> udp_size_buffers K t s;
       if rc < 0 then ret (rc, t)
       else do {
         _ \<leftarrow> syscall (k_setsockopt K s SO_RCVTIMEO 30);
         w \<leftarrow> syscall (k_write K s (int_bytes 123456789));
         if w = None then fail_with IESTREAMWRITE (-1, t)
         else do {
           r \<leftarrow> syscall (k_recvfrom K s 4);
           if r = None then fail_with IESTREAMREAD (-1, t) else ret (s, t)
         }
       } }) (\<lambda>(r, t'). same_settings t t')" for s
    by (rule yields_bind_post [OF udp_size_buffers_settings], clarify) (intro yields_intros, simp_all)
  show ?thesis unfolding iperf_udp_connect_def by (rule yields_bind, rule yields_if, rule yields_fail, simp, rule tail)
qed

lemma prot_connect_settings: "yields (prot_connect K t) (\<lambda>(r, t'). same_settings t t')"
  unfolding prot_connect_def by (rule yields_if) (auto intro!: yields_bind yields_ret udp_connect_settings)

text \<open>A UDP server opens the socket for the next stream, and watches it.\<close>

lemma udp_accept_runtime:
  "yields (iperf_udp_accept K t) (\<lambda>(r, t'). fd_step t t' \<and> state t' = state t \<and> streams t' = streams t \<and> ctrl_sck t' = ctrl_sck t \<and>
     listener t' = listener t \<and> mode t' = mode t \<and> num_streams t' = num_streams t \<and> role t' = role t)"
proof -
  define Q where "Q = (\<lambda>(r :: int, t'). fd_step t t' \<and> state t' = state t \<and> streams t' = streams t \<and> ctrl_sck t' = ctrl_sck t \<and>
     listener t' = listener t \<and> mode t' = mode t \<and> num_streams t' = num_streams t \<and> role t' = role t)"
  have tail: "yields (do {
            (rc, t) \<leftarrow> udp_size_buffers K t s;
            if rc < 0 then ret (rc, t)
            else do {
              l \<leftarrow> netannounce K (domain (settings t)) Pudp (bind_address t) (server_port t);
              let t = t\<lparr>prot_listener := l\<rparr>;
              if l < 0 then fail_with IESTREAMLISTEN (-1, t)
              else do {
                let t = t\<lparr>read_set := FD_SET l (read_set t), max_fd := (if max_fd t < l then l else max_fd t)\<rparr>;
                w \<leftarrow> syscall (k_write K s (int_bytes 987654321));
                if w = None then fail_with IESTREAMWRITE (-1, t) else ret (s, t)
              }
            } }) Q" for s
    unfolding Let_def
    by (rule yields_bind_post [OF udp_size_buffers_settings], clarify)
       (intro yields_intros, auto simp: Q_def same_settings_def fd_step_def fds_def FD_SET_def)
  have "yields (iperf_udp_accept K t) Q"
    unfolding iperf_udp_accept_def Let_def
    by (rule yields_bind, rule yields_option, rule yields_fail, simp add: Q_def, rule yields_pair, rule yields_bind, rule yields_if,
        rule yields_fail, simp add: Q_def, rule tail [unfolded Let_def])
  then show ?thesis by (simp add: Q_def)
qed

section \<open>Results\<close>

lemma tame_result_fields [simp]:
  "tame t (t\<lparr>remote_cpu_util := c\<rparr>)" "tame t (t\<lparr>sender_has_retransmits := i\<rparr>)" "tame t (t\<lparr>other_side_has_retransmits := i\<rparr>)"
  "tame t (t\<lparr>json_server_output := j\<rparr>)" "tame t (t\<lparr>server_output_text := x\<rparr>)" "tame t (t\<lparr>remote_congestion_used := x\<rparr>)"
  by (auto simp: tame_def calm_def)

lemma upd_stream_ident:
  "upd_stream i f sps = Some sps' \<Longrightarrow> (\<And>sp. ident (f sp) = ident sp) \<Longrightarrow> map ident sps' = map ident sps"
  by (induction sps arbitrary: sps') (auto split: if_splits)

lemma take_stream_result_ident: "ident (take_stream_result j a b c d e sp) = ident sp"
  by (simp add: take_stream_result_def ident_def)

lemma get_stream_result_tame: "get_stream_result j t = (e, t') \<Longrightarrow> tame t t'"
  by (auto simp: get_stream_result_def split: option.splits intro!: tame_streams dest: upd_stream_ident [OF _ take_stream_result_ident])

lemma get_stream_results_tame: "get_stream_results js e t = (e', t') \<Longrightarrow> tame t t'"
proof (induction js arbitrary: e t)
  case (Cons j js)
  obtain e1 t1 where j: "get_stream_result j t = (e1, t1)" by force
  show ?case using Cons.prems j tame_trans [OF get_stream_result_tame [OF j]] by (auto dest!: Cons.IH)
qed simp

lemma get_cpu_results_tame: "get_cpu_results j t = Some t' \<Longrightarrow> tame t t'"
  by (auto simp: get_cpu_results_def Let_def intro: tame_trans [OF tame_result_fields(1) tame_trans [OF tame_result_fields(2,3)]]
      tame_trans [OF tame_result_fields(1,3)] split: option.splits iperf_mode.splits)

lemma get_output_tame: "get_output j t = Some (j', t') \<Longrightarrow> tame t t'"
  by (auto simp: get_output_def on_string_def split: if_splits option.splits prod.splits)

lemma apply_results_tame:
  assumes "apply_results j t = Some (e, t')" shows "tame t t'"
proof -
  obtain e1 j1 t1 where 1: "(case get_cpu_results j t of
          None \<Rightarrow> Some (Some IERECVRESULTS, j, t)
        | Some t \<Rightarrow>
            (case cJSON_GetObjectItem j ''streams'' of
               None \<Rightarrow> Some (Some IERECVRESULTS, j, t)
             | Some j_streams \<Rightarrow>
                 (let (e, t) = get_stream_results (take (nat (cJSON_GetArraySize j_streams)) (child j_streams)) None t
                  in map_option (\<lambda>(j, t). (e, j, t)) (get_output j t)))) = Some (e1, j1, t1)"
      "on_string j1 ''congestion_used'' (\<lambda>s t. t\<lparr>remote_congestion_used := Some s\<rparr>) t1 = Some t'"
    using assms by (auto simp: apply_results_def bind_eq_Some_conv)
  have "tame t t1"
  proof (cases "get_cpu_results j t")
    case None
    then show ?thesis using 1(1) by simp
  next
    case (Some t0)
    have t0: "tame t t0" by (rule get_cpu_results_tame [OF Some])
    show ?thesis
    proof (cases "cJSON_GetObjectItem j ''streams''")
      case None
      then show ?thesis using 1(1) Some t0 by simp
    next
      case (Some js)
      obtain e2 t2 where g: "get_stream_results (take (nat (cJSON_GetArraySize js)) (child js)) None t0 = (e2, t2)" by force
      have "get_output j t2 = Some (j1, t1)" using 1(1) \<open>get_cpu_results j t = Some t0\<close> Some g by auto
      then show ?thesis using tame_trans [OF t0 tame_trans [OF get_stream_results_tame [OF g]]] get_output_tame by blast
    qed
  qed
  moreover have "tame t1 t'" using 1(2) by (auto simp: on_string_def split: option.splits)
  ultimately show ?thesis by (rule tame_trans)
qed

lemma get_results_tame: "run_state (get_results K t) s = (Returns (r, t'), s') \<Longrightarrow> tame t t'"
  by (auto simp: get_results_def sys_run split: prod.splits if_splits option.splits dest: apply_results_tame)

lemma exchange_results_tame:
  assumes "run_state (iperf_exchange_results K t) s = (Returns (r, t'), s')"
  shows "tame t t'"
  using assms unfolding iperf_exchange_results_def
  by (auto split: prod.splits if_splits outcome.splits dest: get_results_tame)

end
