(* ===== verification/Client_Props.thy ===== *)
theory Client_Props
  imports Watch_Props
begin

text \<open>
  The client: what its loop keeps, the states it goes through, its answers to the messages of the
  server, and how a test ends.
\<close>

section \<open>Descriptors\<close>

text \<open>Steps that keep the state of the protocol and the control connection, and go on watching what was watched.\<close>

definition quiet :: "iperf_test \<Rightarrow> iperf_test \<Rightarrow> bool" where
  "quiet t t' \<longleftrightarrow> fd_step t t' \<and> state t' = state t \<and> ctrl_sck t' = ctrl_sck t \<and> role t' = role t \<and> set (read_set t) \<subseteq> set (read_set t')"

lemma quiet_refl [simp]: "quiet t t"
  by (simp add: quiet_def)

lemma quiet_trans: "quiet t t' \<Longrightarrow> quiet t' t'' \<Longrightarrow> quiet t t''"
  using fd_step_trans by (auto simp: quiet_def)

lemma calm_quiet: "calm t t' \<Longrightarrow> quiet t t'"
  using calm_fd_step by (auto simp: quiet_def calm_def)

lemmas tame_quiet = calm_quiet [OF tame_calm]

lemma quiet_watch [simp]: "quiet t (watch s b t)"
  by (simp add: quiet_def) (auto simp: watch_def Let_def FD_SET_def)

lemma quiet_upd: "quiet t (test p) \<Longrightarrow> (\<And>t. quiet t (f t)) \<Longrightarrow> quiet t (test (upd f p))"
  using quiet_trans by (simp add: prog_run)

lemma and_then_quiet:
  assumes "and_then x f = Some (r, p')" "\<And>r p1. x = Some (r, p1) \<Longrightarrow> quiet t (test p1)"
    "\<And>p1. quiet t (test p1) \<Longrightarrow> f p1 = Some (r, p') \<Longrightarrow> quiet t (test p')"
  shows "quiet t (test p')"
  using assms by (auto simp: and_then_eq_Some split: if_splits)

lemma create_streams_quiet: "create_streams K orig snder is p = Some (r, p') \<Longrightarrow> quiet (test p) (test p')"
proof (induction "is" arbitrary: p)
  case (Cons i "is")
  define p1 where "p1 = upd (\<lambda>t. t\<lparr>bind_port := (if orig \<noteq> 0 then orig + int i else orig)\<rparr>) p"
  obtain s p2 where p2: "on_test (prot_connect K) p1 = (s, p2)" by force
  have f1: "quiet (test p) (test p1)" unfolding p1_def upd_parts by (rule tame_quiet) simp
  have "same_settings (test p1) (test p2)"
    using p2 yieldsD [OF prot_connect_settings] by (auto simp: on_test_def split: prod.splits) blast
  then have f2: "quiet (test p) (test p2)"
    using quiet_trans [OF f1 tame_quiet [OF tame_fields(11)]] by (auto simp: same_settings_def)
  show ?case
  proof (cases "s < 0")
    case True
    then show ?thesis using Cons.prems p2 f2 by (simp add: p1_def)
  next
    case False
    define p3 where "p3 = upd (watch s (snder \<noteq> 0)) p2"
    have f3: "quiet (test p) (test p3)" unfolding p3_def by (rule quiet_upd [OF f2]) simp
    obtain o' p4 where p4: "new_stream K s snder p3 = Some (o', p4)"
        "(case o' of None \<Rightarrow> Some (-1, p4) | Some sp \<Rightarrow> create_streams K orig snder is p4) = Some (r, p')"
      using Cons.prems p2 False by (auto simp: p1_def p3_def bind_eq_Some_conv)
    have "quiet (test p3) (test p4)"
    proof (cases o')
      case None
      then show ?thesis using new_stream_test [OF p4(1)] by simp
    next
      case (Some sp)
      then show ?thesis using new_stream_test [OF p4(1)]
        by (auto simp: quiet_def fd_step_def fds_def p3_def prog_run watch_def Let_def)
    qed
    then have "quiet (test p) (test p4)" by (rule quiet_trans [OF f3])
    then show ?thesis using p4(2) Cons.IH [of p4] quiet_trans by (auto split: option.splits)
  qed
qed simp

lemma iperf_create_streams_quiet: "iperf_create_streams K snder p = Some (r, p') \<Longrightarrow> quiet (test p) (test p')"
  unfolding iperf_create_streams_def by (rule create_streams_quiet)

lemma client_streams_quiet: "client_streams K p = Some (r, p') \<Longrightarrow> quiet (test p) (test p')"
  unfolding client_streams_def
  by (cases "mode (test p)")
     (auto elim!: and_then_quiet dest!: iperf_create_streams_quiet intro: quiet_trans)

lemma test_start_tame: "test_start K p = Some (r, p') \<Longrightarrow> tame (test p) (test p')"
  unfolding test_start_def create_client_timers_def create_client_omit_timer_def
  by (auto elim!: and_then_tame simp: on_test_def split: prod.splits if_splits
      dest!: iperf_init_test_tame create_timers_tame create_omit_timer_tame iperf_create_send_timers_tame intro: tame_trans)

lemma close_streams_test: "test (close_streams K p) = test p"
proof -
  have "test (fold (\<lambda>sp. do_sys (sys_close K (socket sp))) sps p) = test p" for sps
    by (induction sps arbitrary: p) (simp_all add: prog_run)
  then show ?thesis by (simp add: close_streams_def)
qed

lemma client_end_test: "test (snd (iperf_client_end K p)) = (iperf_reporter_callback (test p))\<lparr>state := IPERF_DONE\<rparr>"
proof -
  define q where "q = upd iperf_reporter_callback (close_streams K p)"
  obtain r q' where q': "on_test (iperf_set_send_state K IPERF_DONE) q = (r, q')" by force
  then have "test q' = (test q)\<lparr>state := IPERF_DONE\<rparr>"
    by (auto simp: on_test_def split: prod.splits dest: set_send_state_eq)
  then show ?thesis using q' by (simp add: iperf_client_end_def q_def [symmetric] prog_run Let_def) (simp add: q_def prog_run close_streams_test)
qed

lemma final_report_tame: "tame (test p) (test (final_report K J p))"
proof -
  let ?t = "test (cpu_read K J p)"
  let ?u = "iperf_reporter_callback (?t\<lparr>state := DISPLAY_RESULTS\<rparr>)"
  have "tame (?t\<lparr>state := DISPLAY_RESULTS\<rparr>) ?u" by (rule iperf_reporter_tame)
  then have "tame ?t (?u\<lparr>state := state (test p)\<rparr>)"
    using cpu_read_tame [of p K J] by (auto simp: tame_def calm_def)
  then show ?thesis using tame_trans [OF cpu_read_tame] by (simp add: final_report_def prog_run Let_def)
qed

section \<open>Messages\<close>

text \<open>The messages of the server that let the client go on.\<close>

definition good_messages :: "int set" where
  "good_messages = {PARAM_EXCHANGE, CREATE_STREAMS, TEST_START, TEST_RUNNING, EXCHANGE_RESULTS, DISPLAY_RESULTS, IPERF_DONE}"

lemma read_server_error_test: "fst (read_server_error K p) = -1" "test (snd (read_server_error K p)) = test p"
proof -
  obtain r1 bs1 p1 where 1: "on_sys (Nread K (ctrl_sck (test p)) 4) p = ((r1, bs1), p1)" by (metis prod.collapse)
  define q where "q = set_err (ntohl_int (local_buf K 4 bs1)) p1"
  obtain r2 bs2 p2 where 2: "on_sys (Nread K (ctrl_sck (test q)) 4) q = ((r2, bs2), p2)" by (metis prod.collapse)
  have "test p2 = test p" using on_sys_parts(1) [OF 1] on_sys_parts(1) [OF 2] by (simp add: q_def prog_run)
  then show "fst (read_server_error K p) = -1" "test (snd (read_server_error K p)) = test p"
    using 1 2 on_sys_parts(1) [OF 1] by (simp_all add: read_server_error_def q_def [symmetric] prog_run)
qed

text \<open>The whole of the handler: what it makes of the byte \<open>b\<close>, and that everything else is an error.\<close>

lemma handle_message_client_cases:
  assumes "iperf_handle_message_client K J p = Some (r, p')" "role (test p) = CHR ''c''"
  shows "quiet ((test p)\<lparr>state := state (test p')\<rparr>) (test p') \<and>
    (0 \<le> r \<longrightarrow> (\<exists>st \<in> good_messages. state (test p') = (if st = DISPLAY_RESULTS then IPERF_DONE else st)))"
proof -
  obtain x p1 where x: "on_sys (syscall (k_read K (ctrl_sck (test p)) 1)) p = (x, p1)" by force
  note p1 = on_sys_parts(1) [OF x]
  show ?thesis
  proof (cases "x = None \<or> x = Some []")
    case True
    then show ?thesis using assms(1) x p1 by (auto simp: iperf_handle_message_client_def err_eq prog_run)
  next
    case False
    then obtain b bs where b: "x = Some (b # bs)" by (cases x) (auto simp: neq_Nil_conv)
    define st where "st = sint b"
    define q where "q = upd (\<lambda>t. t\<lparr>state := st\<rparr>) p1"
    have q: "test q = (test p)\<lparr>state := st\<rparr>" by (simp add: q_def prog_run p1)
    have keep: ?thesis if "quiet (test q) (test p')" "0 \<le> r \<Longrightarrow> st \<in> good_messages" "st \<noteq> DISPLAY_RESULTS \<or> r < 0"
      using that q by (auto simp: quiet_def)
    note run = assms(1) [unfolded iperf_handle_message_client_def x b prod.case option.case list.case Let_def, folded st_def, folded q_def]
    show ?thesis
    proof (cases "st = DISPLAY_RESULTS")
      case True
      then have "p' = snd (iperf_client_end K q)" "r = 0" using run by (simp_all add: state_defs)
      then have t: "test p' = (iperf_reporter_callback (test q))\<lparr>state := IPERF_DONE\<rparr>" using client_end_test by simp
      have "tame (test q) (iperf_reporter_callback (test q))" by (rule iperf_reporter_tame)
      then have "tame ((test q)\<lparr>state := IPERF_DONE\<rparr>) (test p')" by (auto simp: t tame_def calm_def)
      then show ?thesis using True tame_quiet q t by (auto simp: good_messages_def)
    next
      case False
      have "quiet (test q) (test p') \<and> (0 \<le> r \<longrightarrow> st \<in> good_messages)"
      proof -
        have "quiet (test q) (test p')" if "and_then (on_outcome (iperf_exchange_parameters K) q) (\<lambda>p. Some (0, p)) = Some (r, p')"
          using that assms(2) by (auto elim!: and_then_quiet simp: on_outcome_def q split: prod.splits outcome.splits
              dest!: exchange_parameters_runtime)
        moreover have "quiet (test q) (test p')" if "and_then (on_outcome (iperf_exchange_results K) q) (\<lambda>p. Some (0, p)) = Some (r, p')"
          using that by (auto elim!: and_then_quiet simp: on_outcome_def split: prod.splits outcome.splits
              dest!: exchange_results_tame intro: tame_quiet)
        ultimately show ?thesis
          using run False read_server_error_test [of K q]
            tame_quiet [OF final_report_tame, of "set_err IESERVERTERM q" K J] tame_quiet [OF test_start_tame, of K q r p']
            client_streams_quiet [of K q r p']
          by (auto simp: good_messages_def err_eq prog_run split: if_splits)
      qed
      then show ?thesis using keep False by blast
    qed
  qed
qed

section \<open>The loop\<close>

lemma send_ready_tame: "send_ready K ws p = (r, p') \<Longrightarrow> tame (test p) (test p')"
  by (auto simp: send_ready_def split: prod.splits dest: iperf_send_tame)

lemma recv_ready_tame: "recv_ready K rs p = (r, p') \<Longrightarrow> tame (test p) (test p')"
  by (auto simp: recv_ready_def split: prod.splits dest: iperf_recv_tame)

lemma client_move_tame: "client_move K rs ws p = Some (r, p') \<Longrightarrow> tame (test p) (test p')"
  unfolding client_move_def
  by (cases "mode (test p)") (auto elim!: and_then_tame dest!: send_ready_tame recv_ready_tame intro: tame_trans)

lemma set_blocking_test: "test (set_blocking K b p) = test p"
proof -
  have "test (fold (\<lambda>sp. do_sys (setnonblocking K (socket sp) b)) sps p) = test p" for sps :: "iperf_stream list"
    by (induction sps arbitrary: p) (simp_all add: prog_run)
  then show ?thesis by (simp add: set_blocking_def)
qed

lemma client_finish_step:
  assumes "client_finish K J p = Some (r, p')"
  shows "quiet ((test p)\<lparr>state := TEST_END\<rparr>) (test p') \<and> role (test p') = role (test p) \<and> test_done (test p') \<noteq> 0"
proof -
  define p1 where "p1 = upd (\<lambda>t. t\<lparr>test_done := 1\<rparr>) (set_blocking K False p)"
  define p2 where "p2 = stats K J (cpu_read K J p1)"
  have "tame (test p) (test p1)" by (simp add: p1_def prog_run set_blocking_test)
  from tame_trans [OF this tame_trans [OF cpu_read_tame stats_tame]] have p2: "tame (test p) (test p2)" by (simp add: p2_def)
  have dn: "test_done (test p2) = 1"
    by (auto simp: p2_def stats_def do_test_def iperf_stats_callback_def cpu_read_def p1_def prog_run Let_def split: prod.splits
        dest!: on_sys_parts(1))
  have "test p' = (test p2)\<lparr>state := TEST_END\<rparr>"
    using assms by (auto simp: client_finish_def Let_def p1_def [symmetric] p2_def [symmetric] on_test_def split: prod.splits dest!: set_send_state_eq)
  then have "tame ((test p)\<lparr>state := TEST_END\<rparr>) (test p') \<and> role (test p') = role (test p) \<and> test_done (test p') \<noteq> 0"
    using p2 dn by (auto simp: tame_def calm_def)
  then show ?thesis using tame_quiet by blast
qed

lemma wait_select_test:
  assumes "wait_select K now p = Some (x, now', p')" shows "test p' = test p"
proof -
  obtain y n p1 where n: "on_sys (sys_time_into K now) p = ((y, n), p1)" by (metis prod.collapse)
  obtain tmo where tmo: "tmr_timeout (Some n) (0, 0, 0) n (tm p1) = Some tmo"
    using assms n by (cases "tmr_timeout (Some n) (0, 0, 0) n (tm p1)") (auto simp: wait_select_def)
  obtain r p2 where r: "on_sys (sys_select K (max_fd (test p1) + 1) (read_set (test p1)) (write_set (test p1)) tmo) p1 = (r, p2)" by (metis prod.collapse)
  show ?thesis using assms n tmo r on_sys_parts(1) [OF n] on_sys_parts(1) [OF r] by (simp add: wait_select_def)
qed

lemma client_running_step:
  assumes "client_running K J startup now rs ws p = Some ((r, now'), p')"
  shows "quiet (test p) (test p') \<or> 0 \<le> r \<and> quiet ((test p)\<lparr>state := TEST_END\<rparr>) (test p') \<or> r < 0"
proof -
  define p0 where "p0 = (if startup then set_blocking K True p else p)"
  have t0: "test p0 = test p" by (simp add: p0_def set_blocking_test)
  obtain r1 p1 where p1: "client_move K rs ws p0 = Some (r1, p1)"
    using assms by (cases "client_move K rs ws p0") (auto simp: client_running_def p0_def)
  have q1: "quiet (test p) (test p1)" using tame_quiet [OF client_move_tame [OF p1]] t0 by simp
  show ?thesis
  proof (cases "r1 < 0")
    case True
    then show ?thesis using assms p1 q1 by (simp add: client_running_def p0_def)
  next
    case False
    obtain y now1 p2 where n: "on_sys (sys_time_into K now) p1 = ((y, now1), p2)" by (metis prod.collapse)
    obtain p3 r2 where p3: "run_timers K J now1 p2 = Some p3"
        "(if client_finished (test p3) then client_finish K J p3 else Some (0, p3)) = Some (r2, p')" "r = r2"
      using assms p1 False n by (auto simp: client_running_def p0_def [symmetric] bind_eq_Some_conv)
    have q3: "quiet (test p) (test p3)"
      using quiet_trans [OF q1] calm_quiet [OF run_timers_calm [OF p3(1)]] on_sys_parts(1) [OF n] by simp
    show ?thesis
    proof (cases "client_finished (test p3)")
      case False
      then show ?thesis using p3 q3 by auto
    next
      case True
      have "quiet ((test p3)\<lparr>state := TEST_END\<rparr>) (test p')" using p3(2) True client_finish_step [of K J p3 r2 p'] by auto
      moreover have "quiet ((test p)\<lparr>state := TEST_END\<rparr>) ((test p3)\<lparr>state := TEST_END\<rparr>)"
        using q3 by (auto simp: quiet_def fd_step_def fds_def)
      ultimately have q: "quiet ((test p)\<lparr>state := TEST_END\<rparr>) (test p')" using quiet_trans by blast
      then show ?thesis by linarith
    qed
  qed
qed

text \<open>
  The states of the client, as one pass may change them: a message of the server may set any of
  the good ones, the last one ends the loop, and the end of the test takes \<open>TEST_RUNNING\<close>, which
  may just have been set, to \<open>TEST_END\<close>.
\<close>

inductive client_pass :: "int \<Rightarrow> int \<Rightarrow> bool" where
  stays: "client_pass st st"
| told: "m \<in> good_messages \<Longrightarrow> client_pass st (if m = DISPLAY_RESULTS then IPERF_DONE else m)"
| finishes: "client_pass st TEST_RUNNING \<Longrightarrow> client_pass st TEST_END"

lemma quiet_state: "quiet (t\<lparr>state := st\<rparr>) t' \<Longrightarrow> quiet (t\<lparr>state := state t'\<rparr>) t'"
  by (simp add: quiet_def)

lemma fd_step_state [simp]: "fd_step (t\<lparr>state := st\<rparr>) t' = fd_step t t'" "fd_step t (t'\<lparr>state := st\<rparr>) = fd_step t t'"
  by (simp_all add: fd_step_def fds_def)

lemma quiet_chain: "quiet (t\<lparr>state := st\<rparr>) t' \<Longrightarrow> quiet (t'\<lparr>state := st'\<rparr>) t'' \<Longrightarrow> quiet (t\<lparr>state := st'\<rparr>) t''"
  using fd_step_trans by (auto simp: quiet_def)

lemma client_iter_step:
  assumes "client_iter K J l p = Some (Inr l', p')" "role (test p) = CHR ''c''"
  shows "quiet ((test p)\<lparr>state := state (test p')\<rparr>) (test p') \<and> client_pass (state (test p)) (state (test p'))"
proof -
  obtain startup now where l: "l = (startup, now)" by force
  obtain result rs ws tmo now1 p1 where w: "wait_select K now p = Some ((result, rs, ws, tmo), now1, p1)"
    using assms(1) l by (cases "wait_select K now p") (auto simp: client_iter_def)
  note t1 = wait_select_test [OF w]
  have noerr: "\<not> (result < 0 \<and> errno (psys p1) \<noteq> EINTR)" using assms(1) l w by (cases "result < 0 \<and> errno (psys p1) \<noteq> EINTR") (auto simp: client_iter_def)
  define M where "M = (if 0 < result \<and> FD_ISSET (ctrl_sck (test p1)) rs then do {
         (r, p) \<leftarrow> iperf_handle_message_client K J p1;
         Some (r, FD_CLR (ctrl_sck (test p)) rs, p)
       } else Some (0, rs, p1))"
  have run: "do { (r, rs, p) \<leftarrow> M;
     if r < 0 then Some (Inl (-1 :: int), p)
     else if state (test p) = TEST_RUNNING then do {
       ((r, now), p) \<leftarrow> client_running K J startup now1 rs ws p;
       Some (if r < 0 then Inl (-1) else Inr (False, now), p)
     }
     else if mode (test p) = RECEIVER \<and> state (test p) = TEST_END then
       (case recv_ready K rs p of (r, p) \<Rightarrow> Some (if r < 0 then Inl (-1) else Inr (startup, now1), p))
     else Some (Inr (startup, now1), p) } = Some (Inr l', p')"
    using assms(1) unfolding client_iter_def l M_def by (simp only: prod.case w Option.bind_lunit if_not_P [OF noerr])
  obtain r rs2 p2 where M: "M = Some (r, rs2, p2)" using run by (cases M) auto
  have ok: "\<not> r < 0" using run M by auto
  have *: "iperf_handle_message_client K J p1 = Some (r, p2) \<or> p2 = p1"
    using M by (auto simp: M_def bind_eq_Some_conv split: if_splits)
  have p2: "quiet ((test p)\<lparr>state := state (test p2)\<rparr>) (test p2)"
    using * handle_message_client_cases [of K J p1 r p2] assms(2) t1 by auto
  have pass: "client_pass (state (test p)) (state (test p2))"
    using * handle_message_client_cases [of K J p1 r p2] assms(2) t1 ok client_pass.told [of _ "state (test p)"]
      client_pass.stays by (metis (mono_tags) not_le)
  have same: ?thesis if "quiet (test p2) (test p')"
    using quiet_trans [OF p2 that] that pass by (auto simp: quiet_def)
  show ?thesis
  proof (cases "state (test p2) = TEST_RUNNING")
    case True
    then obtain r3 now3 where c: "client_running K J startup now1 rs2 ws p2 = Some ((r3, now3), p')" "0 \<le> r3"
      using run M ok by (cases "client_running K J startup now1 rs2 ws p2") (auto split: if_splits)
    from client_running_step [OF c(1)] c(2) consider
        "quiet (test p2) (test p')" | "quiet ((test p2)\<lparr>state := TEST_END\<rparr>) (test p')"
      by linarith
    then show ?thesis
    proof cases
      case 1
      then show ?thesis by (rule same)
    next
      case 2
      have "client_pass (state (test p)) TEST_END" using pass True client_pass.finishes by auto
      then show ?thesis using quiet_state [OF quiet_chain [OF p2 2]] 2 by (auto simp: quiet_def)
    qed
  next
    case False
    then have "quiet (test p2) (test p')"
      using run M ok by (auto split: if_splits prod.splits dest!: recv_ready_tame intro: tame_quiet)
    then show ?thesis by (rule same)
  qed
qed

text \<open>The states the client's loop can be in, after connecting in \<open>p0\<close>.\<close>

inductive client_reaches :: "'w kernel \<Rightarrow> junk \<Rightarrow> 'w prog \<Rightarrow> bool \<times> iperf_time \<Rightarrow> 'w prog \<Rightarrow> bool"
  for K :: "'w kernel" and J :: junk and p0 :: "'w prog" where
  connected: "iperf_connect K p0 = Some (0, p) \<Longrightarrow> client_reaches K J p0 (True, k_uninit K) (cpu_start K p)"
| passes: "client_reaches K J p0 l p \<Longrightarrow> state (test p) \<noteq> IPERF_DONE \<Longrightarrow> client_iter K J l p = Some (Inr l', p') \<Longrightarrow>
    client_reaches K J p0 l' p'"

lemma control_mss_tame: "fd_step (test p) (test (control_mss K p)) \<and> ctrl_sck (test (control_mss K p)) = ctrl_sck (test p) \<and>
    role (test (control_mss K p)) = role (test p) \<and> read_set (test (control_mss K p)) = read_set (test p)"
  by (auto simp: control_mss_def prog_run split: prod.splits option.splits dest!: on_sys_parts(1))

lemma default_udp_blksize_tame: "tame t (default_udp_blksize t)"
  by (simp add: default_udp_blksize_def)

lemma iperf_connect_ok:
  assumes "iperf_connect K p = Some (0, p')" "streams (test p) = []"
  shows "fd_ok (test p') \<and> role (test p') = role (test p) \<and> ctrl_sck (test p') \<in> set (read_set (test p'))"
proof -
  define p1 where "p1 = upd (\<lambda>t. t\<lparr>read_set := [], write_set := []\<rparr>) p"
  obtain c p2 where c: "on_sys (make_cookie K) p1 = (c, p2)" by force
  obtain c' where c': "c = Some c'" using assms(1) c by (cases c) (auto simp: iperf_connect_def p1_def)
  define p3 where "p3 = upd (\<lambda>t. t\<lparr>cookie := c'\<rparr>) p2"
  define p4 where "p4 = (if ctrl_sck (test p3) < 0 then
         (case on_sys (netdial K (domain (settings (test p3))) Ptcp (bind_address (test p3)) 0 (server_hostname (test p3))
             (server_port (test p3)) SERVER_CONNECTION_TIMEOUT) p3 of
            (s, p) \<Rightarrow> upd (\<lambda>t. t\<lparr>ctrl_sck := s\<rparr>) p)
       else p3)"
  have p3: "test p3 = (test p)\<lparr>read_set := [], write_set := [], cookie := c'\<rparr>"
    using on_sys_parts(1) [OF c] by (simp add: p3_def p1_def prog_run)
  have p4: "fds (test p4) = {}" "role (test p4) = role (test p)"
    using p3 assms(2) by (auto simp: p4_def fds_def prog_run split: prod.splits dest!: on_sys_parts(1))
  obtain r p5 where r: "on_sys (Nwrite K (ctrl_sck (test p4)) (cookie_wire (cookie (test p4)))) p4 = (r, p5)" by force
  define p6 where "p6 = control_mss K (upd (watch (ctrl_sck (test p5)) False) p5)"
  have "(if ctrl_sck (test p4) < 0 then err IECONNECT p4 else if r < 0 then err IESENDCOOKIE p5
      else Some (0, upd default_udp_blksize p6)) = Some (0, p')"
    using assms(1) unfolding iperf_connect_def Option.bind_lunit Let_def p1_def [symmetric] c prod.case c'
      p3_def [symmetric] p4_def [symmetric] r p6_def [symmetric] .
  then have p': "p' = upd default_udp_blksize p6" by (auto simp: err_eq split: if_splits)
  have t5: "test p5 = test p4" by (rule on_sys_parts(1) [OF r])
  have w: "fd_ok (watch (ctrl_sck (test p5)) False (test p5))" "ctrl_sck (test p5) \<in> set (read_set (watch (ctrl_sck (test p5)) False (test p5)))"
      "role (watch (ctrl_sck (test p5)) False (test p5)) = role (test p)" "ctrl_sck (watch (ctrl_sck (test p5)) False (test p5)) = ctrl_sck (test p5)"
    using p4 t5 by (auto simp: fd_ok_def fds_def watch_def Let_def FD_SET_def)
  note m = control_mss_tame [of "upd (watch (ctrl_sck (test p5)) False) p5" K, folded p6_def, unfolded upd_parts]
  have t6: "fd_ok (test p6)" "ctrl_sck (test p6) \<in> set (read_set (test p6))" "role (test p6) = role (test p)"
    using m w fd_step_ok by auto
  have d: "tame (test p6) (test p')" by (simp add: p' prog_run default_udp_blksize_tame)
  show ?thesis using t6 d fd_step_ok [OF tame_fd_step [OF d]] by (auto simp: tame_def calm_def)
qed

section \<open>Properties\<close>

text \<open>A kernel that takes whatever is written at once.\<close>

definition eager_kernel :: "u8 list kernel" where
  "eager_kernel = sample_kernel\<lparr>k_write := (\<lambda>fd bs w. (Ok (length bs), w))\<rparr>"

text \<open>A client whose control connection is descriptor 5, with the bytes \<open>w\<close> waiting on it.\<close>

definition sample_caller :: "u8 list \<Rightarrow> u8 list prog" where
  "sample_caller w = \<lparr>psys = sample_sys w, test = sample_client\<lparr>read_set := [5], max_fd := 5\<rparr>,
     tm = \<lparr>theap = (\<lambda>_. None), timers = None, free_timers = None\<rparr>, cpu_last = (\<lparr>secs = 0, usecs = 0\<rparr>, 0, 0, 0), heap_top = 10\<rparr>"

lemma client_reaches_ok:
  assumes "client_reaches K J p0 l p" "role (test p0) = CHR ''c''" "streams (test p0) = []"
  shows "fd_ok (test p) \<and> role (test p) = CHR ''c'' \<and> ctrl_sck (test p) \<in> set (read_set (test p))"
  using assms
proof (induction rule: client_reaches.induct)
  case (connected p)
  then show ?case using iperf_connect_ok [of K p0 p] by (simp add: cpu_start_test)
next
  case (passes l p l' p')
  then have "quiet ((test p)\<lparr>state := state (test p')\<rparr>) (test p')" using client_iter_step by blast
  then show ?case using passes fd_step_ok by (auto simp: quiet_def)
qed

text \<open>
  (C21) The client watches every descriptor it has to: from the moment it is connected and in every
  pass of its loop, the control connection is in the set of descriptors to read from, and no
  descriptor in either set and no socket of a stream is larger than \<open>max_fd\<close>, on which the call of
  \<open>select\<close> depends.
\<close>

theorem client_watches_all:
  assumes "client_reaches K J p0 l p" "role (test p0) = CHR ''c''" "streams (test p0) = []"
  shows "ctrl_sck (test p) \<in> set (read_set (test p)) \<and>
    (\<forall>fd \<in> set (read_set (test p)) \<union> set (write_set (test p)) \<union> socket ` set (streams (test p)). fd \<le> max_fd (test p))"
  using client_reaches_ok [OF assms] by (auto simp: fd_ok_def fds_def)

theorem client_watches_all_witness:
  "\<exists>p. iperf_connect eager_kernel (sample_caller []) = Some (0, p) \<and>
     client_reaches eager_kernel sample_junk (sample_caller []) (True, k_uninit eager_kernel) (cpu_start eager_kernel p) \<and>
     5 \<in> set (read_set (test (cpu_start eager_kernel p))) \<and> 5 \<le> max_fd (test (cpu_start eager_kernel p))"
proof -
  have "map_option (\<lambda>(r, p). (r, ctrl_sck (test p))) (iperf_connect eager_kernel (sample_caller [])) = Some (0, 5)" by code_simp
  then obtain p where p: "iperf_connect eager_kernel (sample_caller []) = Some (0, p)" "ctrl_sck (test p) = 5" by auto
  have h: "role (test (sample_caller [])) = CHR ''c''" "streams (test (sample_caller [])) = []" by code_simp+
  have r: "client_reaches eager_kernel sample_junk (sample_caller []) (True, k_uninit eager_kernel) (cpu_start eager_kernel p)"
    by (rule client_reaches.connected [OF p(1)])
  from client_watches_all [OF r h] p r show ?thesis by (auto simp: cpu_start_test)
qed


lemma going_on: "map_option (\<lambda>(x, p). (isl x, f p)) X = Some (False, v) \<Longrightarrow> \<exists>l p. X = Some (Inr l, p) \<and> f p = v"
  by (cases X) (auto simp: isl_def split: prod.splits, metis sumE)


text \<open>
  What the client does with a control connection that is closed, fails, or says something
  that is no message: it stores \<open>IECTRLCLOSE\<close>, \<open>IERECVMESSAGE\<close> or \<open>IEMESSAGE\<close>, returns \<open>-1\<close>, and apart
  from the byte, which is the state then, changes nothing.
\<close>

theorem client_rejects:
  "case k_read K (ctrl_sck (test p)) 1 (world (psys p)) of
     (Fail e, w) \<Rightarrow> iperf_handle_message_client K J p = Some (-1, p\<lparr>psys := (psys p)\<lparr>world := w, errno := e, i_errno := IERECVMESSAGE\<rparr>\<rparr>)
   | (Ok [], w) \<Rightarrow> iperf_handle_message_client K J p = Some (-1, p\<lparr>psys := (psys p)\<lparr>world := w, i_errno := IECTRLCLOSE\<rparr>\<rparr>)
   | (Ok (b # bs), w) \<Rightarrow> sint b \<notin> good_messages \<union> {SERVER_TERMINATE, ACCESS_DENIED, SERVER_ERROR} \<longrightarrow>
       iperf_handle_message_client K J p =
         Some (-1, p\<lparr>psys := (psys p)\<lparr>world := w, i_errno := IEMESSAGE\<rparr>, test := (test p)\<lparr>state := sint b\<rparr>\<rparr>)"
  by (auto simp: iperf_handle_message_client_def on_sys_def syscall_def err_def set_err_def do_sys_eq sys_run upd_def good_messages_def
      split: prod.splits sysret.splits list.splits)

theorem client_rejects_witness:
  "iperf_handle_message_client eager_kernel sample_junk (sample_caller [99]) =
     Some (-1, (sample_caller [99])\<lparr>psys := (psys (sample_caller [99]))\<lparr>world := [], i_errno := IEMESSAGE\<rparr>,
       test := (test (sample_caller [99]))\<lparr>state := 99\<rparr>\<rparr>)"
proof -
  have "k_read eager_kernel (ctrl_sck (test (sample_caller [99]))) 1 (world (psys (sample_caller [99]))) = (Ok [99], [])"
    by (simp add: eager_kernel_def sample_kernel_def sample_caller_def sample_sys_def)
  with client_rejects [where K = eager_kernel and p = "sample_caller [99]" and J = sample_junk] show ?thesis
    by (simp add: good_messages_def state_defs)
qed

text \<open>The two numbers behind \<open>SERVER_ERROR\<close>.\<close>

lemma net_int_length [simp]: "length (net_int i) = 4"
  by (simp add: net_int_def)

lemma ntohl_net_int:
  assumes "-(2 ^ 31) \<le> i" "i < 2 ^ 31"
  shows "ntohl_int (net_int i) = i"
proof -
  have "word_of_int (int (be_val (net_int i))) = (word_of_int i :: u32)"
    using be_word32 [of "word_of_int i"] by (simp add: net_int_def)
  then show ?thesis using assms by (simp add: ntohl_int_def signed_take_bit_int_eq_self sint_sbintrunc' del: of_int_of_nat_eq)
qed

lemma send_server_error_all:
  assumes "takes_all K (ctrl_sck t)"
  shows "\<exists>w cs. run_state (send_server_error K t) st =
      ((-1, t\<lparr>state := SERVER_ERROR\<rparr>), st\<lparr>world := w, elog := elog st @ map (Wrote (ctrl_sck t)) cs\<rparr>) \<and>
    concat cs = state_byte SERVER_ERROR # net_int (i_errno st) @ net_int (errno st)"
proof -
  let ?fd = "ctrl_sck t"
  obtain c1 w1 where c1: "run_state (Nwrite K ?fd [state_byte SERVER_ERROR]) st = (1, st\<lparr>world := w1, elog := elog st @ map (Wrote ?fd) c1\<rparr>)"
      "concat c1 = [state_byte SERVER_ERROR]" using Nwrite_all [OF assms, of "[state_byte SERVER_ERROR]" st] by auto
  let ?s1 = "st\<lparr>world := w1, elog := elog st @ map (Wrote ?fd) c1\<rparr>"
  obtain c2 w2 where c2: "run_state (Nwrite K ?fd (net_int (i_errno st))) ?s1 = (4, ?s1\<lparr>world := w2, elog := elog ?s1 @ map (Wrote ?fd) c2\<rparr>)"
      "concat c2 = net_int (i_errno st)" using Nwrite_all [OF assms, of "net_int (i_errno st)" ?s1] by auto
  let ?s2 = "?s1\<lparr>world := w2, elog := elog ?s1 @ map (Wrote ?fd) c2\<rparr>"
  obtain c3 w3 where c3: "run_state (Nwrite K ?fd (net_int (errno st))) ?s2 = (4, ?s2\<lparr>world := w3, elog := elog ?s2 @ map (Wrote ?fd) c3\<rparr>)"
      "concat c3 = net_int (errno st)" using Nwrite_all [OF assms, of "net_int (errno st)" ?s2] by auto
  have "run_state (iperf_set_send_state K SERVER_ERROR t) st = ((0, t\<lparr>state := SERVER_ERROR\<rparr>), ?s1)"
    using c1(1) by (simp add: iperf_set_send_state_def Let_def)
  then have "run_state (send_server_error K t) st = ((-1, t\<lparr>state := SERVER_ERROR\<rparr>), ?s2\<lparr>world := w3, elog := elog ?s2 @ map (Wrote ?fd) c3\<rparr>)"
    using c2(1) c3(1) by (simp add: send_server_error_def)
  then show ?thesis using c1(2) c2(2) c3(2) by (intro exI [of _ w3] exI [of _ "c1 @ c2 @ c3"]) simp
qed

lemma read_server_error_all:
  assumes K: "in_order K fd inp" and p: "ctrl_sck (test p) = fd" "inp (world (psys p)) = net_int e @ net_int n @ rest"
    and range: "-(2 ^ 31) \<le> e" "e < 2 ^ 31" "-(2 ^ 31) \<le> n" "n < 2 ^ 31"
  shows "\<exists>w. read_server_error K p = (-1, p\<lparr>psys := (psys p)\<lparr>world := w, i_errno := e, errno := n\<rparr>\<rparr>) \<and> inp w = rest"
proof -
  obtain w1 where w1: "run_state (Nread K fd 4) (psys p) = ((4, net_int e), (psys p)\<lparr>world := w1\<rparr>)" "inp w1 = net_int n @ rest"
    using Nread_stream [OF K, of 4 "psys p"] p by auto
  obtain w2 where w2: "run_state (Nread K fd 4) ((psys p)\<lparr>world := w1, i_errno := e\<rparr>) = ((4, net_int n), (psys p)\<lparr>i_errno := e, world := w2\<rparr>)" "inp w2 = rest"
    using Nread_stream [OF K, of 4 "(psys p)\<lparr>world := w1, i_errno := e\<rparr>"] w1(2) by auto
  show ?thesis using w1(1) w2 p(1) ntohl_net_int [OF range(1,2)] ntohl_net_int [OF range(3,4)]
    by (intro exI [of _ w2]) (simp add: read_server_error_def on_sys_def set_err_def do_sys_eq sys_run)
qed

text \<open>
  (C10) The error of the server reaches the client. When the server cannot open the socket for the
  streams, it sends \<open>SERVER_ERROR\<close> and its two error numbers; on connections that keep the order of
  the bytes, the client's handler returns \<open>-1\<close> with exactly these numbers in \<open>i_errno\<close> and \<open>errno\<close>, and
  has consumed nothing else.
\<close>

theorem server_error_arrives:
  assumes "takes_all K (ctrl_sck t)" "in_order K' (ctrl_sck (test p)) inp"
    and "-(2 ^ 31) \<le> i_errno st" "i_errno st < 2 ^ 31" "-(2 ^ 31) \<le> errno st" "errno st < 2 ^ 31"
  shows "\<exists>w es. run_state (send_server_error K t) st = ((-1, t\<lparr>state := SERVER_ERROR\<rparr>), st\<lparr>world := w, elog := elog st @ es\<rparr>) \<and>
    (\<forall>rest. inp (world (psys p)) = wrote_on (ctrl_sck t) es @ rest \<longrightarrow>
      (\<exists>w'. iperf_handle_message_client K' J p = Some (-1, p\<lparr>test := (test p)\<lparr>state := SERVER_ERROR\<rparr>,
          psys := (psys p)\<lparr>world := w', i_errno := i_errno st, errno := errno st\<rparr>\<rparr>) \<and> inp w' = rest))"
proof -
  obtain w cs where cs: "run_state (send_server_error K t) st =
      ((-1, t\<lparr>state := SERVER_ERROR\<rparr>), st\<lparr>world := w, elog := elog st @ map (Wrote (ctrl_sck t)) cs\<rparr>)"
    "concat cs = state_byte SERVER_ERROR # net_int (i_errno st) @ net_int (errno st)"
    using send_server_error_all [OF assms(1)] by blast
  have "\<exists>w'. iperf_handle_message_client K' J p = Some (-1, p\<lparr>test := (test p)\<lparr>state := SERVER_ERROR\<rparr>,
          psys := (psys p)\<lparr>world := w', i_errno := i_errno st, errno := errno st\<rparr>\<rparr>) \<and> inp w' = rest"
    if inp: "inp (world (psys p)) = concat cs @ rest" for rest
  proof -
    obtain w1 where w1: "k_read K' (ctrl_sck (test p)) 1 (world (psys p)) = (Ok [state_byte SERVER_ERROR], w1)"
        "inp w1 = net_int (i_errno st) @ net_int (errno st) @ rest"
    proof -
      obtain k w1 where "0 < k" "k \<le> 1" "k_read K' (ctrl_sck (test p)) 1 (world (psys p)) = (Ok (take k (inp (world (psys p)))), w1)"
          "inp w1 = drop k (inp (world (psys p)))"
        using assms(2) inp cs(2) unfolding in_order_def by (metis append_Cons less_numeral_extra(1) list.distinct(1))
      moreover have "k = 1" using calculation(1,2) by simp
      ultimately show ?thesis using that inp cs(2) by simp
    qed
    define q where "q = p\<lparr>psys := (psys p)\<lparr>world := w1\<rparr>, test := (test p)\<lparr>state := SERVER_ERROR\<rparr>\<rparr>"
    have "sint (state_byte SERVER_ERROR) = SERVER_ERROR" by (simp add: state_byte_def state_defs)
    then have "iperf_handle_message_client K' J p = Some (read_server_error K' q)"
      using w1(1) by (simp add: iperf_handle_message_client_def on_sys_def syscall_def upd_def q_def) (simp add: state_defs)
    moreover obtain w2 where "read_server_error K' q = (-1, q\<lparr>psys := (psys q)\<lparr>world := w2, i_errno := i_errno st, errno := errno st\<rparr>\<rparr>)" "inp w2 = rest"
      using read_server_error_all [OF assms(2), of q "i_errno st" "errno st" rest] w1(2) assms(3-6) by (auto simp: q_def)
    ultimately show ?thesis by (intro exI [of _ w2]) (simp add: q_def)
  qed
  then show ?thesis using cs by (intro exI [of _ w] exI [of _ "map (Wrote (ctrl_sck t)) cs"]) simp
qed

theorem server_error_arrives_witness:
  "\<exists>w es. run_state (send_server_error sample_kernel sample_server) ((sample_sys [])\<lparr>i_errno := IESTREAMLISTEN, errno := 98\<rparr>) =
      ((-1, sample_server\<lparr>state := SERVER_ERROR\<rparr>), (sample_sys [])\<lparr>i_errno := IESTREAMLISTEN, errno := 98, world := w, elog := es\<rparr>) \<and>
    (\<exists>p'. iperf_handle_message_client sample_kernel sample_junk (sample_caller (wrote_on 6 es)) = Some (-1, p') \<and>
      i_errno (psys p') = IESTREAMLISTEN \<and> errno (psys p') = 98)"
proof -
  let ?st = "(sample_sys [])\<lparr>i_errno := IESTREAMLISTEN, errno := 98\<rparr>"
  have fd: "ctrl_sck sample_server = 6" "\<And>w. ctrl_sck (test (sample_caller w)) = 5"
    by (simp_all add: sample_caller_def sample_client_def sample_server_def)
  have rg: "-(2 ^ 31) \<le> i_errno ?st" "i_errno ?st < 2 ^ 31" "-(2 ^ 31) \<le> errno ?st" "errno ?st < 2 ^ 31"
    by (simp_all add: IESTREAMLISTEN_def)
  obtain w cs where cs: "run_state (send_server_error sample_kernel sample_server) ?st =
      ((-1, sample_server\<lparr>state := SERVER_ERROR\<rparr>), ?st\<lparr>world := w, elog := elog ?st @ map (Wrote (ctrl_sck sample_server)) cs\<rparr>)"
    using send_server_error_all [OF sample_takes_all] by blast
  have inp: "world (psys (sample_caller (concat cs))) = concat cs @ []" by (simp add: sample_caller_def sample_sys_def)
  from server_error_arrives [OF sample_takes_all sample_in_order rg, of sample_server "sample_caller (concat cs)" sample_junk]
  obtain w2 es2 where es2: "run_state (send_server_error sample_kernel sample_server) ?st = ((-1, sample_server\<lparr>state := SERVER_ERROR\<rparr>), ?st\<lparr>world := w2, elog := elog ?st @ es2\<rparr>)"
    "\<forall>rest. world (psys (sample_caller (concat cs))) = wrote_on (ctrl_sck sample_server) es2 @ rest \<longrightarrow>
      (\<exists>w'. iperf_handle_message_client sample_kernel sample_junk (sample_caller (concat cs)) =
         Some (-1, (sample_caller (concat cs))\<lparr>test := (test (sample_caller (concat cs)))\<lparr>state := SERVER_ERROR\<rparr>,
          psys := (psys (sample_caller (concat cs)))\<lparr>world := w', i_errno := i_errno ?st, errno := errno ?st\<rparr>\<rparr>) \<and> w' = rest)"
    by (elim exE conjE) (rule that)
  have es: "es2 = map (Wrote 6) cs" using es2(1) cs by (simp add: fd sample_sys_def)
  have "world (psys (sample_caller (concat cs))) = wrote_on (ctrl_sck sample_server) es2 @ []" using inp by (simp add: es fd)
  from es2(2) [rule_format, OF this] obtain p' where "iperf_handle_message_client sample_kernel sample_junk (sample_caller (concat cs)) = Some (-1, p')"
      "i_errno (psys p') = IESTREAMLISTEN" "errno (psys p') = 98" by auto
  moreover have "wrote_on 6 es2 = concat cs" by (simp add: es)
  ultimately show ?thesis using es2(1) by (intro exI [of _ w2] exI [of _ es2]) (simp add: sample_sys_def)
qed

end
