(* ===== verification/Server_Props.thy ===== *)
theory Server_Props
  imports Client_Props
begin

text \<open>
  The server: the streams it waits for, the states it goes through and the descriptors it watches.
\<close>

section \<open>Waiting for streams\<close>

text \<open>The locals count the streams of each direction.\<close>

definition receivers :: "iperf_test \<Rightarrow> int" where "receivers t = int (length (filter (\<lambda>sp. sender sp = 0) (streams t)))"
definition senders :: "iperf_test \<Rightarrow> int" where "senders t = int (length (filter (\<lambda>sp. sender sp \<noteq> 0) (streams t)))"

definition counted :: "server_locals \<Rightarrow> iperf_test \<Rightarrow> bool" where
  "counted l t \<longleftrightarrow> rec_streams_accepted l = receivers t \<and> send_streams_accepted l = senders t"

lemma filter_map_senders:
  "map sender sps = map sender sps' \<Longrightarrow> length (filter (\<lambda>sp. P (sender sp)) sps) = length (filter (\<lambda>sp. P (sender sp)) sps')"
proof (induction sps arbitrary: sps')
  case (Cons sp sps)
  then show ?case by (cases sps') auto
qed simp

lemma counts_ident:
  assumes "map ident (streams t') = map ident (streams t)"
  shows "receivers t' = receivers t" "senders t' = senders t"
  using filter_map_senders [OF ident_sender [OF assms], of "\<lambda>x. x = 0"] filter_map_senders [OF ident_sender [OF assms], of "\<lambda>x. x \<noteq> 0"]
  by (simp_all add: receivers_def senders_def)

lemma tame_ident: "tame t t' \<Longrightarrow> map ident (streams t') = map ident (streams t)"
  by (simp add: tame_def)

lemma prot_accept_runtime:
  "yields (prot_accept K t) (\<lambda>(r, t'). fd_step t t' \<and> state t' = state t \<and> streams t' = streams t \<and> ctrl_sck t' = ctrl_sck t \<and>
     listener t' = listener t \<and> mode t' = mode t \<and> num_streams t' = num_streams t \<and> role t' = role t)"
  unfolding prot_accept_def by (rule yields_if) (auto intro!: yields_bind yields_ret udp_accept_runtime)

lemma is_closed_test: "is_closed K fd p = (b, p') \<Longrightarrow> test p' = test p"
  by (auto simp: is_closed_def split: prod.splits dest!: on_sys_parts(1))

text \<open>What an accepted connection does to the test and to the locals.\<close>

lemma accept_stream_step:
  assumes "accept_stream K l p = Some ((r, l'), p')"
  shows "fd_step (test p) (test p') \<and> state (test p') = state (test p) \<and> ctrl_sck (test p') = ctrl_sck (test p) \<and>
    role (test p') = role (test p) \<and>
    (l' = l \<and> streams (test p') = streams (test p) \<or> flag l' = flag (next_direction l) \<and> r < 0 \<or>
     (\<exists>sp. l' = (next_direction l)\<lparr>flag := -1\<rparr> \<and> sender sp = flag (next_direction l) \<and> streams (test p') = streams (test p) @ [sp]) \<or>
     flag (next_direction l) = -1)"
proof -
  obtain s p1 where s: "on_test (prot_accept K) p = (s, p1)" by force
  have 1: "fd_step (test p) (test p1)" "state (test p1) = state (test p)" "streams (test p1) = streams (test p)"
      "ctrl_sck (test p1) = ctrl_sck (test p)" "role (test p1) = role (test p)"
    using s by (auto simp: on_test_def split: prod.splits dest!: yieldsD [OF prot_accept_runtime])
  show ?thesis
  proof (cases "s < 0")
    case True
    then show ?thesis using assms s 1 by (simp add: accept_stream_def)
  next
    case False
    obtain gone p2 where g: "is_closed K s p1 = (gone, p2)" by force
    note t2 = is_closed_test [OF g]
    show ?thesis
    proof (cases "gone \<or> flag (next_direction l) = -1")
      case True
      then show ?thesis using assms s False g 1 t2 by (cases gone) (auto simp: accept_stream_def Let_def)
    next
      case usable: False
      define l1 where "l1 = next_direction l"
      obtain sp p3 where n: "new_stream K s (flag l1) p2 = Some (sp, p3)"
        using assms s False g usable by (cases "new_stream K s (flag l1) p2") (auto simp: accept_stream_def Let_def l1_def)
      have run: "(case sp of None \<Rightarrow> Some ((-1, l1), p3)
          | Some sp \<Rightarrow> do { p \<leftarrow> Some (upd (watch s (sender sp \<noteq> 0)) p3);
                       p \<leftarrow> Some (if prot_id (protocol (test p)) \<noteq> Pudp \<or> sender sp = 0
                                then do_sys (setnonblocking K s True) p else p);
                       Some ((0, l1\<lparr>flag := -1\<rparr>), p) }) = Some ((r, l'), p')"
        using assms s False g usable n unfolding l1_def by (simp add: accept_stream_def Let_def)
      show ?thesis
      proof (cases sp)
        case None
        then show ?thesis using run new_stream_test [OF n] 1 t2 by (auto simp: l1_def)
      next
        case (Some sp1)
        have t3: "socket sp1 = s" "sender sp1 = flag l1" "test p3 = (test p2)\<lparr>streams := streams (test p2) @ [sp1]\<rparr>"
          using new_stream_test [OF n] Some by simp_all
        have p': "test p' = watch s (sender sp1 \<noteq> 0) (test p3)" "l' = l1\<lparr>flag := -1\<rparr>"
          using run Some by (auto simp: prog_run)
        have "fd_step (test p2) (test p')"
          using t3 by (auto simp: p' watch_def Let_def fd_step_def fds_def FD_SET_def)
        then show ?thesis using 1 t2 t3 fd_step_trans [OF 1(1)]
          by (auto simp: p' l1_def [symmetric] watch_def Let_def)
      qed
    qed
  qed
qed

text \<open>Steps that keep the streams and the control connection, whatever they do to the state of the protocol.\<close>

definition steady :: "iperf_test \<Rightarrow> iperf_test \<Rightarrow> bool" where
  "steady t t' \<longleftrightarrow> fd_step t t' \<and> ctrl_sck t' = ctrl_sck t \<and> role t' = role t \<and> map ident (streams t') = map ident (streams t)"

lemma steady_refl [simp]: "steady t t"
  by (simp add: steady_def)

lemma steady_trans: "steady t t' \<Longrightarrow> steady t' t'' \<Longrightarrow> steady t t''"
  using fd_step_trans by (auto simp: steady_def)

lemma tame_steady: "tame t t' \<Longrightarrow> steady t t'"
  by (simp add: steady_def tame_fd_step) (simp add: tame_def calm_def)

lemma steady_fields [simp]:
  "steady t (t\<lparr>state := st\<rparr>)" "steady t (t\<lparr>listener := s\<rparr>)" "steady t (t\<lparr>prot_listener := s\<rparr>)"
  "steady t (t\<lparr>read_set := FD_CLR s (read_set t)\<rparr>)" "steady t (watch s b t)"
  by (simp_all add: steady_def) (simp_all add: watch_def Let_def)

lemma and_then_steady:
  assumes "and_then x f = Some (r, p')" "\<And>r p1. x = Some (r, p1) \<Longrightarrow> steady t (test p1)"
    "\<And>p1. steady t (test p1) \<Longrightarrow> f p1 = Some (r, p') \<Longrightarrow> steady t (test p')"
  shows "steady t (test p')"
  using assms by (auto simp: and_then_eq_Some split: if_splits)

lemma send_state_eq:
  assumes "send_state K st p = Some (r, p')"
  shows "test p' = (test p)\<lparr>state := st\<rparr>"
  using assms by (auto simp: send_state_def on_test_def split: prod.splits dest!: set_send_state_eq)

lemma restore_listener_steady:
  assumes "restore_listener K p = Some (r, p')"
  shows "steady (test p) (test p')"
proof -
  define q where "q = upd (\<lambda>t. t\<lparr>listener := 0\<rparr>) (do_sys (sys_close K (listener (test p)))
     (upd (\<lambda>t. t\<lparr>read_set := FD_CLR (listener t) (read_set t)\<rparr>) p))"
  have q: "steady (test p) (test q)"
    by (simp add: q_def prog_run) (rule steady_trans [OF steady_fields(4) steady_fields(2)])
  obtain s q' where s: "on_sys (netannounce K (domain (settings (test p))) Ptcp (bind_address (test p)) (server_port (test p))) q = (s, q')"
    by force
  have t': "test q' = test q" by (rule on_sys_parts(1) [OF s])
  have w: "steady (test q) (watch s False ((test q)\<lparr>listener := s\<rparr>))"
    by (rule steady_trans [OF steady_fields(2) steady_fields(5)])
  show ?thesis using assms s q t' steady_trans [OF q w]
    by (auto simp: restore_listener_def Let_def q_def [symmetric] prog_run split: if_splits)
qed

lemma start_test_step:
  assumes "start_test K p = Some (r, p')"
  shows "steady (test p) (test p') \<and> (0 \<le> r \<longrightarrow> state (test p') = TEST_RUNNING)"
proof -
  obtain r1 p1 where 1: "restore_listener K p = Some (r1, p1)" using assms by (cases "restore_listener K p") (auto simp: start_test_def)
  note s1 = restore_listener_steady [OF 1]
  show ?thesis
  proof (cases "r1 < 0")
    case True
    then show ?thesis using assms 1 s1 by (simp add: start_test_def)
  next
    case False
    define p2 where "p2 = upd (\<lambda>t. t\<lparr>prot_listener := -1\<rparr>) p1"
    have s2: "steady (test p) (test p2)" unfolding p2_def upd_parts by (rule steady_trans [OF s1 steady_fields(3)])
    have run: "and_then (send_state K TEST_START p2) (\<lambda>p.
       and_then (Some (on_test (iperf_init_test K) p)) (\<lambda>p.
       and_then (create_server_timers K p) (\<lambda>p.
       and_then (create_server_omit_timer K p) (\<lambda>p.
       and_then (if mode (test p) \<noteq> RECEIVER then iperf_create_send_timers K p else Some (0, p)) (\<lambda>p.
       send_state K TEST_RUNNING p))))) = Some (r, p')"
      using assms 1 False by (simp add: start_test_def p2_def)
    have "steady (test p2) (test p')"
      using run unfolding create_server_timers_def create_server_omit_timer_def Let_def
      by (auto elim!: and_then_steady simp: on_test_def split: prod.splits if_splits
          dest!: iperf_init_test_tame create_timers_tame create_omit_timer_tame iperf_create_send_timers_tame send_state_eq tame_steady
          intro: steady_trans) (rule steady_trans)
    moreover have "0 \<le> r \<longrightarrow> state (test p') = TEST_RUNNING"
      using run by (auto simp: and_then_eq_Some split: if_splits dest: send_state_eq)
    ultimately show ?thesis using steady_trans [OF s2] by blast
  qed
qed

lemma next_direction_counts:
  assumes "\<not> all_accepted l"
  shows "flag (next_direction l) = 0 \<and> next_direction l = l\<lparr>flag := 0, rec_streams_accepted := rec_streams_accepted l + 1\<rparr> \<and>
      rec_streams_accepted l \<noteq> streams_to_rec l \<or>
    flag (next_direction l) = 1 \<and> next_direction l = l\<lparr>flag := 1, send_streams_accepted := send_streams_accepted l + 1\<rparr> \<and>
      rec_streams_accepted l = streams_to_rec l \<and> send_streams_accepted l \<noteq> streams_to_send l"
  using assms by (auto simp: next_direction_def all_accepted_def)

lemma accept_stream_counts:
  assumes "accept_stream K l p = Some ((r, l'), p')" "0 \<le> r" "\<not> all_accepted l" "counted l (test p)"
  shows "counted l' (test p') \<and> streams_to_rec l' = streams_to_rec l \<and> streams_to_send l' = streams_to_send l \<and>
    (streams (test p') = streams (test p) \<or>
     (\<exists>sp. streams (test p') = streams (test p) @ [sp] \<and>
        (if rec_streams_accepted l \<noteq> streams_to_rec l then sender sp = 0 else sender sp = 1)))"
  using accept_stream_step [OF assms(1)] assms(2-4) next_direction_counts [OF assms(3)]
  by (auto simp: counted_def receivers_def senders_def)

text \<open>The two parts of \<open>server_create\<close>: one connection at most, then the start of the test.\<close>

lemma server_create_parts:
  assumes "server_create K rs l p = Some ((r, rs', l'), p')"
  shows "\<exists>r1 p1. (if FD_ISSET (prot_listener (test p)) rs then accept_stream K l p = Some ((r1, l'), p1) else r1 = 0 \<and> l' = l \<and> p1 = p) \<and>
    (if r1 < 0 then r = -1 \<and> p' = p1 else if all_accepted l' then start_test K p1 = Some (r, p') else r = 0 \<and> p' = p1)"
proof (cases "FD_ISSET (prot_listener (test p)) rs")
  case True
  then obtain r1 l1 p1 where a: "accept_stream K l p = Some ((r1, l1), p1)"
    using assms by (cases "accept_stream K l p") (auto simp: server_create_def)
  then show ?thesis using True assms by (intro exI [of _ r1] exI [of _ p1]) (auto simp: server_create_def bind_eq_Some_conv split: if_splits)
next
  case False
  then show ?thesis using assms by (intro exI [of _ 0] exI [of _ p]) (auto simp: server_create_def bind_eq_Some_conv split: if_splits)
qed

lemma server_create_runtime:
  assumes "server_create K rs l p = Some ((r, rs', l'), p')"
  shows "fd_step (test p) (test p') \<and> ctrl_sck (test p') = ctrl_sck (test p) \<and> role (test p') = role (test p) \<and>
    (0 \<le> r \<longrightarrow> state (test p') = state (test p) \<or> state (test p') = TEST_RUNNING)"
proof -
  obtain r1 p1 where 1:
    "if FD_ISSET (prot_listener (test p)) rs then accept_stream K l p = Some ((r1, l'), p1) else r1 = 0 \<and> l' = l \<and> p1 = p"
    "if r1 < 0 then r = -1 \<and> p' = p1 else if all_accepted l' then start_test K p1 = Some (r, p') else r = 0 \<and> p' = p1"
    using server_create_parts [OF assms] by blast
  have s1: "fd_step (test p) (test p1) \<and> ctrl_sck (test p1) = ctrl_sck (test p) \<and> role (test p1) = role (test p) \<and> state (test p1) = state (test p)"
    using 1(1) accept_stream_step [of K l p r1 l' p1] by (auto split: if_splits)
  show ?thesis using 1(2) s1 start_test_step [of K p1 r p'] fd_step_trans [of "test p" "test p1" "test p'"]
    by (auto simp: steady_def split: if_splits)
qed

section \<open>Clients and their messages\<close>

text \<open>The parameters of a client do not change the role.\<close>

lemma role_on_item: "(\<And>j t. role (f j t) = role t) \<Longrightarrow> role (on_item j n f t) = role t"
  by (simp add: on_item_def split: option.split)

lemma role_setters:
  "role (snd (set_protocol i t)) = role t" "role (iperf_set_test_reverse v t) = role t" "role (iperf_set_test_bidirectional v t) = role t"
  by (simp_all add: set_protocol_def check_sender_has_retransmits_def iperf_set_test_reverse_def iperf_set_test_bidirectional_def
      Let_def split: option.split)

lemma role_apply_params:
  assumes "apply_params j t = Some t'" shows "role t' = role t"
proof -
  have "role (apply_numbers j t) = role t" by (simp add: apply_numbers_def Let_def role_on_item role_setters)
  moreover have "role t2 = role t1" if "apply_strings j t1 = Some t2" for t1 t2
    using that by (auto simp: apply_strings_def bind_eq_Some_conv on_string_def split: option.splits)
  moreover have "role (apply_flags j t1) = role t1" for t1
    by (simp add: apply_flags_def Let_def role_on_item iperf_set_test_get_server_output_def iperf_set_test_udp_counters_64bit_def)
  ultimately show ?thesis using assms by (auto simp: apply_params_def)
qed

lemma get_parameters_role: "run_state (get_parameters K t) s = (Returns (r, t'), s') \<Longrightarrow> role t' = role t"
  by (auto simp: get_parameters_def sys_run split: prod.splits if_splits option.splits dest: role_apply_params)

lemma exchange_parameters_role:
  assumes "run_state (iperf_exchange_parameters K t) s = (Returns (r, t'), s')"
  shows "role t' = role t"
proof -
  have listen: "role t2 = role t1" if "run_state (prot_listen K t1) s1 = ((l, t2), s2)" for l t1 t2 s1 s2
    using prot_listen_eq [OF that] by auto
  show ?thesis using assms
    by (auto simp: iperf_exchange_parameters_def Let_def split: prod.splits if_splits outcome.splits
        dest!: get_parameters_role listen send_server_error_eq set_send_state_eq)
qed

text \<open>A new client.\<close>

lemma accept_first_step:
  assumes "accept_first K s p = Some (r, p')" "role (test p) \<noteq> CHR ''c''"
  shows "fd_step (test p) (test p') \<and> ctrl_sck (test p') = s \<and> role (test p') = role (test p) \<and>
    (0 \<le> r \<longrightarrow> state (test p') = CREATE_STREAMS)"
proof -
  obtain r1 bs p1 where 1: "on_sys (Nread K s COOKIE_SIZE) (upd (\<lambda>t. t\<lparr>ctrl_sck := s\<rparr>) p) = ((r1, bs), p1)" by (metis prod.collapse)
  define p2 where "p2 = upd (\<lambda>t. t\<lparr>cookie := c_str (bs @ drop (length bs) (cookie_wire (cookie t)))\<rparr>) p1"
  define p3 where "p3 = upd (watch s False) p2"
  have "test p1 = (test p)\<lparr>ctrl_sck := s\<rparr>" using on_sys_parts(1) [OF 1] by (simp add: prog_run)
  then have t2: "fd_step (test p) (test p2)" "ctrl_sck (test p2) = s" "role (test p2) = role (test p)"
    using fd_step_trans [OF fd_step_fields(2) fd_step_fields(5)] by (simp_all add: p2_def prog_run)
  have t3: "fd_step (test p) (test p3)" "ctrl_sck (test p3) = s" "role (test p3) = role (test p)"
    using fd_step_trans [OF t2(1) fd_step_watch] t2 by (simp_all add: p3_def prog_run) (simp_all add: watch_def Let_def)
  obtain r4 p4 where 4: "on_test (iperf_set_send_state K PARAM_EXCHANGE) p3 = (r4, p4)" by force
  have "test p4 = (test p3)\<lparr>state := PARAM_EXCHANGE\<rparr>"
    using 4 by (auto simp: on_test_def split: prod.splits dest!: set_send_state_eq)
  then have t4: "fd_step (test p) (test p4)" "ctrl_sck (test p4) = s" "role (test p4) = role (test p)" using t3 by simp_all
  have run: "(if r1 < 0 then err IERECVCOOKIE p2
      else if r4 \<noteq> 0 then Some (-1, p4)
      else and_then (on_outcome (iperf_exchange_parameters K) p4) (\<lambda>p.
            if server_affinity (test p) \<noteq> -1 then iperf_setaffinity p else Some (0, p))) = Some (r, p')"
    using assms(1) unfolding accept_first_def 1 prod.case Option.bind_lunit p2_def [symmetric] p3_def [symmetric] 4 .
  have five: "fd_step (test p4) (test p5) \<and> ctrl_sck (test p5) = ctrl_sck (test p4) \<and> role (test p5) = role (test p4) \<and>
      (0 \<le> r5 \<longrightarrow> state (test p5) = CREATE_STREAMS)" if oc: "on_outcome (iperf_exchange_parameters K) p4 = Some (r5, p5)" for r5 p5
  proof -
    obtain s' where x: "run_state (iperf_exchange_parameters K (test p4)) (psys p4) = (Returns (r5, test p5), s')"
      using oc by (auto simp: on_outcome_def split: prod.splits outcome.splits)
    show ?thesis using exchange_parameters_runtime [OF x] exchange_parameters_role [OF x] assms(2) t4(3) by auto
  qed
  show ?thesis
  proof (cases "r1 < 0 \<or> r4 \<noteq> 0")
    case True
    then show ?thesis using run t2 t4 by (auto simp: err_eq prog_run split: if_splits)
  next
    case False
    then obtain r5 p5 where 5: "on_outcome (iperf_exchange_parameters K) p4 = Some (r5, p5)"
        "if r5 < 0 then r = -1 \<and> p' = p5 else (if server_affinity (test p5) \<noteq> -1 then iperf_setaffinity p5 else Some (0, p5)) = Some (r, p')"
      using run by (auto simp: and_then_eq_Some)
    have "test p' = test p5" "0 \<le> r \<longrightarrow> 0 \<le> r5" using 5(2) by (auto simp: iperf_setaffinity_def err_eq prog_run split: if_splits)
    then show ?thesis using five [OF 5(1)] t4 fd_step_trans [OF t4(1)] by simp
  qed
qed

text \<open>The messages a client may send, as the states they lead to.\<close>

definition client_says :: "int set" where
  "client_says = {TEST_START, DISPLAY_RESULTS, IPERF_DONE}"

lemma end_streams_test: "\<exists>rs ws. test (end_streams K p) = (test p)\<lparr>read_set := rs, write_set := ws\<rparr> \<and>
    set rs \<subseteq> set (read_set (test p)) \<and> set ws \<subseteq> set (write_set (test p))"
proof -
  have "\<exists>rs ws. test (fold (end_stream K) sps p) = (test p)\<lparr>read_set := rs, write_set := ws\<rparr> \<and>
    set rs \<subseteq> set (read_set (test p)) \<and> set ws \<subseteq> set (write_set (test p))" for sps
  proof (induction sps arbitrary: p)
    case Nil
    show ?case by (intro exI [of _ "read_set (test p)"] exI [of _ "write_set (test p)"]) simp
  next
    case (Cons sp sps)
    have "test (end_stream K sp p) = (test p)\<lparr>read_set := FD_CLR (socket sp) (read_set (test p)), write_set := FD_CLR (socket sp) (write_set (test p))\<rparr>"
      by (simp add: end_stream_def prog_run)
    then show ?case using Cons [of "end_stream K sp p"] by (auto simp: FD_CLR_def)
  qed
  then show ?thesis by (simp add: end_streams_def)
qed

lemma end_streams_steady: "steady (test p) (test (end_streams K p))" "state (test (end_streams K p)) = state (test p)"
  using end_streams_test [of K p] by (auto simp: steady_def fd_step_def fds_def)

lemma server_test_end_step:
  assumes "server_test_end K J p = Some (r, p')"
  shows "steady (test p) (test p') \<and> (0 \<le> r \<longrightarrow> state (test p') = DISPLAY_RESULTS)"
proof -
  define p1 where "p1 = stats K J (cpu_read K J (upd (\<lambda>t. t\<lparr>test_done := 1\<rparr>) p))"
  define p2 where "p2 = upd iperf_reporter_callback (end_streams K p1)"
  have "steady (test p) (test p1)"
    unfolding p1_def by (rule tame_steady [OF tame_trans [OF tame_upd tame_trans [OF cpu_read_tame stats_tame]]]) simp
  then have s2: "steady (test p) (test p2)"
    unfolding p2_def upd_parts using steady_trans [OF steady_trans [OF _ end_streams_steady(1)] tame_steady [OF iperf_reporter_tame]] by blast
  obtain r3 p3 where 3: "on_test (iperf_set_send_state K EXCHANGE_RESULTS) p2 = (r3, p3)" by force
  have "test p3 = (test p2)\<lparr>state := EXCHANGE_RESULTS\<rparr>"
    using 3 by (auto simp: on_test_def split: prod.splits dest!: set_send_state_eq)
  then have s3: "steady (test p) (test p3)" using steady_trans [OF s2 steady_fields(1)] by simp
  have four: "steady (test p) (test p4)" if "on_outcome (iperf_exchange_results K) p3 = Some (r4, p4)" for r4 p4
    using that by (auto simp: on_outcome_def split: prod.splits outcome.splits dest!: exchange_results_tame tame_steady intro: steady_trans [OF s3])
  have disp: "test q' = (test q)\<lparr>state := DISPLAY_RESULTS\<rparr>" if "on_test (iperf_set_send_state K DISPLAY_RESULTS) q = (x, q')" for q x q'
    using that by (auto simp: on_test_def split: prod.splits dest!: set_send_state_eq)
  have run: "(if r3 \<noteq> 0 then Some (-1, p3) else and_then (on_outcome (iperf_exchange_results K) p3) (\<lambda>p. do {
       (r, p) \<leftarrow> Some (on_test (iperf_set_send_state K DISPLAY_RESULTS) p);
       Some (if r \<noteq> 0 then -1 else 0, p) })) = Some (r, p')"
    using assms unfolding server_test_end_def Option.bind_lunit p1_def [symmetric] p2_def [symmetric] 3 prod.case .
  show ?thesis using run s3 steady_trans [OF _ steady_fields(1)]
    by (auto simp: and_then_eq_Some split: if_splits prod.splits dest!: four disp)
qed

lemma handle_message_server_step:
  assumes "iperf_handle_message_server K J p = Some (r, p')"
  shows "steady (test p) (test p') \<and> (0 \<le> r \<longrightarrow> state (test p') \<in> client_says)"
proof -
  obtain rval bs p1 where 1: "on_sys (Nread K (ctrl_sck (test p)) 1) p = ((rval, bs), p1)" by (metis prod.collapse)
  note t1 = on_sys_parts(1) [OF 1]
  show ?thesis
  proof (cases "rval \<le> 0")
    case True
    then show ?thesis using assms 1 t1 by (auto simp: iperf_handle_message_server_def err_eq prog_run client_says_def split: if_splits)
  next
    case False
    then have n: "rval \<noteq> 0" "\<not> rval < 0" by auto
    define st where "st = sint (hd bs)"
    define q where "q = upd (\<lambda>t. t\<lparr>state := st\<rparr>) p1"
    have q: "steady (test p) (test q)" "state (test q) = st" by (simp_all add: q_def prog_run t1)
    have run: "(if st = TEST_START then Some (0, q)
           else if st = TEST_END then server_test_end K J q
           else if st = IPERF_DONE then Some (0, q)
           else if st = CLIENT_TERMINATE then
             Some (0, upd (\<lambda>t. t\<lparr>state := IPERF_DONE\<rparr>) (end_streams K (final_report K J (set_err IECLIENTTERM q))))
           else err IEMESSAGE q) = Some (r, p')"
      using assms unfolding iperf_handle_message_server_def 1 prod.case Let_def if_not_P [OF n(1)] if_not_P [OF n(2)]
        st_def [symmetric] q_def [symmetric] .
    have "steady (test q) (test (final_report K J (set_err IECLIENTTERM q)))"
      using tame_steady [OF final_report_tame, of "set_err IECLIENTTERM q" K J] by (simp add: prog_run)
    from steady_trans [OF this end_streams_steady(1)]
    have "steady (test q) ((test (end_streams K (final_report K J (set_err IECLIENTTERM q))))\<lparr>state := IPERF_DONE\<rparr>)"
      using steady_trans [OF _ steady_fields(1)] by blast
    then have "steady (test q) (test p') \<and> (0 \<le> r \<longrightarrow> state (test p') \<in> client_says)"
      using run q(2) server_test_end_step [of K J q r p'] by (auto simp: client_says_def err_eq prog_run split: if_splits)
    then show ?thesis using steady_trans [OF q(1)] by blast
  qed
qed

section \<open>The loop\<close>

text \<open>
  The states of the server: a client makes it wait for streams, the last stream starts the test,
  and a message of the client, which is there then, may come at any time.
\<close>

inductive server_step :: "int \<Rightarrow> int \<Rightarrow> bool" where
  connects: "server_step IPERF_START CREATE_STREAMS"
| starts: "server_step CREATE_STREAMS TEST_RUNNING"
| told: "st \<noteq> IPERF_START \<Longrightarrow> m \<in> client_says \<Longrightarrow> server_step st m"

text \<open>What the loop keeps: the server has no client exactly in its first state.\<close>

definition serving :: "iperf_test \<Rightarrow> bool" where
  "serving t \<longleftrightarrow> role t = CHR ''s'' \<and> (state t = IPERF_START \<longleftrightarrow> ctrl_sck t = -1)"

text \<open>Documented behaviour of the kernel: a descriptor is not negative.\<close>

definition fds_nonneg :: "'w kernel \<Rightarrow> bool" where
  "fds_nonneg K \<longleftrightarrow> (\<forall>fd w s w'. k_accept K fd w = (Ok s, w') \<longrightarrow> 0 \<le> s) \<and>
     (\<forall>n rs ws tv w rs' ws' r x w'. k_select K n rs ws tv w = ((Ok (rs', ws', r), x), w') \<longrightarrow> (\<forall>fd \<in> set rs'. 0 \<le> fd))"

lemma state_codes: "IPERF_START \<noteq> CREATE_STREAMS" "IPERF_START \<noteq> TEST_RUNNING" "IPERF_START \<notin> client_says" "CREATE_STREAMS \<notin> client_says"
  by (simp_all add: state_defs client_says_def)

lemma iperf_accept_step:
  assumes "iperf_accept K p = Some (r, p')" "0 \<le> r" "serving (test p)" "fds_nonneg K"
  shows "fd_step (test p) (test p') \<and> serving (test p') \<and> server_step\<^sup>*\<^sup>* (state (test p)) (state (test p')) \<and> ctrl_sck (test p') \<noteq> -1"
proof -
  obtain x p1 where x: "on_sys (sys_open (k_accept K (listener (test p)))) p = (x, p1)" by force
  note t1 = on_sys_parts(1) [OF x]
  obtain s where s: "x = Some s" using assms(1,2) x by (cases x) (auto simp: iperf_accept_def err_eq)
  have "0 \<le> s" using on_sys_parts(4) [OF x] assms(4) s
    by (auto simp: sys_open_def syscall_def fds_nonneg_def sys_run split: prod.splits sysret.splits option.splits)
  show ?thesis
  proof (cases "ctrl_sck (test p) = -1")
    case True
    then have "accept_first K s p1 = Some (r, p')" using assms(1) x s t1 by (simp add: iperf_accept_def)
    from accept_first_step [OF this] have "fd_step (test p) (test p')" "ctrl_sck (test p') = s" "role (test p') = CHR ''s''" "state (test p') = CREATE_STREAMS"
      using assms(2,3) t1 by (auto simp: serving_def)
    then show ?thesis using \<open>0 \<le> s\<close> True assms(3) state_codes server_step.connects by (auto simp: serving_def)
  next
    case False
    then have "test p' = test p" using assms(1) x s t1
      by (auto simp: iperf_accept_def deny_def err_eq prog_run split: prod.splits if_splits dest!: on_sys_parts(1))
    then show ?thesis using False assms(3) by simp
  qed
qed

lemma steady_serving: "steady t t' \<Longrightarrow> serving t \<Longrightarrow> ctrl_sck t \<noteq> -1 \<Longrightarrow> state t' \<noteq> IPERF_START \<Longrightarrow> serving t'"
  by (simp add: steady_def serving_def)

lemma server_move_tame: "server_move K rs ws p = Some (r, p') \<Longrightarrow> tame (test p) (test p')"
  unfolding server_move_def
  by (cases "mode (test p)") (auto elim!: and_then_tame dest!: send_ready_tame recv_ready_tame intro: tame_trans)

lemma tame_serving: "tame t t' \<Longrightarrow> serving t \<Longrightarrow> serving t' \<and> state t' = state t"
  by (simp add: tame_def calm_def serving_def)

text \<open>The three phases of a pass with ready descriptors.\<close>

definition goes :: "iperf_test \<Rightarrow> iperf_test \<Rightarrow> bool" where
  "goes t t' \<longleftrightarrow> fd_step t t' \<and> serving t' \<and> server_step\<^sup>*\<^sup>* (state t) (state t')"

lemma goes_refl: "serving t \<Longrightarrow> goes t t"
  by (simp add: goes_def)

lemma goes_trans: "goes t t' \<Longrightarrow> goes t' t'' \<Longrightarrow> goes t t''"
  using fd_step_trans by (auto simp: goes_def)

lemma server_listener_goes:
  assumes "server_listener K rs l p = Some ((r, rs', l'), p')" "0 \<le> r" "serving (test p)" "fds_nonneg K"
  shows "goes (test p) (test p') \<and> set rs' \<subseteq> set rs"
proof (cases "FD_ISSET (listener (test p)) rs \<and> state (test p) \<noteq> CREATE_STREAMS")
  case True
  then obtain r1 where r1: "iperf_accept K p = Some (r1, p')" "\<not> r1 < 0" "rs' = FD_CLR (listener (test p')) rs"
    using assms(1,2) by (cases "iperf_accept K p") (auto simp: server_listener_def split: if_splits)
  then show ?thesis using iperf_accept_step [OF r1(1) _ assms(3,4)] by (auto simp: goes_def FD_CLR_def)
next
  case False
  then show ?thesis using assms by (auto simp: server_listener_def goes_refl)
qed

lemma server_control_goes:
  assumes "server_control K J rs p = Some ((r, rs'), p')" "0 \<le> r" "serving (test p)" "\<forall>fd \<in> set rs. 0 \<le> fd"
  shows "goes (test p) (test p')"
proof (cases "FD_ISSET (ctrl_sck (test p)) rs")
  case True
  then obtain r1 where r1: "iperf_handle_message_server K J p = Some (r1, p')" "\<not> r1 < 0"
    using assms(1,2) by (cases "iperf_handle_message_server K J p") (auto simp: server_control_def split: if_splits)
  have "ctrl_sck (test p) \<noteq> -1" using True assms(4) by (auto simp: FD_ISSET_def)
  moreover from this have "state (test p) \<noteq> IPERF_START" using assms(3) by (simp add: serving_def)
  moreover have "steady (test p) (test p')" "state (test p') \<in> client_says" using handle_message_server_step [OF r1(1)] r1(2) by auto
  moreover from this have "state (test p') \<noteq> IPERF_START" using state_codes by auto
  ultimately have "serving (test p')" "server_step (state (test p)) (state (test p'))" "fd_step (test p) (test p')"
    using steady_serving [OF _ assms(3)] server_step.told by (simp_all add: steady_def)
  then show ?thesis by (simp add: goes_def)
next
  case False
  then show ?thesis using assms by (simp add: server_control_def goes_refl)
qed

lemma server_create_goes:
  assumes "server_create K rs l p = Some ((r, rs', l'), p')" "0 \<le> r" "serving (test p)" "state (test p) = CREATE_STREAMS"
  shows "goes (test p) (test p')"
  using server_create_runtime [OF assms(1)] assms(2-4) state_codes server_step.starts by (auto simp: goes_def serving_def)

lemma server_act_goes:
  assumes "server_act K J rs ws l p = Some ((r, l'), p')" "0 \<le> r" "serving (test p)" "fds_nonneg K" "\<forall>fd \<in> set rs. 0 \<le> fd"
  shows "goes (test p) (test p')"
proof -
  obtain r1 rs1 l1 p1 where 1: "server_listener K rs l p = Some ((r1, rs1, l1), p1)"
    using assms(1) by (cases "server_listener K rs l p") (auto simp: server_act_def)
  have n1: "\<not> r1 < 0" using assms(1,2) 1 by (auto simp: server_act_def)
  note g1 = server_listener_goes [OF 1 _ assms(3,4)]
  obtain r2 rs2 p2 where 2: "server_control K J rs1 p1 = Some ((r2, rs2), p2)"
    using assms(1) 1 n1 by (cases "server_control K J rs1 p1") (auto simp: server_act_def)
  have n2: "\<not> r2 < 0" using assms(1,2) 1 n1 2 by (auto simp: server_act_def)
  have g2: "goes (test p1) (test p2)" using server_control_goes [OF 2] n1 n2 g1 assms(5) by (auto simp: goes_def)
  define M where "M = (if state (test p2) = CREATE_STREAMS then server_create K rs2 l1 p2 else Some ((0, rs2, l1), p2))"
  have run: "do { ((r, rs, l), p) \<leftarrow> M;
         if r < 0 then Some ((r, l), p)
         else if state (test p) = TEST_RUNNING then do {
           (r, p) \<leftarrow> server_move K rs ws p;
           Some ((if r < 0 then -1 else 0, l), p)
         }
         else Some ((0, l), p) } = Some ((r, l'), p')"
    using assms(1) unfolding server_act_def 1 2 Option.bind_lunit prod.case if_not_P [OF n1] if_not_P [OF n2] M_def .
  obtain r3 rs3 l3 p3 where 3: "M = Some ((r3, rs3, l3), p3)" using run by (cases M) auto
  have n3: "\<not> r3 < 0" using run 3 assms(2) by auto
  have g3: "goes (test p2) (test p3)"
    using 3 n3 g2 server_create_goes [of K rs2 l1 p2 r3 rs3 l3 p3] by (auto simp: M_def goes_refl goes_def split: if_splits)
  have "tame (test p3) (test p')"
    using run 3 n3 server_move_tame [of K rs3 ws p3] by (auto simp: bind_eq_Some_conv split: if_splits)
  then have "goes (test p3) (test p')" using g3 tame_serving tame_fd_step by (auto simp: goes_def)
  then show ?thesis using goes_trans [OF goes_trans [OF goes_trans [OF _ g2] g3]] g1 n1 by simp
qed

lemma calm_goes: "calm t t' \<Longrightarrow> serving t \<Longrightarrow> goes t t'"
  using calm_fd_step by (auto simp: goes_def calm_def serving_def)

lemma wait_select_nonneg:
  assumes "wait_select K now p = Some ((result, rs, ws, tmo), now', p')" "0 \<le> result" "fds_nonneg K"
  shows "\<forall>fd \<in> set rs. 0 \<le> fd"
proof -
  obtain y n p1 where n: "on_sys (sys_time_into K now) p = ((y, n), p1)" by (metis prod.collapse)
  obtain t where t: "tmr_timeout (Some n) (0, 0, 0) n (tm p1) = Some t"
    using assms n by (cases "tmr_timeout (Some n) (0, 0, 0) n (tm p1)") (auto simp: wait_select_def)
  have "on_sys (sys_select K (max_fd (test p1) + 1) (read_set (test p1)) (write_set (test p1)) t) p1 = ((result, rs, ws, tmo), p')"
    using assms(1) n t by (simp add: wait_select_def split: prod.splits)
  from on_sys_parts(4) [OF this] show ?thesis using assms(2,3)
    by (auto simp: sys_select_def fds_nonneg_def split: prod.splits sysret.splits) blast
qed

lemma server_iter_goes:
  assumes "server_iter K J l p = Some (Inr l', p')" "serving (test p)" "fds_nonneg K"
  shows "goes (test p) (test p')"
proof -
  obtain result rs ws tmo now1 p1 where w: "wait_select K (s_now l) p = Some ((result, rs, ws, tmo), now1, p1)"
    using assms(1) by (cases "wait_select K (s_now l) p") (auto simp: server_iter_def)
  note t1 = wait_select_test [OF w]
  have noerr: "\<not> (result < 0 \<and> errno (psys p1) \<noteq> EINTR)"
    using assms(1) w by (cases "result < 0 \<and> errno (psys p1) \<noteq> EINTR") (auto simp: server_iter_def give_up_def bind_eq_Some_conv)
  define l1 where "l1 = l\<lparr>s_now := now1\<rparr>"
  define M where "M = (if 0 < result then server_act K J rs ws l1 p1 else Some ((0, l1), p1))"
  have run: "do { ((r, l), p) \<leftarrow> M;
       if r = -2 then do { (x, p) \<leftarrow> give_up K p; Some (x, set_err IELISTEN p) }
       else if r < 0 then give_up K p
       else if result = 0 \<or> tmo = Some (0, 0) then do {
         let ((_, nw), p) = on_sys (sys_time_into K (s_now l)) p;
         p \<leftarrow> run_timers K J nw p;
         Some (Inr (l\<lparr>s_now := nw\<rparr>), p)
       }
       else Some (Inr l, p) } = Some (Inr l', p')"
    using assms(1) unfolding server_iter_def w Option.bind_lunit prod.case Let_def if_not_P [OF noerr] M_def l1_def .
  obtain r l2 p2 where M: "M = Some ((r, l2), p2)" using run by (cases M) auto
  have r: "0 \<le> r" using run M by (cases "r < 0") (auto simp: give_up_def bind_eq_Some_conv split: if_splits)
  have g2: "goes (test p) (test p2)"
    using M r server_act_goes [of K J rs ws l1 p1 r l2 p2] wait_select_nonneg [OF w _ assms(3)] assms(2,3) t1
    by (auto simp: M_def goes_refl split: if_splits)
  obtain y nw p3 where n: "on_sys (sys_time_into K (s_now l2)) p2 = ((y, nw), p3)" by (metis prod.collapse)
  have "calm (test p2) (test p')"
    using run M r n on_sys_parts(1) [OF n] run_timers_calm [of K J nw p3 p'] by (auto simp: bind_eq_Some_conv split: if_splits)
  then show ?thesis using goes_trans [OF g2 calm_goes] g2 by (simp add: goes_def)
qed

text \<open>The states the server's loop can be in, after it started to listen in \<open>p0\<close>.\<close>

inductive server_reaches :: "'w kernel \<Rightarrow> junk \<Rightarrow> 'w prog \<Rightarrow> server_locals \<Rightarrow> 'w prog \<Rightarrow> bool"
  for K :: "'w kernel" and J :: junk and p0 :: "'w prog" where
  listening: "iperf_server_listen K p0 = Some (0, p) \<Longrightarrow>
    server_reaches K J p0 (first_locals K J) (upd (\<lambda>t. t\<lparr>state := IPERF_START\<rparr>) (cpu_start K p))"
| passes: "server_reaches K J p0 l p \<Longrightarrow> state (test p) \<noteq> IPERF_DONE \<Longrightarrow> server_iter K J l p = Some (Inr l', p') \<Longrightarrow>
    server_reaches K J p0 l' p'"

lemma listen_retry_test:
  "\<exists>s d. test (listen_retry K p) = (test p)\<lparr>listener := s, settings := (settings (test p))\<lparr>domain := d\<rparr>\<rparr>"
proof (induction K p rule: listen_retry.induct)
  case (1 K p)
  define p1 where "p1 = listen_once K p"
  obtain s q where q: "on_sys (netannounce K (domain (settings (test p))) Ptcp (bind_address (test p)) (server_port (test p))) p = (s, q)"
    by force
  have s: "test p1 = (test p)\<lparr>listener := s\<rparr>" using on_sys_parts(1) [OF q] by (simp add: p1_def listen_once_def q prog_run)
  show ?case
  proof (cases "may_retry p1")
    case True
    have eq: "listen_retry K p = listen_retry K (upd (\<lambda>t. t\<lparr>settings := (settings t)\<lparr>domain := AF_INET\<rparr>\<rparr>) p1)"
      using True by (subst listen_retry.simps) (simp add: p1_def Let_def)
    show ?thesis using 1 [OF p1_def True] s by (auto simp: eq prog_run)
  next
    case False
    then have "listen_retry K p = p1" by (subst listen_retry.simps) (simp add: p1_def Let_def)
    then show ?thesis using s by (intro exI [of _ s] exI [of _ "domain (settings (test p))"]) simp
  qed
qed

lemma iperf_server_listen_ok:
  assumes "iperf_server_listen K p = Some (0, p')" "streams (test p) = []"
  shows "fd_ok (test p') \<and> role (test p') = role (test p) \<and> ctrl_sck (test p') = ctrl_sck (test p)"
proof -
  have "test p' = (\<lambda>t. watch (listener t) False (t\<lparr>read_set := [], write_set := []\<rparr>)) (test (listen_retry K p))"
    using assms(1) by (auto simp: iperf_server_listen_def Let_def err_eq prog_run split: if_splits)
  then show ?thesis using listen_retry_test [of K p] assms(2) by (auto simp: watch_def Let_def fd_ok_def fds_def FD_SET_def)
qed

lemma server_reaches_ok:
  assumes "server_reaches K J p0 l p" "fds_nonneg K" "role (test p0) = CHR ''s''" "ctrl_sck (test p0) = -1" "streams (test p0) = []"
  shows "fd_ok (test p) \<and> serving (test p)"
  using assms
proof (induction rule: server_reaches.induct)
  case (listening p)
  then show ?case using iperf_server_listen_ok [of K p0 p]
    by (auto simp: cpu_start_test prog_run serving_def fd_ok_def fds_def)
next
  case (passes l p l' p')
  then show ?case using server_iter_goes [of K J l p l' p'] fd_step_ok by (auto simp: goes_def)
qed

section \<open>Properties\<close>

text \<open>
  (C7) The server waits for exactly the streams that were agreed on. While streams are missing,
  a pass that does not fail adds at most one, a receiving one as long as one of these is missing;
  the two counters remain the numbers of streams of each direction, and the test is started in
  the pass in which the last one arrives, and not before.
\<close>

theorem server_create_waits:
  assumes "server_create K rs l p = Some ((0, rs', l'), p')" "state (test p) = CREATE_STREAMS" "counted l (test p)" "\<not> all_accepted l"
  shows "counted l' (test p') \<and> streams_to_rec l' = streams_to_rec l \<and> streams_to_send l' = streams_to_send l \<and>
    (receivers (test p') = receivers (test p) \<and> senders (test p') = senders (test p) \<or>
     receivers (test p) \<noteq> streams_to_rec l \<and> receivers (test p') = receivers (test p) + 1 \<and> senders (test p') = senders (test p) \<or>
     receivers (test p) = streams_to_rec l \<and> receivers (test p') = receivers (test p) \<and> senders (test p') = senders (test p) + 1) \<and>
    state (test p') = (if all_accepted l' then TEST_RUNNING else CREATE_STREAMS)"
proof -
  obtain r1 p1 where 1:
    "if FD_ISSET (prot_listener (test p)) rs then accept_stream K l p = Some ((r1, l'), p1) else r1 = 0 \<and> l' = l \<and> p1 = p"
    "0 \<le> r1" "if all_accepted l' then start_test K p1 = Some (0, p') else p' = p1"
    using server_create_parts [OF assms(1)] by (auto split: if_splits)
  have *: "counted l' (test p1) \<and> streams_to_rec l' = streams_to_rec l \<and> streams_to_send l' = streams_to_send l \<and>
    (streams (test p1) = streams (test p) \<or>
     (\<exists>sp. streams (test p1) = streams (test p) @ [sp] \<and>
        (if rec_streams_accepted l \<noteq> streams_to_rec l then sender sp = 0 else sender sp = 1)))"
  proof (cases "FD_ISSET (prot_listener (test p)) rs")
    case True
    then have "accept_stream K l p = Some ((r1, l'), p1)" using 1(1) by simp
    then show ?thesis by (rule accept_stream_counts [OF _ 1(2) assms(4,3)])
  qed (use 1(1) assms(3) in simp)
  have st: "state (test p1) = CREATE_STREAMS"
    using 1(1) accept_stream_step [of K l p r1 l' p1] assms(2) by (auto split: if_splits)
  have fin: "receivers (test p') = receivers (test p1) \<and> senders (test p') = senders (test p1) \<and>
      state (test p') = (if all_accepted l' then TEST_RUNNING else CREATE_STREAMS)"
    using 1(3) start_test_step [of K p1 0 p'] st counts_ident [of "test p'" "test p1"] by (auto simp: steady_def split: if_splits)
  have "receivers (test p1) = receivers (test p) \<and> senders (test p1) = senders (test p) \<or>
     receivers (test p) \<noteq> streams_to_rec l \<and> receivers (test p1) = receivers (test p) + 1 \<and> senders (test p1) = senders (test p) \<or>
     receivers (test p) = streams_to_rec l \<and> receivers (test p1) = receivers (test p) \<and> senders (test p1) = senders (test p) + 1"
    using * assms(3) by (auto simp: counted_def receivers_def senders_def split: if_splits)
  with * fin show ?thesis by (simp add: counted_def)
qed

text \<open>A server that waits on descriptor 3 for one receiving stream, which says the right cookie.\<close>

definition sample_waiting :: "u8 list prog" where
  "sample_waiting = (sample_caller (cookie_wire [97, 98]))\<lparr>test := sample_server\<lparr>state := CREATE_STREAMS, listener := 3, prot_listener := 3,
     cookie := [97, 98], read_set := [3, 6], max_fd := 6, settings := (settings sample_server)\<lparr>blksize := 4\<rparr>\<rparr>\<rparr>"

definition sample_locals :: server_locals where
  "sample_locals = (first_locals eager_kernel sample_junk)\<lparr>streams_to_rec := 1\<rparr>"

theorem server_create_waits_witness:
  "\<exists>rs' l' p'. server_create eager_kernel [3] sample_locals sample_waiting = Some ((0, rs', l'), p') \<and>
     receivers (test p') = 1 \<and> state (test p') = TEST_RUNNING"
proof -
  have "map_option (\<lambda>((r, rs, l), p). (r, all_accepted l, length (streams (test p)))) (server_create eager_kernel [3] sample_locals sample_waiting) = Some (0, True, 1)"
    by code_simp
  then obtain rs' l' p' where c: "server_create eager_kernel [3] sample_locals sample_waiting = Some ((0, rs', l'), p')" "all_accepted l'" "length (streams (test p')) = 1"
    by auto
  have h: "state (test sample_waiting) = CREATE_STREAMS" "counted sample_locals (test sample_waiting)" "\<not> all_accepted sample_locals"
    by (simp_all add: sample_waiting_def sample_locals_def first_locals_def counted_def receivers_def senders_def all_accepted_def sample_test_defs)
  from server_create_waits [OF c(1) h] c show ?thesis
    by (auto simp: all_accepted_def counted_def sample_locals_def)
qed

text \<open>
  (C22) Throughout the server's loop, whatever clients and the network do, no descriptor in either
  set and no socket of a stream is larger than \<open>max_fd\<close>, on which the call of \<open>select\<close> depends, and
  the server is without a control connection exactly while it is in its first state.
\<close>

theorem server_watches_all:
  assumes "server_reaches K J p0 l p" "fds_nonneg K" "role (test p0) = CHR ''s''" "ctrl_sck (test p0) = -1" "streams (test p0) = []"
  shows "(\<forall>fd \<in> set (read_set (test p)) \<union> set (write_set (test p)) \<union> socket ` set (streams (test p)). fd \<le> max_fd (test p)) \<and>
    (state (test p) = IPERF_START \<longleftrightarrow> ctrl_sck (test p) = -1)"
  using server_reaches_ok [OF assms] by (auto simp: fd_ok_def fds_def serving_def)

text \<open>
  A server that has not listened yet; its kernel hands out non-negative descriptors, and a client
  is about to send its cookie and an empty object as its parameters.
\<close>

definition sample_fresh :: "u8 list prog" where
  "sample_fresh = (sample_caller (cookie_wire [97, 98] @ [0, 0, 0, 2, 123, 125]))\<lparr>test := sample_server\<lparr>ctrl_sck := -1, server_port := 7\<rparr>\<rparr>"

definition polite_kernel :: "u8 list kernel" where
  "polite_kernel = eager_kernel\<lparr>k_select := (\<lambda>n rs ws tv w. ((Ok (filter (\<lambda>fd. 0 \<le> fd) rs, [], int (length rs)), (0, 0)), w)),
     k_getaddrinfo := (\<lambda>node serv hs w. (Ok \<lparr>ai_id = 0, ai_family = 2, ai_addr = \<lparr>sa_family = 2, sa_port = 0, sa_addr = [127, 0, 0, 1]\<rparr>\<rparr>, w))\<rparr>"

lemma polite_fds: "fds_nonneg polite_kernel"
  by (auto simp: fds_nonneg_def polite_kernel_def eager_kernel_def sample_kernel_def)

lemma sample_fresh_ok: "role (test sample_fresh) = CHR ''s''" "ctrl_sck (test sample_fresh) = -1" "streams (test sample_fresh) = []"
  by (simp_all add: sample_fresh_def sample_test_defs)

definition sample_listening :: "u8 list prog" where
  "sample_listening = upd (\<lambda>t. watch (listener t) False (t\<lparr>read_set := [], write_set := []\<rparr>)) (listen_once polite_kernel sample_fresh)"

lemma sample_listens: "iperf_server_listen polite_kernel sample_fresh = Some (0, sample_listening)"
proof -
  have "may_retry (listen_once polite_kernel sample_fresh) = False" "(listener (test (listen_once polite_kernel sample_fresh)) < 0) = False"
    by code_simp+
  moreover from this have "listen_retry polite_kernel sample_fresh = listen_once polite_kernel sample_fresh"
    by (subst listen_retry.simps) (simp add: Let_def)
  ultimately show ?thesis by (simp add: iperf_server_listen_def sample_listening_def)
qed

lemmas sample_reaches = server_reaches.listening [OF sample_listens, of sample_junk]

theorem server_watches_all_witness:
  "server_reaches polite_kernel sample_junk sample_fresh (first_locals polite_kernel sample_junk)
       (upd (\<lambda>t. t\<lparr>state := IPERF_START\<rparr>) (cpu_start polite_kernel sample_listening)) \<and>
   read_set (test sample_listening) = [5] \<and> 5 \<le> max_fd (test sample_listening) \<and> ctrl_sck (test sample_listening) = -1"
proof -
  have "read_set (test sample_listening) = [5]" by code_simp
  with server_watches_all [OF sample_reaches polite_fds sample_fresh_ok] sample_reaches show ?thesis
    by (auto simp: prog_run cpu_start_test)
qed

text \<open>
  (C5) The server's state follows the protocol. A pass of the loop that goes on takes steps of
  \<open>server_step\<close> only: the first client makes the server wait for streams, the last of them starts the
  test, and a message of the client, never without a client, leads to \<open>TEST_START\<close>, \<open>DISPLAY_RESULTS\<close>
  or \<open>IPERF_DONE\<close>. There is no way back to an earlier state, and none to \<open>TEST_RUNNING\<close> but through
  \<open>CREATE_STREAMS\<close>.
\<close>

theorem server_follows_protocol:
  assumes "server_reaches K J p0 l p" "server_iter K J l p = Some (Inr l', p')"
    and "fds_nonneg K" "role (test p0) = CHR ''s''" "ctrl_sck (test p0) = -1" "streams (test p0) = []"
  shows "server_step\<^sup>*\<^sup>* (state (test p)) (state (test p'))"
  using server_iter_goes [OF assms(2) _ assms(3)] server_reaches_ok [OF assms(1,3-6)] by (simp add: goes_def)

theorem server_follows_protocol_witness:
  "\<exists>l' p'. server_iter polite_kernel sample_junk (first_locals polite_kernel sample_junk)
       (upd (\<lambda>t. t\<lparr>state := IPERF_START\<rparr>) (cpu_start polite_kernel sample_listening)) = Some (Inr l', p') \<and>
     state (test p') = CREATE_STREAMS \<and> server_step\<^sup>*\<^sup>* IPERF_START (state (test p'))"
proof -
  have "map_option (\<lambda>(x, p). (isl x, state (test p))) (server_iter polite_kernel sample_junk (first_locals polite_kernel sample_junk)
      (upd (\<lambda>t. t\<lparr>state := IPERF_START\<rparr>) (cpu_start polite_kernel sample_listening))) = Some (False, CREATE_STREAMS)"
    by code_simp
  from going_on [OF this] obtain l' p' where i: "server_iter polite_kernel sample_junk (first_locals polite_kernel sample_junk)
      (upd (\<lambda>t. t\<lparr>state := IPERF_START\<rparr>) (cpu_start polite_kernel sample_listening)) = Some (Inr l', p')" "state (test p') = CREATE_STREAMS"
    by blast
  from server_follows_protocol [OF sample_reaches i(1) polite_fds sample_fresh_ok] i show ?thesis by (simp add: prog_run)
qed

end
