(* ===== verification/Round_Props.thy ===== *)
theory Round_Props
  imports Server_Props Iperf_Main
begin

text \<open>
  One round of the server from the start of a test to the reset behind it: the timers of the test
  are owned by it and released with it, a second client is turned away, and what is left behind
  when a client disappears or cannot be turned away.
\<close>

section \<open>Starting timers\<close>

text \<open>Documented behaviour of \<open>clock_gettime\<close>: it succeeds, with less than a second of nanoseconds.\<close>

definition clock_ok :: "'w kernel \<Rightarrow> bool" where
  "clock_ok K \<longleftrightarrow> (\<forall>w r s n w'. k_clock K w = ((r, s, n), w') \<longrightarrow> r = 0 \<and> 0 \<le> n \<and> n < 1000000000)"

lemma time_now_ok:
  assumes "clock_ok K" "on_sys (sys_time_now K) p = ((r, now), p')"
  shows "r = 0" "time_ok now" "test p' = test p" "tm p' = tm p" "heap_top p' = heap_top p" "elog (psys p') = elog (psys p)"
proof -
  obtain c s n w where c: "k_clock K (world (psys p)) = ((c, s, n), w)" by (metis prod.collapse)
  have n: "c = 0" "0 \<le> n" "n < 1000000000" using assms(1) [unfolded clock_ok_def, rule_format, OF c] by auto
  have run: "run_state (sys_time_now K) (psys p) = (iperf_time_now (c, s, n) (k_uninit K), (psys p)\<lparr>world := w\<rparr>)"
    by (simp add: sys_time_now_def c)
  then have eq: "(r, now) = iperf_time_now (c, s, n) (k_uninit K)" "p' = p\<lparr>psys := (psys p)\<lparr>world := w\<rparr>\<rparr>"
    using assms(2) by (simp_all add: on_sys_def)
  then show "r = 0" "test p' = test p" "tm p' = tm p" "heap_top p' = heap_top p" "elog (psys p') = elog (psys p)"
    using n(1) by (simp_all add: iperf_time_now_def)
  have "uint (word_of_int n :: u32) = n" using n(2,3) by (simp add: uint_word_of_int_eq take_bit_int_eq_self)
  then have "unat (word_of_int n :: u32) = nat n" by (metis nat_uint_eq)
  then have "unat (word_of_int n div 1000 :: u32) = nat n div 1000" by (simp add: unat_div)
  then have "unat (usecs now) = nat n div 1000" using eq(1) n(1) by (simp add: iperf_time_now_def)
  then show "time_ok now" using n(2,3) by (simp add: time_ok_unat)
qed

text \<open>A new timer is pending and was not before; without memory there is none.\<close>

lemma create_timer_pending:
  assumes p: "pending p xs fs" and K: "clock_ok K" and now: "\<And>now. nowP = Some now \<Longrightarrow> time_ok now"
  shows "\<exists>a p' ys gs. create_timer K nowP pr cd us per p = Some (a, p') \<and> test p' = test p \<and> pending p' ys gs \<and>
    set ys = set (opt_list a @ xs) \<and> set (opt_list a) \<inter> set xs = {}"
proof -
  obtain now p1 where 1: "(case nowP of Some now \<Rightarrow> (now, p) | None \<Rightarrow> (case on_sys (sys_time_now K) p of ((_, now), p) \<Rightarrow> (now, p))) = (now, p1)"
    by force
  have p1: "time_ok now" "tm p1 = tm p" "heap_top p1 = heap_top p" "test p1 = test p"
    using 1 now time_now_ok [OF K] by (auto split: option.splits prod.splits)
  obtain ok p2 where 2: "(if free_timers (tm p1) = None then on_sys (sys_malloc K 1) p1 else (True, p1)) = (ok, p2)" by force
  have p2: "tm p2 = tm p" "heap_top p2 = heap_top p" "test p2 = test p"
    using 2 p1 by (auto split: if_splits dest: on_sys_parts(1-3))
  let ?fresh = "if ok then Some (heap_top p2) else None"
  have run: "create_timer K nowP pr cd us per p =
      do { (t, m) \<leftarrow> tmr_create (Some now) (0, 0, 0) now ?fresh pr cd (word_of_int us) per (tm p);
           Some (t, p2\<lparr>tm := m, heap_top := heap_top p2 + 1\<rparr>) }"
    unfolding create_timer_def Let_def 1 prod.case 2 p2(1) ..
  have rep: "timer_rep (tm p) xs fs" "timers_sorted (tm p) xs" and free: "theap (tm p) (heap_top p2) = None"
    using p p2 by (auto simp: pending_def)
  show ?thesis
  proof (cases "fst_ptr fs ?fresh")
    case None
    then have n: "fs = []" "?fresh = None" by (cases fs; auto)+
    then have "timer_rep (tm p) xs []" using rep(1) by simp
    then have "tmr_create (Some now) (0, 0, 0) now ?fresh pr cd (word_of_int us) per (tm p) = Some (None, tm p)"
      unfolding n(2) by (rule tmr_create_fail)
    then show ?thesis using run p p2 by (intro exI [of _ None] exI [of _ "p2\<lparr>heap_top := heap_top p2 + 1\<rparr>"]) (auto simp: pending_def)
  next
    case (Some t)
    have fresh: "theap (tm p) b = None" if "?fresh = Some b" for b using that free by (auto split: if_splits)
    obtain m ys where m: "tmr_create (Some now) (0, 0, 0) now ?fresh pr cd (word_of_int us) per (tm p) = Some (Some t, m)"
        "timer_rep m ys (tl fs)" "timers_sorted m ys" "set ys = insert t (set xs)" "t \<notin> set xs"
        "\<forall>b. b \<noteq> t \<longrightarrow> theap (tm p) b = None \<longrightarrow> theap m b = None"
      using tmr_create_rep [OF rep p1(1) fresh Some] by blast
    have "t \<le> heap_top p2"
    proof (cases fs)
      case Nil
      then show ?thesis using Some by (auto split: if_splits)
    next
      case (Cons f fs')
      then have "theap (tm p) t \<noteq> None" using timer_rep_dom [OF rep(1), of t] Some by auto
      then show ?thesis using p p2(2) by (metis pending_def linorder_le_cases)
    qed
    then have "pending (p2\<lparr>tm := m, heap_top := heap_top p2 + 1\<rparr>) ys (tl fs)"
      using m(2,3,6) p p2 by (auto simp: pending_def)
    then show ?thesis using run m(1,4,5) p2
      by (intro exI [of _ "Some t"] exI [of _ "p2\<lparr>tm := m, heap_top := heap_top p2 + 1\<rparr>"] exI [of _ ys] exI [of _ "tl fs"]) simp
  qed
qed

text \<open>Keeping it makes it one of the test's own.\<close>

lemma create_timer_owned:
  assumes p: "timers_owned p" and K: "clock_ok K" and now: "\<And>now. nowP = Some now \<Longrightarrow> time_ok now"
    and own: "own_timers (test p) = as @ bs" and keep: "\<And>a. own_timers (keep a (test p)) = as @ opt_list a @ bs"
  shows "\<exists>a p'. create_timer K nowP pr cd us per p = Some (a, p') \<and> test p' = test p \<and> timers_owned (upd (keep a) p')"
proof -
  obtain xs fs where xs: "pending p xs fs" "distinct (own_timers (test p))" "set xs = set (own_timers (test p))"
    using p by (auto simp: timers_owned_def)
  obtain a p' ys gs where a: "create_timer K nowP pr cd us per p = Some (a, p')" "test p' = test p" "pending p' ys gs"
      "set ys = set (opt_list a @ xs)" "set (opt_list a) \<inter> set xs = {}"
    using create_timer_pending [OF xs(1) K now] by blast
  have "pending (upd (keep a) p') ys gs" using a(3) by (simp add: pending_def prog_run)
  moreover have "own_timers (test (upd (keep a) p')) = as @ opt_list a @ bs" using a(2) keep by (simp add: prog_run)
  moreover have "distinct (as @ opt_list a @ bs)"
    using xs(2,3) a(5) own by (auto simp: opt_list_def split: option.splits)
  moreover have "set ys = set (as @ opt_list a @ bs)" using a(4) xs(3) own by auto
  ultimately show ?thesis using a(1,2) unfolding timers_owned_def by metis
qed

lemma start_timer_owned:
  assumes p: "timers_owned p" and K: "clock_ok K" and now: "time_ok now"
    and own: "own_timers (test p) = as @ bs" and keep: "\<And>a. own_timers (keep a (test p)) = as @ opt_list a @ bs"
  shows "\<exists>r a p'. start_timer K now pr us per keep p = Some (r, p') \<and> test p' = keep a (test p) \<and> timers_owned p'"
proof -
  obtain a p' where a: "create_timer K (Some now) pr 0 us per p = Some (a, p')" "test p' = test p" "timers_owned (upd (keep a) p')"
    using create_timer_owned [where nowP = "Some now" and keep = keep, OF p K _ own keep] now by blast
  define q where "q = upd (keep a) p'"
  have "test q = keep a (test p)" "timers_owned q" "timers_owned (set_err IEINITTEST q)"
    using a(2,3) by (simp_all add: q_def prog_run timers_owned_def pending_def)
  moreover have "start_timer K now pr us per keep p = (if a = None then err IEINITTEST q else Some (0, q))"
    using a(1) by (simp add: start_timer_def q_def)
  ultimately show ?thesis by (cases a) (auto simp: err_def prog_run intro!: exI [of _ a])
qed

text \<open>Nothing of the test's timers has changed.\<close>

definition same_timers :: "'w prog \<Rightarrow> 'w prog \<Rightarrow> bool" where
  "same_timers p p' \<longleftrightarrow> tm p' = tm p \<and> heap_top p' = heap_top p \<and> own_timers (test p') = own_timers (test p)"

lemma same_timers_owned: "same_timers p p' \<Longrightarrow> timers_owned p \<Longrightarrow> timers_owned p'"
  by (simp add: same_timers_def timers_owned_def pending_def)

lemma same_timers_trans: "same_timers p p' \<Longrightarrow> same_timers p' p'' \<Longrightarrow> same_timers p p''"
  by (simp add: same_timers_def)

lemma same_timers_refl [simp]: "same_timers p p" "same_timers p (do_sys m p)" "same_timers p (set_err e p)"
  by (simp_all add: same_timers_def prog_run)

lemma same_timers_upd: "own_timers (f (test p)) = own_timers (test p) \<Longrightarrow> same_timers p (upd f p)"
  by (simp add: same_timers_def prog_run)

lemma same_timers_on_sys: "on_sys m p = (x, p') \<Longrightarrow> same_timers p p'"
  by (auto simp: same_timers_def dest: on_sys_parts(1-3))

lemma restore_listener_timers:
  "\<exists>r p'. restore_listener K p = Some (r, p') \<and> same_timers p p' \<and> (r = 0 \<or> r = -1)"
proof -
  let ?t = "test p"
  define q where "q = upd (\<lambda>t. t\<lparr>listener := 0\<rparr>) (do_sys (sys_close K (listener ?t)) (upd (\<lambda>t. t\<lparr>read_set := FD_CLR (listener t) (read_set t)\<rparr>) p))"
  obtain s q' where s: "on_sys (netannounce K (domain (settings ?t)) Ptcp (bind_address ?t) (server_port ?t)) q = (s, q')" by force
  have "same_timers p q" by (simp add: q_def same_timers_def prog_run own_timers_def)
  then have q': "same_timers p q'" using same_timers_on_sys [OF s] same_timers_trans by blast
  have w: "same_timers q' (upd (\<lambda>t. watch s False (t\<lparr>listener := s\<rparr>)) q')"
    by (rule same_timers_upd) (simp add: own_timers_def watch_def Let_def)
  show ?thesis using s q' same_timers_trans [OF q' w]
    by (auto simp: restore_listener_def Let_def q_def [symmetric] same_timers_def prog_run own_timers_def)
qed

lemma send_state_timers: "\<exists>r p'. send_state K st p = Some (r, p') \<and> same_timers p p' \<and> (r = 0 \<or> r = -1)"
proof -
  obtain r p' where r: "on_test (iperf_set_send_state K st) p = (r, p')" by force
  then have "tm p' = tm p" "heap_top p' = heap_top p" by (auto simp: on_test_def split: prod.splits)
  moreover have "test p' = (test p)\<lparr>state := st\<rparr>" using r by (auto simp: on_test_def split: prod.splits dest!: set_send_state_eq)
  ultimately show ?thesis using r by (auto simp: send_state_def same_timers_def own_timers_def)
qed

section \<open>The timers of a test\<close>

text \<open>A step that returns, in a state with \<open>Q\<close>.\<close>

definition runs :: "(int \<times> 'w prog) option \<Rightarrow> ('w prog \<Rightarrow> bool) \<Rightarrow> bool" where
  "runs x Q \<longleftrightarrow> (\<exists>r p. x = Some (r, p) \<and> Q p)"

lemma runs_simps [simp]: "runs (Some (r, p)) Q = Q p" "runs (err e p) Q = Q (set_err e p)"
  by (auto simp: runs_def err_def)

lemma runs_mono: "runs x P \<Longrightarrow> (\<And>p. P p \<Longrightarrow> Q p) \<Longrightarrow> runs x Q"
  by (auto simp: runs_def)

lemma runs_and_then: "runs x P \<Longrightarrow> (\<And>p. P p \<Longrightarrow> Q p) \<Longrightarrow> (\<And>p. P p \<Longrightarrow> runs (f p) Q) \<Longrightarrow> runs (and_then x f) Q"
  by (auto simp: runs_def and_then_eq_Some split: if_splits) (metis (full_types))

text \<open>The slots of the test that hold no timer.\<close>

definition free_slots :: "bool \<Rightarrow> bool \<Rightarrow> bool \<Rightarrow> bool \<Rightarrow> bool \<Rightarrow> 'w prog \<Rightarrow> bool" where
  "free_slots om te st re se p \<longleftrightarrow> timers_owned p \<and> (om \<longrightarrow> omit_timer (test p) = None) \<and> (te \<longrightarrow> test_timer (test p) = None) \<and>
     (st \<longrightarrow> stats_timer (test p) = None) \<and> (re \<longrightarrow> reporter_timer (test p) = None) \<and> (se \<longrightarrow> send_timer_list (streams (test p)) = [])"

lemma free_slots_same:
  assumes "free_slots om te st re se p" "tm p' = tm p" "heap_top p' = heap_top p"
    "omit_timer (test p') = omit_timer (test p)" "test_timer (test p') = test_timer (test p)" "stats_timer (test p') = stats_timer (test p)"
    "reporter_timer (test p') = reporter_timer (test p)" "send_timer_list (streams (test p')) = send_timer_list (streams (test p))"
  shows "free_slots om te st re se p'"
  using assms by (simp add: free_slots_def timers_owned_def pending_def own_timers_def)

lemma free_slots_set_err [simp]: "free_slots om te st re se (set_err e p) = free_slots om te st re se p"
  by (simp add: free_slots_def timers_owned_def pending_def prog_run)

lemma free_slots_owned: "free_slots om te st re se p \<Longrightarrow> timers_owned p"
  by (simp add: free_slots_def)

lemma start_test_timer_slots:
  assumes "free_slots om True st re se p" "clock_ok K" "time_ok now"
  shows "runs (start_timer K now pr us per (\<lambda>a t. t\<lparr>test_timer := a\<rparr>) p) (free_slots om False st re se)"
  using assms(1) start_timer_owned [where keep = "\<lambda>a t. t\<lparr>test_timer := a\<rparr>" and as = "opt_list (omit_timer (test p))"
      and bs = "opt_list (stats_timer (test p)) @ opt_list (reporter_timer (test p)) @ send_timer_list (streams (test p))", OF free_slots_owned [OF assms(1)] assms(2,3), of pr us per]
  by (auto simp: free_slots_def own_timers_def runs_def)

lemma start_stats_timer_slots:
  assumes "free_slots om te True re se p" "clock_ok K" "time_ok now"
  shows "runs (start_timer K now pr us per (\<lambda>a t. t\<lparr>stats_timer := a\<rparr>) p) (free_slots om te False re se)"
  using assms(1) start_timer_owned [where keep = "\<lambda>a t. t\<lparr>stats_timer := a\<rparr>" and as = "opt_list (omit_timer (test p)) @ opt_list (test_timer (test p))"
      and bs = "opt_list (reporter_timer (test p)) @ send_timer_list (streams (test p))", OF free_slots_owned [OF assms(1)] assms(2,3), of pr us per]
  by (auto simp: free_slots_def own_timers_def runs_def)

lemma start_reporter_timer_slots:
  assumes "free_slots om te st True se p" "clock_ok K" "time_ok now"
  shows "runs (start_timer K now pr us per (\<lambda>a t. t\<lparr>reporter_timer := a\<rparr>) p) (free_slots om te st False se)"
  using assms(1) start_timer_owned [where keep = "\<lambda>a t. t\<lparr>reporter_timer := a\<rparr>"
      and as = "opt_list (omit_timer (test p)) @ opt_list (test_timer (test p)) @ opt_list (stats_timer (test p))"
      and bs = "send_timer_list (streams (test p))", OF free_slots_owned [OF assms(1)] assms(2,3), of pr us per]
  by (auto simp: free_slots_def own_timers_def runs_def)

lemma start_omit_timer_slots:
  assumes "free_slots True te st re se p" "clock_ok K" "time_ok now"
  shows "runs (start_timer K now pr us per (\<lambda>a t. t\<lparr>omit_timer := a\<rparr>) p) (free_slots False te st re se)"
  using assms(1) start_timer_owned [where keep = "\<lambda>a t. t\<lparr>omit_timer := a\<rparr>" and as = "[]"
      and bs = "opt_list (test_timer (test p)) @ opt_list (stats_timer (test p)) @ opt_list (reporter_timer (test p)) @ send_timer_list (streams (test p))",
      OF free_slots_owned [OF assms(1)] assms(2,3), of pr us per]
  by (auto simp: free_slots_def own_timers_def runs_def)

lemma free_slots_weaken: "free_slots om te st re se p \<Longrightarrow> free_slots (om \<and> a) (te \<and> b) (st \<and> c) (re \<and> d) (se \<and> e) p"
  by (simp add: free_slots_def)

lemma create_timers_slots:
  fixes p :: "'w prog"
  assumes "free_slots True True True True True p" "clock_ok K"
  shows "runs (create_timers K e st rp grace p) (free_slots True False False False True)"
proof -
  obtain r now p1 where 1: "on_sys (sys_time_now K) p = ((r, now), p1)" by (metis prod.collapse)
  note ok = time_now_ok [OF assms(2) 1]
  define p2 where "p2 = upd (\<lambda>t. t\<lparr>test_timer := None, stats_timer := None, reporter_timer := None\<rparr>) p1"
  define t where "t = test p2"
  have s2: "free_slots True True True True True p2"
    by (rule free_slots_same [OF assms(1)]) (use assms(1) ok in \<open>simp_all add: p2_def prog_run free_slots_def\<close>)
  have s2': "free_slots True True True True True (upd (\<lambda>t. t\<lparr>test_done := 0\<rparr>) p2)"
    by (rule free_slots_same [OF s2]) (simp_all add: prog_run)
  have run: "create_timers K e st rp grace p =
           and_then (if duration t \<noteq> 0 then
               start_timer K now e (to_int32 (duration t + omit t + grace) * SEC_TO_US) 0 (\<lambda>a t. t\<lparr>test_timer := a\<rparr>)
                 (upd (\<lambda>t. t\<lparr>test_done := 0\<rparr>) p2)
             else Some (0, p2)) (\<lambda>p.
           and_then (if stats_interval t \<noteq> 0 then
               start_timer K now st (us_of (stats_interval t)) 1 (\<lambda>a t. t\<lparr>stats_timer := a\<rparr>) p
             else Some (0, p)) (\<lambda>p.
           if reporter_interval t \<noteq> 0 then
             start_timer K now rp (us_of (reporter_interval t)) 1 (\<lambda>a t. t\<lparr>reporter_timer := a\<rparr>) p
           else Some (0, p)))"
    unfolding create_timers_def 1 prod.case ok(1) Let_def p2_def [symmetric] t_def by simp
  show ?thesis unfolding run
  proof (rule runs_and_then [where P = "free_slots True False True True True"])
    show "runs (if duration t \<noteq> 0 then start_timer K now e (to_int32 (duration t + omit t + grace) * SEC_TO_US) 0 (\<lambda>a t. t\<lparr>test_timer := a\<rparr>)
        (upd (\<lambda>t. t\<lparr>test_done := 0\<rparr>) p2) else Some (0, p2)) (free_slots True False True True True)"
      using start_test_timer_slots [OF s2' assms(2) ok(2)] free_slots_weaken [OF s2, of True False True True True] by simp
  next
    fix q :: "'w prog"
    assume q: "free_slots True False True True True q"
    show "runs (and_then (if stats_interval t \<noteq> 0 then start_timer K now st (us_of (stats_interval t)) 1 (\<lambda>a t. t\<lparr>stats_timer := a\<rparr>) q
             else Some (0, q)) (\<lambda>p. if reporter_interval t \<noteq> 0 then start_timer K now rp (us_of (reporter_interval t)) 1 (\<lambda>a t. t\<lparr>reporter_timer := a\<rparr>) p
           else Some (0, p))) (free_slots True False False False True)"
      by (rule runs_and_then [where P = "free_slots True False False True True"])
         (use start_stats_timer_slots [OF q assms(2) ok(2)] start_reporter_timer_slots [OF _ assms(2) ok(2)] q in
           \<open>auto dest: free_slots_weaken [of True False True True True _ True True False True True]
              free_slots_weaken [of True False False True True _ True True True False True]\<close>)
  qed (use free_slots_weaken [of True False True True True _ True True False False True] in simp)
qed

lemma create_omit_timer_slots:
  assumes "free_slots True te st re se p" "clock_ok K"
  shows "runs (create_omit_timer K pr p) (free_slots False te st re se)"
proof (cases "omit (test p) = 0")
  case True
  have "free_slots True te st re se (upd (\<lambda>t. t\<lparr>omit_timer := None, omitting := 0\<rparr>) p)"
    by (rule free_slots_same [OF assms(1)]) (use assms(1) in \<open>simp_all add: prog_run free_slots_def\<close>)
  then show ?thesis using True free_slots_weaken [of True te st re se _ False True True True True] by (simp add: create_omit_timer_def)
next
  case False
  obtain r now p1 where 1: "on_sys (sys_time_now K) p = ((r, now), p1)" by (metis prod.collapse)
  note ok = time_now_ok [OF assms(2) 1]
  have "free_slots True te st re se (upd (\<lambda>t. t\<lparr>omitting := 1\<rparr>) p1)"
    by (rule free_slots_same [OF assms(1)]) (simp_all add: prog_run ok)
  from start_omit_timer_slots [OF this assms(2) ok(2)] show ?thesis using False 1 ok(1) by (simp add: create_omit_timer_def)
qed

text \<open>The pacing timers of the streams: those of \<open>is\<close> have none yet.\<close>

lemma send_timer_list_append: "send_timer_list (xs @ ys) = send_timer_list xs @ send_timer_list ys"
  by (simp add: send_timer_list_def)

lemma send_timer_list_update:
  assumes "i < length sps" "send_timer (sps ! i) = None"
  shows "\<exists>as bs. send_timer_list sps = as @ bs \<and> (\<forall>sp. send_timer_list (sps[i := sp]) = as @ opt_list (send_timer sp) @ bs)"
proof -
  have "sps = take i sps @ sps ! i # drop (Suc i) sps" by (rule id_take_nth_drop [OF assms(1)])
  then have "send_timer_list sps = send_timer_list (take i sps) @ opt_list (send_timer (sps ! i)) @ send_timer_list (drop (Suc i) sps)"
    by (metis send_timer_list_append send_timer_list_simps(2))
  then show ?thesis using assms by (auto simp: upd_conv_take_nth_drop send_timer_list_append)
qed

lemma send_timers_owned:
  assumes "timers_owned p" "clock_ok K" "distinct is" "\<forall>i \<in> set is. i < length (streams (test p)) \<and> send_timer (streams (test p) ! i) = None"
  shows "runs (send_timers K is p) timers_owned"
  using assms
proof (induction "is" arbitrary: p)
  case (Cons i "is")
  define p1 where "p1 = upd (\<lambda>t. t\<lparr>streams := (streams t)[i := (streams t ! i)\<lparr>green_light := 1\<rparr>]\<rparr>) p"
  have i: "i < length (streams (test p1))" "send_timer (streams (test p1) ! i) = None" using Cons.prems(4) by (simp_all add: p1_def prog_run)
  obtain as bs where "send_timer_list (streams (test p)) = as @ bs" "\<forall>sp. send_timer_list ((streams (test p))[i := sp]) = as @ opt_list (send_timer sp) @ bs"
    using send_timer_list_update [of i "streams (test p)"] Cons.prems(4) by auto
  then have "own_timers (test p1) = own_timers (test p)" using Cons.prems(4) by (simp add: p1_def prog_run own_timers_def)
  then have own1: "timers_owned p1" using Cons.prems(1) by (simp add: timers_owned_def pending_def p1_def prog_run)
  have rest: "\<forall>j \<in> set is. j < length (streams (test q)) \<and> send_timer (streams (test q) ! j) = None"
    if "streams (test q) = (streams (test p1))[i := sp]" for q :: "'a prog" and sp
    using Cons.prems(3,4) that by (auto simp: p1_def prog_run nth_list_update)
  show ?case
  proof (cases "rate (settings (test p1)) = 0")
    case True
    have "streams (test p1) = (streams (test p1))[i := streams (test p1) ! i]" by simp
    from Cons.IH [OF own1 Cons.prems(2) _ rest [OF this]] Cons.prems(3) True show ?thesis by (simp add: p1_def)
  next
    case False
    define keep where "keep = (\<lambda>a t. t\<lparr>streams := (streams t)[i := (streams t ! i)\<lparr>send_timer := a\<rparr>]\<rparr> :: iperf_test)"
    obtain as bs where s: "send_timer_list (streams (test p1)) = as @ bs" "\<forall>sp. send_timer_list ((streams (test p1))[i := sp]) = as @ opt_list (send_timer sp) @ bs"
      using send_timer_list_update [OF i] by blast
    let ?as = "opt_list (omit_timer (test p1)) @ opt_list (test_timer (test p1)) @ opt_list (stats_timer (test p1)) @ opt_list (reporter_timer (test p1)) @ as"
    have o1: "own_timers (test p1) = ?as @ bs" "own_timers (keep a (test p1)) = ?as @ opt_list a @ bs" for a
      using s by (simp_all add: own_timers_def keep_def)
    obtain a p2 where c: "create_timer K None send_timer_proc (stream_addr (streams (test p1) ! i)) (pacing_timer (settings (test p1))) 1 p1 = Some (a, p2)"
        "test p2 = test p1" "timers_owned (upd (keep a) p2)"
      using create_timer_owned [where nowP = None and keep = keep, OF own1 Cons.prems(2) _ o1] by blast
    define q where "q = upd (keep a) p2"
    have run: "send_timers K (i # is) p = (if a = None then err IEINITTEST q else send_timers K is q)"
      using False c(1) by (simp add: p1_def [symmetric] q_def keep_def)
    have "streams (test q) = (streams (test p1))[i := (streams (test p1) ! i)\<lparr>send_timer := a\<rparr>]" using c(2) by (simp add: q_def keep_def prog_run)
    then have "runs (send_timers K is q) timers_owned" using Cons.IH [OF _ Cons.prems(2) _ rest] c(3) Cons.prems(3) by (simp add: q_def)
    moreover have "timers_owned (set_err IEINITTEST q)" using c(3) by (simp add: q_def timers_owned_def pending_def prog_run)
    ultimately show ?thesis unfolding run by simp
  qed
qed simp

lemma free_slots_all: "free_slots True True True True True p \<longleftrightarrow> timers_owned p \<and> own_timers (test p) = []"
  by (auto simp: free_slots_def own_timers_def opt_list_def split: option.splits)

lemma same_timers_slots: "same_timers p p' \<Longrightarrow> free_slots True True True True True p \<Longrightarrow> free_slots True True True True True p'"
  using same_timers_owned [of p p'] by (simp add: free_slots_all same_timers_def)

lemma send_timer_list_none: "send_timer_list sps = [] \<Longrightarrow> i < length sps \<Longrightarrow> send_timer (sps ! i) = None"
  using nth_mem [of i sps] by (auto simp: send_timer_list_def opt_list_def split: option.splits)

lemma create_send_timers_owned:
  assumes "free_slots False False False False True p" "clock_ok K"
  shows "runs (iperf_create_send_timers K p) timers_owned"
proof -
  obtain r now p1 where 1: "on_sys (sys_time_now K) p = ((r, now), p1)" by (metis prod.collapse)
  note ok = time_now_ok [OF assms(2) 1]
  have p1: "timers_owned p1" "send_timer_list (streams (test p1)) = []"
    using assms(1) ok by (auto simp: free_slots_def timers_owned_def pending_def)
  have "runs (send_timers K [0..<length (streams (test p1))] p1) timers_owned"
    by (rule send_timers_owned [OF p1(1) assms(2)]) (use send_timer_list_none [OF p1(2)] in auto)
  then show ?thesis using 1 ok(1) by (simp add: iperf_create_send_timers_def)
qed

lemma init_test_timers:
  assumes "on_test (iperf_init_test K) p = (r, p')" shows "same_timers p p'"
proof -
  have stl: "send_timer_list (map f sps) = send_timer_list sps" if "\<And>sp. send_timer (f sp) = send_timer sp" for f sps
    using that by (simp add: send_timer_list_def comp_def)
  show ?thesis using assms
    by (auto simp: on_test_def same_timers_def iperf_init_test_def own_timers_def stl sys_run split: prod.splits if_splits)
qed

lemma start_test_owned:
  fixes p :: "'w prog"
  assumes "timers_owned p" "own_timers (test p) = []" "clock_ok K"
  shows "runs (start_test K p) timers_owned"
proof -
  note weak = free_slots_weaken [of True True True True True]
  obtain r1 p1 where 1: "restore_listener K p = Some (r1, p1)" "same_timers p p1" using restore_listener_timers by blast
  define p2 where "p2 = upd (\<lambda>t. t\<lparr>prot_listener := -1\<rparr>) p1"
  have s2: "same_timers p p2" using 1(2) by (simp add: p2_def same_timers_def prog_run own_timers_def)
  have "free_slots True True True True True p" using assms(1,2) by (simp add: free_slots_all)
  note f = same_timers_slots [OF s2 this]
  define g where "g = (\<lambda>p. and_then (if mode (test p) \<noteq> RECEIVER then iperf_create_send_timers K p else Some (0, p)) (\<lambda>p. send_state K TEST_RUNNING p))"
  have last: "runs (send_state K TEST_RUNNING q) timers_owned" if "timers_owned q" for q :: "'w prog"
    using send_state_timers [of K TEST_RUNNING q] same_timers_owned [OF _ that] by (auto simp: runs_def)
  have g: "runs (g q) timers_owned" if "free_slots False False False False True q" for q :: "'w prog"
    unfolding g_def
    by (rule runs_and_then [where P = timers_owned]) (use create_send_timers_owned [OF that assms(3)] free_slots_owned [OF that] last in auto)
  have h: "runs (and_then (create_server_timers K q) (\<lambda>p. and_then (create_server_omit_timer K p) g)) timers_owned"
    if "free_slots True True True True True q" for q :: "'w prog"
  proof (rule runs_and_then)
    show "runs (create_server_timers K q) (free_slots True False False False True)"
      unfolding create_server_timers_def Let_def by (rule create_timers_slots [OF that assms(3)])
  next
    fix q' :: "'w prog" assume q': "free_slots True False False False True q'"
    show "runs (and_then (create_server_omit_timer K q') g) timers_owned"
      unfolding create_server_omit_timer_def
      by (rule runs_and_then [OF create_omit_timer_slots [OF q' assms(3)] free_slots_owned g])
  qed (rule free_slots_owned)
  have k: "runs (and_then (Some (on_test (iperf_init_test K) q)) (\<lambda>p. and_then (create_server_timers K p) (\<lambda>p. and_then (create_server_omit_timer K p) g))) timers_owned"
    if "free_slots True True True True True q" for q :: "'w prog"
  proof -
    obtain r q' where q': "on_test (iperf_init_test K) q = (r, q')" by force
    show ?thesis unfolding q'
      by (rule runs_and_then [where P = "free_slots True True True True True", OF _ free_slots_owned h])
         (simp_all add: same_timers_slots [OF init_test_timers [OF q'] that])
  qed
  have "runs (and_then (send_state K TEST_START p2) (\<lambda>p. and_then (Some (on_test (iperf_init_test K) p)) (\<lambda>p.
       and_then (create_server_timers K p) (\<lambda>p. and_then (create_server_omit_timer K p) g)))) timers_owned"
    by (rule runs_and_then [where P = "free_slots True True True True True", OF _ free_slots_owned k])
       (use send_state_timers [of K TEST_START p2] same_timers_slots [OF _ f] in \<open>auto simp: runs_def\<close>)
  moreover have "timers_owned p1" using 1(2) assms(1) same_timers_owned by blast
  ultimately show ?thesis using 1(1) by (simp add: start_test_def p2_def g_def)
qed

section \<open>Cleaning up\<close>

lemma cleanup_server_owned:
  assumes "timers_owned p"
  shows "\<exists>p'. cleanup_server K p = Some p' \<and> timers_owned p' \<and> i_errno (psys p') = i_errno (psys p) \<and>
    test p' = (test p)\<lparr>stats_timer := None, reporter_timer := None, omit_timer := None, congestion_used := None, test_timer := None\<rparr> \<and>
    elog (psys p') = elog (psys p) @ (if ctrl_sck (test p) \<noteq> 0 then [Closed (ctrl_sck (test p))] else []) @
      (if listener (test p) \<noteq> 0 then [Closed (listener (test p))] else [])"
proof -
  define p1 where "p1 = (if ctrl_sck (test p) \<noteq> 0 then do_sys (sys_close K (ctrl_sck (test p))) p else p)"
  define p2 where "p2 = (if listener (test p1) \<noteq> 0 then do_sys (sys_close K (listener (test p1))) p1 else p1)"
  have close_i: "i_errno (snd (run_state (sys_close K fd) st)) = i_errno st" for fd and st :: "'a sys"
    by (auto simp: sys_close_def syscall_def sys_run split: prod.splits sysret.splits)
  have p1: "test p1 = test p" "elog (psys p1) = elog (psys p) @ (if ctrl_sck (test p) \<noteq> 0 then [Closed (ctrl_sck (test p))] else [])"
      "same_timers p p1" "i_errno (psys p1) = i_errno (psys p)"
    by (simp_all add: p1_def prog_run close_i)
  have p2: "test p2 = test p" "elog (psys p2) = elog (psys p1) @ (if listener (test p) \<noteq> 0 then [Closed (listener (test p))] else [])"
      "same_timers p1 p2" "i_errno (psys p2) = i_errno (psys p)"
    using p1 by (simp_all add: p2_def prog_run close_i)
  have o2: "timers_owned p2" using assms p1(3) p2(3) same_timers_owned by blast
  obtain p3 where p3: "drop_stats_timer p2 = Some p3" "timers_owned p3" "test p3 = (test p2)\<lparr>stats_timer := None\<rparr>" "psys p3 = psys p2"
    using drop_stats_owned [OF o2] by blast
  obtain p4 where p4: "drop_reporter_timer p3 = Some p4" "timers_owned p4" "test p4 = (test p3)\<lparr>reporter_timer := None\<rparr>" "psys p4 = psys p3"
    using drop_reporter_owned [OF p3(2)] by blast
  obtain p5 where p5: "drop_omit_timer p4 = Some p5" "timers_owned p5" "test p5 = (test p4)\<lparr>omit_timer := None\<rparr>" "psys p5 = psys p4"
    using drop_omit_owned [OF p4(2)] by blast
  define p6 where "p6 = upd (\<lambda>t. t\<lparr>congestion_used := None\<rparr>) p5"
  have "same_timers p5 p6" unfolding p6_def by (rule same_timers_upd) (simp add: own_timers_def)
  then have o6: "timers_owned p6" using p5(2) same_timers_owned by blast
  obtain p7 where p7: "drop_test_timer p6 = Some p7" "timers_owned p7" "test p7 = (test p6)\<lparr>test_timer := None\<rparr>" "psys p7 = psys p6"
    using drop_test_owned [OF o6] by blast
  have "cleanup_server K p = Some p7"
    using p3(1) p4(1) p5(1) p7(1) by (simp add: cleanup_server_def p1_def [symmetric] p2_def [symmetric] p6_def [symmetric])
  moreover have "psys p7 = psys p2" by (simp add: p3(4) p4(4) p5(4) p7(4) p6_def prog_run)
  moreover have "test p7 = (test p)\<lparr>stats_timer := None, reporter_timer := None, omit_timer := None, congestion_used := None, test_timer := None\<rparr>"
    by (simp add: p7(3) p6_def prog_run p5(3) p4(3) p3(3) p2(1))
  ultimately show ?thesis using p7(2) p1(2) p2(2,4) by (intro exI [of _ p7]) simp
qed

section \<open>One byte, and waiting\<close>

lemma wait_select_timers:
  assumes "wait_select K now p = Some (x, now', p')" shows "tm p' = tm p" "heap_top p' = heap_top p"
proof -
  obtain y n p1 where n: "on_sys (sys_time_into K now) p = ((y, n), p1)" by (metis prod.collapse)
  obtain tmo where tmo: "tmr_timeout (Some n) (0, 0, 0) n (tm p1) = Some tmo"
    using assms n by (cases "tmr_timeout (Some n) (0, 0, 0) n (tm p1)") (auto simp: wait_select_def)
  obtain r p2 where r: "on_sys (sys_select K (max_fd (test p1) + 1) (read_set (test p1)) (write_set (test p1)) tmo) p1 = (r, p2)" by (metis prod.collapse)
  show "tm p' = tm p" "heap_top p' = heap_top p"
    using assms n tmo r on_sys_parts(2,3) [OF n] on_sys_parts(2,3) [OF r] by (simp_all add: wait_select_def)
qed

lemma in_order_byte:
  assumes "in_order K fd inp" "inp w = b # rest"
  shows "\<exists>w'. k_read K fd 1 w = (Ok [b], w') \<and> inp w' = rest"
proof -
  obtain k w' where "0 < k" "k \<le> 1" "k_read K fd 1 w = (Ok (take k (inp w)), w')" "inp w' = drop k (inp w)"
    using assms unfolding in_order_def by (metis less_numeral_extra(1) list.distinct(1))
  moreover have "k = 1" using calculation(1,2) by simp
  ultimately show ?thesis using assms(2) by simp
qed

section \<open>Properties\<close>

text \<open>
  (C8) The server's timers live as long as its test. Starting a test without timers returns, with
  success or an error, and the pending timers are then exactly those the test and its streams
  keep; cleaning up and resetting, as the server does on every way out, also return, and no timer
  is left pending and no stream is left in the test.
\<close>

theorem server_round_releases_timers:
  assumes "timers_owned p" "own_timers (test p) = []" "clock_ok K"
  shows "\<exists>r p1 p2 p3 gs. start_test K p = Some (r, p1) \<and> timers_owned p1 \<and> cleanup_server K p1 = Some p2 \<and>
    iperf_reset_test K p2 = Some p3 \<and> pending p3 [] gs \<and> own_timers (test p3) = [] \<and> streams (test p3) = []"
proof -
  obtain r p1 where 1: "start_test K p = Some (r, p1)" "timers_owned p1" using start_test_owned [OF assms] by (auto simp: runs_def)
  obtain p2 where 2: "cleanup_server K p1 = Some p2" "timers_owned p2" using cleanup_server_owned [OF 1(2)] by blast
  obtain p3 gs where 3: "iperf_reset_test K p2 = Some p3" "pending p3 [] gs"
      "test p3 = reset_fields ((test p2)\<lparr>omit_timer := None, test_timer := None, stats_timer := None, reporter_timer := None\<rparr>)"
    using iperf_reset_test_owned [OF 2(2)] by blast
  have "own_timers (test p3) = []" "streams (test p3) = []"
    by (simp_all add: 3(3) reset_fields_def set_protocol_def check_sender_has_retransmits_def own_timers_def Let_def split: option.split)
  then show ?thesis using 1 2(1) 3(1,2) by blast
qed

lemma sample_waiting_free: "timers_owned sample_waiting" "own_timers (test sample_waiting) = []" "clock_ok eager_kernel"
proof -
  have "pending sample_waiting [] []"
    by (simp add: pending_def timer_rep_def timers_sorted_def sample_waiting_def sample_caller_def)
  moreover show "own_timers (test sample_waiting) = []" by (simp add: own_timers_def sample_waiting_def sample_test_defs)
  ultimately show "timers_owned sample_waiting" unfolding timers_owned_def by (metis distinct.simps(1))
  show "clock_ok eager_kernel" by (simp add: clock_ok_def eager_kernel_def sample_kernel_def)
qed

theorem server_round_releases_timers_witness:
  "\<exists>r p1 p2 p3 gs. start_test eager_kernel sample_waiting = Some (r, p1) \<and> test_timer (test p1) \<noteq> None \<and>
     cleanup_server eager_kernel p1 = Some p2 \<and> iperf_reset_test eager_kernel p2 = Some p3 \<and> pending p3 [] gs"
proof -
  obtain r p1 p2 p3 gs where *: "start_test eager_kernel sample_waiting = Some (r, p1)" "cleanup_server eager_kernel p1 = Some p2"
      "iperf_reset_test eager_kernel p2 = Some p3" "pending p3 [] gs"
    using server_round_releases_timers [OF sample_waiting_free] by blast
  have "map_option (\<lambda>(r, p). test_timer (test p) \<noteq> None) (start_test eager_kernel sample_waiting) = Some True" by code_simp
  then show ?thesis using * by auto
qed

text \<open>
  (C9) A client that finds the server busy is turned away and told so. The server accepts, sends the
  one byte \<open>ACCESS_DENIED\<close>, closes the connection, and changes neither its test nor its timers; the
  other client, reading that byte, gives up with \<open>IEACCESSDENIED\<close>.
\<close>

theorem busy_server_denies:
  assumes "ctrl_sck (test p) \<noteq> -1" "k_accept K (listener (test p)) (world (psys p)) = (Ok s, w)" "takes_all K s"
    and "in_order K' (ctrl_sck (test q)) inp" "inp (world (psys q)) = state_byte ACCESS_DENIED # rest"
  shows "\<exists>p'. iperf_accept K p = Some (0, p') \<and> test p' = test p \<and> tm p' = tm p \<and> i_errno (psys p') = i_errno (psys p) \<and>
    elog (psys p') = elog (psys p) @ [Opened s, Wrote s [state_byte ACCESS_DENIED], Closed s] \<and>
    (\<exists>w'. iperf_handle_message_client K' J q = Some (-1, q\<lparr>test := (test q)\<lparr>state := ACCESS_DENIED\<rparr>,
        psys := (psys q)\<lparr>world := w', i_errno := IEACCESSDENIED\<rparr>\<rparr>) \<and> inp w' = rest)"
proof -
  let ?b = "[state_byte ACCESS_DENIED]"
  obtain n w2 where n: "0 < n" "n \<le> length ?b" "k_write K s ?b w = (Ok n, w2)"
    using assms(3) [unfolded takes_all_def, rule_format, of ?b w] by blast
  define p1 where "p1 = p\<lparr>psys := (psys p)\<lparr>world := w, elog := elog (psys p) @ [Opened s]\<rparr>\<rparr>"
  define p2 where "p2 = p\<lparr>psys := (psys p)\<lparr>world := w2, elog := elog (psys p) @ [Opened s, Wrote s ?b]\<rparr>\<rparr>"
  have "on_sys (sys_open (k_accept K (listener (test p)))) p = (Some s, p1)"
    using assms(2) by (simp add: on_sys_def sys_open_def syscall_def sys_run p1_def)
  moreover have "run_state (Nwrite K s ?b) (psys p1) = (1, psys p2)"
    using n by (simp add: Nwrite_def Nwrite_loop.simps syscall_def p1_def p2_def to_int32_def)
  then have "on_sys (Nwrite K s ?b) p1 = (1, p2)" by (simp add: on_sys_def p1_def p2_def)
  ultimately have "iperf_accept K p = Some (0, do_sys (sys_close K s) p2)"
    using assms(1) by (simp add: iperf_accept_def deny_def) (simp add: p1_def)
  moreover have "i_errno (psys (do_sys (sys_close K s) p2)) = i_errno (psys p)"
    by (auto simp: prog_run sys_close_def syscall_def sys_run p2_def split: prod.splits sysret.splits)
  moreover obtain w1 where w1: "k_read K' (ctrl_sck (test q)) 1 (world (psys q)) = (Ok ?b, w1)" "inp w1 = rest"
    using in_order_byte [OF assms(4,5)] by blast
  have "sint (state_byte ACCESS_DENIED) = ACCESS_DENIED" by (simp add: state_byte_def state_defs)
  then have "iperf_handle_message_client K' J q = Some (-1, q\<lparr>test := (test q)\<lparr>state := ACCESS_DENIED\<rparr>,
        psys := (psys q)\<lparr>world := w1, i_errno := IEACCESSDENIED\<rparr>\<rparr>)"
    using w1(1) by (simp add: iperf_handle_message_client_def on_sys_def syscall_def upd_def)
       (simp add: state_defs err_def set_err_def do_sys_eq sys_run)
  ultimately show ?thesis using w1(2) by (intro exI [of _ "do_sys (sys_close K s) p2"]) (auto simp: prog_run p2_def)
qed

theorem busy_server_denies_witness:
  "\<exists>p' w'. iperf_accept sample_kernel (sample_prog\<lparr>test := (test sample_prog)\<lparr>listener := 3\<rparr>\<rparr>) = Some (0, p') \<and>
     elog (psys p') = [Opened 6, Wrote 6 [255], Closed 6] \<and>
     iperf_handle_message_client sample_kernel sample_junk (sample_caller [255]) =
       Some (-1, (sample_caller [255])\<lparr>test := (test (sample_caller [255]))\<lparr>state := ACCESS_DENIED\<rparr>,
         psys := (psys (sample_caller [255]))\<lparr>world := w', i_errno := IEACCESSDENIED\<rparr>\<rparr>)"
proof -
  let ?p = "sample_prog\<lparr>test := (test sample_prog)\<lparr>listener := 3\<rparr>\<rparr>"
  have byte: "state_byte ACCESS_DENIED = 255" by (simp add: state_byte_def state_defs)
  have h: "ctrl_sck (test ?p) \<noteq> -1" "k_accept sample_kernel (listener (test ?p)) (world (psys ?p)) = (Ok 6, [])"
      "world (psys (sample_caller [255])) = state_byte ACCESS_DENIED # []"
    by (simp_all add: sample_prog_def sample_server_def sample_kernel_def sample_sys_def sample_caller_def byte)
  from busy_server_denies [OF h(1,2) sample_takes_all sample_in_order h(3), of sample_junk] show ?thesis
    by (auto simp: byte sample_prog_def sample_sys_def)
qed

text \<open>
  (C39) A second client can end the running test. When it has gone by the time the server wants
  to turn it away, so that the byte cannot be written, the server gives up: it closes the control
  connection of the running test and its listening socket, leaves the socket of the second
  client open, and returns the error \<open>IESENDMESSAGE\<close>.
\<close>

theorem denied_client_aborts_test:
  assumes "timers_owned p" "ctrl_sck (test p) \<noteq> -1" "state (test p) = TEST_RUNNING"
    and "wait_select K (s_now l) p = Some ((result, rs, ws, tmo), nw, p1)" "0 < result" "FD_ISSET (listener (test p)) rs"
    and "k_accept K (listener (test p)) (world (psys p1)) = (Ok s, w)" "k_write K s [state_byte ACCESS_DENIED] w = (Fail e, w')"
    and "e \<notin> {EINTR, EAGAIN}"
  shows "\<exists>p'. server_iter K J l p = Some (Inl (-1), p') \<and> i_errno (psys p') = IESENDMESSAGE \<and> streams (test p') = streams (test p) \<and>
    elog (psys p') = elog (psys p1) @ [Opened s] @ (if ctrl_sck (test p) \<noteq> 0 then [Closed (ctrl_sck (test p))] else []) @
      (if listener (test p) \<noteq> 0 then [Closed (listener (test p))] else [])"
proof -
  define p2 where "p2 = set_err IESENDMESSAGE (p1\<lparr>psys := (psys p1)\<lparr>world := w', errno := e, elog := elog (psys p1) @ [Opened s]\<rparr>\<rparr>)"
  note t1 = wait_select_test [OF assms(4)]
  have "on_sys (sys_open (k_accept K (listener (test p1)))) p1 = (Some s, p1\<lparr>psys := (psys p1)\<lparr>world := w, elog := elog (psys p1) @ [Opened s]\<rparr>\<rparr>)"
    using assms(7) t1 by (simp add: on_sys_def sys_open_def syscall_def sys_run)
  moreover have "\<exists>r<0. run_state (Nwrite K s [state_byte ACCESS_DENIED]) ((psys p1)\<lparr>world := w, elog := elog (psys p1) @ [Opened s]\<rparr>) =
      (r, (psys p1)\<lparr>world := w', errno := e, elog := elog (psys p1) @ [Opened s]\<rparr>)"
    using assms(8,9) by (simp add: Nwrite_def Nwrite_loop.simps syscall_def NET_SOFTERROR_def NET_HARDERROR_def)
  ultimately have acc: "iperf_accept K p1 = Some (-1, p2)"
    using assms(2) t1 by (auto simp: iperf_accept_def deny_def on_sys_def err_def p2_def)
  have "state (test p1) \<noteq> CREATE_STREAMS" using assms(3) t1 by (simp add: state_defs)
  then have act: "server_act K J rs ws (l\<lparr>s_now := nw\<rparr>) p1 = Some ((-1, l\<lparr>s_now := nw\<rparr>), p2)"
    using acc assms(6) t1 by (simp add: server_act_def server_listener_def)
  have "same_timers p p1" using wait_select_timers [OF assms(4)] t1 by (simp add: same_timers_def)
  moreover have "same_timers p1 p2" by (simp add: p2_def same_timers_def prog_run)
  ultimately have "timers_owned p2" using assms(1) same_timers_owned by blast
  from cleanup_server_owned [OF this, of K] obtain p3 where p3: "cleanup_server K p2 = Some p3" "i_errno (psys p3) = i_errno (psys p2)"
    "test p3 = (test p2)\<lparr>stats_timer := None, reporter_timer := None, omit_timer := None, congestion_used := None, test_timer := None\<rparr>"
    "elog (psys p3) = elog (psys p2) @ (if ctrl_sck (test p2) \<noteq> 0 then [Closed (ctrl_sck (test p2))] else []) @
      (if listener (test p2) \<noteq> 0 then [Closed (listener (test p2))] else [])" by blast
  have "server_iter K J l p = Some (Inl (-1), p3)"
    using assms(4,5) act p3(1) by (simp add: server_iter_def give_up_def)
  then show ?thesis using p3(2-4) t1 by (intro exI [of _ p3]) (simp add: p2_def prog_run)
qed

text \<open>A server that runs a test on connection 6, and a kernel on which another client connects and is gone.\<close>

definition gone_kernel :: "u8 list kernel" where
  "gone_kernel = sample_kernel\<lparr>k_accept := (\<lambda>fd w. (Ok 11, w)), k_write := (\<lambda>fd bs w. (Fail 104, w)),
     k_select := (\<lambda>n rs ws tv w. ((Ok ([3], [], 1), (1, 0)), w))\<rparr>"

definition sample_running :: "u8 list prog" where
  "sample_running = sample_prog\<lparr>test := (test sample_prog)\<lparr>state := TEST_RUNNING, listener := 3, read_set := [3, 6], max_fd := 6\<rparr>\<rparr>"

lemma sample_running_owned: "timers_owned sample_running"
  by (rule same_timers_owned [OF _ sample_prog_owned]) (simp add: same_timers_def sample_running_def own_timers_def)

theorem denied_client_aborts_test_witness:
  "\<exists>p'. server_iter gone_kernel sample_junk (first_locals gone_kernel sample_junk) sample_running = Some (Inl (-1), p') \<and>
     i_errno (psys p') = IESENDMESSAGE \<and> streams (test p') = [sample_paced] \<and> elog (psys p') = [Opened 11, Closed 6, Closed 3]"
proof -
  let ?l = "first_locals gone_kernel sample_junk"
  have "map_option (\<lambda>((result, rs, _), _, p). (result, rs, world (psys p), elog (psys p))) (wait_select gone_kernel (s_now ?l) sample_running) = Some (1, [3], [], [])"
    by code_simp
  then obtain ws tmo nw p1 where w: "wait_select gone_kernel (s_now ?l) sample_running = Some ((1, [3], ws, tmo), nw, p1)"
      "world (psys p1) = []" "elog (psys p1) = []" by auto
  have h: "ctrl_sck (test sample_running) \<noteq> -1" "state (test sample_running) = TEST_RUNNING" "(0::int) < 1" "FD_ISSET (listener (test sample_running)) [3]"
      "k_accept gone_kernel (listener (test sample_running)) (world (psys p1)) = (Ok 11, [])"
      "k_write gone_kernel 11 [state_byte ACCESS_DENIED] [] = (Fail 104, [])" "104 \<notin> {EINTR, EAGAIN}"
    using w(2) by (simp_all add: sample_running_def sample_prog_def sample_server_def FD_ISSET_def gone_kernel_def EINTR_def EAGAIN_def)
  from denied_client_aborts_test [OF sample_running_owned h(1,2) w(1) h(3-7), of sample_junk] show ?thesis
    by (auto simp: w(3) sample_running_def sample_prog_def sample_server_def)
qed

text \<open>
  (C40) A client that disappears leaves its data connections behind. The closed control connection
  ends the loop and the server's function returns 0; cleaning up and resetting close the control
  connection, the listening socket and the files of the streams, and nothing else: the streams
  are gone from the test while their sockets are still open.
\<close>

theorem lost_client_leaks_sockets:
  assumes "timers_owned p" "k_read K (ctrl_sck (test p)) 1 (world (psys p)) = (Ok [], w)" "ctrl_sck (test p) \<noteq> 0" "listener (test p) \<noteq> 0"
    and "json_output (test p) = 0" "server_affinity (test p) = -1"
  shows "\<exists>p1 p2 p3. iperf_handle_message_server K J p = Some (0, p1) \<and> server_loop K J l p1 = Some (0, p1) \<and> server_finish K p1 = Some (0, p2) \<and>
    iperf_reset_test K p2 = Some p3 \<and> streams (test p3) = [] \<and>
    elog (psys p3) = elog (psys p) @ [Closed (ctrl_sck (test p)), Closed (listener (test p))] @ concat (map (freed False) (streams (test p)))"
proof -
  define p1 where "p1 = p\<lparr>psys := (psys p)\<lparr>world := w, i_errno := IECTRLCLOSE\<rparr>, test := (test p)\<lparr>state := IPERF_DONE\<rparr>\<rparr>"
  have "run_state (Nread K (ctrl_sck (test p)) 1) (psys p) = ((0, []), (psys p)\<lparr>world := w\<rparr>)"
    using assms(2) by (simp add: Nread_def Nread_loop.simps syscall_def to_int32_def)
  then have 1: "iperf_handle_message_server K J p = Some (0, p1)"
    by (simp add: iperf_handle_message_server_def on_sys_def set_err_def do_sys_eq sys_run upd_def p1_def)
  have loop: "server_loop K J l p1 = Some (0, p1)" by (subst server_loop.simps) (simp add: p1_def)
  have "timers_owned p1" by (rule same_timers_owned [OF _ assms(1)]) (simp add: same_timers_def p1_def own_timers_def)
  from cleanup_server_owned [OF this, of K] obtain p2 where p2: "cleanup_server K p1 = Some p2" "timers_owned p2"
    "test p2 = (test p1)\<lparr>stats_timer := None, reporter_timer := None, omit_timer := None, congestion_used := None, test_timer := None\<rparr>"
    "elog (psys p2) = elog (psys p) @ [Closed (ctrl_sck (test p)), Closed (listener (test p))]"
    using assms(3,4) by (auto simp: p1_def)
  have fin: "server_finish K p1 = Some (0, p2)"
    using p2(1,3) assms(5,6) by (simp add: server_finish_def finish_json_def p1_def)
  obtain p3 where p3: "iperf_reset_test K p2 = Some p3" "streams (test p3) = []"
      "elog (psys p3) = elog (psys p2) @ concat (map (freed False) (streams (test p2)))"
    using iperf_reset_test_owned [OF p2(2), of K]
    by (auto simp: reset_fields_def set_protocol_def check_sender_has_retransmits_def Let_def split: option.splits)
  show ?thesis using 1 loop fin p3 p2(3,4) by (intro exI [of _ p1] exI [of _ p2] exI [of _ p3]) (simp add: p1_def)
qed

theorem lost_client_leaks_sockets_witness:
  "\<exists>p1 p2 p3. iperf_handle_message_server sample_kernel sample_junk sample_running = Some (0, p1) \<and>
     server_finish sample_kernel p1 = Some (0, p2) \<and> iperf_reset_test sample_kernel p2 = Some p3 \<and>
     socket sample_paced = 8 \<and> streams (test sample_running) = [sample_paced] \<and> streams (test p3) = [] \<and>
     elog (psys p3) = [Closed 6, Closed 3, Closed 9]"
proof -
  have h: "k_read sample_kernel (ctrl_sck (test sample_running)) 1 (world (psys sample_running)) = (Ok [], [])"
      "ctrl_sck (test sample_running) \<noteq> 0" "listener (test sample_running) \<noteq> 0" "json_output (test sample_running) = 0" "server_affinity (test sample_running) = -1"
    by (simp_all add: sample_running_def sample_prog_def sample_test_defs sample_kernel_def sample_sys_def)
  from lost_client_leaks_sockets [OF sample_running_owned h, of sample_junk "first_locals sample_kernel sample_junk"] show ?thesis
    by (auto simp: sample_running_def sample_prog_def sample_server_def sample_sys_def sample_paced_def freed_def)
qed

text \<open>
  A server started for one test ends after it, whatever became of the test. The exception the
  source makes for a failed authentication has no effect: the reset, which comes first, has
  already cleared the error number it looks at.
\<close>

theorem server_rounds_one_off:
  assumes "iperf_run_server K (J n) p = Some (rc, p1)" "-1 \<le> rc" "timers_owned p1" "one_off (test p1) \<noteq> 0"
  shows "\<exists>p2. iperf_reset_test K p1 = Some p2 \<and> server_rounds K J msg n p = Some (Returned 0 (snd (iperf_delete_pidfile K p2)))"
proof -
  obtain p2 where p2: "iperf_reset_test K p1 = Some p2" "i_errno (psys p2) = IENONE"
      "test p2 = reset_fields ((test p1)\<lparr>omit_timer := None, test_timer := None, stats_timer := None, reporter_timer := None\<rparr>)"
    using iperf_reset_test_owned [OF assms(3), of K] by blast
  have "one_off (test p2) = one_off (test p1)"
    by (simp add: p2(3) reset_fields_def set_protocol_def check_sender_has_retransmits_def Let_def split: option.split)
  then have "one_off (test p2) \<noteq> 0 \<and> \<not> (rc < 0 \<and> i_errno (psys p2) = IEAUTHTEST)"
    using assms(4) p2(2) by (simp add: IENONE_def IEAUTHTEST_def)
  then have "server_rounds K J msg n p = Some (Returned 0 (snd (iperf_delete_pidfile K p2)))"
    using assms(1,2) p2(1) by (subst server_rounds.simps) simp
  then show ?thesis using p2(1) by blast
qed

text \<open>A server for one test whose log file cannot be opened.\<close>

definition full_kernel :: "u8 list kernel" where
  "full_kernel = sample_kernel\<lparr>k_open := (\<lambda>name wr w. (Fail 28, w))\<rparr>"

definition sample_once :: "u8 list prog" where
  "sample_once = sample_prog\<lparr>test := (test sample_prog)\<lparr>one_off := 1, logfile := Some ''log''\<rparr>\<rparr>"

theorem server_rounds_one_off_witness:
  "\<exists>p2. server_rounds full_kernel (\<lambda>_. sample_junk) [] 0 sample_once = Some (Returned 0 p2)"
proof -
  define p1 where "p1 = sample_once\<lparr>psys := (psys sample_once)\<lparr>errno := 28, i_errno := IELOGFILE\<rparr>\<rparr>"
  have r: "iperf_run_server full_kernel sample_junk sample_once = Some (-1, p1)"
    by (simp add: iperf_run_server_def open_log_def iperf_open_logfile_def fails_with_def sample_once_def sample_prog_def p1_def on_sys_def
        sys_open_def syscall_def full_kernel_def err_def set_err_def do_sys_eq sys_run)
  have o: "timers_owned p1" by (rule same_timers_owned [OF _ sample_prog_owned]) (simp add: same_timers_def p1_def sample_once_def own_timers_def)
  have "one_off (test p1) \<noteq> 0" by (simp add: p1_def sample_once_def)
  from server_rounds_one_off [where J = "\<lambda>_. sample_junk", OF r _ o this] show ?thesis by auto
qed

end
