(* ===== verification/Typing_Props.thy ===== *)
theory Typing_Props
  imports Server_Props
begin

text \<open>
  Data that comes from outside or is generated: what a peer sends keeps every \<open>int\<close> an \<open>int\<close>, the
  cookie is a C string that survives the wire, and the pattern of the payload is periodic.
\<close>

section \<open>Integers\<close>

text \<open>The members of type \<open>int\<close> that parameters of a client can set.\<close>

definition int_members :: "iperf_test \<Rightarrow> int list" where
  "int_members t = (let st = settings t in
     [omit t, server_affinity t, duration t, num_streams t, no_delay t, reverse t, bidirectional t, get_server_output t, udp_counters_64bit t,
      repeating_payload t, sender_has_retransmits t, prot_id (protocol t), mss st, socket_bufsize st, blksize st, pacing_timer st, burst st,
      tos st, flowlabel st])"

definition typed :: "iperf_test \<Rightarrow> bool" where
  "typed t \<longleftrightarrow> list_all int_range (int_members t) \<and> (\<forall>p \<in> set (protocols t). int_range (prot_id p))"

lemma int_range_item [simp]: "int_range (to_int32 v)"
  using to_int32_range by (simp add: int_range_def)

lemma int_range_small [simp]: "int_range 0" "int_range 1"
  by (simp_all add: int_range_def)

lemma typed_steps:
  assumes "typed t"
  shows "typed (t\<lparr>omit := to_int32 v\<rparr>)" "typed (t\<lparr>server_affinity := to_int32 v\<rparr>)" "typed (t\<lparr>duration := to_int32 v\<rparr>)"
    "typed (t\<lparr>num_streams := to_int32 v\<rparr>)" "typed (t\<lparr>no_delay := 1\<rparr>)" "typed (t\<lparr>repeating_payload := 1\<rparr>)"
    "typed (upd_settings (bytes_update (\<lambda>_. w)) t)" "typed (upd_settings (blocks_update (\<lambda>_. w)) t)"
    "typed (upd_settings (rate_update (\<lambda>_. w)) t)" "typed (upd_settings (fqrate_update (\<lambda>_. w)) t)"
    "typed (upd_settings (mss_update (\<lambda>_. to_int32 v)) t)" "typed (upd_settings (socket_bufsize_update (\<lambda>_. to_int32 v)) t)"
    "typed (upd_settings (blksize_update (\<lambda>_. to_int32 v)) t)" "typed (upd_settings (pacing_timer_update (\<lambda>_. to_int32 v)) t)"
    "typed (upd_settings (burst_update (\<lambda>_. to_int32 v)) t)" "typed (upd_settings (tos_update (\<lambda>_. to_int32 v)) t)"
    "typed (upd_settings (flowlabel_update (\<lambda>_. to_int32 v)) t)" "typed (t\<lparr>mode := md\<rparr>)" "typed (t\<lparr>reverse := 1\<rparr>)"
    "typed (t\<lparr>bidirectional := 1\<rparr>)" "typed (t\<lparr>sender_has_retransmits := 0\<rparr>)" "typed (t\<lparr>sender_has_retransmits := 1\<rparr>)"
    "typed (t\<lparr>get_server_output := 1\<rparr>)" "typed (t\<lparr>udp_counters_64bit := 1\<rparr>)" "p \<in> set (protocols t) \<Longrightarrow> typed (t\<lparr>protocol := p\<rparr>)"
    "typed (t\<lparr>title := x\<rparr>)" "typed (t\<lparr>extra_data := x\<rparr>)" "typed (t\<lparr>congestion := x\<rparr>)" "typed (t\<lparr>congestion_used := x\<rparr>)"
  using assms by (simp_all add: typed_def int_members_def Let_def)

lemma typed_check: "typed t \<Longrightarrow> typed (check_sender_has_retransmits t)"
  by (simp add: check_sender_has_retransmits_def typed_steps)

lemma typed_set_protocol: "typed t \<Longrightarrow> typed (snd (set_protocol i t))"
  by (auto simp: set_protocol_def find_Some_iff intro!: typed_check typed_steps split: option.split)

lemma typed_reverse: "typed t \<Longrightarrow> typed (iperf_set_test_reverse 1 t)"
  by (simp add: iperf_set_test_reverse_def Let_def typed_check typed_steps)

lemma typed_bidirectional: "typed t \<Longrightarrow> typed (iperf_set_test_bidirectional 1 t)"
  by (simp add: iperf_set_test_bidirectional_def Let_def typed_steps)

lemma typed_on_item: "typed t \<Longrightarrow> (\<And>j t. typed t \<Longrightarrow> typed (f j t)) \<Longrightarrow> typed (on_item j n f t)"
  by (simp add: on_item_def split: option.split)

lemma typed_on_string: "on_string j n f t = Some t' \<Longrightarrow> typed t \<Longrightarrow> (\<And>s t. typed t \<Longrightarrow> typed (f s t)) \<Longrightarrow> typed t'"
  by (auto simp: on_string_def split: option.splits)

lemmas typed_rules = typed_steps typed_set_protocol typed_reverse typed_bidirectional

lemma typed_apply_numbers: "typed t \<Longrightarrow> typed (apply_numbers j t)"
  unfolding apply_numbers_def Let_def by (intro typed_on_item) (assumption | erule typed_rules)+

lemma typed_apply_strings:
  assumes "apply_strings j t = Some t'" "typed t" shows "typed t'"
proof -
  obtain t1 t2 t3 where "on_string j ''title'' (\<lambda>s t. t\<lparr>title := Some s\<rparr>) t = Some t1"
    "on_string j ''extra_data'' (\<lambda>s t. t\<lparr>extra_data := Some s\<rparr>) t1 = Some t2"
    "on_string j ''congestion'' (\<lambda>s t. t\<lparr>congestion := Some s\<rparr>) t2 = Some t3"
    "on_string j ''congestion_used'' (\<lambda>s t. t\<lparr>congestion_used := Some s\<rparr>) t3 = Some t'"
    using assms(1) by (auto simp: apply_strings_def bind_eq_Some_conv)
  from typed_on_string [OF this(4) typed_on_string [OF this(3) typed_on_string [OF this(2) typed_on_string [OF this(1) assms(2)]]]]
  show ?thesis by (simp add: typed_steps)
qed

lemma typed_apply_flags:
  assumes "typed t" shows "typed (apply_flags j t)"
proof -
  have "typed (on_item j ''repeating_payload'' (\<lambda>p t. t\<lparr>repeating_payload := 1\<rparr>)
    (on_item j ''udp_counters_64bit'' (\<lambda>p. iperf_set_test_udp_counters_64bit 1)
      (on_item j ''get_server_output'' (\<lambda>p. iperf_set_test_get_server_output 1) t)))"
    using assms unfolding iperf_set_test_udp_counters_64bit_def iperf_set_test_get_server_output_def
    by (intro typed_on_item) (assumption | erule typed_steps)+
  then show ?thesis by (simp add: apply_flags_def Let_def typed_steps)
qed

lemma typed_apply_params: "apply_params j t = Some t' \<Longrightarrow> typed t \<Longrightarrow> typed t'"
  by (auto simp: apply_params_def intro: typed_apply_flags typed_apply_strings typed_apply_numbers)

section \<open>The cookie and the payload\<close>

text \<open>The characters of a cookie.\<close>

definition cookie_chars :: "u8 set" where
  "cookie_chars = (\<lambda>c. of_nat (of_char c)) ` set rndchars"

lemma cookie_chars_nonzero: "0 \<notin> cookie_chars"
  unfolding cookie_chars_def rndchars_def by code_simp

lemma make_cookie_wellformed:
  assumes "run_state (make_cookie K) s = (Some c, s')"
  shows "length c = COOKIE_SIZE - 1 \<and> set c \<subseteq> cookie_chars"
proof -
  obtain out :: "u8 list" where out: "length out = COOKIE_SIZE" "c = map (\<lambda>b. of_nat (of_char (rndchars ! (unat b mod length rndchars)))) (take (COOKIE_SIZE - 1) out)"
    using assms by (auto simp: make_cookie_def readentropy_def COOKIE_SIZE_def split: prod.splits option.splits if_splits)
  have "rndchars ! (n mod length rndchars) \<in> set rndchars" for n by (rule nth_mem) (simp add: rndchars_def)
  then show ?thesis using out by (auto simp: cookie_chars_def)
qed

lemma fill_loop_period: "c < 10 \<Longrightarrow> fill_loop n (int c) = map (\<lambda>i. word_of_int (48 + int ((c + i) mod 10))) [0..<n]"
proof (induction n arbitrary: c)
  case (Suc n)
  define c' where "c' = (if 9 \<le> c then 0 else c + 1)"
  have c': "c' < 10" "(if 9 \<le> int c then 0 else int c + 1) = int c'" using Suc.prems by (auto simp: c'_def)
  have "(c' + i) mod 10 = (c + Suc i) mod 10" for i
    using Suc.prems by (cases "c = 9") (auto simp: c'_def)
  then have "fill_loop n (int c') = map (\<lambda>i. word_of_int (48 + int ((c + Suc i) mod 10))) [0..<n]"
    using Suc.IH [OF c'(1)] by simp
  then show ?case using Suc.prems c'(2) by (simp add: map_upt_Suc del: upt_Suc)
qed simp

section \<open>Properties\<close>



text \<open>
  (C11) A client's data connections are let in. The cookie a client makes, 36 letters and digits from
  its alphabet, is what the server compares: when it arrives on a new connection as the client
  sends it, \<open>iperf_tcp_accept\<close> returns that connection, has read exactly the cookie, and has sent and
  closed nothing.
\<close>

theorem cookie_admits:
  assumes "run_state (make_cookie K) s0 = (Some c, s1)" "cookie t = c"
    and "k_accept K' (listener t) (world st) = (Ok s, w)" "in_order K' s inp" "inp w = cookie_wire c @ rest"
  shows "length c = 36 \<and> set c \<subseteq> cookie_chars \<and>
    (\<exists>w'. run_state (iperf_tcp_accept K' t) st = (s, st\<lparr>world := w', elog := elog st @ [Opened s]\<rparr>) \<and> inp w' = rest)"
proof -
  have c: "length c = 36" "set c \<subseteq> cookie_chars" using make_cookie_wellformed [OF assms(1)] by (simp_all add: COOKIE_SIZE_def)
  then have cs: "c_str (cookie_wire c) = c" using cookie_chars_nonzero by (intro c_str_cookie_wire) (auto simp: COOKIE_SIZE_def)
  have len: "length (cookie_wire c) = COOKIE_SIZE" by (simp add: cookie_wire_def)
  obtain w' where r: "run_state (Nread K' s COOKIE_SIZE) (st\<lparr>world := w, elog := elog st @ [Opened s]\<rparr>) =
      ((int COOKIE_SIZE, cookie_wire c), st\<lparr>elog := elog st @ [Opened s], world := w'\<rparr>)" "inp w' = rest"
    using Nread_stream [OF assms(4), of COOKIE_SIZE "st\<lparr>world := w, elog := elog st @ [Opened s]\<rparr>"] assms(5) len
    by (auto simp: COOKIE_SIZE_def)
  have "run_state (iperf_tcp_accept K' t) st = (s, st\<lparr>world := w', elog := elog st @ [Opened s]\<rparr>)"
    using assms(2,3) r(1) cs len by (simp add: iperf_tcp_accept_def syscall_def sys_run)
  then show ?thesis using c r(2) by blast
qed

theorem cookie_admits_witness:
  "\<exists>c s1 w'. run_state (make_cookie sample_kernel) (sample_sys []) = (Some c, s1) \<and> length c = 36 \<and>
     run_state (iperf_tcp_accept sample_kernel (sample_server\<lparr>cookie := c\<rparr>)) (sample_sys (cookie_wire c)) =
       (6, (sample_sys (cookie_wire c))\<lparr>world := w', elog := [Opened 6]\<rparr>)"
proof -
  have "fst (run_state (make_cookie sample_kernel) (sample_sys [])) \<noteq> None" by code_simp
  then obtain c s1 where c: "run_state (make_cookie sample_kernel) (sample_sys []) = (Some c, s1)"
    by (cases "run_state (make_cookie sample_kernel) (sample_sys [])") auto
  have h: "cookie (sample_server\<lparr>cookie := c\<rparr>) = c"
      "k_accept sample_kernel (listener (sample_server\<lparr>cookie := c\<rparr>)) (world (sample_sys (cookie_wire c))) = (Ok 6, cookie_wire c)"
      "cookie_wire c = cookie_wire c @ []"
    by (simp_all add: sample_kernel_def sample_sys_def)
  from cookie_admits [OF c h(1,2) sample_in_order h(3)] c show ?thesis by (auto simp: sample_sys_def)
qed

text \<open>
  (C24) The payload for \<open>--repeating-payload\<close>: the loop of \<open>fill_with_repeating_pattern\<close>, with its counter,
  writes the digit \<open>i mod 10\<close> at position \<open>i\<close>, for every length.
\<close>

theorem fill_with_repeating_pattern_eq:
  "fill_with_repeating_pattern n = map (\<lambda>i. word_of_int (48 + int (i mod 10))) [0..<n]"
  using fill_loop_period [of 0 n] by (simp add: fill_with_repeating_pattern_def)

end
