(* ===== verification/Report.thy ===== *)
theory Report
  imports Prog "HOL-Library.Signed_Division"
begin

text \<open>
  The reports of \<open>iperf_api.c\<close>: \<open>print_interval_results\<close> and \<open>iperf_print_intermediate\<close> for an interval,
  \<open>iperf_print_results\<close> for the whole test, and \<open>iperf_json_printf\<close> of \<open>iperf_util.c\<close> that builds their
  objects. A report in JSON is the items that are added; a report in text is the list of the
  calls of \<open>iperf_printf\<close>, each with its format (\<open>iperf_locale.c\<close>) and its arguments. \<open>Prog\<close> keeps
  the effect of the final report on the test, and what becomes of a line. \<open>None\<close> is undefined
  behaviour: an argument that does not fit its format, a null pointer, a name that overruns
  its buffer.
\<close>

section \<open>Objects from a format\<close>

datatype jarg = JB int | JD int | JF rat | JS "string option"

text \<open>\<open>va_arg\<close> with the type the conversion asks for; the inner \<open>None\<close> is a null pointer.\<close>

fun json_value :: "char \<Rightarrow> jarg \<Rightarrow> cJSON option option" where
  "json_value c (JB i) = (if c = CHR ''b'' then Some (Some (cJSON_CreateBool (i \<noteq> 0))) else None)"
| "json_value c (JD i) = (if c = CHR ''d'' then Some (Some (cJSON_CreateNumber (d_of_int i))) else None)"
| "json_value c (JF d) = (if c = CHR ''f'' then Some (Some (cJSON_CreateNumber d)) else None)"
| "json_value c (JS s) = (if c = CHR ''s'' then Some (cJSON_CreateString s) else None)"

text \<open>The bytes of an array up to the terminating zero; \<open>None\<close> for bytes that were never written.\<close>

fun c_string_at :: "char option list \<Rightarrow> string option" where
  "c_string_at [] = None"
| "c_string_at (None # bs) = None"
| "c_string_at (Some c # bs) = (if c = CHR 0x00 then Some [] else map_option ((#) c) (c_string_at bs))"

text \<open>The loop: the rest of the format and of the arguments, the array \<open>name\<close> and the place of \<open>np\<close> in it.\<close>

fun json_loop :: "string \<Rightarrow> jarg list \<Rightarrow> char option list \<Rightarrow> nat \<Rightarrow> cJSON \<Rightarrow> cJSON option option" where
  "json_loop [] args name np obj = Some (Some obj)"
| "json_loop (c # cs) args name np obj =
     (if c = CHR '' '' then json_loop cs args name np obj
      else if c = CHR '':'' then
        (if np < length name then json_loop cs args (name[np := Some (CHR 0x00)]) np obj else None)
      else if c = CHR ''%'' then
        (case cs of [] \<Rightarrow> Some None
         | d # cs' \<Rightarrow>
             if d \<notin> set ''bdfs'' then Some None
             else (case args of [] \<Rightarrow> None
               | a # args' \<Rightarrow>
                   (case json_value d a of None \<Rightarrow> None
                    | Some None \<Rightarrow> Some None
                    | Some (Some j) \<Rightarrow>
                        (case c_string_at name of None \<Rightarrow> None
                         | Some s \<Rightarrow> json_loop cs' args' name 0 (cJSON_AddItemToObject obj s j)))))
      else if np < length name then json_loop cs args (name[np := Some c]) (np + 1) obj else None)"

definition iperf_json_printf :: "string \<Rightarrow> jarg list \<Rightarrow> cJSON option option" where
  "iperf_json_printf format args = json_loop format args (replicate 100 None) 0 cJSON_CreateObject"

text \<open>\<open>cJSON_AddItemToObject\<close> looks into the item, \<open>cJSON_AddItemToArray\<close> does nothing with a null pointer.\<close>

definition the_item :: "cJSON option option \<Rightarrow> cJSON option" where
  "the_item x = (case x of Some (Some j) \<Rightarrow> Some j | _ \<Rightarrow> None)"

definition to_array :: "cJSON \<Rightarrow> cJSON option option \<Rightarrow> cJSON option" where
  "to_array arr x = map_option (cJSON_AddItemToArray arr) x"

section \<open>Formats\<close>

definition newline :: string where "newline = [CHR 0x0A]"

definition report_diskfile :: string where
  "report_diskfile = ''        Sent %s / %s (%d%%) of %s'' @ newline"
definition report_bw_header :: string where
  "report_bw_header = ''[ ID] Interval           Transfer     Bitrate'' @ newline"
definition report_bw_header_bidir :: string where
  "report_bw_header_bidir = ''[ ID][Role] Interval           Transfer     Bitrate'' @ newline"
definition report_bw_retrans_header :: string where
  "report_bw_retrans_header = ''[ ID] Interval           Transfer     Bitrate         Retr'' @ newline"
definition report_bw_retrans_header_bidir :: string where
  "report_bw_retrans_header_bidir = ''[ ID][Role] Interval           Transfer     Bitrate         Retr'' @ newline"
definition report_bw_retrans_cwnd_header :: string where
  "report_bw_retrans_cwnd_header = ''[ ID] Interval           Transfer     Bitrate         Retr  Cwnd'' @ newline"
definition report_bw_retrans_cwnd_header_bidir :: string where
  "report_bw_retrans_cwnd_header_bidir = ''[ ID][Role] Interval           Transfer     Bitrate         Retr  Cwnd'' @ newline"
definition report_bw_udp_header :: string where
  "report_bw_udp_header = ''[ ID] Interval           Transfer     Bitrate         Jitter    Lost/Total Datagrams'' @ newline"
definition report_bw_udp_header_bidir :: string where
  "report_bw_udp_header_bidir = ''[ ID][Role] Interval           Transfer     Bitrate         Jitter    Lost/Total Datagrams'' @ newline"
definition report_bw_udp_sender_header :: string where
  "report_bw_udp_sender_header = ''[ ID] Interval           Transfer     Bitrate         Total Datagrams'' @ newline"
definition report_bw_format :: string where
  "report_bw_format = ''[%3d]%s %6.2f-%-6.2f sec  %ss  %ss/sec                  %s'' @ newline"
definition report_bw_retrans_format :: string where
  "report_bw_retrans_format = ''[%3d]%s %6.2f-%-6.2f sec  %ss  %ss/sec  %3u             %s'' @ newline"
definition report_bw_retrans_cwnd_format :: string where
  "report_bw_retrans_cwnd_format = ''[%3d]%s %6.2f-%-6.2f sec  %ss  %ss/sec  %3u   %ss       %s'' @ newline"
definition report_bw_udp_format :: string where
  "report_bw_udp_format = ''[%3d]%s %6.2f-%-6.2f sec  %ss  %ss/sec  %5.3f ms  %d/%d (%.2g%%)  %s'' @ newline"
definition report_bw_udp_sender_format :: string where
  "report_bw_udp_sender_format = ''[%3d]%s %6.2f-%-6.2f sec  %ss  %ss/sec %s %d  %s'' @ newline"
definition report_summary :: string where
  "report_summary = ''Test Complete. Summary Results:'' @ newline"
definition report_sum_bw_format :: string where
  "report_sum_bw_format = ''[SUM]%s %6.2f-%-6.2f sec  %ss  %ss/sec                  %s'' @ newline"
definition report_sum_bw_retrans_format :: string where
  "report_sum_bw_retrans_format = ''[SUM]%s %6.2f-%-6.2f sec  %ss  %ss/sec  %3d             %s'' @ newline"
definition report_sum_bw_udp_format :: string where
  "report_sum_bw_udp_format = ''[SUM]%s %6.2f-%-6.2f sec  %ss  %ss/sec  %5.3f ms  %d/%d (%.2g%%)  %s'' @ newline"
definition report_sum_bw_udp_sender_format :: string where
  "report_sum_bw_udp_sender_format = ''[SUM]%s %6.2f-%-6.2f sec  %ss  %ss/sec %s %d  %s'' @ newline"
definition report_omitted :: string where "report_omitted = ''(omitted)''"
definition report_bw_separator :: string where
  "report_bw_separator = ''- - - - - - - - - - - - - - - - - - - - - - - - -'' @ newline"
definition report_sum_outoforder :: string where
  "report_sum_outoforder = ''[SUM]%s %4.1f-%4.1f sec  %d datagrams received out-of-order'' @ newline"
definition report_cpu :: string where
  "report_cpu = ''CPU Utilization: %s/%s %.1f%% (%.1f%%u/%.1f%%s), %s/%s %.1f%% (%.1f%%u/%.1f%%s)'' @ newline"
definition report_local :: string where "report_local = ''local''"
definition report_remote :: string where "report_remote = ''remote''"
definition report_sender :: string where "report_sender = ''sender''"
definition report_receiver :: string where "report_receiver = ''receiver''"
definition report_sender_not_available_format :: string where
  "report_sender_not_available_format = ''[%3d] (sender statistics not available)'' @ newline"
definition report_sender_not_available_summary_format :: string where
  "report_sender_not_available_summary_format = ''[%3s] (sender statistics not available)'' @ newline"
definition report_receiver_not_available_format :: string where
  "report_receiver_not_available_format = ''[%3d] (receiver statistics not available)'' @ newline"
definition report_receiver_not_available_summary_format :: string where
  "report_receiver_not_available_summary_format = ''[%3s] (receiver statistics not available)'' @ newline"

text \<open>The arguments of \<open>iperf_printf\<close>: an \<open>int\<close>, a \<open>double\<close>, or a string that may be a null pointer.\<close>

datatype parg = PI int | PD rat | PS "string option"

datatype outcall = Printf string "parg list" | Err string

definition puts :: "string \<Rightarrow> outcall" where "puts s = Printf ''%s'' [PS (Some s)]"

definition str :: "string \<Rightarrow> parg" where "str s = PS (Some s)"

section \<open>Intervals\<close>

definition UNIT_LEN :: nat where "UNIT_LEN = 32"

definition tcp_like :: "iperf_test \<Rightarrow> bool" where
  "tcp_like t \<longleftrightarrow> prot_id (protocol t) = Ptcp \<or> prot_id (protocol t) = Psctp"

definition last_interval :: "iperf_stream \<Rightarrow> iperf_interval_results option" where
  "last_interval sp = (let irs = interval_results (stream_result sp) in if irs = [] then None else Some (last irs))"

text \<open>\<open>iperf_time_diff\<close> and then \<open>iperf_time_in_secs\<close>.\<close>

definition secs_between :: "iperf_time \<Rightarrow> iperf_time \<Rightarrow> rat" where
  "secs_between a b = iperf_time_in_secs (snd (iperf_time_diff a b))"

text \<open>The role of a stream, printed in bidirectional tests only, and the padding.\<close>

definition mbuf :: "iperf_test \<Rightarrow> int \<Rightarrow> string" where
  "mbuf t snds =
     (if mode t = BIDIRECTIONAL
      then ''['' @ (if snds \<noteq> 0 then ''TX'' else ''RX'') @ ''-'' @ (if role t = CHR ''c'' then ''C'' else ''S'') @ '']'' else [])"

definition zbuf :: "iperf_test \<Rightarrow> string" where
  "zbuf t = (if mode t = BIDIRECTIONAL then replicate 10 (CHR '' '') else [])"

text \<open>\<open>(double) n\<close> for a number of bytes, bytes by seconds with 0 for no time, and a share in percent.\<close>

definition d_bytes :: "u64 \<Rightarrow> rat" where "d_bytes n = d_of_int (uint n)"

definition per_second :: "u64 \<Rightarrow> rat \<Rightarrow> rat" where
  "per_second n d = (if 0 < d then ddiv (d_bytes n) d else 0)"

definition lost_percent :: "int \<Rightarrow> int \<Rightarrow> rat" where
  "lost_percent errs packets = (if 0 < packets then ddiv (dmul 100 (d_of_int errs)) (d_of_int packets) else 0)"

definition omitted_text :: "int \<Rightarrow> parg" where
  "omitted_text b = str (if b \<noteq> 0 then report_omitted else [])"

text \<open>What is printed above the first stream.\<close>

definition interval_header :: "iperf_test \<Rightarrow> string" where
  "interval_header t =
     (if tcp_like t then
        (if sender_has_retransmits t = 1
         then (if bidirectional t \<noteq> 0 then report_bw_retrans_cwnd_header_bidir else report_bw_retrans_cwnd_header)
         else (if bidirectional t \<noteq> 0 then report_bw_header_bidir else report_bw_header))
      else (case mode t of SENDER \<Rightarrow> report_bw_udp_sender_header | RECEIVER \<Rightarrow> report_bw_udp_header
            | BIDIRECTIONAL \<Rightarrow> report_bw_udp_header_bidir))"

definition interval_headers :: "iperf_test \<Rightarrow> iperf_stream \<Rightarrow> iperf_interval_results \<Rightarrow> outcall list" where
  "interval_headers t sp irp =
     (if stream_addr sp = stream_addr (hd (streams t)) then
        (if iperf_time_compare (start_time (stream_result sp)) (interval_start_time irp) = 0 then [puts (interval_header t)]
         else if 1 < num_streams t then [puts report_bw_separator] else [])
      else [])"

definition interval_json :: "iperf_test \<Rightarrow> iperf_stream \<Rightarrow> iperf_interval_results \<Rightarrow> cJSON option option" where
  "interval_json t sp irp =
     (let bandwidth = per_second (bytes_transferred irp) (interval_duration irp);
          st = secs_between (start_time (stream_result sp)) (interval_start_time irp);
          et = secs_between (start_time (stream_result sp)) (interval_end_time irp);
          args = [JD (socket sp), JF st, JF et, JF (interval_duration irp), JD (sint (bytes_transferred irp)), JF (dmul bandwidth 8)];
          flags = [JB (omitted irp), JB (sender sp)]
      in if tcp_like t then
           (if sender_has_retransmits t = 1 \<and> sender sp \<noteq> 0 then
              iperf_json_printf ''socket: %d  start: %f  end: %f  seconds: %f  bytes: %d  bits_per_second: %f  retransmits: %d  snd_cwnd:  %d  rtt:  %d  rttvar: %d  pmtu: %d  omitted: %b sender: %b''
                (args @ [JD (interval_retrans irp), JD (snd_cwnd irp), JD (rtt irp), JD (rttvar irp), JD (pmtu irp)] @ flags)
            else
              iperf_json_printf ''socket: %d  start: %f  end: %f  seconds: %f  bytes: %d  bits_per_second: %f  omitted: %b sender: %b''
                (args @ flags))
         else if sender sp \<noteq> 0 then
           iperf_json_printf ''socket: %d  start: %f  end: %f  seconds: %f  bytes: %d  bits_per_second: %f  packets: %d  omitted: %b sender: %b''
             (args @ [JD (interval_packet_count irp)] @ flags)
         else
           iperf_json_printf ''socket: %d  start: %f  end: %f  seconds: %f  bytes: %d  bits_per_second: %f  jitter_ms: %f  lost_packets: %d  packets: %d  lost_percent: %f  omitted: %b sender: %b''
             (args @ [JF (dmul (ir_jitter irp) 1000), JD (interval_cnt_error irp), JD (interval_packet_count irp),
                JF (lost_percent (interval_cnt_error irp) (interval_packet_count irp))] @ flags))"

definition interval_line :: "iperf_test \<Rightarrow> iperf_stream \<Rightarrow> iperf_interval_results \<Rightarrow> outcall" where
  "interval_line t sp irp =
     (let bandwidth = per_second (bytes_transferred irp) (interval_duration irp);
          ubuf = str (unit_snprintf UNIT_LEN (d_bytes (bytes_transferred irp)) (CHR ''A''));
          nbuf = str (unit_snprintf UNIT_LEN bandwidth (unit_format_char (settings t)));
          st = secs_between (start_time (stream_result sp)) (interval_start_time irp);
          et = secs_between (start_time (stream_result sp)) (interval_end_time irp);
          args = [PI (socket sp), str (mbuf t (sender sp)), PD st, PD et, ubuf, nbuf];
          om = omitted_text (omitted irp)
      in if tcp_like t then
           (if sender_has_retransmits t = 1 \<and> sender sp \<noteq> 0 then
              Printf report_bw_retrans_cwnd_format
                (args @ [PI (interval_retrans irp), str (unit_snprintf UNIT_LEN (d_of_int (snd_cwnd irp)) (CHR ''A'')), om])
            else Printf report_bw_format (args @ [om]))
         else if sender sp \<noteq> 0 then
           Printf report_bw_udp_sender_format (args @ [str (zbuf t), PI (interval_packet_count irp), om])
         else
           Printf report_bw_udp_format (args @ [PD (dmul (ir_jitter irp) 1000), PI (interval_cnt_error irp), PI (interval_packet_count irp),
             PD (lost_percent (interval_cnt_error irp) (interval_packet_count irp)), om]))"

text \<open>What is printed, and the array with the streams of the interval.\<close>

definition print_interval_results :: "iperf_test \<Rightarrow> iperf_stream \<Rightarrow> cJSON \<Rightarrow> (outcall list \<times> cJSON) option" where
  "print_interval_results t sp arr =
     (case last_interval sp of
        None \<Rightarrow> Some ([Err ''print_interval_results error: interval_results is NULL''], arr)
      | Some irp \<Rightarrow>
          if json_output t \<noteq> 0 then map_option (\<lambda>arr. ([], arr)) (to_array arr (interval_json t sp irp))
          else Some (interval_headers t sp irp @ [interval_line t sp irp], arr))"

section \<open>The report of an interval\<close>

text \<open>
  Very short intervals without data are left out; the quotient by a duration of zero, or by no
  streams, is what the machine makes of it.
\<close>

definition interval_ok :: "iperf_test \<Rightarrow> bool" where
  "interval_ok t \<longleftrightarrow> list_ex (\<lambda>sp. case last_interval sp of None \<Rightarrow> False
     | Some irp \<Rightarrow> dmul (stats_interval t) (rnd (1 / 10)) \<le> secs_between (interval_start_time irp) (interval_end_time irp)
         \<or> 0 < bytes_transferred irp) (streams t)"

definition quotient :: "junk \<Rightarrow> rat \<Rightarrow> rat \<Rightarrow> rat" where
  "quotient J x y = (if y = 0 then j_quotient J else ddiv x y)"

definition report_modes :: "iperf_test \<Rightarrow> int list" where
  "report_modes t = (case mode t of SENDER \<Rightarrow> [1] | RECEIVER \<Rightarrow> [0]
     | BIDIRECTIONAL \<Rightarrow> if role t = CHR ''c'' then [-1, 0] else [0, 1])"

record totals =
  t_bytes :: u64
  t_retransmits :: int
  t_packets :: int
  t_lost :: int
  t_jitter :: rat

definition no_totals :: totals where
  "no_totals = \<lparr>t_bytes = 0, t_retransmits = 0, t_packets = 0, t_lost = 0, t_jitter = 0\<rparr>"

definition add_totals :: "iperf_test \<Rightarrow> iperf_interval_results \<Rightarrow> totals \<Rightarrow> totals" where
  "add_totals t irp tot =
     (let tot = tot\<lparr>t_bytes := t_bytes tot + bytes_transferred irp\<rparr>
      in if prot_id (protocol t) = Ptcp then
           (if sender_has_retransmits t = 1 then tot\<lparr>t_retransmits := to_int32 (t_retransmits tot + interval_retrans irp)\<rparr> else tot)
         else tot\<lparr>t_packets := to_int32 (t_packets tot + interval_packet_count irp),
                  t_lost := to_int32 (t_lost tot + interval_cnt_error irp),
                  t_jitter := dadd (t_jitter tot) (ir_jitter irp)\<rparr>)"

text \<open>
  The loop over the streams of one direction: what is printed, the array, and the totals, or
  \<open>None\<close> for these when the function returns from within the loop.
\<close>

fun sum_streams :: "iperf_test \<Rightarrow> int \<Rightarrow> iperf_stream list \<Rightarrow> totals \<Rightarrow> outcall list \<Rightarrow> cJSON
    \<Rightarrow> (outcall list \<times> cJSON \<times> totals option) option" where
  "sum_streams t snds [] tot outs arr = Some (outs, arr, Some tot)"
| "sum_streams t snds (sp # sps) tot outs arr =
     (if sender sp = snds then
        (case print_interval_results t sp arr of None \<Rightarrow> None
         | Some (outs', arr) \<Rightarrow>
             (case last_interval sp of
                None \<Rightarrow> Some (outs @ outs' @ [Err ''iperf_print_intermediate error: interval_results is NULL''], arr, None)
              | Some irp \<Rightarrow> sum_streams t snds sps (add_totals t irp tot) (outs @ outs') arr))
      else sum_streams t snds sps tot outs arr)"

text \<open>The sum over the streams; \<open>sp\<close> is the first stream of the test, used for the times.\<close>

definition sum_json :: "junk \<Rightarrow> iperf_test \<Rightarrow> int \<Rightarrow> iperf_stream \<Rightarrow> iperf_interval_results \<Rightarrow> totals \<Rightarrow> cJSON option option" where
  "sum_json J t snds sp irp tot =
     (let bandwidth = quotient J (d_bytes (t_bytes tot)) (interval_duration irp);
          st = secs_between (start_time (stream_result sp)) (interval_start_time irp);
          et = secs_between (start_time (stream_result sp)) (interval_end_time irp);
          args = [JF st, JF et, JF (interval_duration irp), JD (sint (t_bytes tot)), JF (dmul bandwidth 8)]
      in if tcp_like t then
           (if sender_has_retransmits t = 1 \<and> snds \<noteq> 0 then
              iperf_json_printf ''start: %f  end: %f  seconds: %f  bytes: %d  bits_per_second: %f  retransmits: %d  omitted: %b sender: %b''
                (args @ [JD (t_retransmits tot), JB (omitted irp), JB snds])
            else
              iperf_json_printf ''start: %f  end: %f  seconds: %f  bytes: %d  bits_per_second: %f  omitted: %b sender: %b''
                (args @ [JB (omitting t), JB snds]))
         else if snds \<noteq> 0 then
           iperf_json_printf ''start: %f  end: %f  seconds: %f  bytes: %d  bits_per_second: %f  packets: %d  omitted: %b sender: %b''
             (args @ [JD (t_packets tot), JB (omitting t), JB snds])
         else
           iperf_json_printf ''start: %f  end: %f  seconds: %f  bytes: %d  bits_per_second: %f  jitter_ms: %f  lost_packets: %d  packets: %d  lost_percent: %f  omitted: %b sender: %b''
             (args @ [JF (dmul (quotient J (t_jitter tot) (d_of_int (num_streams t))) 1000), JD (t_lost tot), JD (t_packets tot),
                JF (lost_percent (t_lost tot) (t_packets tot)), JB (omitting t), JB snds]))"

definition sum_line :: "junk \<Rightarrow> iperf_test \<Rightarrow> int \<Rightarrow> iperf_stream \<Rightarrow> iperf_interval_results \<Rightarrow> totals \<Rightarrow> outcall" where
  "sum_line J t snds sp irp tot =
     (let bandwidth = quotient J (d_bytes (t_bytes tot)) (interval_duration irp);
          ubuf = str (unit_snprintf UNIT_LEN (d_bytes (t_bytes tot)) (CHR ''A''));
          nbuf = str (unit_snprintf UNIT_LEN bandwidth (unit_format_char (settings t)));
          st = secs_between (start_time (stream_result sp)) (interval_start_time irp);
          et = secs_between (start_time (stream_result sp)) (interval_end_time irp);
          args = [str (mbuf t snds), PD st, PD et, ubuf, nbuf]
      in if tcp_like t then
           (if sender_has_retransmits t = 1 \<and> snds \<noteq> 0
            then Printf report_sum_bw_retrans_format (args @ [PI (t_retransmits tot), omitted_text (omitted irp)])
            else Printf report_sum_bw_format (args @ [omitted_text (omitting t)]))
         else if snds \<noteq> 0 then
           Printf report_sum_bw_udp_sender_format (args @ [str (zbuf t), PI (t_packets tot), omitted_text (omitting t)])
         else
           Printf report_sum_bw_udp_format (args @ [PD (dmul (quotient J (t_jitter tot) (d_of_int (num_streams t))) 1000), PI (t_lost tot),
             PI (t_packets tot), PD (lost_percent (t_lost tot) (t_packets tot)), omitted_text (omitting t)]))"

text \<open>A first stream without an interval is a null pointer here.\<close>

definition interval_sum :: "junk \<Rightarrow> iperf_test \<Rightarrow> int \<Rightarrow> totals \<Rightarrow> (outcall list \<times> cJSON list) option" where
  "interval_sum J t snds tot =
     (if 1 < num_streams t \<or> json_output t \<noteq> 0 then
        (case streams t of [] \<Rightarrow> Some ([], [])
         | sp # _ \<Rightarrow>
             (case last_interval sp of None \<Rightarrow> None
              | Some irp \<Rightarrow>
                  if json_output t \<noteq> 0 then map_option (\<lambda>j. ([], [j])) (the_item (sum_json J t snds sp irp tot))
                  else Some ([sum_line J t snds sp irp tot], [])))
      else Some ([], []))"

text \<open>The loop over the directions, with the sums that were added.\<close>

fun interval_modes :: "junk \<Rightarrow> iperf_test \<Rightarrow> int list \<Rightarrow> outcall list \<Rightarrow> cJSON \<Rightarrow> cJSON list
    \<Rightarrow> (outcall list \<times> cJSON \<times> cJSON list) option" where
  "interval_modes J t [] outs arr added = Some (outs, arr, added)"
| "interval_modes J t (m # ms) outs arr added =
     (case sum_streams t (m * m) (streams t) no_totals outs arr of
        None \<Rightarrow> None
      | Some (outs, arr, None) \<Rightarrow> Some (outs, arr, added)
      | Some (outs, arr, Some tot) \<Rightarrow>
          (case interval_sum J t (m * m) tot of None \<Rightarrow> None
           | Some (outs', added') \<Rightarrow> interval_modes J t ms (outs @ outs') arr (added @ added')))"

text \<open>
  The object of the interval is linked into the report before it is filled: it is there, with what
  has been added so far, also when the function returns early. The result is what is printed and
  the array \<open>json_intervals\<close> of the report.
\<close>

definition interval_object :: "cJSON \<Rightarrow> cJSON list \<Rightarrow> cJSON" where
  "interval_object arr added = fold (\<lambda>j obj. cJSON_AddItemToObject obj ''sum'' j) added (cJSON_AddItemToObject cJSON_CreateObject ''streams'' arr)"

definition iperf_print_intermediate :: "junk \<Rightarrow> iperf_test \<Rightarrow> cJSON \<Rightarrow> (outcall list \<times> cJSON) option" where
  "iperf_print_intermediate J t json_intervals =
     (if \<not> interval_ok t then Some ([], json_intervals)
      else (case interval_modes J t (report_modes t) [] cJSON_CreateArray [] of
          None \<Rightarrow> None
        | Some (outs, arr, added) \<Rightarrow>
            Some (outs, if json_output t \<noteq> 0 then cJSON_AddItemToArray json_intervals (Some (interval_object arr added)) else json_intervals)))"

section \<open>The final report\<close>

record summary =
  s_sent :: u64
  s_received :: u64
  s_retransmits :: int
  s_packets :: int
  s_sender_packets :: int
  s_receiver_packets :: int
  s_lost :: int
  s_jitter :: rat

definition no_summary :: summary where
  "no_summary = \<lparr>s_sent = 0, s_received = 0, s_retransmits = 0, s_packets = 0, s_sender_packets = 0,
     s_receiver_packets = 0, s_lost = 0, s_jitter = 0\<rparr>"

definition stream_sent :: "iperf_stream \<Rightarrow> u64" where
  "stream_sent sp = bytes_sent (stream_result sp) - bytes_sent_omit (stream_result sp)"

definition sender_packets :: "iperf_stream \<Rightarrow> int" where
  "sender_packets sp = (if sender sp \<noteq> 0 then packet_count sp else peer_packet_count sp)"

definition receiver_packets :: "iperf_stream \<Rightarrow> int" where
  "receiver_packets sp = (if sender sp \<noteq> 0 then peer_packet_count sp else packet_count sp)"

definition known_packets :: "iperf_stream \<Rightarrow> int" where
  "known_packets sp = (if sender_packets sp \<noteq> 0 then sender_packets sp else receiver_packets sp)"

text \<open>Without what was omitted.\<close>

definition counted :: "iperf_stream \<Rightarrow> int \<Rightarrow> int" where
  "counted sp n = to_int32 (n - omitted_packet_count sp)"

definition lost :: "iperf_stream \<Rightarrow> int" where
  "lost sp = to_int32 (cnt_error sp - omitted_cnt_error sp)"

definition disordered :: "iperf_stream \<Rightarrow> int" where
  "disordered sp = to_int32 (outoforder_packets sp - omitted_outoforder_packets sp)"

definition add_summary :: "iperf_test \<Rightarrow> iperf_stream \<Rightarrow> summary \<Rightarrow> summary" where
  "add_summary t sp u =
     (let u = u\<lparr>s_sent := s_sent u + stream_sent sp, s_received := s_received u + bytes_received (stream_result sp)\<rparr>
      in if tcp_like t then
           (if sender_has_retransmits t \<noteq> 0
            then u\<lparr>s_retransmits := to_int32 (s_retransmits u + stream_retrans (stream_result sp))\<rparr> else u)
         else u\<lparr>s_packets := to_int32 (s_packets u + counted sp (known_packets sp)),
                s_sender_packets := to_int32 (s_sender_packets u + counted sp (sender_packets sp)),
                s_receiver_packets := to_int32 (s_receiver_packets u + counted sp (receiver_packets sp)),
                s_lost := to_int32 (s_lost u + lost sp),
                s_jitter := dadd (s_jitter u) (jitter sp)\<rparr>)"

text \<open>The times of sender and receiver, and the time of this end.\<close>

record run_times =
  sent_time :: rat
  received_time :: rat
  own_time :: rat

definition mean_rtt :: "iperf_stream_result \<Rightarrow> int" where
  "mean_rtt rp = (if stream_count_rtt rp = 0 then 0 else stream_sum_rtt rp sdiv stream_count_rtt rp)"

text \<open>A line for an end whose numbers the server does not have is replaced by a note in verbose mode.\<close>

definition unless_missing :: "iperf_test \<Rightarrow> bool \<Rightarrow> outcall \<Rightarrow> outcall \<Rightarrow> outcall list" where
  "unless_missing t elsewhere note line =
     (if role t = CHR ''s'' \<and> elsewhere then (if verbose t \<noteq> 0 then [note] else []) else [line])"

definition sender_object :: "iperf_test \<Rightarrow> int \<Rightarrow> run_times \<Rightarrow> iperf_stream \<Rightarrow> cJSON option option" where
  "sender_object t snds tms sp =
     (let bandwidth = per_second (stream_sent sp) (sent_time tms); rp = stream_result sp;
          args = [JD (socket sp), JF 0, JF (sent_time tms), JF (sent_time tms), JD (sint (stream_sent sp)), JF (dmul bandwidth 8)]
      in if tcp_like t then
           (if sender_has_retransmits t \<noteq> 0 then
              iperf_json_printf ''socket: %d  start: %f  end: %f  seconds: %f  bytes: %d  bits_per_second: %f  retransmits: %d  max_snd_cwnd:  %d  max_rtt:  %d  min_rtt:  %d  mean_rtt:  %d sender: %b''
                (args @ [JD (stream_retrans rp), JD (stream_max_snd_cwnd rp), JD (stream_max_rtt rp), JD (stream_min_rtt rp), JD (mean_rtt rp), JB snds])
            else
              iperf_json_printf ''socket: %d  start: %f  end: %f  seconds: %f  bytes: %d  bits_per_second: %f sender: %b'' (args @ [JB snds]))
         else
           iperf_json_printf ''socket: %d  start: %f  end: %f  seconds: %f  bytes: %d  bits_per_second: %f  jitter_ms: %f  lost_packets: %d  packets: %d  lost_percent: %f  out_of_order: %d sender: %b''
             (args @ [JF (dmul (jitter sp) 1000), JD (lost sp), JD (counted sp (known_packets sp)),
                JF (lost_percent (lost sp) (counted sp (sender_packets sp))), JD (disordered sp), JB snds]))"

definition sender_json :: "iperf_test \<Rightarrow> int \<Rightarrow> run_times \<Rightarrow> iperf_stream \<Rightarrow> (string \<times> cJSON) option" where
  "sender_json t snds tms sp = map_option (\<lambda>j. (if tcp_like t then ''sender'' else ''udp'', j)) (the_item (sender_object t snds tms sp))"

definition sender_lines :: "iperf_test \<Rightarrow> int \<Rightarrow> run_times \<Rightarrow> iperf_stream \<Rightarrow> outcall list" where
  "sender_lines t snds tms sp =
     (let bandwidth = per_second (stream_sent sp) (sent_time tms);
          ubuf = str (unit_snprintf UNIT_LEN (d_bytes (stream_sent sp)) (CHR ''A''));
          nbuf = str (unit_snprintf UNIT_LEN bandwidth (unit_format_char (settings t)));
          args = [PI (socket sp), str (mbuf t snds), PD 0, PD (sent_time tms), ubuf, nbuf];
          note = Printf report_sender_not_available_format [PI (socket sp)]
      in if tcp_like t then
           unless_missing t (sender sp = 0) note
             (if sender_has_retransmits t \<noteq> 0
              then Printf report_bw_retrans_format (args @ [PI (stream_retrans (stream_result sp)), str report_sender])
              else Printf report_bw_format (args @ [str report_sender]))
         else
           unless_missing t (sender sp = 0) note
             (Printf report_bw_udp_format (args @ [PD 0, PI 0, PI (counted sp (sender_packets sp)), PD 0, str report_sender])) @
           (if 0 < disordered sp
            then [Printf report_sum_outoforder [str (mbuf t snds), PD 0, PD (sent_time tms), PI (disordered sp)]] else []))"

text \<open>The file of the option \<open>-F\<close>; \<open>st_size\<close> gives its size, or nothing when \<open>fstat\<close> fails.\<close>

definition percent_of :: "u64 \<Rightarrow> int \<Rightarrow> int" where
  "percent_of n fsize = (if 0 < fsize then d_to_int (dmul (ddiv (d_bytes n) (d_of_int fsize)) 100) else 100)"

definition diskfile_json :: "iperf_test \<Rightarrow> iperf_stream \<Rightarrow> int \<Rightarrow> (string \<times> cJSON) option" where
  "diskfile_json t sp fsize =
     map_option (\<lambda>j. (''diskfile'', j)) (the_item
       (iperf_json_printf ''sent: %d  received: %d  size: %d  percent_sent: %d  percent_received: %d  filename: %s''
          [JD (sint (stream_sent sp)), JD (sint (bytes_received (stream_result sp))), JD fsize,
           JD (percent_of (stream_sent sp) fsize), JD (percent_of (bytes_received (stream_result sp)) fsize), JS (diskfile_name t)]))"

definition diskfile_line :: "iperf_test \<Rightarrow> int \<Rightarrow> iperf_stream \<Rightarrow> int \<Rightarrow> outcall" where
  "diskfile_line t snds sp fsize =
     (let n = (if snds \<noteq> 0 then stream_sent sp else bytes_received (stream_result sp))
      in Printf report_diskfile [str (unit_snprintf UNIT_LEN (d_bytes n) (CHR ''A'')),
           str (unit_snprintf UNIT_LEN (d_of_int fsize) (CHR ''A'')), PI (percent_of n fsize), PS (diskfile_name t)])"

definition receiver_object :: "int \<Rightarrow> run_times \<Rightarrow> iperf_stream \<Rightarrow> cJSON option option" where
  "receiver_object snds tms sp =
     iperf_json_printf ''socket: %d  start: %f  end: %f  seconds: %f  bytes: %d  bits_per_second: %f sender: %b''
       [JD (socket sp), JF 0, JF (received_time tms), JF (own_time tms), JD (sint (bytes_received (stream_result sp))),
        JF (dmul (per_second (bytes_received (stream_result sp)) (received_time tms)) 8), JB snds]"

definition receiver_json :: "iperf_test \<Rightarrow> int \<Rightarrow> run_times \<Rightarrow> iperf_stream \<Rightarrow> (string \<times> cJSON) list option" where
  "receiver_json t snds tms sp =
     (if tcp_like t then map_option (\<lambda>j. [(''receiver'', j)]) (the_item (receiver_object snds tms sp)) else Some [])"

definition receiver_lines :: "iperf_test \<Rightarrow> int \<Rightarrow> run_times \<Rightarrow> iperf_stream \<Rightarrow> outcall list" where
  "receiver_lines t snds tms sp =
     (let n = bytes_received (stream_result sp);
          ubuf = str (unit_snprintf UNIT_LEN (d_bytes n) (CHR ''A''));
          nbuf = str (unit_snprintf UNIT_LEN (per_second n (received_time tms)) (unit_format_char (settings t)));
          args = [PI (socket sp), str (mbuf t snds), PD 0, PD (received_time tms), ubuf, nbuf]
      in unless_missing t (sender sp \<noteq> 0) (Printf report_receiver_not_available_format [PI (socket sp)])
           (if tcp_like t then Printf report_bw_format (args @ [str report_receiver])
            else Printf report_bw_udp_format (args @ [PD (dmul (jitter sp) 1000), PI (lost sp), PI (counted sp (receiver_packets sp)),
              PD (lost_percent (lost sp) (counted sp (receiver_packets sp))), str report_receiver])))"

definition stream_object :: "(string \<times> cJSON) list \<Rightarrow> cJSON" where
  "stream_object ms = fold (\<lambda>(n, j) obj. cJSON_AddItemToObject obj n j) ms cJSON_CreateObject"

definition print_stream_results ::
  "(int \<Rightarrow> int option) \<Rightarrow> iperf_test \<Rightarrow> int \<Rightarrow> run_times \<Rightarrow> iperf_stream \<Rightarrow> cJSON \<Rightarrow> (outcall list \<times> cJSON) option" where
  "print_stream_results st_size t snds tms sp arr =
     (let fsize = (if 0 \<le> diskfile_fd sp then st_size (diskfile_fd sp) else None)
      in if json_output t \<noteq> 0 then do {
           a \<leftarrow> sender_json t snds tms sp;
           b \<leftarrow> (case fsize of None \<Rightarrow> Some [] | Some n \<Rightarrow> map_option (\<lambda>x. [x]) (diskfile_json t sp n));
           c \<leftarrow> receiver_json t snds tms sp;
           Some ([], cJSON_AddItemToArray arr (Some (stream_object (a # b @ c))))
         }
         else Some (sender_lines t snds tms sp @ (case fsize of None \<Rightarrow> [] | Some n \<Rightarrow> [diskfile_line t snds sp n]) @
                    receiver_lines t snds tms sp, arr))"

fun print_streams_results ::
  "(int \<Rightarrow> int option) \<Rightarrow> iperf_test \<Rightarrow> int \<Rightarrow> run_times \<Rightarrow> iperf_stream list \<Rightarrow> summary \<Rightarrow> outcall list \<Rightarrow> cJSON
    \<Rightarrow> (outcall list \<times> cJSON \<times> summary) option" where
  "print_streams_results st_size t snds tms [] u outs arr = Some (outs, arr, u)"
| "print_streams_results st_size t snds tms (sp # sps) u outs arr =
     (if sender sp = snds then
        (case print_stream_results st_size t snds tms sp arr of None \<Rightarrow> None
         | Some (outs', arr) \<Rightarrow> print_streams_results st_size t snds tms sps (add_summary t sp u) (outs @ outs') arr)
      else print_streams_results st_size t snds tms sps u outs arr)"

section \<open>The sums of the final report\<close>

definition sum_sent :: "iperf_test \<Rightarrow> int \<Rightarrow> run_times \<Rightarrow> summary \<Rightarrow> cJSON option option" where
  "sum_sent t snds tms u =
     (let args = [JF 0, JF (sent_time tms), JF (sent_time tms), JD (sint (s_sent u)), JF (dmul (per_second (s_sent u) (sent_time tms)) 8)]
      in if sender_has_retransmits t \<noteq> 0
         then iperf_json_printf ''start: %f  end: %f  seconds: %f  bytes: %d  bits_per_second: %f  retransmits: %d sender: %b''
                (args @ [JD (s_retransmits u), JB snds])
         else iperf_json_printf ''start: %f  end: %f  seconds: %f  bytes: %d  bits_per_second: %f sender: %b'' (args @ [JB snds]))"

definition sum_received :: "int \<Rightarrow> run_times \<Rightarrow> summary \<Rightarrow> cJSON option option" where
  "sum_received snds tms u =
     iperf_json_printf ''start: %f  end: %f  seconds: %f  bytes: %d  bits_per_second: %f sender: %b''
       [JF 0, JF (received_time tms), JF (received_time tms), JD (sint (s_received u)),
        JF (dmul (per_second (s_received u) (received_time tms)) 8), JB snds]"

definition sum_udp :: "junk \<Rightarrow> iperf_test \<Rightarrow> int \<Rightarrow> run_times \<Rightarrow> summary \<Rightarrow> cJSON option option" where
  "sum_udp J t snds tms u =
     iperf_json_printf ''start: %f  end: %f  seconds: %f  bytes: %d  bits_per_second: %f  jitter_ms: %f  lost_packets: %d  packets: %d  lost_percent: %f sender: %b''
       [JF 0, JF (received_time tms), JF (received_time tms), JD (sint (s_sent u)), JF (dmul (per_second (s_sent u) (sent_time tms)) 8),
        JF (dmul (quotient J (s_jitter u) (d_of_int (num_streams t))) 1000), JD (s_lost u), JD (s_packets u),
        JF (lost_percent (s_lost u) (s_packets u)), JB snds]"

definition summary_json :: "junk \<Rightarrow> iperf_test \<Rightarrow> int \<Rightarrow> run_times \<Rightarrow> summary \<Rightarrow> (string \<times> cJSON) list option" where
  "summary_json J t snds tms u =
     (if tcp_like t then do {
        a \<leftarrow> the_item (sum_sent t snds tms u);
        b \<leftarrow> the_item (sum_received snds tms u);
        Some [(''sum_sent'', a), (''sum_received'', b)]
      }
      else map_option (\<lambda>j. [(''sum'', j)]) (the_item (sum_udp J t snds tms u)))"

definition summary_lines :: "junk \<Rightarrow> iperf_test \<Rightarrow> int \<Rightarrow> run_times \<Rightarrow> summary \<Rightarrow> outcall list" where
  "summary_lines J t snds tms u =
     (let bandwidth = per_second (s_sent u) (sent_time tms);
          units = (\<lambda>n. str (unit_snprintf UNIT_LEN (d_bytes n) (CHR ''A'')));
          rates = (\<lambda>b. str (unit_snprintf UNIT_LEN b (unit_format_char (settings t))));
          args = [str (mbuf t snds), PD 0, PD (sent_time tms), units (s_sent u), rates bandwidth]
      in if tcp_like t then
           unless_missing t (snds = 0) (Printf report_sender_not_available_summary_format [str ''SUM''])
             (if sender_has_retransmits t \<noteq> 0
              then Printf report_sum_bw_retrans_format (args @ [PI (s_retransmits u), str report_sender])
              else Printf report_sum_bw_format (args @ [str report_sender])) @
           unless_missing t (snds \<noteq> 0) (Printf report_receiver_not_available_summary_format [str ''SUM''])
             (Printf report_sum_bw_format [str (mbuf t snds), PD 0, PD (received_time tms), units (s_received u),
                rates (per_second (s_received u) (received_time tms)), str report_receiver])
         else
           (if role t = CHR ''s'' \<and> snds = 0 then []
            else [Printf report_sum_bw_udp_format (args @ [PD 0, PI 0, PI (s_sender_packets u), PD 0, str ''sender''])]) @
           (if role t = CHR ''s'' \<and> snds \<noteq> 0 then []
            else [Printf report_sum_bw_udp_format [str (mbuf t snds), PD 0, PD (received_time tms), units (s_received u),
                    rates (if 0 < own_time tms then quotient J (d_bytes (s_received u)) (received_time tms) else 0),
                    PD (dmul (quotient J (s_jitter u) (d_of_int (num_streams t))) 1000), PI (s_lost u), PI (s_receiver_packets u),
                    PD (lost_percent (s_lost u) (s_packets u)), str ''receiver'']]))"

section \<open>The end of the final report\<close>

definition congestion_names :: "iperf_test \<Rightarrow> int \<Rightarrow> string option \<times> string option" where
  "congestion_names t snds =
     (if snds \<noteq> 0 then (congestion_used t, remote_congestion_used t) else (remote_congestion_used t, congestion_used t))"

definition end_json :: "iperf_test \<Rightarrow> int \<Rightarrow> (string \<times> cJSON) list option" where
  "end_json t snds =
     (let (h0, h1, h2) = cpu_util t; (r0, r1, r2) = remote_cpu_util t; (s, r) = congestion_names t snds;
          add = (\<lambda>n x. case cJSON_CreateString x of None \<Rightarrow> [] | Some j \<Rightarrow> [(n, j)])
      in do {
        a \<leftarrow> the_item (iperf_json_printf ''host_total: %f  host_user: %f  host_system: %f  remote_total: %f  remote_user: %f  remote_system: %f''
          [JF h0, JF h1, JF h2, JF r0, JF r1, JF r2]);
        Some ((''cpu_utilization_percent'', a) #
          (if prot_id (protocol t) = Ptcp then add ''sender_tcp_congestion'' s @ add ''receiver_tcp_congestion'' r else []))
      })"

definition cpu_line :: "iperf_test \<Rightarrow> bool \<Rightarrow> outcall" where
  "cpu_line t sending =
     (let (h0, h1, h2) = cpu_util t; (r0, r1, r2) = remote_cpu_util t
      in Printf report_cpu [str report_local, str (if sending then report_sender else report_receiver), PD h0, PD h1, PD h2,
           str report_remote, str (if sending then report_receiver else report_sender), PD r0, PD r1, PD r2])"

definition end_lines :: "iperf_test \<Rightarrow> int \<Rightarrow> outcall list" where
  "end_lines t snds =
     (if verbose t \<noteq> 0 then
        (if snds \<noteq> 0 then (if bidirectional t \<noteq> 0 then [cpu_line t True, cpu_line t False] else [cpu_line t True]) else []) @
        (if prot_id (protocol t) = Ptcp then
           (let (s, r) = congestion_names t snds
            in (if s = None then [] else [Printf (''snd_tcp_congestion %s'' @ newline) [PS s]]) @
               (if r = None then [] else [Printf (''rcv_tcp_congestion %s'' @ newline) [PS r]]))
         else [])
      else [])"

text \<open>The output of the server is printed once and forgotten.\<close>

definition server_lines :: "iperf_test \<Rightarrow> outcall list" where
  "server_lines t =
     (case json_server_output t of None \<Rightarrow> []
      | Some j \<Rightarrow> [Printf (newline @ ''Server JSON output:'' @ newline @ ''%s'' @ newline) [PS (cJSON_Print j)]]) @
     (if server_output_text t = None then []
      else [Printf (newline @ ''Server output:'' @ newline @ ''%s'' @ newline) [PS (server_output_text t)]])"

definition print_server_output :: "iperf_test \<Rightarrow> outcall list \<times> iperf_test" where
  "print_server_output t =
     (if role t = CHR ''c'' \<and> get_server_output t \<noteq> 0 \<and> json_output t = 0
      then (server_lines t, t\<lparr>json_server_output := None, server_output_text := None\<rparr>) else ([], t))"

definition results_header :: "iperf_test \<Rightarrow> outcall list" where
  "results_header t =
     [puts report_bw_separator] @ (if verbose t \<noteq> 0 then [puts report_summary] else []) @
     [puts (if tcp_like t then
              (if sender_has_retransmits t \<noteq> 0 \<or> other_side_has_retransmits t \<noteq> 0
               then (if bidirectional t \<noteq> 0 then report_bw_retrans_header_bidir else report_bw_retrans_header)
               else (if bidirectional t \<noteq> 0 then report_bw_header_bidir else report_bw_header))
            else (if bidirectional t \<noteq> 0 then report_bw_udp_header_bidir else report_bw_udp_header))]"

text \<open>The variables set at the start of a direction: the sender's retransmits, and the times of the first stream.\<close>

definition enter_mode :: "int \<Rightarrow> int \<Rightarrow> iperf_test \<Rightarrow> iperf_test" where
  "enter_mode shr snds t =
     (let t = (if mode t = BIDIRECTIONAL
               then t\<lparr>sender_has_retransmits := (if snds \<noteq> 0 then shr else other_side_has_retransmits t)\<rparr> else t)
      in case streams t of [] \<Rightarrow> t | sp # sps \<Rightarrow> t\<lparr>streams := report_times sp # sps\<rparr>)"

definition first_times :: "iperf_test \<Rightarrow> run_times" where
  "first_times t =
     (case streams t of [] \<Rightarrow> \<lparr>sent_time = 0, received_time = 0, own_time = 0\<rparr>
      | sp # _ \<Rightarrow> (let rp = stream_result sp
          in \<lparr>sent_time = sender_time rp, received_time = receiver_time rp, own_time = secs_between (start_time rp) (end_time rp)\<rparr>))"

text \<open>
  One direction: what is printed, the array of the streams, the members added to \<open>json_end\<close>, and
  the test. \<open>final\<close> says whether it is the last one.
\<close>

definition print_mode :: "(int \<Rightarrow> int option) \<Rightarrow> junk \<Rightarrow> int \<Rightarrow> int \<Rightarrow> bool \<Rightarrow> iperf_test \<Rightarrow> cJSON
    \<Rightarrow> (outcall list \<times> cJSON \<times> (string \<times> cJSON) list \<times> iperf_test) option" where
  "print_mode st_size J shr snds final t arr = do {
     let t = enter_mode shr snds t;
     let tms = first_times t;
     (outs, arr, u) \<leftarrow> print_streams_results st_size t snds tms (streams t) no_summary [] arr;
     (added, ms) \<leftarrow>
       (if json_output t \<noteq> 0 then map_option (\<lambda>ms. ([], ms)) (summary_json J t snds tms u)
        else Some (if 1 < num_streams t then summary_lines J t snds tms u else [], []));
     if json_output t \<noteq> 0 \<and> final then do { e \<leftarrow> end_json t snds; Some (outs @ added, arr, ms @ e, t) }
     else (case print_server_output t of (srv, t') \<Rightarrow> Some (outs @ added @ end_lines t snds @ srv, arr, ms, t'))
   }"

fun print_modes :: "(int \<Rightarrow> int option) \<Rightarrow> junk \<Rightarrow> int \<Rightarrow> int list \<Rightarrow> iperf_test \<Rightarrow> outcall list \<Rightarrow> cJSON \<Rightarrow> (string \<times> cJSON) list
    \<Rightarrow> (outcall list \<times> cJSON \<times> (string \<times> cJSON) list \<times> iperf_test) option" where
  "print_modes st_size J shr [] t outs arr ms = Some (outs, arr, ms, t)"
| "print_modes st_size J shr (m # rest) t outs arr ms =
     (case print_mode st_size J shr (m * m) (rest = []) t arr of None \<Rightarrow> None
      | Some (outs', arr, ms', t) \<Rightarrow> print_modes st_size J shr rest t (outs @ outs') arr (ms @ ms'))"

text \<open>The whole report: what is printed, \<open>json_end\<close>, and the test.\<close>

definition print_results :: "(int \<Rightarrow> int option) \<Rightarrow> junk \<Rightarrow> iperf_test \<Rightarrow> cJSON \<Rightarrow> (outcall list \<times> cJSON \<times> iperf_test) option" where
  "print_results st_size J t json_end = do {
     (outs, arr, ms, t') \<leftarrow> print_modes st_size J (sender_has_retransmits t) (report_modes t) t
        (if json_output t \<noteq> 0 then [] else results_header t) cJSON_CreateArray [];
     Some (outs,
       if json_output t \<noteq> 0 then fold (\<lambda>(n, j) obj. cJSON_AddItemToObject obj n j) ((''streams'', arr) # ms) json_end else json_end,
       if mode t = BIDIRECTIONAL then t'\<lparr>sender_has_retransmits := sender_has_retransmits t\<rparr> else t')
   }"

end
