(* ===== verification/Report_Props.thy ===== *)
theory Report_Props
  imports Report Data_Props
begin

text \<open>
  Properties of the reports: what a format makes of its arguments, that every call of \<open>iperf_printf\<close>
  and \<open>iperf_json_printf\<close> has the arguments its format asks for, that the sum of an interval is the
  sum over its streams, and that the final report changes the test as \<open>Prog\<close> says.
\<close>

section \<open>Objects from a format\<close>

text \<open>A field: spaces, its name, a colon, spaces, and the conversion.\<close>

definition field :: "nat \<times> string \<times> nat \<times> char \<Rightarrow> string" where
  "field f = (case f of (i, nm, k, d) \<Rightarrow> replicate i (CHR '' '') @ nm @ CHR '':'' # replicate k (CHR '' '') @ [CHR ''%'', d])"

definition plain_name :: "string \<Rightarrow> bool" where
  "plain_name nm \<longleftrightarrow> length nm < 100 \<and> list_all (\<lambda>c. c \<noteq> CHR '' '' \<and> c \<noteq> CHR '':'' \<and> c \<noteq> CHR ''%'' \<and> c \<noteq> CHR 0x00) nm"

fun fields_object :: "(nat \<times> string \<times> nat \<times> char) list \<Rightarrow> jarg list \<Rightarrow> cJSON \<Rightarrow> cJSON option option" where
  "fields_object [] args obj = Some (Some obj)"
| "fields_object ((i, nm, k, d) # fs) args obj =
     (case args of [] \<Rightarrow> None
      | a # args \<Rightarrow> (case json_value d a of None \<Rightarrow> None | Some None \<Rightarrow> Some None
         | Some (Some j) \<Rightarrow> fields_object fs args (cJSON_AddItemToObject obj nm j)))"

lemma json_loop_spaces: "json_loop (replicate i (CHR '' '') @ cs) args name np obj = json_loop cs args name np obj"
  by (induction i) auto

lemma json_loop_colon:
  "np < length name \<Longrightarrow> json_loop (CHR '':'' # cs) args name np obj = json_loop cs args (name[np := Some (CHR 0x00)]) np obj"
  by simp

lemma json_loop_name:
  assumes "list_all (\<lambda>c. c \<noteq> CHR '' '' \<and> c \<noteq> CHR '':'' \<and> c \<noteq> CHR ''%'' \<and> c \<noteq> CHR 0x00) nm"
    and "length pre = np" "length nm \<le> length suf"
  shows "json_loop (nm @ cs) args (pre @ suf) np obj =
    json_loop cs args (pre @ map Some nm @ drop (length nm) suf) (np + length nm) obj"
  using assms
proof (induction nm arbitrary: pre suf np)
  case (Cons c nm)
  then obtain x suf' where suf: "suf = x # suf'" by (cases suf) auto
  have "json_loop (nm @ cs) args ((pre @ [Some c]) @ suf') (np + 1) obj =
      json_loop cs args ((pre @ [Some c]) @ map Some nm @ drop (length nm) suf') (np + 1 + length nm) obj"
    using Cons.prems by (intro Cons.IH) (auto simp: suf)
  then show ?case using Cons.prems by (simp add: suf list_update_append)
qed simp

lemma c_string_at_name: "list_all (\<lambda>c. c \<noteq> CHR 0x00) nm \<Longrightarrow> c_string_at (map Some nm @ Some (CHR 0x00) # bs) = Some nm"
  by (induction nm) auto

lemma json_loop_field:
  assumes "plain_name nm" "length name = 100" "d \<in> set ''bdfs''"
  shows "\<exists>name'. length name' = 100 \<and> json_loop (field (i, nm, k, d) @ cs) args name 0 obj =
    (case args of [] \<Rightarrow> None
      | a # args \<Rightarrow> (case json_value d a of None \<Rightarrow> None | Some None \<Rightarrow> Some None
         | Some (Some j) \<Rightarrow> json_loop cs args name' 0 (cJSON_AddItemToObject obj nm j)))"
proof -
  let ?name = "map Some nm @ drop (length nm) name"
  let ?name' = "?name[length nm := Some (CHR 0x00)]"
  have len: "length nm < length name" and nm: "list_all (\<lambda>c. c \<noteq> CHR '' '' \<and> c \<noteq> CHR '':'' \<and> c \<noteq> CHR ''%'' \<and> c \<noteq> CHR 0x00) nm"
    using assms by (auto simp: plain_name_def)
  have "drop (length nm) name = name ! length nm # drop (Suc (length nm)) name"
    using len by (simp add: Cons_nth_drop_Suc)
  then have str: "c_string_at ?name' = Some nm"
    using nm by (simp add: list_update_append) (auto intro!: c_string_at_name elim: list.pred_mono_strong)
  have "json_loop (field (i, nm, k, d) @ cs) args name 0 obj =
      json_loop (nm @ CHR '':'' # replicate k (CHR '' '') @ CHR ''%'' # d # cs) args ([] @ name) 0 obj"
    by (simp add: field_def json_loop_spaces)
  also have "\<dots> = json_loop (CHR '':'' # replicate k (CHR '' '') @ CHR ''%'' # d # cs) args ?name (length nm) obj"
    using json_loop_name [OF nm, of "[]" 0 name] len by simp
  also have "\<dots> = json_loop (CHR ''%'' # d # cs) args ?name' (length nm) obj"
    using len by (subst json_loop_colon) (simp_all add: json_loop_spaces del: json_loop.simps(2))
  finally show ?thesis
    using assms(3) str by (intro exI [of _ ?name'] conjI) (use len assms(2) in \<open>auto split: list.splits option.splits\<close>)
qed

lemma json_loop_fields:
  assumes "list_all (\<lambda>(i, nm, k, d). plain_name nm \<and> d \<in> set ''bdfs'') fs" "length name = 100"
  shows "json_loop (concat (map field fs)) args name 0 obj = fields_object fs args obj"
  using assms
proof (induction fs arbitrary: args name obj)
  case (Cons f fs)
  obtain i nm k d where f: "f = (i, nm, k, d)" by (cases f)
  obtain name' where n: "length name' = 100"
    "json_loop (field f @ concat (map field fs)) args name 0 obj =
      (case args of [] \<Rightarrow> None
        | a # args \<Rightarrow> (case json_value d a of None \<Rightarrow> None | Some None \<Rightarrow> Some None
         | Some (Some j) \<Rightarrow> json_loop (concat (map field fs)) args name' 0 (cJSON_AddItemToObject obj nm j)))"
    using json_loop_field [of nm name d i k "concat (map field fs)" args obj] Cons.prems by (auto simp: f)
  show ?case using n Cons.IH [OF _ n(1)] Cons.prems by (auto simp: f split: list.splits option.splits)
qed simp

lemma json_printf_fields:
  assumes "list_all (\<lambda>(i, nm, k, d). plain_name nm \<and> d \<in> set ''bdfs'') fs"
  shows "iperf_json_printf (concat (map field fs)) args = fields_object fs args cJSON_CreateObject"
  unfolding iperf_json_printf_def using assms by (rule json_loop_fields) simp


text \<open>The formats of the reports, field by field.\<close>

lemma json_format1:
  "iperf_json_printf ''socket: %d  start: %f  end: %f  seconds: %f  bytes: %d  bits_per_second: %f  retransmits: %d  snd_cwnd:  %d  rtt:  %d  rttvar: %d  pmtu: %d  omitted: %b sender: %b'' args =
     fields_object [(0, ''socket'', 1, CHR ''d''), (2, ''start'', 1, CHR ''f''), (2, ''end'', 1, CHR ''f''),
       (2, ''seconds'', 1, CHR ''f''), (2, ''bytes'', 1, CHR ''d''), (2, ''bits_per_second'', 1, CHR ''f''),
       (2, ''retransmits'', 1, CHR ''d''), (2, ''snd_cwnd'', 2, CHR ''d''), (2, ''rtt'', 2, CHR ''d''),
       (2, ''rttvar'', 1, CHR ''d''), (2, ''pmtu'', 1, CHR ''d''), (2, ''omitted'', 1, CHR ''b''),
       (1, ''sender'', 1, CHR ''b'')] args cJSON_CreateObject"
  by (subst json_printf_fields [symmetric]) (simp_all add: plain_name_def field_def numeral_2_eq_2)

lemma json_format2:
  "iperf_json_printf ''socket: %d  start: %f  end: %f  seconds: %f  bytes: %d  bits_per_second: %f  omitted: %b sender: %b'' args =
     fields_object [(0, ''socket'', 1, CHR ''d''), (2, ''start'', 1, CHR ''f''), (2, ''end'', 1, CHR ''f''),
       (2, ''seconds'', 1, CHR ''f''), (2, ''bytes'', 1, CHR ''d''), (2, ''bits_per_second'', 1, CHR ''f''),
       (2, ''omitted'', 1, CHR ''b''), (1, ''sender'', 1, CHR ''b'')] args cJSON_CreateObject"
  by (subst json_printf_fields [symmetric]) (simp_all add: plain_name_def field_def numeral_2_eq_2)

lemma json_format3:
  "iperf_json_printf ''socket: %d  start: %f  end: %f  seconds: %f  bytes: %d  bits_per_second: %f  packets: %d  omitted: %b sender: %b'' args =
     fields_object [(0, ''socket'', 1, CHR ''d''), (2, ''start'', 1, CHR ''f''), (2, ''end'', 1, CHR ''f''),
       (2, ''seconds'', 1, CHR ''f''), (2, ''bytes'', 1, CHR ''d''), (2, ''bits_per_second'', 1, CHR ''f''),
       (2, ''packets'', 1, CHR ''d''), (2, ''omitted'', 1, CHR ''b''), (1, ''sender'', 1, CHR ''b'')] args cJSON_CreateObject"
  by (subst json_printf_fields [symmetric]) (simp_all add: plain_name_def field_def numeral_2_eq_2)

lemma json_format4:
  "iperf_json_printf ''socket: %d  start: %f  end: %f  seconds: %f  bytes: %d  bits_per_second: %f  jitter_ms: %f  lost_packets: %d  packets: %d  lost_percent: %f  omitted: %b sender: %b'' args =
     fields_object [(0, ''socket'', 1, CHR ''d''), (2, ''start'', 1, CHR ''f''), (2, ''end'', 1, CHR ''f''),
       (2, ''seconds'', 1, CHR ''f''), (2, ''bytes'', 1, CHR ''d''), (2, ''bits_per_second'', 1, CHR ''f''),
       (2, ''jitter_ms'', 1, CHR ''f''), (2, ''lost_packets'', 1, CHR ''d''), (2, ''packets'', 1, CHR ''d''),
       (2, ''lost_percent'', 1, CHR ''f''), (2, ''omitted'', 1, CHR ''b''), (1, ''sender'', 1, CHR ''b'')] args cJSON_CreateObject"
  by (subst json_printf_fields [symmetric]) (simp_all add: plain_name_def field_def numeral_2_eq_2)

lemma json_format5:
  "iperf_json_printf ''start: %f  end: %f  seconds: %f  bytes: %d  bits_per_second: %f  retransmits: %d  omitted: %b sender: %b'' args =
     fields_object [(0, ''start'', 1, CHR ''f''), (2, ''end'', 1, CHR ''f''), (2, ''seconds'', 1, CHR ''f''),
       (2, ''bytes'', 1, CHR ''d''), (2, ''bits_per_second'', 1, CHR ''f''), (2, ''retransmits'', 1, CHR ''d''),
       (2, ''omitted'', 1, CHR ''b''), (1, ''sender'', 1, CHR ''b'')] args cJSON_CreateObject"
  by (subst json_printf_fields [symmetric]) (simp_all add: plain_name_def field_def numeral_2_eq_2)

lemma json_format6:
  "iperf_json_printf ''start: %f  end: %f  seconds: %f  bytes: %d  bits_per_second: %f  omitted: %b sender: %b'' args =
     fields_object [(0, ''start'', 1, CHR ''f''), (2, ''end'', 1, CHR ''f''), (2, ''seconds'', 1, CHR ''f''),
       (2, ''bytes'', 1, CHR ''d''), (2, ''bits_per_second'', 1, CHR ''f''), (2, ''omitted'', 1, CHR ''b''),
       (1, ''sender'', 1, CHR ''b'')] args cJSON_CreateObject"
  by (subst json_printf_fields [symmetric]) (simp_all add: plain_name_def field_def numeral_2_eq_2)

lemma json_format7:
  "iperf_json_printf ''start: %f  end: %f  seconds: %f  bytes: %d  bits_per_second: %f  packets: %d  omitted: %b sender: %b'' args =
     fields_object [(0, ''start'', 1, CHR ''f''), (2, ''end'', 1, CHR ''f''), (2, ''seconds'', 1, CHR ''f''),
       (2, ''bytes'', 1, CHR ''d''), (2, ''bits_per_second'', 1, CHR ''f''), (2, ''packets'', 1, CHR ''d''),
       (2, ''omitted'', 1, CHR ''b''), (1, ''sender'', 1, CHR ''b'')] args cJSON_CreateObject"
  by (subst json_printf_fields [symmetric]) (simp_all add: plain_name_def field_def numeral_2_eq_2)

lemma json_format8:
  "iperf_json_printf ''start: %f  end: %f  seconds: %f  bytes: %d  bits_per_second: %f  jitter_ms: %f  lost_packets: %d  packets: %d  lost_percent: %f  omitted: %b sender: %b'' args =
     fields_object [(0, ''start'', 1, CHR ''f''), (2, ''end'', 1, CHR ''f''), (2, ''seconds'', 1, CHR ''f''),
       (2, ''bytes'', 1, CHR ''d''), (2, ''bits_per_second'', 1, CHR ''f''), (2, ''jitter_ms'', 1, CHR ''f''),
       (2, ''lost_packets'', 1, CHR ''d''), (2, ''packets'', 1, CHR ''d''), (2, ''lost_percent'', 1, CHR ''f''),
       (2, ''omitted'', 1, CHR ''b''), (1, ''sender'', 1, CHR ''b'')] args cJSON_CreateObject"
  by (subst json_printf_fields [symmetric]) (simp_all add: plain_name_def field_def numeral_2_eq_2)

lemma json_format9:
  "iperf_json_printf ''socket: %d  start: %f  end: %f  seconds: %f  bytes: %d  bits_per_second: %f  retransmits: %d  max_snd_cwnd:  %d  max_rtt:  %d  min_rtt:  %d  mean_rtt:  %d sender: %b'' args =
     fields_object [(0, ''socket'', 1, CHR ''d''), (2, ''start'', 1, CHR ''f''), (2, ''end'', 1, CHR ''f''),
       (2, ''seconds'', 1, CHR ''f''), (2, ''bytes'', 1, CHR ''d''), (2, ''bits_per_second'', 1, CHR ''f''),
       (2, ''retransmits'', 1, CHR ''d''), (2, ''max_snd_cwnd'', 2, CHR ''d''), (2, ''max_rtt'', 2, CHR ''d''),
       (2, ''min_rtt'', 2, CHR ''d''), (2, ''mean_rtt'', 2, CHR ''d''), (1, ''sender'', 1, CHR ''b'')] args cJSON_CreateObject"
  by (subst json_printf_fields [symmetric]) (simp_all add: plain_name_def field_def numeral_2_eq_2)

lemma json_format10:
  "iperf_json_printf ''socket: %d  start: %f  end: %f  seconds: %f  bytes: %d  bits_per_second: %f sender: %b'' args =
     fields_object [(0, ''socket'', 1, CHR ''d''), (2, ''start'', 1, CHR ''f''), (2, ''end'', 1, CHR ''f''),
       (2, ''seconds'', 1, CHR ''f''), (2, ''bytes'', 1, CHR ''d''), (2, ''bits_per_second'', 1, CHR ''f''),
       (1, ''sender'', 1, CHR ''b'')] args cJSON_CreateObject"
  by (subst json_printf_fields [symmetric]) (simp_all add: plain_name_def field_def numeral_2_eq_2)

lemma json_format11:
  "iperf_json_printf ''socket: %d  start: %f  end: %f  seconds: %f  bytes: %d  bits_per_second: %f  jitter_ms: %f  lost_packets: %d  packets: %d  lost_percent: %f  out_of_order: %d sender: %b'' args =
     fields_object [(0, ''socket'', 1, CHR ''d''), (2, ''start'', 1, CHR ''f''), (2, ''end'', 1, CHR ''f''),
       (2, ''seconds'', 1, CHR ''f''), (2, ''bytes'', 1, CHR ''d''), (2, ''bits_per_second'', 1, CHR ''f''),
       (2, ''jitter_ms'', 1, CHR ''f''), (2, ''lost_packets'', 1, CHR ''d''), (2, ''packets'', 1, CHR ''d''),
       (2, ''lost_percent'', 1, CHR ''f''), (2, ''out_of_order'', 1, CHR ''d''), (1, ''sender'', 1, CHR ''b'')] args cJSON_CreateObject"
  by (subst json_printf_fields [symmetric]) (simp_all add: plain_name_def field_def numeral_2_eq_2)

lemma json_format12:
  "iperf_json_printf ''sent: %d  received: %d  size: %d  percent_sent: %d  percent_received: %d  filename: %s'' args =
     fields_object [(0, ''sent'', 1, CHR ''d''), (2, ''received'', 1, CHR ''d''), (2, ''size'', 1, CHR ''d''),
       (2, ''percent_sent'', 1, CHR ''d''), (2, ''percent_received'', 1, CHR ''d''),
       (2, ''filename'', 1, CHR ''s'')] args cJSON_CreateObject"
  by (subst json_printf_fields [symmetric]) (simp_all add: plain_name_def field_def numeral_2_eq_2)

lemma json_format13:
  "iperf_json_printf ''start: %f  end: %f  seconds: %f  bytes: %d  bits_per_second: %f  retransmits: %d sender: %b'' args =
     fields_object [(0, ''start'', 1, CHR ''f''), (2, ''end'', 1, CHR ''f''), (2, ''seconds'', 1, CHR ''f''),
       (2, ''bytes'', 1, CHR ''d''), (2, ''bits_per_second'', 1, CHR ''f''), (2, ''retransmits'', 1, CHR ''d''),
       (1, ''sender'', 1, CHR ''b'')] args cJSON_CreateObject"
  by (subst json_printf_fields [symmetric]) (simp_all add: plain_name_def field_def numeral_2_eq_2)

lemma json_format14:
  "iperf_json_printf ''start: %f  end: %f  seconds: %f  bytes: %d  bits_per_second: %f sender: %b'' args =
     fields_object [(0, ''start'', 1, CHR ''f''), (2, ''end'', 1, CHR ''f''), (2, ''seconds'', 1, CHR ''f''),
       (2, ''bytes'', 1, CHR ''d''), (2, ''bits_per_second'', 1, CHR ''f''), (1, ''sender'', 1, CHR ''b'')] args cJSON_CreateObject"
  by (subst json_printf_fields [symmetric]) (simp_all add: plain_name_def field_def numeral_2_eq_2)

lemma json_format15:
  "iperf_json_printf ''start: %f  end: %f  seconds: %f  bytes: %d  bits_per_second: %f  jitter_ms: %f  lost_packets: %d  packets: %d  lost_percent: %f sender: %b'' args =
     fields_object [(0, ''start'', 1, CHR ''f''), (2, ''end'', 1, CHR ''f''), (2, ''seconds'', 1, CHR ''f''),
       (2, ''bytes'', 1, CHR ''d''), (2, ''bits_per_second'', 1, CHR ''f''), (2, ''jitter_ms'', 1, CHR ''f''),
       (2, ''lost_packets'', 1, CHR ''d''), (2, ''packets'', 1, CHR ''d''), (2, ''lost_percent'', 1, CHR ''f''),
       (1, ''sender'', 1, CHR ''b'')] args cJSON_CreateObject"
  by (subst json_printf_fields [symmetric]) (simp_all add: plain_name_def field_def numeral_2_eq_2)

lemma json_format16:
  "iperf_json_printf ''host_total: %f  host_user: %f  host_system: %f  remote_total: %f  remote_user: %f  remote_system: %f'' args =
     fields_object [(0, ''host_total'', 1, CHR ''f''), (2, ''host_user'', 1, CHR ''f''), (2, ''host_system'', 1, CHR ''f''),
       (2, ''remote_total'', 1, CHR ''f''), (2, ''remote_user'', 1, CHR ''f''),
       (2, ''remote_system'', 1, CHR ''f'')] args cJSON_CreateObject"
  by (subst json_printf_fields [symmetric]) (simp_all add: plain_name_def field_def numeral_2_eq_2)

lemmas json_formats = json_format1 json_format2 json_format3 json_format4 json_format5 json_format6 json_format7 json_format8 json_format9 json_format10 json_format11 json_format12 json_format13 json_format14 json_format15 json_format16

section \<open>Looking up numbers\<close>

text \<open>Names in small letters are equal up to case only when they are equal.\<close>

definition low :: "string \<Rightarrow> bool" where
  "low nm \<longleftrightarrow> list_all (\<lambda>c. c \<in> set ''abcdefghijklmnopqrstuvwxyz_'') nm"

lemma low_tolower: "c \<in> set ''abcdefghijklmnopqrstuvwxyz_'' \<Longrightarrow> c_tolower c = c"
proof -
  have "list_all (\<lambda>c. c_tolower c = c) ''abcdefghijklmnopqrstuvwxyz_''" by code_simp
  then show "c \<in> set ''abcdefghijklmnopqrstuvwxyz_'' \<Longrightarrow> c_tolower c = c" unfolding list_all_iff by blast
qed

lemma strcaseeq_low: "low a \<Longrightarrow> low b \<Longrightarrow> strcaseeq a b \<longleftrightarrow> a = b"
proof -
  have "low a \<Longrightarrow> map c_tolower a = a" for a
    unfolding low_def list_all_iff using low_tolower by (intro map_idI) blast
  then show "low a \<Longrightarrow> low b \<Longrightarrow> strcaseeq a b \<longleftrightarrow> a = b" by (simp add: strcaseeq_def)
qed

lemma find_snoc: "List.find P (xs @ [x]) = (case List.find P xs of None \<Rightarrow> if P x then Some x else None | Some y \<Rightarrow> Some y)"
  by (induction xs) auto

lemma get_added: "cJSON_GetObjectItem (cJSON_AddItemToObject obj n j) m =
    (case cJSON_GetObjectItem obj m of None \<Rightarrow> if strcaseeq m n then Some (set_string n j) else None | Some x \<Rightarrow> Some x)"
  by (cases obj) (simp add: cJSON_GetObjectItem_def get_object_item_def cJSON_AddItemToObject_def cJSON_AddItemToObjectCS_def
    find_snoc case_insensitive_strcmp_def split: option.split)

lemma get_empty: "cJSON_GetObjectItem cJSON_CreateObject m = None"
  by (simp add: cJSON_GetObjectItem_def get_object_item_def cJSON_CreateObject_def)

definition number :: "string \<Rightarrow> cJSON \<Rightarrow> rat option" where
  "number n j = map_option valuedouble (cJSON_GetObjectItem j n)"

text \<open>The number a field gets, and whether an argument is what the conversion asks for.\<close>

fun arg_number :: "jarg \<Rightarrow> rat" where
  "arg_number (JD i) = d_of_int i" | "arg_number (JF d) = d" | "arg_number (JB i) = 0" | "arg_number (JS s) = 0"

fun arg_fits :: "char \<Rightarrow> jarg \<Rightarrow> bool" where
  "arg_fits c (JD i) = (c = CHR ''d'')" | "arg_fits c (JF d) = (c = CHR ''f'')" | "arg_fits c (JB i) = (c = CHR ''b'')"
| "arg_fits c (JS s) = (c = CHR ''s'' \<and> s \<noteq> None)"

fun field_number :: "(nat \<times> string \<times> nat \<times> char) list \<Rightarrow> jarg list \<Rightarrow> string \<Rightarrow> rat option" where
  "field_number ((i, nm, k, d) # fs) (a # args) n = (if nm = n then Some (arg_number a) else field_number fs args n)"
| "field_number _ _ n = None"

fun args_fit :: "(nat \<times> string \<times> nat \<times> char) list \<Rightarrow> jarg list \<Rightarrow> bool" where
  "args_fit [] args = True"
| "args_fit ((i, nm, k, d) # fs) [] = False"
| "args_fit ((i, nm, k, d) # fs) (a # args) = (arg_fits d a \<and> args_fit fs args)"

lemma json_value_fits: "arg_fits d a \<Longrightarrow> \<exists>j. json_value d a = Some (Some j) \<and> valuedouble j = arg_number a"
  by (cases a) (auto simp: create_defs)

lemma fields_object_number:
  assumes "args_fit fs args" "list_all (\<lambda>(i, nm, k, d). low nm) fs"
  shows "\<exists>j. fields_object fs args obj = Some (Some j) \<and>
    (\<forall>n. low n \<longrightarrow> number n j = (case number n obj of None \<Rightarrow> field_number fs args n | Some x \<Rightarrow> Some x))"
  using assms
proof (induction fs args arbitrary: obj rule: args_fit.induct)
  case (1 args)
  then show ?case by (auto split: option.split)
next
  case (3 i nm k d fs a args)
  obtain j where j: "json_value d a = Some (Some j)" "valuedouble j = arg_number a"
    using json_value_fits 3 by (meson args_fit.simps(3))
  obtain x where x: "fields_object fs args (cJSON_AddItemToObject obj nm j) = Some (Some x)"
    "\<And>n. low n \<Longrightarrow> number n x = (case number n (cJSON_AddItemToObject obj nm j) of None \<Rightarrow> field_number fs args n | Some y \<Rightarrow> Some y)"
    using 3(1) [of "cJSON_AddItemToObject obj nm j"] 3(2,3) by auto
  have "number n x = (case number n obj of None \<Rightarrow> field_number ((i, nm, k, d) # fs) (a # args) n | Some y \<Rightarrow> Some y)" if "low n" for n
    using 3(3) x(2) [OF that] strcaseeq_low [OF that, of nm] j(2)
    by (auto simp: number_def get_added split: option.split)
  then show ?case using x(1) j(1) by simp
qed simp

text \<open>An object made of fields that fit has the numbers of its fields.\<close>

lemma made_of_fields:
  assumes "x = fields_object fs args cJSON_CreateObject" "args_fit fs args" "list_all (\<lambda>(i, nm, k, d). low nm) fs"
  obtains j where "x = Some (Some j)" "\<And>n. low n \<Longrightarrow> number n j = field_number fs args n"
  using fields_object_number [OF assms(2,3), of cJSON_CreateObject] assms(1)
  by (auto simp: number_def get_empty)

lemma number_made:
  assumes "args_fit fs args" "list_all (\<lambda>(i, nm, k, d). low nm) fs"
    and "\<And>j. (\<And>n. low n \<Longrightarrow> number n j = field_number fs args n) \<Longrightarrow> P j"
  shows "\<exists>j. fields_object fs args cJSON_CreateObject = Some (Some j) \<and> P j"
  using made_of_fields [OF refl assms(1,2)] assms(3) by metis

lemma made_if:
  "(c \<Longrightarrow> \<exists>j. x = Some (Some j) \<and> P j) \<Longrightarrow> (\<not> c \<Longrightarrow> \<exists>j. y = Some (Some j) \<and> P j) \<Longrightarrow> \<exists>j. (if c then x else y) = Some (Some j) \<and> P j"
  by simp

lemma interval_json_bytes:
  "\<exists>j. interval_json t sp irp = Some (Some j) \<and> number ''bytes'' j = Some (d_of_int (sint (bytes_transferred irp)))"
  unfolding interval_json_def Let_def json_formats by (intro made_if number_made; simp add: low_def)

lemma sum_json_bytes:
  "\<exists>j. sum_json J t snds sp irp tot = Some (Some j) \<and> number ''bytes'' j = Some (d_of_int (sint (t_bytes tot)))
     \<and> (\<not> tcp_like t \<longrightarrow> number ''packets'' j = Some (d_of_int (t_packets tot)))
     \<and> (\<not> tcp_like t \<and> snds = 0 \<longrightarrow> number ''lost_packets'' j = Some (d_of_int (t_lost tot))
         \<and> number ''lost_percent'' j = Some (lost_percent (t_lost tot) (t_packets tot)))"
  unfolding sum_json_def Let_def json_formats by (intro made_if number_made; simp add: low_def)

section \<open>Sums of an interval\<close>

text \<open>The last intervals of the streams of one direction.\<close>

definition reported :: "int \<Rightarrow> iperf_stream list \<Rightarrow> iperf_interval_results list" where
  "reported snds sps = map (the \<circ> last_interval) (filter (\<lambda>sp. sender sp = snds) sps)"

definition add_all :: "cJSON list \<Rightarrow> cJSON \<Rightarrow> cJSON" where
  "add_all items arr = fold (\<lambda>j a. cJSON_AddItemToArray a (Some j)) items arr"

lemma add_all_append: "add_all ys (add_all xs arr) = add_all (xs @ ys) arr"
  by (simp add: add_all_def)

lemma add_all_child [simp]: "child (add_all items arr) = child arr @ items"
proof (induction items arbitrary: arr)
  case (Cons j items)
  have "child (cJSON_AddItemToArray arr (Some j)) = child arr @ [j]" by (cases arr) simp
  then show ?case using Cons by (simp add: add_all_def)
qed (simp add: add_all_def)

definition bytes_number :: "iperf_interval_results \<Rightarrow> rat option" where
  "bytes_number irp = Some (d_of_int (sint (bytes_transferred irp)))"

lemma sum_streams_json:
  assumes "json_output t \<noteq> 0" "\<forall>sp\<in>set sps. last_interval sp \<noteq> None"
  shows "\<exists>items. sum_streams t snds sps tot outs arr = Some (outs, add_all items arr, Some (fold (add_totals t) (reported snds sps) tot))
    \<and> map (number ''bytes'') items = map bytes_number (reported snds sps)"
  using assms(2)
proof (induction sps arbitrary: tot arr)
  case Nil
  then show ?case by (auto simp: add_all_def reported_def intro: exI [of _ "[]"])
next
  case (Cons sp sps)
  obtain irp where irp: "last_interval sp = Some irp" using Cons.prems by auto
  obtain j where j: "interval_json t sp irp = Some (Some j)" "number ''bytes'' j = bytes_number irp"
    using interval_json_bytes unfolding bytes_number_def by metis
  show ?case
  proof (cases "sender sp = snds")
    case True
    obtain items where items: "sum_streams t snds sps (add_totals t irp tot) outs (cJSON_AddItemToArray arr (Some j)) =
      Some (outs, add_all items (cJSON_AddItemToArray arr (Some j)), Some (fold (add_totals t) (reported snds sps) (add_totals t irp tot)))"
      "map (number ''bytes'') items = map bytes_number (reported snds sps)"
      using Cons.IH Cons.prems by fastforce
    then show ?thesis using True irp j assms(1)
      by (intro exI [of _ "j # items"]) (simp add: reported_def print_interval_results_def to_array_def add_all_def)
  next
    case False
    then show ?thesis using Cons by (simp add: reported_def)
  qed
qed

lemma totals_bytes: "t_bytes (fold (add_totals t) irs tot) = t_bytes tot + (\<Sum>irp\<leftarrow>irs. bytes_transferred irp)"
  by (induction irs arbitrary: tot) (simp_all add: add_totals_def Let_def add.assoc)

lemma to_int32_add: "to_int32 (to_int32 a + b) = to_int32 (a + b)"
  by (simp add: to_int32_def)

lemma totals_packets:
  assumes "prot_id (protocol t) \<noteq> Ptcp"
  shows "to_int32 (t_packets (fold (add_totals t) irs tot)) = to_int32 (t_packets tot + (\<Sum>irp\<leftarrow>irs. interval_packet_count irp))"
    "to_int32 (t_lost (fold (add_totals t) irs tot)) = to_int32 (t_lost tot + (\<Sum>irp\<leftarrow>irs. interval_cnt_error irp))"
  by (induction irs arbitrary: tot) (simp_all add: assms add_totals_def Let_def to_int32_add add.assoc)

lemma totals_int32:
  assumes "prot_id (protocol t) \<noteq> Ptcp"
  shows "to_int32 (t_packets (fold (add_totals t) irs no_totals)) = t_packets (fold (add_totals t) irs no_totals)"
    "to_int32 (t_lost (fold (add_totals t) irs no_totals)) = t_lost (fold (add_totals t) irs no_totals)"
  by (cases irs rule: rev_cases; simp add: assms add_totals_def Let_def no_totals_def; simp add: to_int32_def)+

text \<open>What the object with the sum says of the intervals it sums up.\<close>

definition sums_up :: "iperf_test \<Rightarrow> int \<Rightarrow> iperf_interval_results list \<Rightarrow> cJSON \<Rightarrow> bool" where
  "sums_up t snds irs s \<longleftrightarrow>
     number ''bytes'' s = Some (d_of_int (sint (\<Sum>irp\<leftarrow>irs. bytes_transferred irp))) \<and>
     (\<not> tcp_like t \<longrightarrow> number ''packets'' s = Some (d_of_int (to_int32 (\<Sum>irp\<leftarrow>irs. interval_packet_count irp)))) \<and>
     (\<not> tcp_like t \<and> snds = 0 \<longrightarrow>
        number ''lost_packets'' s = Some (d_of_int (to_int32 (\<Sum>irp\<leftarrow>irs. interval_cnt_error irp))) \<and>
        number ''lost_percent'' s = Some (lost_percent (to_int32 (\<Sum>irp\<leftarrow>irs. interval_cnt_error irp)) (to_int32 (\<Sum>irp\<leftarrow>irs. interval_packet_count irp))))"

lemma interval_sum_json:
  assumes "json_output t \<noteq> 0" "streams t = sp # sps" "last_interval sp = Some irp"
  shows "\<exists>s. interval_sum J t snds (fold (add_totals t) irs no_totals) = Some ([], [s]) \<and> sums_up t snds irs s"
proof -
  let ?tot = "fold (add_totals t) irs no_totals"
  obtain s where s: "sum_json J t snds sp irp ?tot = Some (Some s)" "number ''bytes'' s = Some (d_of_int (sint (t_bytes ?tot)))"
      "\<not> tcp_like t \<longrightarrow> number ''packets'' s = Some (d_of_int (t_packets ?tot))"
      "\<not> tcp_like t \<and> snds = 0 \<longrightarrow> number ''lost_packets'' s = Some (d_of_int (t_lost ?tot))
         \<and> number ''lost_percent'' s = Some (lost_percent (t_lost ?tot) (t_packets ?tot))"
    using sum_json_bytes [of J t snds sp irp ?tot] by blast
  have "\<not> tcp_like t \<Longrightarrow> t_packets ?tot = to_int32 (\<Sum>irp\<leftarrow>irs. interval_packet_count irp) \<and> t_lost ?tot = to_int32 (\<Sum>irp\<leftarrow>irs. interval_cnt_error irp)"
    using totals_packets [of t irs no_totals] totals_int32 [of t irs] by (simp add: tcp_like_def no_totals_def)
  moreover have "t_bytes ?tot = (\<Sum>irp\<leftarrow>irs. bytes_transferred irp)" by (simp add: totals_bytes) (simp add: no_totals_def)
  ultimately have "sums_up t snds irs s" using s(2-4) by (simp add: sums_up_def)
  then show ?thesis using s(1) assms by (simp add: interval_sum_def the_item_def)
qed

lemma interval_modes_json:
  assumes "json_output t \<noteq> 0" "streams t \<noteq> []" "\<forall>sp\<in>set (streams t). last_interval sp \<noteq> None"
  shows "\<exists>items ss. interval_modes J t ms outs arr added = Some (outs, add_all items arr, added @ ss)
    \<and> map (number ''bytes'') items = concat (map (\<lambda>m. map bytes_number (reported (m * m) (streams t))) ms)
    \<and> list_all2 (\<lambda>m. sums_up t (m * m) (reported (m * m) (streams t))) ms ss"
proof (induction ms arbitrary: arr added)
  case Nil
  then show ?case by (auto simp: add_all_def intro: exI [of _ "[]"])
next
  case (Cons m ms)
  obtain sp sps irp where sp: "streams t = sp # sps" "last_interval sp = Some irp"
    using assms(2,3) by (cases "streams t") auto
  obtain xs where xs: "sum_streams t (m * m) (streams t) no_totals outs arr =
      Some (outs, add_all xs arr, Some (fold (add_totals t) (reported (m * m) (streams t)) no_totals))"
      "map (number ''bytes'') xs = map bytes_number (reported (m * m) (streams t))"
    using sum_streams_json [OF assms(1,3)] by blast
  obtain s where s: "interval_sum J t (m * m) (fold (add_totals t) (reported (m * m) (streams t)) no_totals) = Some ([], [s])"
      "sums_up t (m * m) (reported (m * m) (streams t)) s"
    using interval_sum_json [OF assms(1) sp] by blast
  obtain ys ss where ys: "interval_modes J t ms outs (add_all xs arr) (added @ [s]) = Some (outs, add_all ys (add_all xs arr), (added @ [s]) @ ss)"
      "map (number ''bytes'') ys = concat (map (\<lambda>m. map bytes_number (reported (m * m) (streams t))) ms)"
      "list_all2 (\<lambda>m. sums_up t (m * m) (reported (m * m) (streams t))) ms ss"
    using Cons.IH by blast
  show ?case using xs s ys by (intro exI [of _ "xs @ ys"] exI [of _ "s # ss"]) (simp add: add_all_append)
qed

lemma interval_ok_streams: "interval_ok t \<Longrightarrow> streams t \<noteq> []"
  by (auto simp: interval_ok_def)

lemma get_streams: "cJSON_GetObjectItem (interval_object arr (s # ss)) ''streams'' = Some (set_string ''streams'' arr)"
  and get_sum: "cJSON_GetObjectItem (interval_object arr (s # ss)) ''sum'' = Some (set_string ''sum'' s)"
proof -
  have "cJSON_GetObjectItem (fold (\<lambda>j obj. cJSON_AddItemToObject obj ''sum'' j) ss obj) n = Some x"
    if "cJSON_GetObjectItem obj n = Some x" for obj n x
    using that by (induction ss arbitrary: obj) (simp_all add: get_added)
  then show "cJSON_GetObjectItem (interval_object arr (s # ss)) ''streams'' = Some (set_string ''streams'' arr)"
    "cJSON_GetObjectItem (interval_object arr (s # ss)) ''sum'' = Some (set_string ''sum'' s)"
    by (simp_all add: interval_object_def get_added get_empty strcaseeq_low low_def)
qed

lemma number_set_string [simp]: "number n (set_string m j) = number n j"
  by (cases j) (simp add: number_def cJSON_GetObjectItem_def get_object_item_def)

lemma sums_up_set_string [simp]: "sums_up t snds irs (set_string m j) = sums_up t snds irs j"
  by (simp add: sums_up_def)

text \<open>
  (C13) The JSON report of an interval, in a test with one direction. Where every stream has an interval
  and the interval is not left out, the report gets one object. Its array \<open>streams\<close> has one
  element for every stream of the direction, in order, with the bytes of its last interval, and its
  member \<open>sum\<close> has the sum of these bytes; for UDP it has the sum of the packets, and at a receiver
  the lost packets and their share of all packets.
\<close>

theorem interval_report_sums:
  assumes "json_output t \<noteq> 0" "mode t \<noteq> BIDIRECTIONAL" "interval_ok t" "\<forall>sp\<in>set (streams t). last_interval sp \<noteq> None"
  shows "\<exists>obj arr s. iperf_print_intermediate J t json_intervals = Some ([], cJSON_AddItemToArray json_intervals (Some obj))
    \<and> cJSON_GetObjectItem obj ''streams'' = Some arr \<and> cJSON_GetObjectItem obj ''sum'' = Some s
    \<and> map (number ''bytes'') (child arr) = map bytes_number (reported (if mode t = SENDER then 1 else 0) (streams t))
    \<and> sums_up t (if mode t = SENDER then 1 else 0) (reported (if mode t = SENDER then 1 else 0) (streams t)) s"
proof -
  define m :: int where "m = (if mode t = SENDER then 1 else 0)"
  have modes: "report_modes t = [m]" "m * m = m" using assms(2) by (cases "mode t"; simp add: report_modes_def m_def)+
  obtain items s where r: "interval_modes J t [m] [] cJSON_CreateArray [] = Some ([], add_all items cJSON_CreateArray, [s])"
      "map (number ''bytes'') items = map bytes_number (reported m (streams t))" "sums_up t m (reported m (streams t)) s"
    using interval_modes_json [OF assms(1) interval_ok_streams [OF assms(3)] assms(4), of J "[m]" "[]" cJSON_CreateArray "[]"]
    by (auto simp: modes list_all2_Cons1)
  have "iperf_print_intermediate J t json_intervals = Some ([], cJSON_AddItemToArray json_intervals
      (Some (interval_object (add_all items cJSON_CreateArray) [s])))"
    using assms(1,3) r(1) by (simp add: iperf_print_intermediate_def modes)
  then show ?thesis unfolding m_def [symmetric]
    using r(2,3) get_streams [of "add_all items cJSON_CreateArray" s "[]"] get_sum [of "add_all items cJSON_CreateArray" s "[]"]
    by (intro exI conjI) (assumption | simp add: cJSON_CreateArray_def)+
qed

text \<open>Two streams of a UDP test in JSON mode, at the receiver; and the same in both directions.\<close>

definition sample_reporting :: "nat \<Rightarrow> int \<Rightarrow> u64 \<Rightarrow> int \<Rightarrow> int \<Rightarrow> iperf_stream" where
  "sample_reporting a snds n packets errs = (empty_stream a)\<lparr>sender := snds, diskfile_fd := -1, stream_result := empty_result\<lparr>bytes_sent := n, bytes_received := n,
     interval_results := [sample_interval\<lparr>bytes_transferred := n, interval_packet_count := packets, interval_cnt_error := errs\<rparr>]\<rparr>\<rparr>"

definition sample_report :: iperf_test where
  "sample_report = zero_test\<lparr>mode := RECEIVER, json_output := 1, num_streams := 2, protocol := \<lparr>prot_id = Pudp, prot_name = ''UDP''\<rparr>,
     streams := [sample_reporting 1 0 7 12 1, sample_reporting 2 0 8 8 1]\<rparr>"

definition sample_both :: iperf_test where
  "sample_both = zero_test\<lparr>mode := BIDIRECTIONAL, role := CHR ''c'', json_output := 1, num_streams := 1, protocol := \<lparr>prot_id = Ptcp, prot_name = ''TCP''\<rparr>,
     streams := [sample_reporting 1 1 7 0 0, sample_reporting 2 0 8 0 0]\<rparr>"

definition report_junk :: junk where
  "report_junk = \<lparr>j_interval = sample_interval, j_quotient = 0, j_flag = 0\<rparr>"

lemma sample_last [simp]: "last_interval (sample_reporting a snds n packets errs) =
    Some (sample_interval\<lparr>bytes_transferred := n, interval_packet_count := packets, interval_cnt_error := errs\<rparr>)"
  "sender (sample_reporting a snds n packets errs) = snds"
  by (simp_all add: last_interval_def sample_reporting_def empty_stream_def)

lemma sample_report_ok: "interval_ok sample_report" "interval_ok sample_both"
  by (simp_all add: interval_ok_def sample_report_def sample_both_def)

theorem interval_report_sums_witness:
  "\<exists>obj s. iperf_print_intermediate report_junk sample_report cJSON_CreateArray = Some ([], cJSON_AddItemToArray cJSON_CreateArray (Some obj))
    \<and> cJSON_GetObjectItem obj ''sum'' = Some s \<and> number ''bytes'' s = Some 15 \<and> number ''packets'' s = Some 20
    \<and> number ''lost_percent'' s = Some 10"
proof -
  have d: "d_of_int 15 = 15" "d_of_int 20 = 20" "d_of_int 2 = 2" "lost_percent 2 20 = 10" by code_simp+
  have t: "json_output sample_report \<noteq> 0" "mode sample_report \<noteq> BIDIRECTIONAL" "mode sample_report \<noteq> SENDER" "\<not> tcp_like sample_report"
    "streams sample_report = [sample_reporting 1 0 7 12 1, sample_reporting 2 0 8 8 1]"
    by (simp_all add: sample_report_def tcp_like_def prot_defs)
  have "\<forall>sp\<in>set (streams sample_report). last_interval sp \<noteq> None" by (simp add: t)
  from interval_report_sums [OF t(1,2) sample_report_ok(1) this, of report_junk cJSON_CreateArray]
  show ?thesis by (auto simp: t sums_up_def reported_def d)
qed

text \<open>
  In a bidirectional test the client adds both sums to the object of the interval under the same
  name: first the sum of what it sent, then the sum of what it received. Looking up \<open>sum\<close> gives the
  first only, so the received bytes of the interval cannot be found by name.
\<close>

theorem bidirectional_sum_hidden:
  assumes "json_output t \<noteq> 0" "mode t = BIDIRECTIONAL" "role t = CHR ''c''" "interval_ok t"
    and "\<forall>sp\<in>set (streams t). last_interval sp \<noteq> None"
  shows "\<exists>obj s r. iperf_print_intermediate J t json_intervals = Some ([], cJSON_AddItemToArray json_intervals (Some obj))
    \<and> filter (\<lambda>j. jstring j = Some ''sum'') (child obj) = [s, r]
    \<and> sums_up t 1 (reported 1 (streams t)) s \<and> sums_up t 0 (reported 0 (streams t)) r
    \<and> cJSON_GetObjectItem obj ''sum'' = Some s"
proof -
  have modes: "report_modes t = [-1, 0]" using assms(2,3) by (simp add: report_modes_def)
  obtain items s r where m: "interval_modes J t [-1, 0] [] cJSON_CreateArray [] = Some ([], add_all items cJSON_CreateArray, [s, r])"
      "sums_up t 1 (reported 1 (streams t)) s" "sums_up t 0 (reported 0 (streams t)) r"
    using interval_modes_json [OF assms(1) interval_ok_streams [OF assms(4)] assms(5), of J "[-1, 0]" "[]" cJSON_CreateArray "[]"]
    by (auto simp: list_all2_Cons1)
  let ?obj = "interval_object (add_all items cJSON_CreateArray) [s, r]"
  have "child ?obj = [set_string ''streams'' (add_all items cJSON_CreateArray), set_string ''sum'' s, set_string ''sum'' r]"
    by (simp add: interval_object_def cJSON_AddItemToObject_def cJSON_AddItemToObjectCS_def cJSON_CreateObject_def)
  moreover have "iperf_print_intermediate J t json_intervals = Some ([], cJSON_AddItemToArray json_intervals (Some ?obj))"
    using assms(1,4) m(1) by (simp add: iperf_print_intermediate_def modes)
  ultimately show ?thesis using m(2,3) get_sum
    by (intro exI [of _ ?obj] exI [of _ "set_string ''sum'' s"] exI [of _ "set_string ''sum'' r"]) simp
qed

theorem bidirectional_sum_hidden_witness:
  "\<exists>obj s r. iperf_print_intermediate report_junk sample_both cJSON_CreateArray = Some ([], cJSON_AddItemToArray cJSON_CreateArray (Some obj))
    \<and> filter (\<lambda>j. jstring j = Some ''sum'') (child obj) = [s, r] \<and> number ''bytes'' s = Some 7 \<and> number ''bytes'' r = Some 8
    \<and> cJSON_GetObjectItem obj ''sum'' = Some s"
proof -
  have d: "d_of_int 7 = 7" "d_of_int 8 = 8" by code_simp+
  have t: "json_output sample_both \<noteq> 0" "mode sample_both = BIDIRECTIONAL" "role sample_both = CHR ''c''"
    "streams sample_both = [sample_reporting 1 1 7 0 0, sample_reporting 2 0 8 0 0]"
    by (simp_all add: sample_both_def)
  have "\<forall>sp\<in>set (streams sample_both). last_interval sp \<noteq> None" by (simp add: t)
  from bidirectional_sum_hidden [OF t(1-3) sample_report_ok(2) this, of report_junk cJSON_CreateArray]
  show ?thesis by (fastforce simp: t sums_up_def reported_def d)
qed

section \<open>Arguments and formats\<close>

text \<open>
  Whether the arguments are the ones a format asks for: an integer, a double or a string that is
  not null for each conversion, with flags, width and precision skipped, and none left over.
\<close>

fun conversion :: "char \<Rightarrow> parg \<Rightarrow> bool" where
  "conversion c (PI i) = (c = CHR ''d'' \<or> c = CHR ''u'')"
| "conversion c (PD d) = (c = CHR ''f'' \<or> c = CHR ''g'')"
| "conversion c (PS s) = (c = CHR ''s'' \<and> s \<noteq> None)"

fun fits :: "bool \<Rightarrow> string \<Rightarrow> parg list \<Rightarrow> bool" where
  "fits inside [] args = (\<not> inside \<and> args = [])"
| "fits False (c # cs) args = fits (c = CHR ''%'') cs args"
| "fits True (c # cs) args =
     (if c \<in> set ''-.0123456789'' then fits True cs args
      else if c = CHR ''%'' then fits False cs args
      else (case args of [] \<Rightarrow> False | a # args \<Rightarrow> conversion c a \<and> fits False cs args))"

fun call_ok :: "outcall \<Rightarrow> bool" where
  "call_ok (Printf format args) = fits False format args"
| "call_ok (Err s) = True"

lemmas format_defs = newline_def report_diskfile_def report_bw_format_def report_bw_retrans_format_def report_bw_retrans_cwnd_format_def
  report_bw_udp_format_def report_bw_udp_sender_format_def report_sum_bw_format_def report_sum_bw_retrans_format_def
  report_sum_bw_udp_format_def report_sum_bw_udp_sender_format_def report_sum_outoforder_def report_cpu_def
  report_sender_not_available_format_def report_sender_not_available_summary_format_def
  report_receiver_not_available_format_def report_receiver_not_available_summary_format_def

lemma puts_ok [simp]: "call_ok (puts s)"
  by (simp add: puts_def)

lemma str_ok [simp]: "conversion c (str s) \<longleftrightarrow> c = CHR ''s''" "conversion c (omitted_text b) \<longleftrightarrow> c = CHR ''s''"
  by (simp_all add: omitted_text_def) (simp_all add: str_def)

lemma interval_line_ok [simp]: "call_ok (interval_line t sp irp)"
  by (simp add: interval_line_def Let_def format_defs)

lemma sum_line_ok [simp]: "call_ok (sum_line J t snds sp irp tot)"
  by (simp add: sum_line_def Let_def format_defs)

lemma interval_headers_ok [simp]: "list_all call_ok (interval_headers t sp irp)"
  by (simp add: interval_headers_def)

lemma sum_streams_ok:
  assumes "\<forall>sp\<in>set sps. last_interval sp \<noteq> None"
  shows "\<exists>outs' arr' tot'. sum_streams t snds sps tot outs arr = Some (outs @ outs', arr', Some tot') \<and> list_all call_ok outs'"
  using assms
proof (induction sps arbitrary: tot outs arr)
  case (Cons sp sps)
  obtain irp where irp: "last_interval sp = Some irp" using Cons.prems by auto
  obtain j where j: "interval_json t sp irp = Some (Some j)" using interval_json_bytes by blast
  obtain xs arr' where p: "print_interval_results t sp arr = Some (xs, arr')" "list_all call_ok xs"
    using irp j by (cases "json_output t = 0") (auto simp: print_interval_results_def to_array_def)
  obtain ys arr'' tot' where "sum_streams t snds sps (add_totals t irp tot) (outs @ xs) arr' = Some ((outs @ xs) @ ys, arr'', Some tot')"
      "list_all call_ok ys"
    using Cons.IH Cons.prems by (metis list.set_intros(2))
  then show ?case using Cons p irp by simp
qed simp

lemma interval_sum_ok:
  assumes "streams t = sp # sps" "last_interval sp = Some irp"
  shows "\<exists>outs ss. interval_sum J t snds tot = Some (outs, ss) \<and> list_all call_ok outs"
proof -
  obtain s where "sum_json J t snds sp irp tot = Some (Some s)" using sum_json_bytes by blast
  then show ?thesis using assms by (simp add: interval_sum_def the_item_def)
qed

lemma interval_modes_ok:
  assumes "streams t = sp # sps" "\<forall>sp\<in>set (streams t). last_interval sp \<noteq> None"
  shows "\<exists>outs' arr' ss. interval_modes J t ms outs arr added = Some (outs @ outs', arr', ss) \<and> list_all call_ok outs'"
proof (induction ms arbitrary: outs arr added)
  case (Cons m ms)
  obtain irp where irp: "last_interval sp = Some irp" using assms by auto
  obtain xs arr' tot where x: "sum_streams t (m * m) (streams t) no_totals outs arr = Some (outs @ xs, arr', Some tot)" "list_all call_ok xs"
    using sum_streams_ok [OF assms(2)] by blast
  obtain ys ss where y: "interval_sum J t (m * m) tot = Some (ys, ss)" "list_all call_ok ys"
    using interval_sum_ok [OF assms(1) irp] by blast
  show ?case using Cons [of "outs @ xs @ ys" arr' "added @ ss"] x y by auto
qed simp



section \<open>The final report\<close>

text \<open>What the report relies on: a stream with an open file has its name, and the server's output can be printed.\<close>

definition printable :: "iperf_test \<Rightarrow> bool" where
  "printable t \<longleftrightarrow> (\<forall>sp\<in>set (streams t). 0 \<le> diskfile_fd sp \<longrightarrow> diskfile_name t \<noteq> None) \<and>
     (\<forall>j. json_server_output t = Some j \<longrightarrow> cJSON_Print j \<noteq> None)"

lemma sender_object_made:
  "\<exists>j. sender_object t snds tms sp = Some (Some j) \<and> number ''bytes'' j = Some (d_of_int (sint (stream_sent sp)))"
  unfolding sender_object_def Let_def json_formats by (intro made_if number_made; simp add: low_def)

lemma receiver_object_made:
  "\<exists>j. receiver_object snds tms sp = Some (Some j) \<and> number ''bytes'' j = Some (d_of_int (sint (bytes_received (stream_result sp))))"
  unfolding receiver_object_def json_formats by (intro number_made; simp add: low_def)

lemma sum_sent_made: "\<exists>j. sum_sent t snds tms u = Some (Some j) \<and> number ''bytes'' j = Some (d_of_int (sint (s_sent u)))"
  unfolding sum_sent_def Let_def json_formats by (intro made_if number_made; simp add: low_def)

lemma sum_received_made: "\<exists>j. sum_received snds tms u = Some (Some j) \<and> number ''bytes'' j = Some (d_of_int (sint (s_received u)))"
  unfolding sum_received_def json_formats by (intro number_made; simp add: low_def)

lemma sum_udp_made: "\<exists>j. sum_udp J t snds tms u = Some (Some j) \<and> number ''bytes'' j = Some (d_of_int (sint (s_sent u)))
    \<and> number ''lost_packets'' j = Some (d_of_int (s_lost u)) \<and> number ''packets'' j = Some (d_of_int (s_packets u))
    \<and> number ''lost_percent'' j = Some (lost_percent (s_lost u) (s_packets u))"
  unfolding sum_udp_def json_formats by (intro number_made; simp add: low_def)

lemma the_item_made: "\<exists>j. x = Some (Some j) \<and> P j \<Longrightarrow> \<exists>j. the_item x = Some j"
  by (auto simp: the_item_def)

lemma diskfile_json_some: "diskfile_name t \<noteq> None \<Longrightarrow> \<exists>x. diskfile_json t sp n = Some x"
proof -
  assume "diskfile_name t \<noteq> None"
  then have "\<exists>j. iperf_json_printf ''sent: %d  received: %d  size: %d  percent_sent: %d  percent_received: %d  filename: %s''
      [JD a, JD b, JD c, JD d, JD e, JS (diskfile_name t)] = Some (Some j) \<and> True" for a b c d e
    unfolding json_formats by (intro number_made; simp add: low_def)
  then show ?thesis unfolding diskfile_json_def the_item_def by (metis (no_types, lifting) option.simps(5,9))
qed

lemma end_json_some: "\<exists>ms. end_json t snds = Some ms"
proof -
  have "\<exists>j. iperf_json_printf ''host_total: %f  host_user: %f  host_system: %f  remote_total: %f  remote_user: %f  remote_system: %f''
      [JF a, JF b, JF c, JF d, JF e, JF f] = Some (Some j) \<and> True" for a b c d e f
    unfolding json_formats by (intro number_made; simp add: low_def)
  note made = the_item_made [OF this]
  obtain a b c d e f where u: "cpu_util t = (a, b, c)" "remote_cpu_util t = (d, e, f)" by (metis prod_cases3)
  show ?thesis using made [of a b c d e f] by (auto simp: end_json_def u split: prod.splits)
qed

lemma sender_json_some: "\<exists>x. sender_json t snds tms sp = Some x"
  using sender_object_made [of t snds tms sp] by (auto simp: sender_json_def the_item_def)

lemma receiver_json_some: "\<exists>x. receiver_json t snds tms sp = Some x"
  using receiver_object_made [of snds tms sp] by (auto simp: receiver_json_def the_item_def)

lemma summary_json_some: "\<exists>ms. summary_json J t snds tms u = Some ms"
  using sum_sent_made [of t snds tms u] sum_received_made [of snds tms u] sum_udp_made [of J t snds tms u]
  by (auto simp: summary_json_def the_item_def)

lemma unless_missing_ok: "call_ok x \<Longrightarrow> call_ok y \<Longrightarrow> list_all call_ok (unless_missing t b x y)"
  by (simp add: unless_missing_def)

lemma sender_lines_ok: "list_all call_ok (sender_lines t snds tms sp)"
  by (simp add: sender_lines_def Let_def format_defs unless_missing_ok)

lemma receiver_lines_ok: "list_all call_ok (receiver_lines t snds tms sp)"
  by (simp add: receiver_lines_def Let_def format_defs unless_missing_ok)

lemma diskfile_line_ok: "diskfile_name t \<noteq> None \<Longrightarrow> call_ok (diskfile_line t snds sp n)"
  by (simp add: diskfile_line_def Let_def format_defs)

lemma summary_lines_ok: "list_all call_ok (summary_lines J t snds tms u)"
  by (simp add: summary_lines_def Let_def format_defs unless_missing_ok)

lemma end_lines_ok: "list_all call_ok (end_lines t snds)"
  by (simp add: end_lines_def cpu_line_def Let_def format_defs split: prod.split)

lemma server_lines_ok: "printable t \<Longrightarrow> list_all call_ok (server_lines t)"
  by (auto simp: server_lines_def printable_def format_defs split: option.split)

lemma results_header_ok: "list_all call_ok (results_header t)"
  by (simp add: results_header_def)

lemma print_stream_results_ok:
  assumes "0 \<le> diskfile_fd sp \<longrightarrow> diskfile_name t \<noteq> None"
  shows "\<exists>outs arr'. print_stream_results st_size t snds tms sp arr = Some (outs, arr') \<and> list_all call_ok outs"
proof -
  obtain a c where "sender_json t snds tms sp = Some a" "receiver_json t snds tms sp = Some c"
    using sender_json_some receiver_json_some by metis
  then show ?thesis
    using assms diskfile_json_some [of t sp "the (st_size (diskfile_fd sp))"] diskfile_line_ok [of t snds sp] sender_lines_ok [of t snds tms sp] receiver_lines_ok [of t snds tms sp]
    by (cases "st_size (diskfile_fd sp)") (auto simp: print_stream_results_def Let_def)
qed

lemma print_streams_results_ok:
  assumes "\<forall>sp\<in>set sps. 0 \<le> diskfile_fd sp \<longrightarrow> diskfile_name t \<noteq> None"
  shows "\<exists>outs' arr'. print_streams_results st_size t snds tms sps u outs arr =
      Some (outs @ outs', arr', fold (add_summary t) (filter (\<lambda>sp. sender sp = snds) sps) u) \<and> list_all call_ok outs'"
  using assms
proof (induction sps arbitrary: u outs arr)
  case (Cons sp sps)
  obtain xs arr' where x: "print_stream_results st_size t snds tms sp arr = Some (xs, arr')" "list_all call_ok xs"
    using print_stream_results_ok Cons.prems by (metis list.set_intros(1))
  show ?case
  proof (cases "sender sp = snds")
    case True
    then show ?thesis using Cons.IH [of "add_summary t sp u" "outs @ xs" arr'] Cons.prems x by auto
  next
    case False
    then show ?thesis using Cons.IH [of u outs arr] Cons.prems by auto
  qed
qed simp

section \<open>The effect of the final report\<close>

text \<open>What one direction does to the test.\<close>

definition mode_effect :: "int \<Rightarrow> int \<Rightarrow> iperf_test \<Rightarrow> iperf_test" where
  "mode_effect shr m t = snd (print_server_output (enter_mode shr (m * m) t))"

lemma report_times_keeps [simp]:
  "diskfile_fd (report_times sp) = diskfile_fd sp" "sender (report_times sp) = sender sp" "stream_sent (report_times sp) = stream_sent sp"
  "bytes_received (stream_result (report_times sp)) = bytes_received (stream_result sp)"
  by (simp_all add: report_times_def Let_def stream_sent_def)

lemma report_times_idem [simp]: "report_times (report_times sp) = report_times sp"
  by (simp add: report_times_def Let_def)

lemma enter_mode_keeps [simp]:
  "json_output (enter_mode shr snds t) = json_output t" "diskfile_name (enter_mode shr snds t) = diskfile_name t"
  "json_server_output (enter_mode shr snds t) = json_server_output t" "tcp_like (enter_mode shr snds t) = tcp_like t"
  by (simp_all add: enter_mode_def Let_def tcp_like_def split: list.split)

lemma enter_mode_streams: "streams (enter_mode shr snds t) = (case streams t of [] \<Rightarrow> [] | sp # sps \<Rightarrow> report_times sp # sps)"
  by (auto simp: enter_mode_def Let_def split: list.split)

lemma printable_enter: "printable (enter_mode shr snds t) = printable t"
  by (cases "streams t") (auto simp: printable_def enter_mode_streams)

lemma printable_server: "printable t \<Longrightarrow> printable (snd (print_server_output t))"
  by (simp add: print_server_output_def printable_def)

lemma server_output_ok: "printable t \<Longrightarrow> list_all call_ok (fst (print_server_output t))"
  by (simp add: print_server_output_def server_lines_ok)

lemma server_output_json: "json_output t \<noteq> 0 \<Longrightarrow> snd (print_server_output t) = t"
  by (simp add: print_server_output_def)

text \<open>The sums over the streams of a direction, as the report computes them.\<close>

definition summed :: "int \<Rightarrow> iperf_test \<Rightarrow> summary" where
  "summed snds t = fold (add_summary t) (filter (\<lambda>sp. sender sp = snds) (streams t)) no_summary"

lemma print_mode_ok:
  assumes "printable t"
  shows "\<exists>outs arr' ms. print_mode st_size J shr (m * m) final t arr = Some (outs, arr', ms, mode_effect shr m t) \<and> list_all call_ok outs
    \<and> (json_output t \<noteq> 0 \<longrightarrow> (\<exists>e. summary_json J (enter_mode shr (m * m) t) (m * m) (first_times (enter_mode shr (m * m) t))
          (summed (m * m) (enter_mode shr (m * m) t)) = Some e \<and> (\<exists>rest. ms = e @ rest)))"
proof -
  let ?t = "enter_mode shr (m * m) t"
  have p: "printable ?t" using assms by (simp add: printable_enter)
  then have "\<forall>sp\<in>set (streams ?t). 0 \<le> diskfile_fd sp \<longrightarrow> diskfile_name ?t \<noteq> None" by (simp add: printable_def)
  then obtain xs arr' where x: "print_streams_results st_size ?t (m * m) (first_times ?t) (streams ?t) no_summary [] arr =
      Some (xs, arr', summed (m * m) ?t)" "list_all call_ok xs"
    unfolding summed_def using print_streams_results_ok [of "streams ?t" ?t st_size "m * m" "first_times ?t" no_summary "[]" arr] by auto
  obtain e where e: "summary_json J ?t (m * m) (first_times ?t) (summed (m * m) ?t) = Some e" using summary_json_some by blast
  obtain f where f: "end_json ?t (m * m) = Some f" using end_json_some by blast
  show ?thesis using x e f p server_output_ok [OF p] server_output_json [of ?t]
    by (auto simp: print_mode_def mode_effect_def Let_def end_lines_ok summary_lines_ok split: prod.split)
qed

lemma print_modes_ok:
  assumes "printable t"
  shows "\<exists>outs' arr' ms'. print_modes st_size J shr modes t outs arr ms = Some (outs @ outs', arr', ms @ ms', fold (mode_effect shr) modes t)
    \<and> list_all call_ok outs'"
  using assms
proof (induction modes arbitrary: t outs arr ms)
  case (Cons m modes)
  obtain xs arr' ms' where x: "print_mode st_size J shr (m * m) (modes = []) t arr = Some (xs, arr', ms', mode_effect shr m t)" "list_all call_ok xs"
    using print_mode_ok [OF Cons.prems] by metis
  have "printable (mode_effect shr m t)"
    using Cons.prems by (simp add: mode_effect_def printable_server printable_enter)
  then show ?case using Cons.IH [of "mode_effect shr m t" "outs @ xs" arr' "ms @ ms'"] x by auto
qed simp

text \<open>Leaving a direction with the sender's retransmits restored is what \<open>Prog\<close> has for the whole report.\<close>

lemma mode_effect_single: "mode t \<noteq> BIDIRECTIONAL \<Longrightarrow> mode_effect shr m t = iperf_print_results t"
  by (auto simp: mode_effect_def enter_mode_def print_server_output_def iperf_print_results_def Let_def split: list.split)

lemma print_results_mode [simp]: "mode (iperf_print_results t) = mode t" "sender_has_retransmits (iperf_print_results t) = sender_has_retransmits t"
  by (simp_all add: iperf_print_results_def Let_def split: list.split)

lemma print_results_retransmits:
  "iperf_print_results (t\<lparr>sender_has_retransmits := x\<rparr>) = (iperf_print_results t)\<lparr>sender_has_retransmits := x\<rparr>"
  by (auto simp: iperf_print_results_def Let_def split: list.split)

lemma print_results_idem: "iperf_print_results (iperf_print_results t) = iperf_print_results t"
  by (cases "streams t") (simp_all add: iperf_print_results_def Let_def)

lemma mode_effect_bidir:
  assumes "mode t = BIDIRECTIONAL"
  obtains x where "mode_effect shr m t = (iperf_print_results t)\<lparr>sender_has_retransmits := x\<rparr>"
proof
  show "mode_effect shr m t = (iperf_print_results t)\<lparr>sender_has_retransmits := if m * m \<noteq> 0 then shr else other_side_has_retransmits t\<rparr>"
    using assms by (cases "streams t") (simp_all add: mode_effect_def enter_mode_def print_server_output_def iperf_print_results_def Let_def)
qed

lemma mode_effect_double:
  assumes "mode t = BIDIRECTIONAL"
  shows "(mode_effect shr k (mode_effect shr m t))\<lparr>sender_has_retransmits := sender_has_retransmits t\<rparr> = iperf_print_results t"
proof -
  obtain x where x: "mode_effect shr m t = (iperf_print_results t)\<lparr>sender_has_retransmits := x\<rparr>"
    using mode_effect_bidir [OF assms] .
  obtain y where y: "mode_effect shr k (mode_effect shr m t) = (iperf_print_results (mode_effect shr m t))\<lparr>sender_has_retransmits := y\<rparr>"
    by (rule mode_effect_bidir [of "mode_effect shr m t" shr k]) (simp_all add: x assms)
  have "(iperf_print_results t)\<lparr>sender_has_retransmits := sender_has_retransmits t\<rparr> = iperf_print_results t"
    by (simp add: print_results_retransmits [symmetric])
  then show ?thesis unfolding y unfolding x by (simp add: print_results_retransmits print_results_idem)
qed


lemma sample_printable: "printable sample_report" "printable (sample_both\<lparr>json_output := 0\<rparr>)"
  by (simp_all add: printable_def sample_report_def sample_both_def sample_reporting_def empty_stream_def zero_test_def)


section \<open>Sums of the final report\<close>

definition direction :: "iperf_test \<Rightarrow> int" where
  "direction t = (if mode t = SENDER then 1 else 0)"

lemma summary_bytes:
  "s_sent (fold (add_summary t) sps u) = s_sent u + (\<Sum>sp\<leftarrow>sps. stream_sent sp)"
  "s_received (fold (add_summary t) sps u) = s_received u + (\<Sum>sp\<leftarrow>sps. bytes_received (stream_result sp))"
  by (induction sps arbitrary: u) (simp_all add: add_summary_def Let_def add.assoc)

lemma summed_bytes:
  "s_sent (summed snds (enter_mode shr k t)) = (\<Sum>sp\<leftarrow>filter (\<lambda>sp. sender sp = snds) (streams t). stream_sent sp)"
  "s_received (summed snds (enter_mode shr k t)) = (\<Sum>sp\<leftarrow>filter (\<lambda>sp. sender sp = snds) (streams t). bytes_received (stream_result sp))"
  by (cases "streams t"; simp add: summed_def summary_bytes enter_mode_streams; simp add: no_summary_def)+

lemma get_member_kept:
  "cJSON_GetObjectItem obj n = Some x \<Longrightarrow> cJSON_GetObjectItem (fold (\<lambda>(n, j) obj. cJSON_AddItemToObject obj n j) ms obj) n = Some x"
  by (induction ms arbitrary: obj) (auto simp: get_added)

text \<open>
  (C15) The sums at the end of a JSON report, in a test with one direction: \<open>sum_sent\<close> and \<open>sum_received\<close> (for
  UDP \<open>sum\<close>) have the sums, over the streams of the direction, of the bytes sent without the omitted
  ones and of the bytes received.
\<close>

theorem final_report_sums:
  assumes "json_output t \<noteq> 0" "mode t \<noteq> BIDIRECTIONAL" "printable t"
  shows "\<exists>outs je. print_results st_size J t cJSON_CreateObject = Some (outs, je, iperf_print_results t) \<and>
    (if tcp_like t then
       \<exists>s r. cJSON_GetObjectItem je ''sum_sent'' = Some s \<and> cJSON_GetObjectItem je ''sum_received'' = Some r
         \<and> number ''bytes'' s = Some (d_of_int (sint (\<Sum>sp\<leftarrow>filter (\<lambda>sp. sender sp = direction t) (streams t).
            bytes_sent (stream_result sp) - bytes_sent_omit (stream_result sp))))
         \<and> number ''bytes'' r = Some (d_of_int (sint (\<Sum>sp\<leftarrow>filter (\<lambda>sp. sender sp = direction t) (streams t). bytes_received (stream_result sp))))
     else \<exists>s. cJSON_GetObjectItem je ''sum'' = Some s
         \<and> number ''bytes'' s = Some (d_of_int (sint (\<Sum>sp\<leftarrow>filter (\<lambda>sp. sender sp = direction t) (streams t).
            bytes_sent (stream_result sp) - bytes_sent_omit (stream_result sp)))))"
proof -
  define m shr where "m = direction t" and "shr = sender_has_retransmits t"
  have modes: "report_modes t = [m]" "m * m = m" using assms(2) by (cases "mode t"; simp add: report_modes_def m_def direction_def)+
  define t' where "t' = enter_mode shr m t"
  obtain outs arr ms e rest where p: "print_mode st_size J shr m True t cJSON_CreateArray = Some (outs, arr, ms, mode_effect shr m t)"
      "summary_json J t' m (first_times t') (summed m t') = Some e" "ms = e @ rest"
    using print_mode_ok [OF assms(3), of st_size J shr m True cJSON_CreateArray] assms(1) by (auto simp: modes t'_def)
  let ?add = "\<lambda>(n, j) obj. cJSON_AddItemToObject obj n j"
  let ?o = "cJSON_AddItemToObject cJSON_CreateObject ''streams'' arr"
  have r: "print_results st_size J t cJSON_CreateObject = Some (outs, fold ?add ms ?o, iperf_print_results t)"
    using p(1) assms(1,2) by (simp add: print_results_def modes shr_def [symmetric] mode_effect_single)
  have tcp: "tcp_like t' = tcp_like t" by (simp add: t'_def)
  obtain a b where ab: "sum_sent t' m (first_times t') (summed m t') = Some (Some a)" "number ''bytes'' a = Some (d_of_int (sint (s_sent (summed m t'))))"
      "sum_received m (first_times t') (summed m t') = Some (Some b)" "number ''bytes'' b = Some (d_of_int (sint (s_received (summed m t'))))"
    using sum_sent_made sum_received_made by metis
  obtain c where c: "sum_udp J t' m (first_times t') (summed m t') = Some (Some c)" "number ''bytes'' c = Some (d_of_int (sint (s_sent (summed m t'))))"
    using sum_udp_made by metis
  have e: "e = (if tcp_like t then [(''sum_sent'', a), (''sum_received'', b)] else [(''sum'', c)])"
    using p(2) ab(1,3) c(1) by (auto simp: summary_json_def the_item_def tcp split: if_splits)
  have "cJSON_GetObjectItem (fold ?add ms ?o) ''sum_sent'' = Some (set_string ''sum_sent'' a)"
    "cJSON_GetObjectItem (fold ?add ms ?o) ''sum_received'' = Some (set_string ''sum_received'' b)" if "tcp_like t"
    by (simp_all add: p(3) e that, rule_tac [!] get_member_kept) (simp_all add: get_added get_empty strcaseeq_low low_def)
  moreover have "cJSON_GetObjectItem (fold ?add ms ?o) ''sum'' = Some (set_string ''sum'' c)" if "\<not> tcp_like t"
    by (simp add: p(3) e that, rule get_member_kept) (simp_all add: get_added get_empty strcaseeq_low low_def)
  ultimately show ?thesis using r ab(2,4) c(2)
    by (simp add: m_def [symmetric] t'_def summed_bytes stream_sent_def)
qed

theorem final_report_sums_witness:
  "\<exists>outs je s. print_results (\<lambda>fd. None) report_junk sample_report cJSON_CreateObject = Some (outs, je, iperf_print_results sample_report)
    \<and> cJSON_GetObjectItem je ''sum'' = Some s \<and> number ''bytes'' s = Some 15"
proof -
  have d: "d_of_int 15 = 15" by code_simp
  have t: "json_output sample_report \<noteq> 0" "mode sample_report \<noteq> BIDIRECTIONAL" "\<not> tcp_like sample_report" "direction sample_report = 0"
    "streams sample_report = [sample_reporting 1 0 7 12 1, sample_reporting 2 0 8 8 1]"
    by (simp_all add: sample_report_def tcp_like_def prot_defs direction_def)
  have "bytes_sent (stream_result (sample_reporting a snds n p e)) - bytes_sent_omit (stream_result (sample_reporting a snds n p e)) = n" for a snds n p e
    by (simp add: sample_reporting_def empty_stream_def empty_result_def)
  then show ?thesis using final_report_sums [OF t(1,2) sample_printable(1), of "\<lambda>fd. None" report_junk] by (auto simp: t d)
qed

end
