(* ===== verification/Spec2Isabelle.thy ===== *)
theory Spec2Isabelle
  imports Timer_Props Net_Props Units Dscp Api_Options_Props Udp_Props Tcp_Props
    Json_Props Params_Props Results_Props Data_Props Client_Props Server_Props Round_Props Typing_Props
    Report_Props
begin

text \<open>
  A verification of iperf 3, the network measurement program that mmWaveTracker runs through its
  library \<open>iperfwrapperlib\<close>. The sources are the C files under
  \<open>src/iperfwrapperlib/iperf/src\<close>, in the configuration the library is built with: Linux, without
  \<open>HAVE_SSL\<close>, \<open>HAVE_SCTP\<close>, \<open>HAVE_TCP_CONGESTION\<close>, \<open>HAVE_FLOWLABEL\<close>, \<open>HAVE_SO_MAX_PACING_RATE\<close> and processor
  affinity.

  \<^bold>\<open>The program.\<close> \<open>main\<close> reads the command line into a test and runs it as a client or as a server.
  The two talk over a control connection: the client sends a cookie, the server asks for the
  parameters, which travel as a JSON text behind its length, the client opens the streams, the
  server starts the test, both move data while timers take interval statistics and pace the
  streams, the client ends the test, and the results travel in both directions as JSON texts. The
  server then resets its test and waits for the next client. Both ends are loops around \<open>select\<close>
  that dispatch on the state of the test, which is the last message sent or received.

  \<^bold>\<open>The operating system\<close> is a parameter. \<open>Sys\<close> has a record \<open>kernel\<close> with one function per system
  call, from its arguments and the state of the outside world to its result and the new world;
  what a theorem relies on is a hypothesis about that record (\<open>in_order\<close>: a connection keeps the
  order of the bytes; \<open>takes_all\<close>: writing makes progress; \<open>fds_nonneg\<close>, \<open>clock_ok\<close>, \<open>read_bounded\<close>: the
  documented ranges), and every such theorem has an example with a concrete kernel. Opened
  and closed descriptors, address lists and bytes written are logged as events, so that
  leaks and transmissions are statements about a list. \<open>errno\<close>, \<open>i_errno\<close> and the log are the other
  fields of the record \<open>sys\<close>.

  \<^bold>\<open>The language.\<close> \<open>Prelude\<close> has the C integers as words, \<open>C_Double\<close> a double as the rational number it
  stands for with the rounding written out, \<open>C_String\<close> the text functions of the C library. An \<open>int\<close>
  that is only passed on is a number of HOL; where it is computed or converted, \<open>to_int32\<close> cuts it.
  Pointers that alias, which is the case for timers, are addresses into a heap.

  \<^bold>\<open>Components\<close>, each in the order the code has them:

  \<^item> \<open>Iperf_Time\<close> (\<open>iperf_time.c\<close>), \<open>Timer\<close> (\<open>timer.c\<close>): operations on an explicit heap of doubly linked
    timers. \<open>Timer_List\<close> and \<open>Timer_Spec\<close> say which list of addresses the links represent; the locale
    \<open>timer_links\<close> is the contract of \<open>list_add\<close> and \<open>list_remove\<close>, interpreted on the code's own
    functions, and \<open>Timer_Props\<close> shows that every operation refines one on a sorted list.
  \<^item> \<open>Units\<close> (\<open>units.c\<close>), \<open>Dscp\<close> (\<open>dscp.c\<close>): numbers and names on the command line and in reports.
  \<^item> \<open>Net\<close>, \<open>Net_Props\<close> (\<open>net.c\<close>): whole buffers over partial reads and writes; what the set-up routines
    hold when they return.
  \<^item> \<open>Iperf_Error\<close>, \<open>Test_Types\<close> (\<open>iperf.h\<close>, \<open>iperf_api.h\<close>): \<open>struct iperf_test\<close> as the records \<open>test_config\<close>
    and \<open>iperf_test\<close>, \<open>struct iperf_stream\<close> and the results as records.
  \<^item> \<open>Api_Options\<close>, \<open>Api_Options_Props\<close> (\<open>iperf_api.c\<close>): the setters and the command line.
  \<^item> \<open>Json\<close>, \<open>Json_Num\<close>, \<open>Json_Props\<close> (\<open>cjson.c\<close>): the JSON library; the locale \<open>json_codec\<close> is the contract
    of printing and parsing, interpreted on both printers.
  \<^item> \<open>Params\<close>, \<open>Results\<close> with their properties (\<open>iperf_api.c\<close>): the two exchanges over the control
    connection, end to end over the JSON library and the socket layer.
  \<^item> \<open>Udp\<close>, \<open>Tcp\<close> with their properties (\<open>iperf_udp.c\<close>, \<open>iperf_tcp.c\<close>): the protocols of the streams.
  \<^item> \<open>Streams\<close>, \<open>Data\<close>, \<open>Data_Props\<close> (\<open>iperf_api.c\<close>, \<open>tcp_info.c\<close>, \<open>iperf_util.c\<close>): creating streams, interval
    statistics, the loops that send and receive, pacing.
  \<^item> \<open>Prog\<close> (\<open>iperf_api.c\<close>, \<open>iperf_util.c\<close>): the state of the whole program, a record of the system, the
    test, the timers and the statics of \<open>cpu_util\<close>, and what both ends share: the timer procedures,
    freeing and resetting. \<open>Client\<close> (\<open>iperf_client_api.c\<close>), \<open>Server\<close> (\<open>iperf_server_api.c\<close>) and \<open>Iperf_Main\<close>
    (\<open>main.c\<close>, \<open>iperf_error.c\<close>) are the functions of those files; the body of each loop is a
    definition of its own (\<open>client_iter\<close>, \<open>server_iter\<close>).
  \<^item> \<open>Report\<close>, \<open>Report_Props\<close> (\<open>iperf_api.c\<close>, \<open>iperf_util.c\<close>, \<open>iperf_locale.c\<close>): the reports of an interval and of
    the test, as the items added to the JSON report or as the calls of \<open>iperf_printf\<close> with their formats
    and arguments. \<open>Prog\<close> has the effect of the final report on the test only; \<open>print_results\<close> is the
    report itself and refines it.

  \<^bold>\<open>What is shown.\<close> \<open>Data_Props\<close>: bytes are accounted for through every interleaving. \<open>Params_Props\<close>,
  \<open>Results_Props\<close>, \<open>Client_Props\<close>: what one end sends is what the other end has afterwards, for the
  parameters, the results and the errors of the server. \<open>Frame\<close> and \<open>Watch_Props\<close> collect what the
  operations leave alone; with them \<open>Client_Props\<close> and \<open>Server_Props\<close> show, by induction over the
  reachable states of the loops, that every watched descriptor is below the bound given to
  \<open>select\<close>, and that the states follow the protocol (\<open>client_pass\<close>, \<open>server_step\<close>). \<open>Prog_Props\<close> and
  \<open>Round_Props\<close>: the pending timers are the ones the test owns, from the start of a test to the
  reset that releases them; what a reset keeps of the last client; how a second or a lost
  client is handled. \<open>Typing_Props\<close>: ranges of received integers, the cookie, the payload. \<open>Report_Props\<close>:
  the sums of the reports are the sums over the streams, no report runs into undefined behaviour,
  and the arguments fit the formats. The other
  theories hold what makes each component correct on its own. Theorems that state a defect of
  the code are named so (\<open>lost_client_leaks_sockets\<close>, \<open>denied_client_aborts_test\<close>,
  \<open>server_timeout_uses_freed_stream\<close>, \<open>netdial_leaks\<close> and others).

  \<^bold>\<open>Termination.\<close> There is no fuel. Loops over data are total functions. Loops that may not end (the
  loops of client and server, the walks over timers, \<open>tmr_run\<close>) are partial functions with the
  result \<open>None\<close> for a run that does not return; \<open>None\<close> also stands for an access outside of every
  object. That an operation returns is proved as such.

  \<^bold>\<open>Not modelled.\<close> What a format expands to in a text report, the members added to the JSON report at the
  start of a test, usage, warnings and error messages (\<open>iperf_locale.c\<close>, \<open>iperf_strerror\<close>), as they have no
  effect on the test; lines the server keeps for a client are modelled in \<open>iperf_printf\<close> only.
  \<open>iperf_auth.c\<close> and \<open>iperf_sctp.c\<close>, as the build
  leaves them out. Of \<open>cjson.c\<close> the buffer growth and the operations the program does not call. A
  failing allocation is modelled where the code looks at it. Termination signals are modelled
  as the handler \<open>iperf_got_sigend\<close>, not as interruptions of the loops. The Java application, the
  native wrapper and third-party code are outside of the development.
\<close>

end
